(* ===== verification/Prelude.thy ===== *)
theory Prelude
  imports Main
begin

text \<open>
  What every other theory shares: the development's \<^theory_text>\<open>named_theorems\<close>
  collections and the generic facts on lists, folds and association lists that the
  component proofs use. Nothing here models code of the repository.

  Conventions of the whole development. A Go \<open>string\<close> is a \<^typ>\<open>string\<close>: Go strings are
  byte sequences and a HOL \<^typ>\<open>char\<close> is a byte, so lengths, slices and comparisons agree.
  A Go \<open>int\<close> that counts lines, bytes or tries is a \<^typ>\<open>nat\<close>. An error return is the
  left side of a sum. A Go map that is only looked up is a HOL map or a set; one that is
  ranged over is an association list in the order the code ends up with.
\<close>

section \<open>Collections\<close>

named_theorems go_string \<open>equations of the modelled Go string functions\<close>
named_theorems code_eval \<open>definitions unfolded when a closed instance is evaluated\<close>

section \<open>Lists\<close>

lemma foldl_invariant:
  assumes "P s" and "\<And>s x. P s \<Longrightarrow> x \<in> set xs \<Longrightarrow> P (f s x)"
  shows "P (foldl f s xs)"
  using assms by (induction xs arbitrary: s) auto

lemma map_concat_nil_iff [simp]: "concat (map f xs) = [] \<longleftrightarrow> (\<forall>x\<in>set xs. f x = [])"
  by (induction xs) auto

lemma takeWhile_replicate_append:
  "(y = [] \<or> hd y \<noteq> c) \<Longrightarrow> takeWhile (\<lambda>x. x = c) (replicate n c @ y) = replicate n c"
  by (induction n) (cases y; auto)+


text \<open>The last element satisfying a predicate decides a map built by repeated assignment.\<close>

definition assoc_last :: "('k \<times> 'v) list \<Rightarrow> 'k \<Rightarrow> 'v option" where
  "assoc_last xs = map_of (rev xs)"

lemma assoc_last_simps [simp]:
  "assoc_last [] k = None"
  "assoc_last (xs @ [(k', v)]) k = (if k = k' then Some v else assoc_last xs k)"
  by (simp_all add: assoc_last_def)

lemma assoc_last_Some_in: "assoc_last xs k = Some v \<Longrightarrow> (k, v) \<in> set xs"
  by (auto simp: assoc_last_def dest: map_of_SomeD)

lemma assoc_last_distinct:
  "distinct (map fst xs) \<Longrightarrow> (k, v) \<in> set xs \<Longrightarrow> assoc_last xs k = Some v"
  by (simp add: assoc_last_def rev_map[symmetric])

text \<open>Stable removal of duplicates, keeping the first occurrence: Go's \<open>seen\<close> map idiom.\<close>

fun dedup_acc :: "'a list \<Rightarrow> 'a list \<Rightarrow> 'a list" where
  "dedup_acc seen [] = []"
| "dedup_acc seen (x # xs) =
     (if x \<in> set seen then dedup_acc seen xs else x # dedup_acc (x # seen) xs)"

lemma set_dedup_acc: "set (dedup_acc seen xs) = set xs - set seen"
  by (induction seen xs rule: dedup_acc.induct) auto

lemma distinct_dedup_acc: "distinct (dedup_acc seen xs)"
  by (induction seen xs rule: dedup_acc.induct) (auto simp: set_dedup_acc)

end
