(* ===== verification/GoStrings.thy ===== *)
theory GoStrings
  imports Prelude
begin

text \<open>
  The functions of Go's \<open>strings\<close>, \<open>bytes\<close>, \<open>strconv\<close> and \<open>unicode/utf8\<close> packages that the
  modelled code calls, on byte strings. \<open>TrimSpace\<close> and \<open>Fields\<close> know every rune of
  \<open>unicode.IsSpace\<close> by its UTF-8 encoding; since no lead byte is a continuation byte, an
  encoded space at the front or the back of a string is found by comparing bytes.
\<close>

section \<open>Characters\<close>

abbreviation LF :: char where "LF \<equiv> CHR 0x0A"
abbreviation CR :: char where "CR \<equiv> CHR 0x0D"
abbreviation TAB :: char where "TAB \<equiv> CHR 0x09"

definition is_lower :: "char \<Rightarrow> bool" where
  "is_lower c \<longleftrightarrow> 97 \<le> (of_char c :: nat) \<and> (of_char c :: nat) \<le> 122"

definition is_upper :: "char \<Rightarrow> bool" where
  "is_upper c \<longleftrightarrow> 65 \<le> (of_char c :: nat) \<and> (of_char c :: nat) \<le> 90"

definition is_digit :: "char \<Rightarrow> bool" where
  "is_digit c \<longleftrightarrow> 48 \<le> (of_char c :: nat) \<and> (of_char c :: nat) \<le> 57"

definition is_word_char :: "char \<Rightarrow> bool" where
  "is_word_char c \<longleftrightarrow> is_lower c \<or> is_upper c \<or> is_digit c \<or> c = CHR ''_''"

text \<open>The class \<open>\s\<close> of Go's regular expressions.\<close>

definition re_space :: "char \<Rightarrow> bool" where
  "re_space c \<longleftrightarrow> c = TAB \<or> c = LF \<or> c = CHR 0x0C \<or> c = CR \<or> c = CHR '' ''"

definition lower_char :: "char \<Rightarrow> char" where
  "lower_char c = (if is_upper c then char_of ((of_char c :: nat) + 32) else c)"

text \<open>\<open>strings.ToLower\<close> on a string the caller knows to be ASCII.\<close>

definition to_lower_ascii :: "string \<Rightarrow> string" where
  "to_lower_ascii s = map lower_char s"

lemmas char_class_defs [code_eval] =
  is_lower_def is_upper_def is_digit_def is_word_char_def re_space_def lower_char_def
  to_lower_ascii_def

section \<open>Prefixes, suffixes, searching\<close>

definition HasPrefix :: "string \<Rightarrow> string \<Rightarrow> bool" where
  "HasPrefix s p \<longleftrightarrow> take (length p) s = p"

definition TrimPrefix :: "string \<Rightarrow> string \<Rightarrow> string" where
  "TrimPrefix s p = (if HasPrefix s p then drop (length p) s else s)"

definition HasSuffix :: "string \<Rightarrow> string \<Rightarrow> bool" where
  "HasSuffix s p \<longleftrightarrow> HasPrefix (rev s) (rev p)"

definition TrimSuffix :: "string \<Rightarrow> string \<Rightarrow> string" where
  "TrimSuffix s p = (if HasSuffix s p then take (length s - length p) s else s)"

fun Index :: "string \<Rightarrow> string \<Rightarrow> nat option" where
  "Index [] sub = (if sub = [] then Some 0 else None)"
| "Index (c # s) sub = (if HasPrefix (c # s) sub then Some 0 else map_option Suc (Index s sub))"

definition Contains :: "string \<Rightarrow> string \<Rightarrow> bool" where
  "Contains s sub \<longleftrightarrow> Index s sub \<noteq> None"

fun LastIndex :: "string \<Rightarrow> string \<Rightarrow> nat option" where
  "LastIndex [] sub = (if sub = [] then Some 0 else None)"
| "LastIndex (c # s) sub = (case LastIndex s sub of
      Some i \<Rightarrow> Some (Suc i)
    | None \<Rightarrow> if HasPrefix (c # s) sub then Some 0 else None)"

lemma HasPrefix_append [simp]: "HasPrefix (p @ s) p"
  by (simp add: HasPrefix_def)

lemma HasPrefix_Nil [simp]: "HasPrefix s []"
  by (simp add: HasPrefix_def)

lemma HasPrefix_Cons [simp]:
  "HasPrefix [] (c # p) = False"
  "HasPrefix (d # s) (c # p) \<longleftrightarrow> d = c \<and> HasPrefix s p"
  by (auto simp: HasPrefix_def)

lemma HasPrefix_iff: "HasPrefix s p \<longleftrightarrow> (\<exists>r. s = p @ r)"
  unfolding HasPrefix_def by (metis append_eq_conv_conj append_take_drop_id)

lemma TrimPrefix_append [simp]: "TrimPrefix (p @ s) p = s"
  by (simp add: TrimPrefix_def)

lemma Index_bound: "Index s sub = Some i \<Longrightarrow> i + length sub \<le> length s"
proof (induction s arbitrary: i)
  case Nil
  then show ?case by (auto split: if_splits)
next
  case (Cons c s)
  show ?case
  proof (cases "HasPrefix (c # s) sub")
    case True
    then obtain r where "c # s = sub @ r" by (auto simp: HasPrefix_iff)
    then have "length sub \<le> length (c # s)" by (metis le_add1 length_append)
    with True Cons.prems show ?thesis by simp
  next
    case False
    with Cons show ?thesis by auto
  qed
qed

section \<open>Splitting and joining\<close>

fun split_char :: "char \<Rightarrow> string \<Rightarrow> string list" where
  "split_char c [] = [[]]"
| "split_char c (x # xs) =
     (if x = c then [] # split_char c xs
      else (case split_char c xs of [] \<Rightarrow> [[x]] | l # ls \<Rightarrow> (x # l) # ls))"

fun Join :: "string list \<Rightarrow> string \<Rightarrow> string" where
  "Join [] sep = []"
| "Join [x] sep = x"
| "Join (x # y # xs) sep = x @ sep @ Join (y # xs) sep"

lemma split_char_nonempty [simp]: "split_char c s \<noteq> []"
  by (cases s) (auto split: list.splits)

lemma split_char_free: "\<forall>l \<in> set (split_char c s). c \<notin> set l"
proof (induction s)
  case Nil
  then show ?case by simp
next
  case (Cons x xs)
  then show ?case by (auto split: list.splits)
qed

lemma Join_Cons: "ls \<noteq> [] \<Longrightarrow> Join (l # ls) sep = l @ sep @ Join ls sep"
  by (cases ls) auto

lemma Join_split_char: "Join (split_char c s) [c] = s"
proof (induction s)
  case Nil
  then show ?case by simp
next
  case (Cons x xs)
  show ?case
  proof (cases "split_char c xs")
    case Nil
    then show ?thesis by simp
  next
    case (Cons l ls)
    with Cons.IH show ?thesis by (cases ls) auto
  qed
qed

lemma split_char_free_line: "c \<notin> set l \<Longrightarrow> split_char c l = [l]"
  by (induction l) auto

lemma split_char_append: "c \<notin> set l \<Longrightarrow> split_char c (l @ c # s) = l # split_char c s"
  by (induction l) auto

lemma split_char_lines:
  assumes "\<forall>l \<in> set ls. c \<notin> set l"
  shows "split_char c (concat (map (\<lambda>l. l @ [c]) ls)) = ls @ [[]]"
  using assms by (induction ls) (auto simp: split_char_append)

text \<open>\<open>strings.ReplaceAll(s, "\r\n", "\n")\<close>.\<close>

lemma Join_part_chars: "l \<in> set ls \<Longrightarrow> set l \<subseteq> set (Join ls sep)"
proof (induction ls)
  case (Cons a ls)
  then show ?case by (cases ls) auto
qed simp

lemma set_Join_subset: "set (Join ls sep) \<subseteq> set sep \<union> \<Union> (set ` set ls)"
proof (induction ls)
  case (Cons a ls)
  then show ?case by (cases ls) auto
qed simp

lemma split_char_Join:
  assumes "ls \<noteq> []" and "\<forall>l\<in>set ls. c \<notin> set l"
  shows "split_char c (Join ls [c]) = ls"
  using assms
proof (induction ls)
  case (Cons a ls)
  then show ?case by (cases ls) (simp_all add: split_char_free_line split_char_append)
qed simp

fun crlf_to_lf :: "string \<Rightarrow> string" where
  "crlf_to_lf [] = []"
| "crlf_to_lf [c] = [c]"
| "crlf_to_lf (c # d # s) =
     (if c = CR \<and> d = LF then LF # crlf_to_lf s else c # crlf_to_lf (d # s))"

lemma crlf_to_lf_id: "CR \<notin> set s \<Longrightarrow> crlf_to_lf s = s"
  by (induction s rule: crlf_to_lf.induct) auto

lemma crlf_to_lf_set: "set (crlf_to_lf s) \<subseteq> set s"
  by (induction s rule: crlf_to_lf.induct) (simp_all, blast)

text \<open>\<open>strings.ReplaceAll\<close> of one byte by another.\<close>

definition replace_char :: "char \<Rightarrow> char \<Rightarrow> string \<Rightarrow> string" where
  "replace_char a b s = map (\<lambda>c. if c = a then b else c) s"

section \<open>Trimming\<close>

text \<open>\<open>strings.TrimRight(s, cutset)\<close> for an ASCII cut set.\<close>

definition TrimRight :: "string \<Rightarrow> string \<Rightarrow> string" where
  "TrimRight s cutset = rev (dropWhile (\<lambda>c. c \<in> set cutset) (rev s))"

definition TrimLeft :: "string \<Rightarrow> string \<Rightarrow> string" where
  "TrimLeft s cutset = dropWhile (\<lambda>c. c \<in> set cutset) s"

definition Trim :: "string \<Rightarrow> string \<Rightarrow> string" where
  "Trim s cutset = TrimRight (TrimLeft s cutset) cutset"

text \<open>The runes of \<open>unicode.IsSpace\<close>, UTF-8 encoded.\<close>

definition space_runes :: "string list" where
  "space_runes =
     [[TAB], [LF], [CHR 0x0B], [CHR 0x0C], [CR], [CHR '' ''],
      [CHR 0xC2, CHR 0x85], [CHR 0xC2, CHR 0xA0], [CHR 0xE1, CHR 0x9A, CHR 0x80],
      [CHR 0xE2, CHR 0x80, CHR 0x80], [CHR 0xE2, CHR 0x80, CHR 0x81],
      [CHR 0xE2, CHR 0x80, CHR 0x82], [CHR 0xE2, CHR 0x80, CHR 0x83],
      [CHR 0xE2, CHR 0x80, CHR 0x84], [CHR 0xE2, CHR 0x80, CHR 0x85],
      [CHR 0xE2, CHR 0x80, CHR 0x86], [CHR 0xE2, CHR 0x80, CHR 0x87],
      [CHR 0xE2, CHR 0x80, CHR 0x88], [CHR 0xE2, CHR 0x80, CHR 0x89],
      [CHR 0xE2, CHR 0x80, CHR 0x8A], [CHR 0xE2, CHR 0x80, CHR 0xA8],
      [CHR 0xE2, CHR 0x80, CHR 0xA9], [CHR 0xE2, CHR 0x80, CHR 0xAF],
      [CHR 0xE2, CHR 0x81, CHR 0x9F], [CHR 0xE3, CHR 0x80, CHR 0x80]]"

text \<open>The length of the first of the sequences \<open>us\<close> that starts \<open>s\<close>, 0 when none does.\<close>

fun lead_len :: "string list \<Rightarrow> string \<Rightarrow> nat" where
  "lead_len [] s = 0"
| "lead_len (u # us) s = (if u \<noteq> [] \<and> HasPrefix s u then length u else lead_len us s)"

function strip :: "string list \<Rightarrow> string \<Rightarrow> string" where
  "strip us s = (if s = [] \<or> lead_len us s = 0 then s else strip us (drop (lead_len us s) s))"
  by pat_completeness auto
termination
  by (relation "measure (\<lambda>(us, s). length s)") auto

declare strip.simps [simp del]

definition TrimSpace :: "string \<Rightarrow> string" where
  "TrimSpace s = rev (strip (map rev space_runes) (rev (strip space_runes s)))"

lemma length_strip_le: "length (strip us s) \<le> length s"
proof (induction us s rule: strip.induct)
  case (1 us s)
  then show ?case by (subst strip.simps) (auto intro: order_trans)
qed

lemma length_TrimSpace_le: "length (TrimSpace s) \<le> length s"
  unfolding TrimSpace_def by (metis length_rev length_strip_le order_trans)

lemma TrimSpace_Nil [simp]: "TrimSpace [] = []"
  by (simp add: TrimSpace_def strip.simps)

text \<open>\<open>strings.Fields\<close>: the maximal runs of non-space runes.\<close>

function fields_from :: "string \<Rightarrow> string \<Rightarrow> string list" where
  "fields_from word s =
     (if s = [] then (if word = [] then [] else [rev word])
      else if lead_len space_runes s \<noteq> 0
      then (if word = [] then [] else [rev word]) @ fields_from [] (drop (lead_len space_runes s) s)
      else fields_from (hd s # word) (tl s))"
  by pat_completeness auto
termination
  by (relation "measure (\<lambda>(w, s). length s)") auto

declare fields_from.simps [simp del]

definition Fields :: "string \<Rightarrow> string list" where
  "Fields s = fields_from [] s"

section \<open>Cutting and replacing\<close>

text \<open>\<open>strings.Cut\<close> at one byte: before, after, found.\<close>

definition cut_char :: "char \<Rightarrow> string \<Rightarrow> string \<times> string \<times> bool" where
  "cut_char c s = (let a = takeWhile (\<lambda>x. x \<noteq> c) s in (a, drop (Suc (length a)) s, c \<in> set s))"

text \<open>\<open>strings.ReplaceAll\<close> for a non-empty \<open>old\<close>.\<close>

function ReplaceAll :: "string \<Rightarrow> string \<Rightarrow> string \<Rightarrow> string" where
  "ReplaceAll [] old new = []"
| "ReplaceAll (c # r) old new =
     (if old \<noteq> [] \<and> HasPrefix (c # r) old then new @ ReplaceAll (drop (length old - 1) r) old new
      else c # ReplaceAll r old new)"
  by pat_completeness auto
termination
  by (relation "measure (\<lambda>(s, old, new). length s)") auto

section \<open>Case folding against an ASCII word\<close>

text \<open>
  \<open>strings.EqualFold(s, t)\<close> for an ASCII \<open>t\<close>: besides the two cases of a letter, the only
  runes that fold to an ASCII letter are U+017F (to s) and U+212A (to k).
\<close>

fun EqualFold :: "string \<Rightarrow> string \<Rightarrow> bool" where
  "EqualFold [] [] = True"
| "EqualFold (c # s) (d # t) =
     (if lower_char c = lower_char d then EqualFold s t
      else if lower_char d = CHR ''s'' \<and> c = CHR 0xC5
      then (case s of e # s' \<Rightarrow> e = CHR 0xBF \<and> EqualFold s' t | [] \<Rightarrow> False)
      else if lower_char d = CHR ''k'' \<and> c = CHR 0xE2
      then (case s of e # f # s' \<Rightarrow> e = CHR 0x84 \<and> f = CHR 0xAA \<and> EqualFold s' t | _ \<Rightarrow> False)
      else False)"
| "EqualFold _ _ = False"

lemma EqualFold_refl [simp]: "EqualFold s s"
  by (induction s) auto

section \<open>Runes\<close>

definition is_cont :: "nat \<Rightarrow> bool" where
  "is_cont b \<longleftrightarrow> 0x80 \<le> b \<and> b \<le> 0xBF"

text \<open>\<open>utf8.DecodeRune\<close>: the rune at the front and its width; U+FFFD and 1 when invalid.\<close>

definition decode_rune :: "nat list \<Rightarrow> nat \<times> nat" where
  "decode_rune s = (case s of [] \<Rightarrow> (0xFFFD, 0)
    | b # r \<Rightarrow>
      if b < 0x80 then (b, 1)
      else if 0xC2 \<le> b \<and> b \<le> 0xDF
      then (case r of b1 # _ \<Rightarrow> if is_cont b1 then ((b - 0xC0) * 64 + (b1 - 0x80), 2) else (0xFFFD, 1)
            | [] \<Rightarrow> (0xFFFD, 1))
      else if 0xE0 \<le> b \<and> b \<le> 0xEF
      then (case r of b1 # b2 # _ \<Rightarrow>
              if is_cont b1 \<and> is_cont b2 \<and> (b = 0xE0 \<longrightarrow> 0xA0 \<le> b1) \<and> (b = 0xED \<longrightarrow> b1 \<le> 0x9F)
              then ((b - 0xE0) * 4096 + (b1 - 0x80) * 64 + (b2 - 0x80), 3) else (0xFFFD, 1)
            | _ \<Rightarrow> (0xFFFD, 1))
      else if 0xF0 \<le> b \<and> b \<le> 0xF4
      then (case r of b1 # b2 # b3 # _ \<Rightarrow>
              if is_cont b1 \<and> is_cont b2 \<and> is_cont b3 \<and> (b = 0xF0 \<longrightarrow> 0x90 \<le> b1) \<and> (b = 0xF4 \<longrightarrow> b1 \<le> 0x8F)
              then ((b - 0xF0) * 262144 + (b1 - 0x80) * 4096 + (b2 - 0x80) * 64 + (b3 - 0x80), 4)
              else (0xFFFD, 1)
            | _ \<Rightarrow> (0xFFFD, 1))
      else (0xFFFD, 1))"

function decode_runes :: "nat list \<Rightarrow> nat list" where
  "decode_runes s =
     (if s = [] then [] else fst (decode_rune s) # decode_runes (drop (max 1 (snd (decode_rune s))) s))"
  by pat_completeness auto
termination
  by (relation "measure length") auto

declare decode_runes.simps [simp del]

text \<open>The conversion \<open>[]rune(s)\<close>.\<close>

definition runes :: "string \<Rightarrow> nat list" where
  "runes s = decode_runes (map of_char s)"

section \<open>Decimal numbers\<close>

fun digits_rev :: "nat \<Rightarrow> string" where
  "digits_rev n =
     (if n < 10 then [char_of (48 + n)] else char_of (48 + n mod 10) # digits_rev (n div 10))"

declare digits_rev.simps [simp del]

text \<open>\<open>strconv.Itoa\<close> of a non-negative number.\<close>

definition Itoa :: "nat \<Rightarrow> string" where
  "Itoa n = rev (digits_rev n)"

definition digit_val :: "char \<Rightarrow> nat" where
  "digit_val c = of_char c - 48"

definition dec_value :: "string \<Rightarrow> nat" where
  "dec_value s = foldl (\<lambda>a c. 10 * a + digit_val c) 0 s"

text \<open>\<open>strconv.Atoi\<close> of a string of digits: an error past the range of a 64-bit \<open>int\<close>.\<close>

definition Atoi_digits :: "string \<Rightarrow> nat option" where
  "Atoi_digits s =
     (if s \<noteq> [] \<and> list_all is_digit s \<and> dec_value s < 2 ^ 63 then Some (dec_value s) else None)"

lemma is_digit_char_of: "n < 10 \<Longrightarrow> is_digit (char_of (48 + n :: nat))"
  by (simp add: is_digit_def of_char_of)

lemma digits_rev_digits: "list_all is_digit (digits_rev n)"
proof (induction n rule: digits_rev.induct)
  case (1 n)
  then show ?case
    by (subst digits_rev.simps) (auto simp: is_digit_char_of)
qed

lemma dec_value_digits_rev: "dec_value (rev (digits_rev n)) = n"
proof (induction n rule: digits_rev.induct)
  case (1 n)
  show ?case
  proof (cases "n < 10")
    case True
    then show ?thesis
      by (subst digits_rev.simps) (simp add: dec_value_def digit_val_def of_char_of)
  next
    case False
    with "1.IH" have "dec_value (rev (digits_rev (n div 10))) = n div 10" by simp
    with False show ?thesis
      by (subst digits_rev.simps) (simp add: dec_value_def digit_val_def of_char_of)
  qed
qed

lemma Itoa_digits: "list_all is_digit (Itoa n)" "Itoa n \<noteq> []"
  using digits_rev_digits[of n]
  by (auto simp: Itoa_def list_all_rev) (subst (asm) digits_rev.simps, auto split: if_splits)

lemma Atoi_Itoa: "n < 2 ^ 63 \<Longrightarrow> Atoi_digits (Itoa n) = Some n"
  using Itoa_digits[of n] dec_value_digits_rev[of n] by (simp add: Atoi_digits_def Itoa_def)

end
