(* ===== verification/Findings.thy ===== *)
theory Findings
  imports GoStrings
begin

text \<open>
  Validation findings and refusals (\<open>internal/apexv1/markdown.go\<close>, \<open>errors.go\<close>). A finding's
  sentence is a value of \<open>message\<close>: one constructor per sentence the code can write, with
  the values the sentence quotes, so two findings agree exactly when the texts do. A refusal
  is its kind and its machine-readable code, the part of an error the exit code and the
  callers depend on, with the findings or conflicts it carries.
\<close>

text \<open>The sentences of \<open>ape change check\<close> (\<open>changes.go\<close>, \<open>commitmsg.go\<close>, \<open>plantime.go\<close>).\<close>

datatype check_message =
    ChangeMissing
  | ChangeOverCap nat int
  | ChangeOverCeiling nat
  | DesignOverCap nat int
  | NoStateFile
  | StateUnreadable
  | FrontmatterMissing
  | FrontmatterBad
  | UnknownKey string
  | BadDocsValue "string option"
  | TypeMissing bool string              \<comment> \<open>under the default subject, the template\<close>
  | TypeUnknown string
  | SubjectReserved string
  | IDMismatch string string
  | BadChangeID
  | NoMilestone
  | MilestoneUnknown string
  | NoTouches
  | BadTouches string
  | BadDecision string
  | DecisionMissing string
  | BadGlob string
  | GuardedConfigTask string string
  | TouchesGate string "string list" bool
  | NoTitle
  | SectionMissing string
  | SectionEmpty string
  | DeltaEmpty
  | DeltaBadCapability string
  | DeltaNotTouched string
  | DeltaNoName
  | DeltaTwice string string nat
  | PurposeOfExisting string
  | PurposeEmpty
  | PurposeTookText
  | AddedAlready string string
  | AddedNear string string string
  | ModifiedAbsent string string string
  | ModifiedDrops string string string
  | ModifiedRechecks string string string string string
  | RemovedAbsent string string string
  | RemovedNoReason
  | RemovedExtra
  | RetireUnlisted string
  | RetireNotEmptied string
  | MergedOverCap string nat int
  | TasksEmpty
  | TaskDuplicate string
  | TaskNoCheck string
  | TaskHumanMalformed string string
  | ToolUnknown string string
  | ReviewToolUnknown string
  | AdviseUnknown string
  | AdviseOverCap string nat int
  | AdviseSessionOverCap string nat "string list" int

text \<open>The sentences of \<open>ValidateRoadmap\<close> (\<open>roadmap.go\<close>), each but the first three about one milestone.\<close>

datatype roadmap_message =
    RoadmapHeading
  | RoadmapTitle
  | RoadmapNoMilestones
  | MilestoneDuplicate string
  | MilestoneNoStatus string
  | MilestoneBadStatus string string
  | MilestoneNoGate string
  | MilestoneBadBudget string string
  | MilestoneBadTokens string string
  | MilestoneBadWall string string
  | MilestoneNoGoal string

datatype message =
    BadKind string string                \<comment> \<open>what, kind: not \<open>check (full):\<close>\<close>
  | KindOnNoCommand string string bool   \<comment> \<open>what, kind, on human-review (else on nothing)\<close>
  | ReqNoName
  | ReqNoScenario string
  | ScenarioEmptyCheck string
  | ScenarioNoCheck string
  | ScenarioManyChecks string
  | StrayCheck
  | SpecOverCap nat nat
  | SpecNoTitle
  | SpecNoPurpose
  | SpecDuplicate string nat
  | SpecOtherHeading
  | DeltaHeadingShape
  | DeltaTextBefore
  | DeltaNothingElse
  | TaskGrammar
  | TaskCheckbox
  | TaskRegressionKind string string
  | TaskRegressionNoCommand string
  | CapOverCeiling string nat nat nat
  | CheckMessage check_message
  | RoadmapMessage roadmap_message

record finding =
  f_File :: string
  f_Line :: nat
  f_Message :: message
  f_Code :: string
  f_Fix :: string

definition mk_finding :: "string \<Rightarrow> nat \<Rightarrow> message \<Rightarrow> finding" where
  "mk_finding file line msg =
     \<lparr>f_File = file, f_Line = line, f_Message = msg, f_Code = [], f_Fix = []\<rparr>"

lemma mk_finding_sel [simp]:
  "f_File (mk_finding file line msg) = file"
  "f_Line (mk_finding file line msg) = line"
  "f_Message (mk_finding file line msg) = msg"
  by (simp_all add: mk_finding_def)

datatype apex_error =
    UsageError string
  | FailError string "finding list"
  | ConflictError string "string list"
  | OtherError string

end
