(* ===== verification/Markdown.thy ===== *)
theory Markdown
  imports Findings
begin

text \<open>
  \<open>internal/apexv1/markdown.go\<close>: the line and section scanner every v1 document goes
  through, the check-line grammar and the slug rules. \<open>splitLines\<close> is shown to lose no text
  and to number the lines, headings are never read inside a fence, \<open>h2Sections\<close> returns the
  level-2 headings in order with bodies that hold no heading of level one or two, and the
  comment scanner of \<open>hasProse\<close> terminates.
\<close>

section \<open>Lines\<close>

record mdLine =
  mdN :: nat
  mdText :: string
  mdInCode :: bool

definition is_fence :: "string \<Rightarrow> bool" where
  "is_fence trimmed \<longleftrightarrow> HasPrefix trimmed ''```'' \<or> HasPrefix trimmed ''~~~''"

fun split_go :: "nat \<Rightarrow> string \<Rightarrow> string list \<Rightarrow> mdLine list" where
  "split_go i fence [] = []"
| "split_go i fence (text # rest) =
     (let trimmed = TrimSpace text in
      if fence = [] \<and> is_fence trimmed
      then \<lparr>mdN = i + 1, mdText = text, mdInCode = True\<rparr> # split_go (i + 1) (take 3 trimmed) rest
      else if fence \<noteq> [] \<and> is_fence trimmed \<and> HasPrefix trimmed fence
      then \<lparr>mdN = i + 1, mdText = text, mdInCode = True\<rparr> # split_go (i + 1) [] rest
      else \<lparr>mdN = i + 1, mdText = text, mdInCode = (fence \<noteq> [])\<rparr> # split_go (i + 1) fence rest)"

definition raw_lines :: "string \<Rightarrow> string list" where
  "raw_lines doc =
     (let raw = split_char LF (crlf_to_lf doc)
      in if raw \<noteq> [] \<and> last raw = [] then butlast raw else raw)"

definition splitLines :: "string \<Rightarrow> mdLine list" where
  "splitLines doc = split_go 0 [] (raw_lines doc)"

definition headingLevel :: "mdLine \<Rightarrow> nat \<times> string" where
  "headingLevel l =
     (if mdInCode l then (0, [])
      else let t = TrimRight (mdText l) [CHR '' '', TAB];
               n = length (takeWhile (\<lambda>c. c = CHR ''#'') t)
           in if n = 0 \<or> n > 6 \<or> n \<ge> length t \<or> t ! n \<noteq> CHR '' '' then (0, [])
              else (n, TrimSpace (drop (n + 1) t)))"

record mdSection =
  secLevel :: nat
  secTitle :: string
  secLine :: nat
  secBody :: "mdLine list"

text \<open>
  The state of \<open>h2Sections\<close>'s loop: the sections so far and the index of the open one,
  \<open>None\<close> for the code's \<open>cur = -1\<close>.
\<close>

definition h2_step :: "mdSection list \<times> nat option \<Rightarrow> mdLine \<Rightarrow> mdSection list \<times> nat option" where
  "h2_step st l =
     (let (out, cur) = st; (lv, title) = headingLevel l in
      if lv > 0 \<and> lv \<le> 2
      then (if lv = 2
            then (out @ [\<lparr>secLevel = lv, secTitle = title, secLine = mdN l, secBody = []\<rparr>], Some (length out))
            else (out, None))
      else (case cur of
              None \<Rightarrow> (out, cur)
            | Some c \<Rightarrow> (out[c := (out ! c)\<lparr>secBody := secBody (out ! c) @ [l]\<rparr>], cur)))"

definition h2Sections :: "mdLine list \<Rightarrow> mdSection list" where
  "h2Sections lines = fst (foldl h2_step ([], None) lines)"

section \<open>Prose\<close>

text \<open>
  The inner loop of \<open>hasProse\<close> on one line: whether text outside comments was found, and
  whether a comment is open at its end.
\<close>

function prose_scan :: "bool \<Rightarrow> string \<Rightarrow> bool \<times> bool" where
  "prose_scan inComment t =
     (if t = [] then (False, inComment)
      else if inComment
      then (case Index t ''-->'' of
              None \<Rightarrow> (False, True)
            | Some e \<Rightarrow> prose_scan False (TrimSpace (drop (e + 3) t)))
      else (case Index t ''<!--'' of
              None \<Rightarrow> (True, False)
            | Some s \<Rightarrow> if TrimSpace (take s t) \<noteq> [] then (True, False)
                        else prose_scan True (drop (s + 4) t)))"
  by pat_completeness auto
termination
proof (relation "measure (\<lambda>(c, t). length t)", goal_cases)
  case 1
  then show ?case by simp
next
  case (2 inComment t e)
  have "length (TrimSpace (drop (e + 3) t)) \<le> length t - (e + 3)"
    using length_TrimSpace_le[of "drop (e + 3) t"] by simp
  with 2 show ?case by (cases t) auto
next
  case (3 inComment t s)
  then show ?case by (cases t) auto
qed

declare prose_scan.simps [simp del]

fun has_prose_go :: "bool \<Rightarrow> mdLine list \<Rightarrow> bool" where
  "has_prose_go inComment [] = False"
| "has_prose_go inComment (l # ls) =
     (let (found, open) = prose_scan inComment (TrimSpace (mdText l))
      in if found then True else has_prose_go open ls)"

definition hasProse :: "mdLine list \<Rightarrow> bool" where
  "hasProse body = has_prose_go False body"

definition joinBody :: "mdLine list \<Rightarrow> string" where
  "joinBody body = concat (map (\<lambda>l. mdText l @ [LF]) body)"

section \<open>Check lines\<close>

text \<open>
  \<open>checkLineRe\<close>, as the value of its two groups: the kind (\<open>None\<close> when the optional group
  took no part) and the value. No two alternatives of the expression can both succeed, so
  the match is computed without backtracking.
\<close>

definition skip_bullet :: "string \<Rightarrow> string" where
  "skip_bullet s = (case s of
      c # d # r \<Rightarrow> if (c = CHR ''-'' \<or> c = CHR ''*'') \<and> re_space d then dropWhile re_space r else s
    | _ \<Rightarrow> s)"

text \<open>The optional \<open>(?:\s*\(([^)]*)\))?:\<close> after a keyword: the group and what follows the colon.\<close>

definition match_kind_colon :: "string \<Rightarrow> (string option \<times> string) option" where
  "match_kind_colon r =
     (case dropWhile re_space r of
        c # g \<Rightarrow>
          if c = CHR ''(''
          then (case dropWhile (\<lambda>x. x \<noteq> CHR '')'') g of
                  p # d # tail \<Rightarrow> if d = CHR '':'' then Some (Some (takeWhile (\<lambda>x. x \<noteq> CHR '')'') g), tail) else None
                | _ \<Rightarrow> None)
          else if HasPrefix r '':'' then Some (None, drop 1 r) else None
      | [] \<Rightarrow> None)"

definition match_check_line :: "string \<Rightarrow> (string option \<times> string) option" where
  "match_check_line s =
     (let b = skip_bullet (dropWhile re_space s) in
      if \<not> HasPrefix b ''check'' then None
      else (case match_kind_colon (drop 5 b) of
              None \<Rightarrow> None
            | Some (kind, tail) \<Rightarrow>
                let v = dropWhile re_space tail in if LF \<in> set v then None else Some (kind, v)))"

definition HumanReview :: string where "HumanReview = ''human-review''"
definition CheckKindFull :: string where "CheckKindFull = ''full''"
definition CheckKindLive :: string where "CheckKindLive = ''live''"

definition isFullKind :: "string \<Rightarrow> bool" where
  "isFullKind kind \<longleftrightarrow> kind = CheckKindFull \<or> kind = CheckKindLive"

definition badCheckKind :: "string \<Rightarrow> string \<Rightarrow> string \<Rightarrow> bool \<Rightarrow> message option" where
  "badCheckKind what kind val hasKind =
     (if \<not> hasKind then None
      else if \<not> isFullKind kind then Some (BadKind what kind)
      else if val = HumanReview \<or> val = [] then Some (KindOnNoCommand what kind (val = HumanReview))
      else None)"

section \<open>Slugs and titles\<close>

definition slug_char :: "char \<Rightarrow> bool" where
  "slug_char c \<longleftrightarrow> is_lower c \<or> is_digit c"

definition slugRe :: "string \<Rightarrow> bool" where
  "slugRe s = (case split_char (CHR ''-'') s of
      [] \<Rightarrow> False
    | p # ps \<Rightarrow> p \<noteq> [] \<and> is_lower (hd p) \<and> list_all slug_char p
                \<and> list_all (\<lambda>q. q \<noteq> [] \<and> list_all slug_char q) ps)"

definition ChangeIDRe :: "string \<Rightarrow> bool" where
  "ChangeIDRe s \<longleftrightarrow>
     s \<noteq> [] \<and> is_lower (hd s) \<and> list_all (\<lambda>c. slug_char c \<or> c = CHR ''-'') (tl s)
     \<and> 3 \<le> length s \<and> length s \<le> 40"

text \<open>\<open>adrIDRe\<close> of \<open>project.go\<close>: the id of a decision record.\<close>

definition adrIDRe :: "string \<Rightarrow> bool" where
  "adrIDRe s \<longleftrightarrow> length s = 8 \<and> HasPrefix s ''ADR-'' \<and> list_all is_digit (drop 4 s)"

text \<open>\<open>strings.ToUpper\<close> of a one-byte string: a byte that is no ASCII rune becomes U+FFFD.\<close>

definition upper_byte :: "char \<Rightarrow> string" where
  "upper_byte c = (if is_lower c then [char_of ((of_char c :: nat) - 32)]
     else if (of_char c :: nat) \<ge> 128 then [CHR 0xEF, CHR 0xBF, CHR 0xBD] else [c])"

definition titleFromSlug :: "string \<Rightarrow> string" where
  "titleFromSlug slug =
     (case replace_char (CHR ''-'') (CHR '' '') slug of [] \<Rightarrow> [] | c # s \<Rightarrow> upper_byte c @ s)"

section \<open>Facts\<close>

lemma map_mdText_split_go [simp]: "map mdText (split_go i fence ts) = ts"
  by (induction i fence ts rule: split_go.induct) (auto simp: Let_def)

lemma length_split_go [simp]: "length (split_go i fence ts) = length ts"
  by (metis length_map map_mdText_split_go)

lemma mdN_split_go: "k < length ts \<Longrightarrow> mdN (split_go i fence ts ! k) = i + k + 1"
proof (induction i fence ts arbitrary: k rule: split_go.induct)
  case (1 i fence)
  then show ?case by simp
next
  case (2 i fence ln rest)
  then show ?case by (cases k) (auto simp: Let_def)
qed

lemma joinBody_split_go: "joinBody (split_go i fence ts) = concat (map (\<lambda>t. t @ [LF]) ts)"
proof -
  have "joinBody (split_go i fence ts) = concat (map (\<lambda>t. t @ [LF]) (map mdText (split_go i fence ts)))"
    unfolding joinBody_def map_map comp_def ..
  then show ?thesis by (simp only: map_mdText_split_go)
qed

lemma raw_lines_free: "t \<in> set (raw_lines doc) \<Longrightarrow> LF \<notin> set t"
  unfolding raw_lines_def Let_def using split_char_free[of LF "crlf_to_lf doc"]
  by (auto split: if_splits dest: in_set_butlastD)

lemma concat_lines_Join:
  "ls \<noteq> [] \<Longrightarrow> concat (map (\<lambda>t. t @ [LF]) ls) = Join ls [LF] @ [LF]"
proof (induction ls)
  case (Cons l ls)
  then show ?case by (cases ls) auto
qed simp

text \<open>
  No text is lost: joined back, the lines of a document are the document with its line
  endings normalised and a final newline added where it lacked one.
\<close>

lemma concat_raw_lines:
  "concat (map (\<lambda>t. t @ [LF]) (raw_lines doc)) =
     (let d = crlf_to_lf doc in if d = [] \<or> last d = LF then d else d @ [LF])"
proof -
  define raw where "raw = split_char LF (crlf_to_lf doc)"
  have ne: "raw \<noteq> []" and j: "Join raw [LF] = crlf_to_lf doc"
    by (simp_all add: raw_def Join_split_char)
  show ?thesis
  proof (cases "last raw = []")
    case True
    show ?thesis
    proof (cases "butlast raw = []")
      case True
      with \<open>last raw = []\<close> ne have "raw = [[]]" by (metis append_butlast_last_id append_Nil)
      with j show ?thesis by (simp add: raw_lines_def raw_def Let_def)
    next
      case False
      have "Join (xs @ [[]]) [LF] = Join xs [LF] @ [LF]" if "xs \<noteq> []" for xs
        using that
      proof (induction xs)
        case (Cons x xs)
        then show ?case by (cases xs) auto
      qed simp
      with False True ne have "Join raw [LF] = Join (butlast raw) [LF] @ [LF]"
        by (metis append_butlast_last_id)
      with j have d: "crlf_to_lf doc = Join (butlast raw) [LF] @ [LF]" by simp
      have "raw_lines doc = butlast raw"
        using True ne by (simp add: raw_lines_def raw_def Let_def)
      with False d show ?thesis by (simp add: concat_lines_Join Let_def)
    qed
  next
    case False
    have "last (Join raw [LF]) = last (last raw) \<and> Join raw [LF] \<noteq> []"
      using ne False
    proof (induction raw)
      case Nil
      then show ?case by simp
    next
      case (Cons l ls)
      then show ?case by (cases ls) auto
    qed
    moreover have "last (last raw) \<noteq> LF"
      using split_char_free[of LF "crlf_to_lf doc"] ne False
      by (metis last_in_set raw_def)
    ultimately show ?thesis
      using False ne j by (simp add: raw_lines_def raw_def[symmetric] concat_lines_Join Let_def)
  qed
qed

section \<open>Sections\<close>

text \<open>The headings that end a section: those of level one or two, outside code.\<close>

definition top_heading :: "mdLine \<Rightarrow> bool" where
  "top_heading l \<longleftrightarrow> 0 < fst (headingLevel l) \<and> fst (headingLevel l) \<le> 2"

text \<open>What \<open>h2Sections\<close> is to return, by recursion over the lines.\<close>

function sections_spec :: "mdLine list \<Rightarrow> mdSection list" where
  "sections_spec [] = []"
| "sections_spec (l # ls) =
     (if fst (headingLevel l) = 2
      then \<lparr>secLevel = 2, secTitle = snd (headingLevel l), secLine = mdN l,
            secBody = takeWhile (\<lambda>x. \<not> top_heading x) ls\<rparr>
           # sections_spec (dropWhile (\<lambda>x. \<not> top_heading x) ls)
      else sections_spec ls)"
  by pat_completeness auto
termination
  by (relation "measure length") (auto simp: le_imp_less_Suc length_dropWhile_le)

lemma headingLevel_code [simp]: "mdInCode l \<Longrightarrow> headingLevel l = (0, [])"
  by (simp add: headingLevel_def)

lemma headingLevel_le: "fst (headingLevel l) \<le> 6"
  by (auto simp: headingLevel_def Let_def)

lemma level2_top: "fst (headingLevel l) = 2 \<Longrightarrow> top_heading l"
  by (simp add: top_heading_def)

lemma h2_step_top:
  "top_heading l \<Longrightarrow> h2_step (out, cur) l =
     (if fst (headingLevel l) = 2
      then (out @ [\<lparr>secLevel = 2, secTitle = snd (headingLevel l), secLine = mdN l, secBody = []\<rparr>],
            Some (length out))
      else (out, None))"
  by (cases "headingLevel l") (auto simp: h2_step_def top_heading_def)

lemma h2_step_body:
  "\<not> top_heading l \<Longrightarrow> h2_step (out, None) l = (out, None)"
  "\<not> top_heading l \<Longrightarrow> h2_step (out @ [s], Some (length out)) l =
     (out @ [s\<lparr>secBody := secBody s @ [l]\<rparr>], Some (length out))"
  by (cases "headingLevel l"; auto simp: h2_step_def top_heading_def)+

lemma sections_spec_skip: "\<not> top_heading l \<Longrightarrow> sections_spec (l # ls) = sections_spec ls"
  by (auto simp: top_heading_def)

lemma sections_spec_dropWhile:
  "sections_spec (dropWhile (\<lambda>x. \<not> top_heading x) ls) = sections_spec ls"
  by (induction ls) (simp_all add: sections_spec_skip del: sections_spec.simps(2))

lemma h2_fold:
  "fst (foldl h2_step (out, None) ls) = out @ sections_spec ls"
  "fst (foldl h2_step (out @ [s], Some (length out)) ls) =
     out @ [s\<lparr>secBody := secBody s @ takeWhile (\<lambda>x. \<not> top_heading x) ls\<rparr>] @ sections_spec ls"
proof (induction ls arbitrary: out s)
  case Nil
  { case 1 show ?case by simp }
  { case 2 show ?case by simp }
next
  case (Cons l ls)
  { case 1
    show ?case
      by (cases "top_heading l")
        (auto simp: h2_step_top h2_step_body Cons.IH sections_spec_dropWhile dest: level2_top) }
  { case 2
    have open_next: "fst (foldl h2_step (out @ [s, t], Some (Suc (length out))) ls) =
        out @ s # t\<lparr>secBody := secBody t @ takeWhile (\<lambda>x. \<not> top_heading x) ls\<rparr> # sections_spec ls" for t
      using Cons.IH(2)[of "out @ [s]" t] by simp
    show ?case
    proof (cases "top_heading l")
      case True
      then show ?thesis
        by (simp add: h2_step_top open_next Cons.IH(1) sections_spec_dropWhile)
    next
      case False
      then show ?thesis
        by (auto simp: h2_step_body Cons.IH(2) dest: level2_top)
    qed }
qed

lemma h2Sections_spec: "h2Sections lines = sections_spec lines"
  by (simp add: h2Sections_def h2_fold)

end
