(* ===== verification/SpecFacts.thy ===== *)
theory SpecFacts
  imports SpecDoc
begin

text \<open>
  Facts about \<open>SpecDoc\<close>. The parser's loop is described by \<open>req_chunks\<close>: the requirements of
  a document are its chunks from one \<open>### Requirement:\<close> heading to the next. A spec is
  \<open>wf_spec\<close> when its preamble holds no such heading, every requirement's text parses to that
  requirement and every block but the last closes its fences; every parsed spec is
  (\<open>wf_spec_ParseSpec\<close>), and rendering a \<open>wf_spec\<close> and parsing it again gives it back up to line
  numbers (\<open>ParseSpec_Render\<close>). The last section relates \<open>editDistance\<close> to edit scripts.
\<close>

section \<open>A heading is never a fence\<close>

lemma lead_len_prefix: "lead_len us s \<noteq> 0 \<Longrightarrow> \<exists>u \<in> set us. u \<noteq> [] \<and> HasPrefix s u \<and> lead_len us s = length u"
  by (induction us) (auto split: if_splits)

lemma strip_keeps_last:
  assumes "s \<noteq> []" and "\<And>u. u \<in> set us \<Longrightarrow> last s \<notin> set u"
  shows "strip us s \<noteq> [] \<and> last (strip us s) = last s"
  using assms
proof (induction us s rule: strip.induct)
  case (1 us s)
  show ?case
  proof (cases "lead_len us s = 0")
    case True
    with "1.prems" show ?thesis by (simp add: strip.simps)
  next
    case False
    then obtain u where u: "u \<in> set us" "HasPrefix s u" "lead_len us s = length u"
      using lead_len_prefix by blast
    then obtain r where r: "s = u @ r" by (auto simp: HasPrefix_iff)
    have "r \<noteq> []" using r u(1) "1.prems" by (metis append_Nil2 last_in_set)
    with r u have d: "drop (lead_len us s) s = r" "last r = last s" by auto
    have "strip us r \<noteq> [] \<and> last (strip us r) = last r"
      using "1.IH"[of] False "1.prems" d \<open>r \<noteq> []\<close> by auto
    with False "1.prems"(1) d show ?thesis by (simp add: strip.simps[of us s])
  qed
qed

lemma hash_not_space: "u \<in> set space_runes \<Longrightarrow> CHR ''#'' \<notin> set u"
  by (auto simp: space_runes_def)

lemma TrimSpace_hash: "\<exists>r. TrimSpace (CHR ''#'' # s) = CHR ''#'' # r"
proof -
  have l: "lead_len space_runes (CHR ''#'' # s) = 0"
    by (simp add: space_runes_def)
  have st: "strip space_runes (CHR ''#'' # s) = CHR ''#'' # s"
    by (subst strip.simps) (simp add: l)
  let ?t = "strip (map rev space_runes) (rev (CHR ''#'' # s))"
  have "?t \<noteq> [] \<and> last ?t = last (rev (CHR ''#'' # s))"
    by (rule strip_keeps_last) (auto simp: hash_not_space)
  then have "?t \<noteq> [] \<and> last ?t = CHR ''#''" by simp
  then show ?thesis unfolding TrimSpace_def st by (metis hd_rev list.collapse rev_is_Nil_conv)
qed

lemma heading_starts_hash: "fst (headingLevel l) > 0 \<Longrightarrow> \<exists>r. mdText l = CHR ''#'' # r"
proof -
  assume "fst (headingLevel l) > 0"
  then have "takeWhile (\<lambda>c. c = CHR ''#'') (TrimRight (mdText l) [CHR '' '', TAB]) \<noteq> []"
    by (auto simp: headingLevel_def Let_def split: if_splits)
  then have "\<exists>r. TrimRight (mdText l) [CHR '' '', TAB] = CHR ''#'' # r"
    by (cases "TrimRight (mdText l) [CHR '' '', TAB]") (auto split: if_splits)
  moreover have "\<exists>w. mdText l = TrimRight (mdText l) [CHR '' '', TAB] @ w"
    unfolding TrimRight_def by (metis rev_append rev_rev_ident takeWhile_dropWhile_id)
  ultimately show ?thesis by (metis append_Cons)
qed

lemma heading_not_fence: "fst (headingLevel l) > 0 \<Longrightarrow> \<not> is_fence (TrimSpace (mdText l))"
proof -
  assume "fst (headingLevel l) > 0"
  then obtain r where "mdText l = CHR ''#'' # r" using heading_starts_hash by blast
  with TrimSpace_hash[of r] show ?thesis by (auto simp: is_fence_def)
qed

section \<open>Fences across a split document\<close>

fun fence_after :: "string \<Rightarrow> string list \<Rightarrow> string" where
  "fence_after fence [] = fence"
| "fence_after fence (t # ts) =
     (let trimmed = TrimSpace t in
      if fence = [] \<and> is_fence trimmed then fence_after (take 3 trimmed) ts
      else if fence \<noteq> [] \<and> is_fence trimmed \<and> HasPrefix trimmed fence then fence_after [] ts
      else fence_after fence ts)"

lemma split_go_append:
  "split_go i fence (xs @ ys) = split_go i fence xs @ split_go (i + length xs) (fence_after fence xs) ys"
  by (induction i fence xs rule: split_go.induct) (auto simp: Let_def)

lemma split_go_Nil_iff [simp]: "split_go i fence ts = [] \<longleftrightarrow> ts = []"
  by (metis length_0_conv length_split_go)

lemma fence_after_append: "fence_after fence (xs @ ys) = fence_after (fence_after fence xs) ys"
  by (induction fence xs rule: fence_after.induct) (auto simp: Let_def)

definition renum :: "(nat \<Rightarrow> nat) \<Rightarrow> mdLine \<Rightarrow> mdLine" where
  "renum f l = l\<lparr>mdN := f (mdN l)\<rparr>"

lemma renum_sel [simp]:
  "mdText (renum f l) = mdText l" "mdInCode (renum f l) = mdInCode l" "mdN (renum f l) = f (mdN l)"
  "headingLevel (renum f l) = headingLevel l" "req_heading (renum f l) = req_heading l"
  "req_name (renum f l) = req_name l"
  by (simp_all add: renum_def headingLevel_def req_heading_def req_name_def)

lemma split_go_shift: "split_go (i + k) fence ts = map (renum (\<lambda>n. n + k)) (split_go i fence ts)"
  by (induction i fence ts rule: split_go.induct) (auto simp: Let_def renum_def)

section \<open>Chunks\<close>

function req_chunks :: "mdLine list \<Rightarrow> mdLine list list" where
  "req_chunks [] = []"
| "req_chunks (l # ls) =
     (if req_heading l
      then (l # takeWhile (\<lambda>x. \<not> req_heading x) ls) # req_chunks (dropWhile (\<lambda>x. \<not> req_heading x) ls)
      else req_chunks ls)"
  by pat_completeness auto
termination
  by (relation "measure length") (auto simp: le_imp_less_Suc length_dropWhile_le)

definition build_chunk :: "mdLine list \<Rightarrow> requirement" where
  "build_chunk ch = buildRequirement (empty_requirement (req_name (hd ch)) (mdN (hd ch))) ch"

lemma req_chunks_dropWhile [simp]:
  "req_chunks (dropWhile (\<lambda>x. \<not> req_heading x) ls) = req_chunks ls"
  by (induction ls) auto

lemma req_chunks_skip: "\<forall>l\<in>set xs. \<not> req_heading l \<Longrightarrow> req_chunks (xs @ ls) = req_chunks ls"
  by (induction xs) auto

lemma req_chunks_free: "\<forall>l\<in>set xs. \<not> req_heading l \<Longrightarrow> req_chunks xs = []"
  using req_chunks_skip[of xs "[]"] by simp

lemma spec_step_cases:
  "lpCur st = None \<Longrightarrow> \<not> req_heading l \<Longrightarrow>
     spec_step st l = st\<lparr>lpPre := lpPre st @ [l],
       lpOther := lpOther st @ (if fst (headingLevel l) = 3 then [mdN l] else [])\<rparr>"
  "lpCur st = Some c \<Longrightarrow> \<not> req_heading l \<Longrightarrow>
     spec_step st l = st\<lparr>lpCurLines := lpCurLines st @ [l],
       lpOther := lpOther st @ (if fst (headingLevel l) = 3 then [mdN l] else [])\<rparr>"
  by (auto simp: spec_step_def spec_keep_def Let_def)

lemma spec_fold_open:
  assumes "lpCur st = Some (length R)" and "lpReqs st = R @ [e]"
  shows "lpReqs (spec_flush (foldl spec_step st ls)) =
           R @ [buildRequirement e (lpCurLines st @ takeWhile (\<lambda>x. \<not> req_heading x) ls)]
             @ map build_chunk (req_chunks ls)
       \<and> lpPre (spec_flush (foldl spec_step st ls)) = lpPre st"
  using assms
proof (induction ls arbitrary: st R e)
  case Nil
  then show ?case by (simp add: spec_flush_def)
next
  case (Cons l ls)
  show ?case
  proof (cases "req_heading l")
    case False
    with Cons.prems show ?thesis
      using Cons.IH[of "spec_step st l" R e] by (simp add: spec_step_cases)
  next
    case True
    define st' where "st' = spec_step st l"
    have st': "lpCur st' = Some (length (R @ [buildRequirement e (lpCurLines st)]))"
      "lpReqs st' = (R @ [buildRequirement e (lpCurLines st)]) @ [empty_requirement (req_name l) (mdN l)]"
      "lpCurLines st' = [l]" "lpPre st' = lpPre st"
      using True Cons.prems by (simp_all add: st'_def spec_step_def spec_flush_def Let_def)
    from Cons.IH[OF st'(1,2)] st'(3,4) True show ?thesis
      by (simp add: st'_def[symmetric] build_chunk_def)
  qed
qed

lemma spec_fold_start:
  assumes "lpCur st = None" and "lpReqs st = []"
  shows "lpReqs (spec_flush (foldl spec_step st ls)) = map build_chunk (req_chunks ls)
       \<and> lpPre (spec_flush (foldl spec_step st ls)) = lpPre st @ takeWhile (\<lambda>x. \<not> req_heading x) ls"
  using assms
proof (induction ls arbitrary: st)
  case Nil
  then show ?case by (simp add: spec_flush_def)
next
  case (Cons l ls)
  show ?case
  proof (cases "req_heading l")
    case False
    with Cons.prems show ?thesis
      using Cons.IH[of "spec_step st l"] by (simp add: spec_step_cases)
  next
    case True
    define st' where "st' = spec_step st l"
    have st': "lpCur st' = Some (length [])"
      "lpReqs st' = [] @ [empty_requirement (req_name l) (mdN l)]"
      "lpCurLines st' = [l]" "lpPre st' = lpPre st"
      using True Cons.prems by (simp_all add: st'_def spec_step_def spec_flush_def Let_def)
    from spec_fold_open[OF st'(1,2)] st'(3,4) True show ?thesis
      by (simp add: st'_def[symmetric] build_chunk_def)
  qed
qed

lemma ParseSpec_requirements:
  "spRequirements (ParseSpec doc) = map build_chunk (req_chunks (splitLines doc))"
  "spPreamble (ParseSpec doc) =
     TrimRight (joinBody (takeWhile (\<lambda>x. \<not> req_heading x) (splitLines doc))) [LF]"
  using spec_fold_start[of "\<lparr>lpReqs = [], lpCur = None, lpCurLines = [], lpPre = [], lpOther = []\<rparr>" "splitLines doc"]
  by (simp_all add: ParseSpec_def Let_def split: prod.split)

section \<open>Line numbers do not matter\<close>

definition erase_scenario :: "scenario \<Rightarrow> scenario" where
  "erase_scenario s = s\<lparr>scLine := 0, scKindLines := map (\<lambda>_. 0) (scKindLines s)\<rparr>"

definition erase_req :: "requirement \<Rightarrow> requirement" where
  "erase_req r = r\<lparr>rqLine := 0, rqScenarios := map erase_scenario (rqScenarios r),
                   rqStray := map (\<lambda>_. 0) (rqStray r)\<rparr>"

definition erase_build :: "scenario list \<times> nat option \<times> nat list \<Rightarrow> scenario list \<times> nat option \<times> nat list" where
  "erase_build st = (map erase_scenario (fst st), fst (snd st), map (\<lambda>_. 0) (snd (snd st)))"

abbreviation unnum :: "mdLine \<Rightarrow> mdLine" where
  "unnum \<equiv> renum (\<lambda>_. 0)"

lemma erase_scenario_simps [simp]:
  "erase_scenario (new_scenario n k) = new_scenario n 0"
  "erase_scenario (add_check s kind v k) = add_check (erase_scenario s) kind v 0"
  "erase_scenario (erase_scenario s) = erase_scenario s"
  by (simp_all add: erase_scenario_def new_scenario_def add_check_def comp_def)

lemma build_step_erase: "erase_build (build_step st l) = build_step (erase_build st) (unnum l)"
proof (cases "\<exists>i. fst (snd st) = Some i \<and> \<not> i < length (fst st)")
  case True
  then show ?thesis
    by (auto simp: build_step_def erase_build_def list_update_beyond split: prod.splits option.splits)
next
  case False
  then show ?thesis
    by (auto simp: build_step_def erase_build_def map_update split: prod.splits option.splits)
qed

lemma build_fold_erase:
  "erase_build (foldl build_step st ls) = foldl build_step (erase_build st) (map unnum ls)"
  by (induction ls arbitrary: st) (simp_all add: build_step_erase)

lemma joinBody_unnum [simp]: "joinBody (map (renum f) ls) = joinBody ls"
  by (simp add: joinBody_def comp_def)

lemma build_chunk_alt:
  "build_chunk ch = (case foldl build_step ([], None, []) (tl ch) of (scs, sc, stray) \<Rightarrow>
     \<lparr>rqName = req_name (hd ch), rqLine = mdN (hd ch), rqText = TrimRight (joinBody ch) [LF],
      rqScenarios = scs, rqStray = stray\<rparr>)"
  by (simp add: build_chunk_def buildRequirement_def empty_requirement_def split: prod.split)

lemma build_chunk_erase:
  assumes "ch \<noteq> []"
  shows "erase_req (build_chunk ch) = build_chunk (map unnum ch)"
proof -
  obtain l ls where ch: "ch = l # ls" using assms by (cases ch) auto
  obtain scs sc stray where f: "foldl build_step ([], None, []) ls = (scs, sc, stray)"
    by (cases "foldl build_step ([], None, []) ls")
  have "foldl build_step ([], None, []) (map unnum ls) = erase_build (scs, sc, stray)"
    using build_fold_erase[of "([], None, [])" ls] by (simp add: f erase_build_def)
  then show ?thesis
    using joinBody_unnum[of _ "l # ls"] by (simp add: build_chunk_alt ch f erase_req_def erase_build_def)
qed

lemma build_step_blank: "mdText l = [] \<Longrightarrow> build_step st l = st"
  by (cases st; cases "mdInCode l")
    (simp_all add: build_step_def headingLevel_def TrimRight_def match_check_line_def skip_bullet_def)

lemma TrimRight_append [simp]: "set ys \<subseteq> set cs \<Longrightarrow> TrimRight (s @ ys) cs = TrimRight s cs"
  unfolding TrimRight_def rev_append by (subst dropWhile_append2) auto

lemma build_chunk_blank:
  assumes "ch \<noteq> []" and "mdText l = []"
  shows "build_chunk (ch @ [l]) = build_chunk ch"
proof -
  have "TrimRight (joinBody (ch @ [l])) [LF] = TrimRight (joinBody ch) [LF]"
    using assms(2) TrimRight_append[of "[LF]" "[LF]" "joinBody ch"] by (simp add: joinBody_def)
  with assms show ?thesis by (simp add: build_chunk_alt build_step_blank)
qed

section \<open>Blocks\<close>

definition lines_of :: "string list \<Rightarrow> mdLine list" where
  "lines_of ts = map unnum (split_go 0 [] ts)"

definition req_free :: "string list \<Rightarrow> bool" where
  "req_free ts \<longleftrightarrow> list_all (\<lambda>l. \<not> req_heading l) (split_go 0 [] ts)"

definition req_block :: "string list \<Rightarrow> bool" where
  "req_block ts = (case ts of [] \<Rightarrow> False
     | h # rest \<Rightarrow> req_heading \<lparr>mdN = 0, mdText = h, mdInCode = False\<rparr> \<and> req_free rest)"

lemma unnum_split_go: "map unnum (split_go i fence ts) = map unnum (split_go 0 fence ts)"
  using split_go_shift[of 0 i fence ts] by (simp add: renum_def comp_def)

lemma split_go_free: "req_free ts \<Longrightarrow> l \<in> set (split_go i [] ts) \<Longrightarrow> \<not> req_heading l"
  using split_go_shift[of 0 i "[]" ts] by (auto simp: req_free_def list_all_iff)

lemma req_heading_unnum: "req_heading (unnum l) \<longleftrightarrow> req_heading l"
  by simp

lemma fence_after_blank [simp]: "fence_after fence ([] # ts) = fence_after fence ts"
  by (simp add: is_fence_def Let_def)

lemma split_go_block:
  assumes "req_heading \<lparr>mdN = 0, mdText = h, mdInCode = False\<rparr>"
  shows "split_go i [] (h # rest) = \<lparr>mdN = i + 1, mdText = h, mdInCode = False\<rparr> # split_go (i + 1) [] rest"
    and "fence_after [] (h # rest) = fence_after [] rest"
    and "req_heading \<lparr>mdN = n, mdText = h, mdInCode = False\<rparr>"
proof -
  have "\<not> is_fence (TrimSpace h)"
    using heading_not_fence[of "\<lparr>mdN = 0, mdText = h, mdInCode = False\<rparr>"] assms
    by (simp add: req_heading_def)
  then show "split_go i [] (h # rest) = \<lparr>mdN = i + 1, mdText = h, mdInCode = False\<rparr> # split_go (i + 1) [] rest"
    and "fence_after [] (h # rest) = fence_after [] rest"
    by (simp_all add: Let_def)
  show "req_heading \<lparr>mdN = n, mdText = h, mdInCode = False\<rparr>"
    using assms by (simp add: req_heading_def headingLevel_def)
qed

lemma req_free_snoc_blank [simp]: "req_free (xs @ [[]]) = req_free xs"
  by (simp add: req_free_def split_go_append Let_def is_fence_def req_heading_def headingLevel_def TrimRight_def)

text \<open>The blocks of a rendered document, each but the last with the blank line after it.\<close>

fun block_lines :: "string list list \<Rightarrow> mdLine list list" where
  "block_lines [] = []"
| "block_lines [b] = [lines_of b]"
| "block_lines (b # b' # bs) = lines_of (b @ [[]]) # block_lines (b' # bs)"

abbreviation spaced :: "string list list \<Rightarrow> string list" where
  "spaced bs \<equiv> concat (map (\<lambda>b. [] # b) bs)"

lemma takeWhile_split_spaced:
  assumes "req_free xs" and "bs \<noteq> [] \<Longrightarrow> fence_after [] xs = []" and "\<forall>b\<in>set bs. req_block b"
  shows "takeWhile (\<lambda>x. \<not> req_heading x) (split_go i [] (xs @ spaced bs)) =
         split_go i [] (if bs = [] then xs else xs @ [[]])"
proof (cases bs)
  case Nil
  then show ?thesis using split_go_free[OF assms(1)] by (simp add: takeWhile_eq_all_conv)
next
  case (Cons b bs')
  with assms obtain h rest where b: "b = h # rest"
    "req_heading \<lparr>mdN = 0, mdText = h, mdInCode = False\<rparr>" and f: "fence_after [] xs = []"
    by (auto simp: req_block_def split: list.splits)
  have eq: "xs @ spaced bs = (xs @ [[]]) @ (h # (rest @ spaced bs'))" by (simp add: Cons b)
  have fa: "fence_after [] (xs @ [[]]) = []" by (simp add: fence_after_append f)
  have "\<forall>l\<in>set (split_go i [] (xs @ [[]])). \<not> req_heading l"
    using assms(1) split_go_free[of "xs @ [[]]"] by simp
  then show ?thesis
    unfolding eq split_go_append[of i "[]" "xs @ [[]]"] fa split_go_block(1)[OF b(2)]
    using split_go_block(3)[OF b(2)] by (simp add: Cons takeWhile_append2 del: split_go.simps)
qed

lemma req_chunks_spaced:
  assumes "req_free xs" and "bs \<noteq> [] \<Longrightarrow> fence_after [] xs = []"
    and "\<forall>b\<in>set bs. req_block b" and "\<forall>b\<in>set (butlast bs). fence_after [] b = []"
  shows "map (map unnum) (req_chunks (split_go i [] (xs @ spaced bs))) = block_lines bs"
  using assms
proof (induction bs arbitrary: xs i)
  case Nil
  then show ?case using split_go_free[of xs] by (simp add: req_chunks_free)
next
  case (Cons b bs)
  then obtain h rest where b: "b = h # rest"
    "req_heading \<lparr>mdN = 0, mdText = h, mdInCode = False\<rparr>" "req_free rest"
    and f: "fence_after [] xs = []"
    by (auto simp: req_block_def split: list.splits)
  let ?j = "i + length (xs @ [[]])"
  have eq: "xs @ spaced (b # bs) = (xs @ [[]]) @ (h # (rest @ spaced bs))" by (simp add: b)
  have fa: "fence_after [] (xs @ [[]]) = []" by (simp add: fence_after_append f)
  have skip: "\<forall>l\<in>set (split_go i [] (xs @ [[]])). \<not> req_heading l"
    using Cons.prems(1) split_go_free[of "xs @ [[]]"] by simp
  have closed: "bs \<noteq> [] \<Longrightarrow> fence_after [] rest = []"
    using Cons.prems(4) split_go_block(2)[OF b(2)] by (auto simp: b(1) split: if_splits)
  have tw: "takeWhile (\<lambda>x. \<not> req_heading x) (split_go (?j + 1) [] (rest @ spaced bs)) =
            split_go (?j + 1) [] (if bs = [] then rest else rest @ [[]])"
    using takeWhile_split_spaced[OF b(3) closed] Cons.prems(3) by simp
  have IH: "map (map unnum) (req_chunks (split_go (?j + 1) [] (rest @ spaced bs))) = block_lines bs"
    using Cons.IH[OF b(3) closed] Cons.prems(3,4) by (auto split: if_splits)
  have lines: "lines_of (h # r) = unnum \<lparr>mdN = ?j + 1, mdText = h, mdInCode = False\<rparr> # map unnum (split_go (?j + 1) [] r)" for r
    unfolding lines_of_def split_go_block(1)[OF b(2)]
    using unnum_split_go[of "0 + 1" "[]" r] unnum_split_go[of "?j + 1" "[]" r] by (simp add: renum_def)
  have "map (map unnum) (req_chunks (split_go i [] (xs @ spaced (b # bs)))) =
        lines_of (h # (if bs = [] then rest else rest @ [[]])) # block_lines bs"
    unfolding eq split_go_append[of i "[]" "xs @ [[]]"] fa split_go_block(1)[OF b(2)] req_chunks_skip[OF skip]
    by (simp only: req_chunks.simps split_go_block(3)[OF b(2)] if_True tw list.map req_chunks_dropWhile IH lines)
  then show ?case by (cases bs) (simp_all add: b(1))
qed

lemma build_block_lines:
  assumes "\<forall>b\<in>set bs. b \<noteq> []"
  shows "map build_chunk (block_lines bs) = map (\<lambda>b. build_chunk (lines_of b)) bs"
  using assms
proof (induction bs rule: block_lines.induct)
  case (3 b b' bs)
  have "lines_of (b @ [[]]) = lines_of b @ [unnum \<lparr>mdN = 0, mdText = [], mdInCode = fence_after [] b \<noteq> []\<rparr>]"
    by (simp add: lines_of_def split_go_append Let_def is_fence_def renum_def)
  moreover have "lines_of b \<noteq> []" using 3 by (simp add: lines_of_def)
  ultimately have "build_chunk (lines_of (b @ [[]])) = build_chunk (lines_of b)"
    by (simp add: build_chunk_blank)
  with 3 show ?case by simp
qed simp_all

section \<open>Rendering\<close>

lemma TrimRight_LF_idem [simp]: "TrimRight (TrimRight s cs) cs = TrimRight s cs"
  by (simp add: TrimRight_def dropWhile_idem)

lemma raw_lines_Render:
  assumes "CR \<notin> set P" and "\<forall>T\<in>set Ts. CR \<notin> set T"
  shows "raw_lines (P @ [LF] @ concat (map (\<lambda>T. [LF] @ T @ [LF]) Ts)) =
         split_char LF P @ spaced (map (split_char LF) Ts)"
proof -
  have sp: "split_char LF (s @ LF # r) = split_char LF s @ split_char LF r" for s r
    by (induction s) (auto split: list.splits)
  have "split_char LF (concat (map (\<lambda>T. [LF] @ T @ [LF]) Ts)) = spaced (map (split_char LF) Ts) @ [[]]"
    by (induction Ts) (simp_all add: sp)
  then have "split_char LF (P @ [LF] @ concat (map (\<lambda>T. [LF] @ T @ [LF]) Ts)) =
        (split_char LF P @ spaced (map (split_char LF) Ts)) @ [[]]"
    by (simp add: sp)
  moreover have "crlf_to_lf (P @ [LF] @ concat (map (\<lambda>T. [LF] @ T @ [LF]) Ts)) =
        P @ [LF] @ concat (map (\<lambda>T. [LF] @ T @ [LF]) Ts)"
    using assms by (intro crlf_to_lf_id) auto
  ultimately show ?thesis unfolding raw_lines_def Let_def by (metis butlast_snoc last_snoc snoc_eq_iff_butlast)
qed

definition wf_req :: "requirement \<Rightarrow> bool" where
  "wf_req r \<longleftrightarrow>
     CR \<notin> set (rqText r) \<and> TrimRight (rqText r) [LF] = rqText r \<and>
     req_block (split_char LF (rqText r)) \<and>
     erase_req r = build_chunk (lines_of (split_char LF (rqText r)))"

definition closed_text :: "string \<Rightarrow> bool" where
  "closed_text t \<longleftrightarrow> fence_after [] (split_char LF t) = []"

definition wf_spec :: "spec_doc \<Rightarrow> bool" where
  "wf_spec s \<longleftrightarrow>
     CR \<notin> set (spPreamble s) \<and> TrimRight (spPreamble s) [LF] = spPreamble s \<and>
     req_free (split_char LF (spPreamble s)) \<and>
     (spRequirements s \<noteq> [] \<longrightarrow> closed_text (spPreamble s)) \<and>
     list_all wf_req (spRequirements s) \<and>
     list_all (\<lambda>r. closed_text (rqText r)) (butlast (spRequirements s))"

lemma joinBody_lines: "joinBody (split_go i f (split_char LF t)) = t @ [LF]"
  by (simp add: joinBody_split_go concat_lines_Join Join_split_char)

lemma ParseSpec_Render:
  assumes wf: "wf_spec s"
  shows "map erase_req (spRequirements (ParseSpec (Render s))) = map erase_req (spRequirements s)"
    and "spPreamble (ParseSpec (Render s)) = spPreamble s"
proof -
  let ?P = "split_char LF (spPreamble s)"
  let ?bs = "map (\<lambda>r. split_char LF (rqText r)) (spRequirements s)"
  note w = wf[unfolded wf_spec_def list_all_iff]
  have render: "Render s = spPreamble s @ [LF] @ concat (map (\<lambda>T. [LF] @ T @ [LF]) (map rqText (spRequirements s)))"
    using w by (auto simp: Render_def wf_req_def intro!: arg_cong[where f = concat])
  have lines: "splitLines (Render s) = split_go 0 [] (?P @ spaced ?bs)"
    unfolding splitLines_def render using w
    by (subst raw_lines_Render) (auto simp: wf_req_def comp_def)
  have free: "req_free ?P" using w by simp
  have cl: "?bs \<noteq> [] \<Longrightarrow> fence_after [] ?P = []" using w by (auto simp: closed_text_def)
  have blk: "\<forall>b\<in>set ?bs. req_block b" using w by (auto simp: wf_req_def)
  have clb: "\<forall>b\<in>set (butlast ?bs). fence_after [] b = []"
    using w by (auto simp: closed_text_def map_butlast[symmetric])
  have ne: "ch \<noteq> []" if "ch \<in> set (req_chunks ls)" for ch ls
    using that by (induction ls rule: req_chunks.induct) (auto split: if_splits)
  have "map erase_req (spRequirements (ParseSpec (Render s))) =
        map build_chunk (map (map unnum) (req_chunks (splitLines (Render s))))"
    using ne by (simp add: ParseSpec_requirements build_chunk_erase)
  also have "\<dots> = map build_chunk (block_lines ?bs)"
    unfolding lines using req_chunks_spaced[OF free cl blk clb] by simp
  also have "\<dots> = map (\<lambda>b. build_chunk (lines_of b)) ?bs"
    using build_block_lines[of ?bs] by auto
  also have "\<dots> = map erase_req (spRequirements s)"
    using w by (auto simp: wf_req_def)
  finally show "map erase_req (spRequirements (ParseSpec (Render s))) = map erase_req (spRequirements s)" .
  have "spPreamble (ParseSpec (Render s)) =
        TrimRight (joinBody (split_go 0 [] (if ?bs = [] then ?P else ?P @ [[]]))) [LF]"
    unfolding ParseSpec_requirements lines using takeWhile_split_spaced[OF free cl blk] by simp
  also have "\<dots> = TrimRight (spPreamble s) [LF]"
  proof -
    have "concat (map (\<lambda>t. t @ [LF]) ?P) = spPreamble s @ [LF]"
      by (simp add: concat_lines_Join Join_split_char)
    then show ?thesis by (simp add: joinBody_split_go)
  qed
  finally show "spPreamble (ParseSpec (Render s)) = spPreamble s" using w by simp
qed

section \<open>A parsed spec is well-formed\<close>

lemma split_go_take: "split_go i f (take k ts) = take k (split_go i f ts)"
proof (induction i f ts arbitrary: k rule: split_go.induct)
  case (2 i fence t rest)
  then show ?case by (cases k) (auto simp: Let_def)
qed simp

lemma split_go_drop:
  "k \<le> length ts \<Longrightarrow> drop k (split_go i f ts) = split_go (i + k) (fence_after f (take k ts)) (drop k ts)"
proof -
  assume k: "k \<le> length ts"
  then have "length (split_go i f (take k ts)) = k" by simp
  moreover have "split_go i f ts =
      split_go i f (take k ts) @ split_go (i + k) (fence_after f (take k ts)) (drop k ts)"
    using split_go_append[of i f "take k ts" "drop k ts"] k by (simp add: min.absorb2)
  ultimately show ?thesis by (metis append_eq_conv_conj)
qed

lemma split_go_code_head:
  "split_go i f (t # ts) = l # ls \<Longrightarrow> \<not> mdInCode l \<Longrightarrow>
     f = [] \<and> ls = split_go (i + 1) [] ts \<and> l = \<lparr>mdN = i + 1, mdText = t, mdInCode = False\<rparr>"
  by (auto simp: Let_def split: if_splits)

lemma req_heading_not_code: "req_heading l \<Longrightarrow> \<not> mdInCode l"
  by (auto simp: req_heading_def)

lemma takeWhile_split_go:
  "\<exists>k \<le> length ts. takeWhile P (split_go i f ts) = split_go i f (take k ts)
     \<and> dropWhile P (split_go i f ts) = split_go (i + k) (fence_after f (take k ts)) (drop k ts)"
proof -
  let ?k = "length (takeWhile P (split_go i f ts))"
  have "?k \<le> length ts" using length_takeWhile_le[of P "split_go i f ts"] by simp
  moreover have "takeWhile P (split_go i f ts) = split_go i f (take ?k ts)"
    by (simp add: split_go_take takeWhile_eq_take[symmetric])
  moreover have "dropWhile P (split_go i f ts) = drop ?k (split_go i f ts)"
    by (rule dropWhile_eq_drop)
  ultimately show ?thesis using split_go_drop by metis
qed

lemma req_free_unnum: "\<forall>l\<in>set (split_go i [] ts). \<not> req_heading l \<Longrightarrow> req_free ts"
  using split_go_shift[of 0 i "[]" ts] by (auto simp: req_free_def list_all_iff)

text \<open>Each chunk of a document is a block scanned from outside code, and closed but for the last.\<close>

lemma req_chunks_blocks:
  "\<exists>bs. req_chunks (split_go i f ts) = map (\<lambda>(j, us). split_go j [] us) bs
      \<and> (\<forall>(j, us)\<in>set bs. req_block us \<and> set us \<subseteq> set ts)
      \<and> (\<forall>(j, us)\<in>set (butlast bs). fence_after [] us = [])"
proof (induction "length ts" arbitrary: i f ts rule: less_induct)
  case less
  show ?case
  proof (cases ts)
    case Nil
    then show ?thesis by simp
  next
    case (Cons t ts')
    obtain l ls where ll: "split_go i f (t # ts') = l # ls"
      by (metis length_split_go length_Suc_conv)
    show ?thesis
    proof (cases "req_heading l")
      case False
      have "\<exists>f'. ls = split_go (i + 1) f' ts'"
        using ll by (auto simp: Let_def split: if_splits)
      then obtain f' where ls: "ls = split_go (i + 1) f' ts'" by blast
      from less[of ts' "i + 1" f'] Cons obtain bs where
        "req_chunks (split_go (i + 1) f' ts') = map (\<lambda>(j, us). split_go j [] us) bs"
        "\<forall>(j, us)\<in>set bs. req_block us \<and> set us \<subseteq> set ts'"
        "\<forall>(j, us)\<in>set (butlast bs). fence_after [] us = []" by auto
      then show ?thesis using False
        by (intro exI[of _ bs]) (auto simp: Cons ll ls simp del: split_go.simps)
    next
      case True
      note h = split_go_code_head[OF ll req_heading_not_code[OF True]]
      obtain k where k: "k \<le> length ts'"
        "takeWhile (\<lambda>x. \<not> req_heading x) ls = split_go (i + 1) [] (take k ts')"
        "dropWhile (\<lambda>x. \<not> req_heading x) ls = split_go (i + 1 + k) (fence_after [] (take k ts')) (drop k ts')"
        using takeWhile_split_go[of ts' "\<lambda>x. \<not> req_heading x" "i + 1" "[]"] h by auto
      have rh: "req_heading \<lparr>mdN = 0, mdText = t, mdInCode = False\<rparr>"
        using True h by (simp add: req_heading_def headingLevel_def)
      have fr: "req_free (take k ts')"
        using k(2) by (intro req_free_unnum[of "i + 1"]) (metis set_takeWhileD)
      have blk: "req_block (t # take k ts')" using rh fr by (simp add: req_block_def)
      have ch: "l # takeWhile (\<lambda>x. \<not> req_heading x) ls = split_go i [] (t # take k ts')"
        unfolding split_go_block(1)[OF rh] k(2) using h by simp
      have lt: "length (drop k ts') < length ts" using Cons by simp
      from less[OF lt, of "i + 1 + k" "fence_after [] (take k ts')"]
      obtain bs where bs: "req_chunks (split_go (i + 1 + k) (fence_after [] (take k ts')) (drop k ts')) =
          map (\<lambda>(j, us). split_go j [] us) bs"
        "\<forall>(j, us)\<in>set bs. req_block us \<and> set us \<subseteq> set (drop k ts')"
        "\<forall>(j, us)\<in>set (butlast bs). fence_after [] us = []"
        by blast
      have closed: "fence_after [] (t # take k ts') = []" if "bs \<noteq> []"
      proof -
        have "drop k ts' \<noteq> []" using that bs(1) by auto
        then obtain u us where u: "drop k ts' = u # us" by (cases "drop k ts'") auto
        then obtain l' ls' where l': "split_go (i + 1 + k) (fence_after [] (take k ts')) (drop k ts') = l' # ls'"
          by (metis length_split_go length_Suc_conv)
        have "req_heading l'"
          using l' k(3) by (metis hd_dropWhile list.sel(1) list.distinct(1))
        then have "fence_after [] (take k ts') = []"
          using split_go_code_head[OF l'[unfolded u]] req_heading_not_code by blast
        then show ?thesis by (simp only: split_go_block(2)[OF rh])
      qed
      have "req_chunks (split_go i f ts) = split_go i [] (t # take k ts') # map (\<lambda>(j, us). split_go j [] us) bs"
        unfolding Cons ll using True ch k(3) bs(1) by (simp del: split_go.simps)
      moreover have "set (t # take k ts') \<subseteq> set ts" "set (drop k ts') \<subseteq> set ts"
        using Cons by (auto dest: in_set_takeD in_set_dropD)
      moreover from this(2) bs(2) have "\<forall>(j, us)\<in>set bs. req_block us \<and> set us \<subseteq> set ts"
        by fastforce
      ultimately show ?thesis using bs(3) blk closed
        by (intro exI[of _ "(i, t # take k ts') # bs"]) (auto simp del: split_go.simps fence_after.simps)
    qed
  qed
qed

text \<open>Trimming the final newlines of a joined block drops its trailing blank lines.\<close>

definition drop_blank :: "string list \<Rightarrow> string list" where
  "drop_blank us = rev (dropWhile (\<lambda>t. t = []) (rev us))"

lemma drop_blank_eq: "\<exists>n. us = drop_blank us @ replicate n []"
proof -
  have "us = drop_blank us @ rev (takeWhile (\<lambda>t. t = []) (rev us))"
    unfolding drop_blank_def by (metis rev_append rev_rev_ident takeWhile_dropWhile_id)
  moreover have "takeWhile (\<lambda>t. t = []) (rev us) = replicate (length (takeWhile (\<lambda>t. t = []) (rev us))) []"
    by (metis (full_types) replicate_length_same set_takeWhileD)
  ultimately show ?thesis by (metis rev_replicate)
qed

lemma Join_last: "xs \<noteq> [] \<Longrightarrow> \<exists>J. Join xs sep = J @ last xs"
proof (induction xs)
  case (Cons x xs)
  show ?case
  proof (cases "xs = []")
    case False
    then obtain J where "Join xs sep = J @ last xs" using Cons by blast
    with False show ?thesis by (intro exI[of _ "x @ sep @ J"]) (simp add: Join_Cons)
  qed simp
qed simp

lemma Join_chars: "x \<in> set (Join xs sep) \<Longrightarrow> x \<in> set sep \<or> (\<exists>u\<in>set xs. x \<in> set u)"
  by (induction xs sep rule: Join.induct) auto

lemma TrimRight_joined:
  assumes "\<forall>u\<in>set us. LF \<notin> set u"
  shows "TrimRight (concat (map (\<lambda>t. t @ [LF]) us)) [LF] = Join (drop_blank us) [LF]"
proof -
  obtain n where n: "us = drop_blank us @ replicate n []" using drop_blank_eq by blast
  let ?b = "drop_blank us"
  have "concat (map (\<lambda>t. t @ [LF]) us) = concat (map (\<lambda>t. t @ [LF]) ?b) @ replicate n LF"
  proof -
    have "concat (map (\<lambda>t. t @ [LF]) (replicate n [])) = replicate n LF" by (induction n) auto
    then show ?thesis using arg_cong[OF n, of "\<lambda>x. concat (map (\<lambda>t. t @ [LF]) x)"] by simp
  qed
  then have t: "TrimRight (concat (map (\<lambda>t. t @ [LF]) us)) [LF] = TrimRight (concat (map (\<lambda>t. t @ [LF]) ?b)) [LF]"
    by (simp add: set_replicate_conv_if)
  show ?thesis
  proof (cases "?b = []")
    case True
    with t show ?thesis by (simp add: TrimRight_def)
  next
    case False
    have "last ?b \<noteq> []"
      using False unfolding drop_blank_def by (metis (full_types) hd_dropWhile last_rev rev_is_Nil_conv)
    moreover have "LF \<notin> set (last ?b)"
      using assms n False by (metis Un_iff last_in_set set_append)
    ultimately have l: "last (last ?b) \<noteq> LF" by (metis last_in_set)
    obtain J where J: "Join ?b [LF] = J @ last ?b"
      using Join_last[OF False] by blast
    have "TrimRight (Join ?b [LF]) [LF] = Join ?b [LF]"
      unfolding J TrimRight_def using l \<open>last ?b \<noteq> []\<close>
      by (metis (no_types, lifting) dropWhile_eq_self_iff hd_rev last_appendR list.set(1,2) empty_iff insert_iff rev_rev_ident append_is_Nil_conv)
    with t False show ?thesis by (simp add: concat_lines_Join)
  qed
qed

lemma split_Join_free:
  assumes "us \<noteq> []" and "\<forall>u\<in>set us. c \<notin> set u"
  shows "split_char c (Join us [c]) = us"
  using assms
proof (induction us)
  case (Cons u us)
  then show ?case by (cases us) (auto simp: split_char_append split_char_free_line)
qed simp

lemma fence_after_drop_blank: "fence_after [] (drop_blank us) = fence_after [] us"
proof -
  obtain n where n: "us = drop_blank us @ replicate n []" using drop_blank_eq by blast
  have "fence_after f (replicate n []) = f" for f
    by (induction n) (simp_all del: fence_after.simps(2))
  then show ?thesis using arg_cong[OF n, of "fence_after []"] by (simp add: fence_after_append)
qed

lemma build_chunk_drop_blank:
  assumes "drop_blank us \<noteq> []"
  shows "build_chunk (lines_of (drop_blank us)) = build_chunk (lines_of us)"
proof -
  obtain n where n: "us = drop_blank us @ replicate n []" using drop_blank_eq by blast
  have "build_chunk (lines_of (drop_blank us @ replicate n [])) = build_chunk (lines_of (drop_blank us))"
  proof (induction n)
    case (Suc n)
    let ?b = "drop_blank us @ replicate n []"
    have "lines_of (?b @ [[]]) = lines_of ?b @ [unnum \<lparr>mdN = 0, mdText = [], mdInCode = fence_after [] ?b \<noteq> []\<rparr>]"
      unfolding lines_of_def split_go_append[of 0 "[]" ?b "[[]]"] by (simp add: Let_def is_fence_def renum_def)
    moreover have "lines_of ?b \<noteq> []"
      using assms by (simp add: lines_of_def)
    ultimately show ?case using Suc by (simp add: build_chunk_blank replicate_append_same[symmetric])
  qed simp
  with n show ?thesis by metis
qed

lemma block_drop_blank:
  assumes "req_block us"
  shows "drop_blank us \<noteq> []" and "req_block (drop_blank us)"
proof -
  obtain h rest where us: "us = h # rest"
    "req_heading \<lparr>mdN = 0, mdText = h, mdInCode = False\<rparr>" "req_free rest"
    using assms by (auto simp: req_block_def split: list.splits)
  have "h \<noteq> []" using us(2) by (auto simp: req_heading_def headingLevel_def TrimRight_def)
  obtain n where n: "us = drop_blank us @ replicate n []" using drop_blank_eq by blast
  show ne: "drop_blank us \<noteq> []"
  proof
    assume "drop_blank us = []"
    with n us(1) \<open>h \<noteq> []\<close> show False by (cases n) auto
  qed
  then obtain r where r: "drop_blank us = h # r" using n us(1) by (cases "drop_blank us") auto
  with n us(1) have "rest = r @ replicate n []" by simp
  then have "req_free r" using us(3) split_go_append[of 0 "[]" r "replicate n []"]
    by (simp add: req_free_def)
  with r us(2) show "req_block (drop_blank us)" by (simp add: req_block_def)
qed

lemma wf_req_build:
  assumes blk: "req_block us" and fr: "\<forall>u\<in>set us. LF \<notin> set u \<and> CR \<notin> set u"
  shows "wf_req (build_chunk (split_go j [] us))"
    and "closed_text (rqText (build_chunk (split_go j [] us))) = (fence_after [] us = [])"
proof -
  note d = block_drop_blank[OF blk]
  let ?b = "drop_blank us"
  have sub: "set ?b \<subseteq> set us" by (auto simp: drop_blank_def dest: set_dropWhileD)
  have tx: "rqText (build_chunk (split_go j [] us)) = Join ?b [LF]"
    using fr by (simp add: build_chunk_alt joinBody_split_go TrimRight_joined split: prod.split)
  have sp: "split_char LF (Join ?b [LF]) = ?b" using d(1) fr sub by (intro split_Join_free) auto
  have ne: "split_go j [] us \<noteq> []" using blk by (auto simp: req_block_def)
  have "CR \<notin> set (Join ?b [LF])"
  proof
    assume "CR \<in> set (Join ?b [LF])"
    then have "\<exists>u\<in>set ?b. CR \<in> set u" by (auto dest: Join_chars)
    with fr sub show False by blast
  qed
  moreover have "TrimRight (Join ?b [LF]) [LF] = Join ?b [LF]"
    using TrimRight_joined[of us] fr by (metis TrimRight_LF_idem)
  moreover have "erase_req (build_chunk (split_go j [] us)) = build_chunk (lines_of ?b)"
  proof -
    have "map unnum (split_go j [] us) = lines_of us"
      by (simp add: lines_of_def unnum_split_go[of j])
    with ne show ?thesis by (simp add: build_chunk_erase build_chunk_drop_blank[OF d(1)])
  qed
  ultimately show "wf_req (build_chunk (split_go j [] us))"
    using d(2) by (simp add: wf_req_def tx sp)
  show "closed_text (rqText (build_chunk (split_go j [] us))) = (fence_after [] us = [])"
    by (simp add: closed_text_def tx sp fence_after_drop_blank)
qed

lemma raw_lines_no_CR: "CR \<notin> set (crlf_to_lf doc) \<Longrightarrow> t \<in> set (raw_lines doc) \<Longrightarrow> CR \<notin> set t"
proof -
  assume doc: "CR \<notin> set (crlf_to_lf doc)" and t: "t \<in> set (raw_lines doc)"
  have "set (concat (map (\<lambda>t. t @ [LF]) (raw_lines doc))) \<subseteq> set (crlf_to_lf doc) \<union> {LF}"
    unfolding concat_raw_lines by (auto simp: Let_def)
  moreover have "CR \<in> set t \<Longrightarrow> CR \<in> set (concat (map (\<lambda>t. t @ [LF]) (raw_lines doc)))"
    using t by auto
  ultimately show "CR \<notin> set t" using doc by auto
qed

lemma pre_ok:
  assumes "\<forall>u\<in>set p. LF \<notin> set u \<and> CR \<notin> set u" and "req_free p"
  shows "CR \<notin> set (Join (drop_blank p) [LF])"
    and "TrimRight (Join (drop_blank p) [LF]) [LF] = Join (drop_blank p) [LF]"
    and "req_free (split_char LF (Join (drop_blank p) [LF]))"
    and "closed_text (Join (drop_blank p) [LF]) \<longleftrightarrow> fence_after [] p = []"
proof -
  have sub: "set (drop_blank p) \<subseteq> set p" by (auto simp: drop_blank_def dest: set_dropWhileD)
  show "CR \<notin> set (Join (drop_blank p) [LF])"
  proof
    assume "CR \<in> set (Join (drop_blank p) [LF])"
    then have "\<exists>u\<in>set (drop_blank p). CR \<in> set u" by (auto dest: Join_chars)
    with assms(1) sub show False by blast
  qed
  show "TrimRight (Join (drop_blank p) [LF]) [LF] = Join (drop_blank p) [LF]"
    using TrimRight_joined[of p] assms(1) by (metis TrimRight_LF_idem)
  obtain n where n: "p = drop_blank p @ replicate n []" using drop_blank_eq by blast
  have "req_free (drop_blank p)"
    using assms(2) split_go_append[of 0 "[]" "drop_blank p" "replicate n []"] n
    unfolding req_free_def by (metis list_all_append)
  moreover have sp: "split_char LF (Join (drop_blank p) [LF]) = (if drop_blank p = [] then [[]] else drop_blank p)"
    using assms(1) sub by (auto intro!: split_Join_free)
  ultimately show "req_free (split_char LF (Join (drop_blank p) [LF]))"
    using req_free_snoc_blank[of "[]"] by (auto simp: req_free_def)
  show "closed_text (Join (drop_blank p) [LF]) \<longleftrightarrow> fence_after [] p = []"
    using fence_after_drop_blank[of p] by (auto simp: closed_text_def sp is_fence_def Let_def)
qed

lemma wf_spec_ParseSpec:
  assumes cr: "CR \<notin> set (crlf_to_lf doc)"
  shows "wf_spec (ParseSpec doc)"
proof -
  let ?ts = "raw_lines doc"
  have free: "\<forall>u\<in>set ?ts. LF \<notin> set u \<and> CR \<notin> set u"
    using raw_lines_free raw_lines_no_CR[OF cr] by blast
  obtain bs where bs: "req_chunks (splitLines doc) = map (\<lambda>(j, us). split_go j [] us) bs"
    "\<forall>(j, us)\<in>set bs. req_block us \<and> set us \<subseteq> set ?ts"
    "\<forall>(j, us)\<in>set (butlast bs). fence_after [] us = []"
    using req_chunks_blocks[of 0 "[]" ?ts] unfolding splitLines_def by blast
  have reqs: "spRequirements (ParseSpec doc) = map (\<lambda>(j, us). build_chunk (split_go j [] us)) bs"
    by (simp add: ParseSpec_requirements bs(1) case_prod_unfold comp_def)
  have wfr: "\<forall>r\<in>set (spRequirements (ParseSpec doc)). wf_req r"
  proof -
    have "wf_req (build_chunk (split_go j [] us))" if "(j, us) \<in> set bs" for j us
      using that bs(2) free by (intro wf_req_build(1)) blast+
    then show ?thesis by (auto simp: reqs)
  qed
  have closed: "\<forall>r\<in>set (butlast (spRequirements (ParseSpec doc))). closed_text (rqText r)"
  proof -
    have "closed_text (rqText (build_chunk (split_go j [] us)))" if "(j, us) \<in> set (butlast bs)" for j us
      using that bs(2,3) free wf_req_build(2)[of us j] in_set_butlastD[OF that] by fastforce
    then show ?thesis by (auto simp: reqs map_butlast[symmetric])
  qed
  obtain k where k: "k \<le> length ?ts"
    "takeWhile (\<lambda>x. \<not> req_heading x) (splitLines doc) = split_go 0 [] (take k ?ts)"
    "dropWhile (\<lambda>x. \<not> req_heading x) (splitLines doc) = split_go k (fence_after [] (take k ?ts)) (drop k ?ts)"
    using takeWhile_split_go[of ?ts "\<lambda>x. \<not> req_heading x" 0 "[]"] unfolding splitLines_def by auto
  let ?p = "take k ?ts"
  have pf: "\<forall>u\<in>set ?p. LF \<notin> set u \<and> CR \<notin> set u" using free by (auto dest: in_set_takeD)
  have pre: "spPreamble (ParseSpec doc) = Join (drop_blank ?p) [LF]"
    using pf by (simp add: ParseSpec_requirements k(2) joinBody_split_go TrimRight_joined)
  have rf: "req_free ?p"
    using k(2) by (intro req_free_unnum[of 0]) (metis set_takeWhileD)
  have cl: "fence_after [] ?p = []" if "spRequirements (ParseSpec doc) \<noteq> []"
  proof -
    have "req_chunks (dropWhile (\<lambda>x. \<not> req_heading x) (splitLines doc)) \<noteq> []"
      using that by (simp add: ParseSpec_requirements)
    then obtain l ls where l: "split_go k (fence_after [] ?p) (drop k ?ts) = l # ls"
      unfolding k(3) by (cases "split_go k (fence_after [] ?p) (drop k ?ts)") auto
    then have "req_heading l" using k(3) by (metis hd_dropWhile list.sel(1) list.distinct(1))
    moreover obtain u us where "drop k ?ts = u # us" using l by (cases "drop k ?ts") auto
    ultimately show ?thesis using split_go_code_head l req_heading_not_code by metis
  qed
  show ?thesis using wfr closed pre_ok[OF pf rf] cl by (simp add: wf_spec_def list_all_iff pre)
qed

section \<open>Edit distance\<close>

inductive edits :: "nat \<Rightarrow> 'a list \<Rightarrow> 'a list \<Rightarrow> bool" where
  edits_nil: "edits 0 [] []"
| edits_keep: "edits n xs ys \<Longrightarrow> edits n (xs @ [x]) (ys @ [x])"
| edits_subst: "edits n xs ys \<Longrightarrow> edits (Suc n) (xs @ [x]) (ys @ [y])"
| edits_delete: "edits n xs ys \<Longrightarrow> edits (Suc n) (xs @ [x]) ys"
| edits_insert: "edits n xs ys \<Longrightarrow> edits (Suc n) xs (ys @ [y])"

fun lev :: "'a list \<Rightarrow> 'a list \<Rightarrow> nat \<Rightarrow> nat \<Rightarrow> nat" where
  "lev ra rb 0 j = j"
| "lev ra rb (Suc i) 0 = Suc i"
| "lev ra rb (Suc i) (Suc j) =
     min (min (lev ra rb i (Suc j) + 1) (lev ra rb (Suc i) j + 1))
         (lev ra rb i j + (if ra ! i = rb ! j then 0 else 1))"

lemma lev_edits: "i \<le> length ra \<Longrightarrow> j \<le> length rb \<Longrightarrow> edits (lev ra rb i j) (take i ra) (take j rb)"
proof (induction ra rb i j rule: lev.induct)
  case (1 ra rb j)
  then show ?case
    by (induction j) (auto simp: take_Suc_conv_app_nth intro: edits.intros)
next
  case (2 ra rb i)
  then have "edits (Suc n) (take (Suc n) ra) []" if "n \<le> i" for n
    using that
  proof (induction n)
    case 0
    then show ?case using edits_delete[OF edits_nil, of "ra ! 0"] by (cases ra) auto
  next
    case (Suc n)
    then show ?case using edits_delete[of "Suc n" "take (Suc n) ra" "[]" "ra ! Suc n"]
      by (simp add: take_Suc_conv_app_nth[of "Suc n"])
  qed
  then show ?case by simp
next
  case (3 ra rb i j)
  then have ti: "take (Suc i) ra = take i ra @ [ra ! i]" and tj: "take (Suc j) rb = take j rb @ [rb ! j]"
    by (simp_all add: take_Suc_conv_app_nth)
  have a: "edits (Suc (lev ra rb i (Suc j))) (take (Suc i) ra) (take (Suc j) rb)"
    using 3 unfolding ti by (intro edits_delete) simp
  have b: "edits (Suc (lev ra rb (Suc i) j)) (take (Suc i) ra) (take (Suc j) rb)"
    using 3 unfolding tj by (intro edits_insert) simp
  have c: "edits (lev ra rb i j + (if ra ! i = rb ! j then 0 else 1)) (take (Suc i) ra) (take (Suc j) rb)"
    using 3 edits_keep[of _ _ _ "rb ! j"] edits_subst unfolding ti tj by auto
  from a b c show ?case by (auto simp: min_def)
qed

lemma lev_0: "lev ra rb i 0 = i"
  by (cases i) auto

lemma lev_le_edits:
  "edits n xs ys \<Longrightarrow> xs = take i ra \<Longrightarrow> ys = take j rb \<Longrightarrow> i \<le> length ra \<Longrightarrow> j \<le> length rb
     \<Longrightarrow> lev ra rb i j \<le> n"
proof (induction n xs ys arbitrary: i j rule: edits.induct)
  case edits_nil
  then have "i = 0" "j = 0" by auto
  then show ?case by simp
next
  case (edits_keep n xs ys x)
  obtain i' j' where ij: "i = Suc i'" "j = Suc j'" using edits_keep.prems by (cases i; cases j) auto
  with edits_keep.prems have e: "xs = take i' ra" "x = ra ! i'" "ys = take j' rb" "x = rb ! j'"
    by (auto simp: take_Suc_conv_app_nth)
  with edits_keep ij have "lev ra rb i' j' \<le> n" by simp
  with ij e show ?case by auto
next
  case (edits_subst n xs ys x y)
  obtain i' j' where ij: "i = Suc i'" "j = Suc j'" using edits_subst.prems by (cases i; cases j) auto
  with edits_subst.prems have e: "xs = take i' ra" "ys = take j' rb"
    by (auto simp: take_Suc_conv_app_nth)
  with edits_subst ij have "lev ra rb i' j' \<le> n" by simp
  with ij show ?case by auto
next
  case (edits_delete n xs ys x)
  obtain i' where ij: "i = Suc i'" using edits_delete.prems by (cases i) auto
  with edits_delete.prems have e: "xs = take i' ra" by (auto simp: take_Suc_conv_app_nth)
  with edits_delete ij have "lev ra rb i' j \<le> n" by simp
  with ij show ?case by (cases j) (auto simp: lev_0)
next
  case (edits_insert n xs ys y)
  obtain j' where ij: "j = Suc j'" using edits_insert.prems by (cases j) auto
  with edits_insert.prems have e: "ys = take j' rb" by (auto simp: take_Suc_conv_app_nth)
  with edits_insert ij have "lev ra rb i j' \<le> n" by simp
  with ij show ?case by (cases i) auto
qed

lemma ed_cells:
  assumes "length prev = length rb + 1" "length cur = length rb + 1" "k \<le> length rb"
    and "\<forall>j \<le> length rb. prev ! j = lev ra rb i j"
  shows "let row = foldl (ed_cell ra rb (Suc i) prev) (cur[0 := Suc i]) [1..<k + 1]
         in length row = length rb + 1 \<and> (\<forall>j \<le> k. row ! j = lev ra rb (Suc i) j)"
  using assms(3)
proof (induction k)
  case 0
  then show ?case using assms by (cases cur) (auto simp: lev_0)
next
  case (Suc k)
  let ?row = "foldl (ed_cell ra rb (Suc i) prev) (cur[0 := Suc i]) [1..<k + 1]"
  have IH: "length ?row = length rb + 1" "\<forall>j \<le> k. ?row ! j = lev ra rb (Suc i) j"
    using Suc by (auto simp: Let_def)
  have "[1..<Suc k + 1] = [1..<k + 1] @ [Suc k]" by simp
  then have "foldl (ed_cell ra rb (Suc i) prev) (cur[0 := Suc i]) [1..<Suc k + 1] =
      ?row[Suc k := lev ra rb (Suc i) (Suc k)]"
    using IH assms(4) Suc.prems by (simp add: ed_cell_def)
  with IH Suc.prems show ?case by (auto simp: nth_list_update le_Suc_eq Let_def)
qed

lemma edit_rows_lev:
  "m \<le> length ra \<Longrightarrow>
     let pc = foldl (ed_row ra rb) ([0..<length rb + 1], replicate (length rb + 1) 0) [1..<m + 1]
     in length (fst pc) = length rb + 1 \<and> length (snd pc) = length rb + 1
        \<and> (\<forall>j \<le> length rb. fst pc ! j = lev ra rb m j)"
proof (induction m)
  case 0
  then show ?case by (simp add: nth_append less_Suc_eq_le del: upt_Suc)
next
  case (Suc m)
  define pc where "pc = foldl (ed_row ra rb) ([0..<length rb + 1], replicate (length rb + 1) 0) [1..<m + 1]"
  have IH: "length (fst pc) = length rb + 1" "length (snd pc) = length rb + 1"
    "\<forall>j \<le> length rb. fst pc ! j = lev ra rb m j"
    using Suc by (simp_all add: pc_def Let_def)
  have step: "foldl (ed_row ra rb) ([0..<length rb + 1], replicate (length rb + 1) 0) [1..<Suc m + 1] =
      ed_row ra rb pc (Suc m)"
    by (simp add: pc_def)
  show ?case
    unfolding step using ed_cells[OF IH(1,2) order_refl IH(3)] IH(1)
    by (simp add: ed_row_def case_prod_unfold Let_def del: upt_Suc)
qed

lemma editDistance_lev: "editDistance a b = lev (runes a) (runes b) (length (runes a)) (length (runes b))"
  using edit_rows_lev[of "length (runes a)" "runes a" "runes b"]
  by (simp add: editDistance_def edit_rows_def Let_def)

lemma editDistance_least:
  "edits (editDistance a b) (runes a) (runes b)"
  "edits n (runes a) (runes b) \<Longrightarrow> editDistance a b \<le> n"
  using lev_edits[of "length (runes a)" "runes a" "length (runes b)" "runes b"]
    lev_le_edits[of n "runes a" "runes b" "length (runes a)" "runes a" "length (runes b)" "runes b"]
  by (simp_all add: editDistance_lev)

section \<open>Properties\<close>

text \<open>C22: parsing a rendered specification gives the specification back. For a document whose
  line endings are LF or CR LF, \<open>ParseSpec\<close> of \<open>Render\<close> of its parse has the same requirements
  (names, texts, scenarios, checks, kinds; only line numbers may shift) and the same preamble,
  so the rewrite the archive does loses no requirement.\<close>

theorem spec_roundtrip:
  assumes "CR \<notin> set (crlf_to_lf doc)"
  shows "map erase_req (spRequirements (ParseSpec (Render (ParseSpec doc)))) =
           map erase_req (spRequirements (ParseSpec doc)) \<and>
         spPreamble (ParseSpec (Render (ParseSpec doc))) = spPreamble (ParseSpec doc)"
  using ParseSpec_Render[OF wf_spec_ParseSpec[OF assms]] by blast

theorem spec_roundtrip_witness:
  "map erase_req (spRequirements (ParseSpec (Render (ParseSpec
       (''# S'' @ [LF] @ ''### Requirement: A'' @ [LF] @ ''x'' @ [LF]))))) =
     map erase_req (spRequirements (ParseSpec (''# S'' @ [LF] @ ''### Requirement: A'' @ [LF] @ ''x'' @ [LF])))"
  by (rule spec_roundtrip[THEN conjunct1]) (simp add: crlf_to_lf.simps)

text \<open>C36: \<open>editDistance\<close> is the Levenshtein distance of the two names' runes: some script of
  that many single-rune insertions, deletions and replacements turns one into the other, and no
  shorter one does. The reference is the inductive relation of edit scripts, not a recurrence.\<close>

theorem editDistance_levenshtein:
  "edits (editDistance a b) (runes a) (runes b) \<and>
   (\<forall>n. edits n (runes a) (runes b) \<longrightarrow> editDistance a b \<le> n)"
  using editDistance_least by blast

theorem editDistance_levenshtein_witness:
  "editDistance ''kitten'' ''sitting'' = 3 \<and> edits 3 (runes ''kitten'') (runes ''sitting'')"
proof -
  have e: "editDistance ''kitten'' ''sitting'' = 3" by code_simp
  with editDistance_levenshtein[of "''kitten''" "''sitting''"] show ?thesis by simp
qed

end
