(* ===== verification/ChangeDoc.thy ===== *)
theory ChangeDoc
  imports SpecFacts Frontmatter "HOL-Library.Char_ord" "HOL-Library.List_Lexorder"
begin

text \<open>
  \<open>internal/apexv1/change.go\<close>: a parsed \<open>change.md\<close>, its frontmatter, delta blocks and
  tasks, with the digest and the byte count of its plan. The YAML package is the parameter
  \<open>yaml_lib\<close>; the SHA-256 of \<open>PlanDigest\<close> is the parameter \<open>sha256_hex\<close>, as no fact here
  depends on which digest it is. The order of strings (\<open>sort.Strings\<close>) is the library's
  lexicographic order on bytes.
\<close>

section \<open>Data\<close>

definition OpAdded :: string where "OpAdded = ''ADDED''"
definition OpModified :: string where "OpModified = ''MODIFIED''"
definition OpRemoved :: string where "OpRemoved = ''REMOVED''"

lemmas op_defs [code_eval] = OpAdded_def OpModified_def OpRemoved_def

lemma ops_distinct [simp]:
  "OpAdded \<noteq> OpModified" "OpModified \<noteq> OpAdded" "OpAdded \<noteq> OpRemoved" "OpRemoved \<noteq> OpAdded"
  "OpModified \<noteq> OpRemoved" "OpRemoved \<noteq> OpModified"
  by (simp_all add: op_defs)

record changeMeta =
  mID :: string
  mMilestone :: string
  mTouches :: "string list"
  mPaths :: "string list"
  mDecisions :: "string list"
  mRetire :: "string list"
  mType :: string
  mReviewTools :: "string list"
  mAdvise :: "string list"
  mDocs :: bool

definition empty_meta :: changeMeta where
  "empty_meta = \<lparr>mID = [], mMilestone = [], mTouches = [], mPaths = [], mDecisions = [], mRetire = [],
     mType = [], mReviewTools = [], mAdvise = [], mDocs = False\<rparr>"

record delta =
  dOp :: string
  dCapability :: string
  dName :: string
  dLine :: nat
  dReq :: requirement
  dReason :: string
  dExtra :: nat
  dPurpose :: string
  dPurposeLine :: nat

record task =
  tID :: string
  tWhat :: string
  tCheck :: string
  tRegression :: bool
  tTool :: string
  tFull :: bool
  tLive :: bool
  tLine :: nat

definition Human :: "task \<Rightarrow> bool" where
  "Human t \<longleftrightarrow> tCheck t = HumanReview"

datatype metaError = NoFrontmatter | FrontmatterUnparsed

text \<open>A \<open>docs:\<close> value that is no boolean: a scalar as written, or a list or mapping.\<close>

datatype badDocs = BadScalar string | BadList

record change =
  cMeta :: changeMeta
  cMetaErr :: "metaError option"
  cTitle :: string
  cH2 :: "mdSection list"
  cDeltaNone :: string
  cDeltas :: "delta list"
  cTasks :: "task list"
  cUnknownKeys :: "string list"
  cBadDocs :: "badDocs option"
  cParse :: "finding list"
  cFile :: string
  cRaw :: string

text \<open>
  The YAML package: the decoded frontmatter with whether decoding succeeded (a failure may
  leave some fields set), its top-level keys, and the \<open>docs:\<close> node.
\<close>

datatype docsNode = DocsAbsent | DocsBool bool | DocsScalar string | DocsCollection

record yaml_lib =
  yMeta :: "string \<Rightarrow> changeMeta \<times> bool"
  yKeys :: "string \<Rightarrow> string list option"
  yDocs :: "string \<Rightarrow> docsNode option"

definition knownChangeKeys :: "string set" where
  "knownChangeKeys = {''id'', ''milestone'', ''touches'', ''paths'', ''decisions'', ''retire'', ''type'',
     ''review_tools'', ''docs'', ''advise''}"

definition unknownKeys :: "yaml_lib \<Rightarrow> string \<Rightarrow> string list" where
  "unknownKeys y fm = (case yKeys y fm of
      None \<Rightarrow> []
    | Some keys \<Rightarrow> sort (filter (\<lambda>k. k \<notin> knownChangeKeys \<and> \<not> HasPrefix k ''x-'') keys))"

definition docsFlag :: "yaml_lib \<Rightarrow> string \<Rightarrow> bool \<times> badDocs option" where
  "docsFlag y fm = (case yDocs y fm of
      None \<Rightarrow> (False, None)
    | Some DocsAbsent \<Rightarrow> (False, None)
    | Some (DocsBool b) \<Rightarrow> (b, None)
    | Some DocsCollection \<Rightarrow> (False, Some BadList)
    | Some (DocsScalar v) \<Rightarrow> (False, Some (BadScalar v)))"

section \<open>The regular expressions\<close>

text \<open>Each is computed directly: at every point at most one alternative can go on to match.\<close>

definition skip_spaces1 :: "string \<Rightarrow> string option" where
  "skip_spaces1 s = (case s of [] \<Rightarrow> None | c # r \<Rightarrow> if re_space c then Some (dropWhile re_space r) else None)"

definition delta_op :: "string \<Rightarrow> string option" where
  "delta_op s = find (HasPrefix s) [OpAdded, OpModified, OpRemoved]"

definition match_delta_head :: "string \<Rightarrow> (string \<times> string \<times> string) option" where
  "match_delta_head s = (case delta_op s of
      None \<Rightarrow> None
    | Some op \<Rightarrow>
      (case skip_spaces1 (drop (length op) s) of
         Some (c # r) \<Rightarrow>
           if c \<noteq> CHR ''['' then None
           else (case dropWhile (\<lambda>x. x \<noteq> CHR '']'') r of
                   _ # r2 \<Rightarrow>
                     (case skip_spaces1 r2 of
                        Some r3 \<Rightarrow>
                          if \<not> HasPrefix r3 RequirementPrefix then None
                          else let name = dropWhile re_space (drop (length RequirementPrefix) r3)
                               in if LF \<in> set name then None
                                  else Some (op, takeWhile (\<lambda>x. x \<noteq> CHR '']'') r, name)
                      | None \<Rightarrow> None)
                 | [] \<Rightarrow> None)
       | _ \<Rightarrow> None))"

definition em_dash :: string where "em_dash = [CHR 0xE2, CHR 0x80, CHR 0x94]"
definition en_dash :: string where "en_dash = [CHR 0xE2, CHR 0x80, CHR 0x93]"
definition dashes :: "string list" where "dashes = [em_dash, en_dash, ''-'']"

lemmas dash_defs [code_eval] = em_dash_def en_dash_def dashes_def

definition match_delta_none :: "string \<Rightarrow> string option" where
  "match_delta_none s =
     (if \<not> HasPrefix s ''none'' then None
      else let r = dropWhile re_space (drop 4 s); n = lead_len (dashes @ ['':'']) r;
               v = dropWhile re_space (drop n r)
           in if n = 0 \<or> v = [] \<or> LF \<in> set v then None else Some v)"

definition match_task_item :: "string \<Rightarrow> string option" where
  "match_task_item s =
     (if length (takeWhile re_space s) > 3 then None
      else (case dropWhile re_space s of
              c # r \<Rightarrow> if c \<in> set ''-*+'' then
                         (case skip_spaces1 r of
                            Some v \<Rightarrow> if LF \<in> set v then None else Some v
                          | None \<Rightarrow> None)
                       else None
            | [] \<Rightarrow> None))"

text \<open>\<open>taskIDRe\<close>: whether a checkbox precedes, the id, and the rest.\<close>

definition skip_checkbox :: "string \<Rightarrow> bool \<times> string" where
  "skip_checkbox s = (case s of
      a # b # c # r \<Rightarrow> if a = CHR ''['' \<and> b \<in> set '' xX'' \<and> c = CHR '']'' then (True, dropWhile re_space r) else (False, s)
    | _ \<Rightarrow> (False, s))"

definition match_task_id :: "string \<Rightarrow> (bool \<times> string \<times> string) option" where
  "match_task_id s =
     (let (boxed, r) = skip_checkbox s in
      case r of
        [] \<Rightarrow> None
      | c # r1 \<Rightarrow>
          let ds = takeWhile is_digit r1; r2 = dropWhile is_digit r1;
              r3 = (case r2 of p # q \<Rightarrow> if p \<in> set '':.)'' then q else r2 | [] \<Rightarrow> []);
              v = dropWhile re_space r3
          in if c \<noteq> CHR ''T'' \<or> ds = [] \<or> (r2 \<noteq> [] \<and> is_word_char (hd r2)) \<or> LF \<in> set v then None
             else Some (boxed, c # ds, v))"

text \<open>A dash run with the spaces after it, as the separator expressions take it.\<close>

definition skip_dashes :: "string \<Rightarrow> string option" where
  "skip_dashes s = (if lead_len dashes s = 0 then None else Some (dropWhile re_space (strip dashes s)))"

definition task_sep_at :: "string \<Rightarrow> (bool \<times> string option \<times> string) option" where
  "task_sep_at s = (case skip_dashes s of
      None \<Rightarrow> None
    | Some r \<Rightarrow>
        let kw = (if HasPrefix r ''check'' then Some (False, drop 5 r)
                  else if HasPrefix r ''regression'' then Some (True, drop 10 r) else None)
        in case kw of
             None \<Rightarrow> None
           | Some (reg, r2) \<Rightarrow> (case match_kind_colon r2 of
                                  None \<Rightarrow> None
                                | Some (kind, tail) \<Rightarrow> Some (reg, kind, tail)))"

definition tool_sep_at :: "string \<Rightarrow> string option" where
  "tool_sep_at s = (case skip_dashes s of
      None \<Rightarrow> None
    | Some r \<Rightarrow> if \<not> HasPrefix r ''tool:'' then None
                else let v = rev (dropWhile re_space (rev (dropWhile re_space (drop 5 r))))
                     in if v = [] \<or> LF \<in> set v then None else Some v)"

text \<open>
  The leftmost match of \<open>(?:^|\s)X\<close>: \<open>X\<close> tried at the very start first, then after each
  space; returns what precedes the match and \<open>X\<close>'s value.
\<close>

fun search_sep :: "(string \<Rightarrow> 'a option) \<Rightarrow> bool \<Rightarrow> string \<Rightarrow> (string \<times> 'a) option" where
  "search_sep X bos [] = (if bos then map_option (\<lambda>v. ([], v)) (X []) else None)"
| "search_sep X bos (c # s) =
     (case (if bos then X (c # s) else None) of
        Some v \<Rightarrow> Some ([], v)
      | None \<Rightarrow>
          (case (if re_space c then X s else None) of
             Some v \<Rightarrow> Some ([], v)
           | None \<Rightarrow> map_option (\<lambda>(pre, v). (c # pre, v)) (search_sep X False s)))"

section \<open>Delta blocks\<close>

definition takePurpose :: "delta \<Rightarrow> mdLine list \<Rightarrow> bool \<Rightarrow> (delta \<times> mdLine list) option" where
  "takePurpose d lines bodyEmpty = (case lines of
      [] \<Rightarrow> None
    | l # _ \<Rightarrow>
        if dOp d \<noteq> OpAdded \<or> mdInCode l \<or> dPurposeLine d \<noteq> 0 \<or> \<not> HasPrefix (TrimSpace (mdText l)) PurposePrefix
        then None
        else let (purpose, n) = purposeBlock lines; rest = drop n lines
             in Some (d\<lparr>dPurpose := purpose, dPurposeLine := mdN l\<rparr>,
                      if bodyEmpty then dropWhile (\<lambda>m. TrimSpace (mdText m) = []) rest else rest))"

lemma takePurpose_shorter:
  "takePurpose d (l # ls) b = Some (d', rest) \<Longrightarrow> length rest < Suc (length ls)"
  by (auto simp: takePurpose_def purposeBlock_def Let_def le_imp_less_Suc
      intro: le_less_trans[OF length_dropWhile_le] split: if_splits)

function flush_lines :: "delta \<Rightarrow> mdLine list \<Rightarrow> mdLine list \<Rightarrow> delta \<times> mdLine list" where
  "flush_lines d body [] = (d, body)"
| "flush_lines d body (l # ls) =
     (case takePurpose d (l # ls) (body = []) of
        Some (d', rest) \<Rightarrow> flush_lines d' body rest
      | None \<Rightarrow>
          let t = TrimSpace (mdText l) in
          if dOp d = OpRemoved then
            if \<not> mdInCode l \<and> HasPrefix t ''Reason:''
            then flush_lines (d\<lparr>dReason := TrimSpace (TrimPrefix t ''Reason:'')\<rparr>) body ls
            else flush_lines (if dExtra d = 0 \<and> t \<noteq> [] \<and> hasProse [l] then d\<lparr>dExtra := mdN l\<rparr> else d) (body @ [l]) ls
          else flush_lines d (body @ [l]) ls)"
  by pat_completeness auto
termination
  by (relation "measure (\<lambda>(d, b, ls). length ls)") (auto dest: takePurpose_shorter)

definition flush_delta :: "delta \<Rightarrow> mdLine list \<Rightarrow> delta" where
  "flush_delta d curLines =
     (let head = \<lparr>mdN = dLine d, mdText = ''### '' @ RequirementPrefix @ '' '' @ dName d, mdInCode = False\<rparr>;
          (d', body) = flush_lines d [] curLines
      in d'\<lparr>dReq := buildRequirement (empty_requirement (dName d') (dLine d')) (head # body)\<rparr>)"

record delta_loop =
  dlDeltas :: "delta list"
  dlCur :: "nat option"
  dlCurLines :: "mdLine list"
  dlLoose :: "mdLine list"
  dlSkipping :: bool
  dlParse :: "finding list"

definition dl_flush :: "delta_loop \<Rightarrow> delta_loop" where
  "dl_flush st = (case dlCur st of
      None \<Rightarrow> st
    | Some c \<Rightarrow> st\<lparr>dlDeltas := (dlDeltas st)[c := flush_delta (dlDeltas st ! c) (dlCurLines st)], dlCurLines := []\<rparr>)"

definition new_delta :: "string \<Rightarrow> string \<Rightarrow> string \<Rightarrow> nat \<Rightarrow> delta" where
  "new_delta op cap name n =
     \<lparr>dOp = op, dCapability = cap, dName = name, dLine = n, dReq = empty_requirement [] 0,
      dReason = [], dExtra = 0, dPurpose = [], dPurposeLine = 0\<rparr>"

definition dl_step :: "string \<Rightarrow> delta_loop \<Rightarrow> mdLine \<Rightarrow> delta_loop" where
  "dl_step file st l =
     (if fst (headingLevel l) = 3
      then (let st' = dl_flush st in
            case match_delta_head (snd (headingLevel l)) of
              None \<Rightarrow> st'\<lparr>dlCur := None, dlSkipping := True,
                          dlParse := dlParse st' @ [mk_finding file (mdN l) DeltaHeadingShape]\<rparr>
            | Some (op, cap, name) \<Rightarrow>
                st'\<lparr>dlDeltas := dlDeltas st' @ [new_delta op (TrimSpace cap) (TrimSpace name) (mdN l)],
                    dlCur := Some (length (dlDeltas st')), dlSkipping := False\<rparr>)
      else (case dlCur st of
              Some c \<Rightarrow> st\<lparr>dlCurLines := dlCurLines st @ [l]\<rparr>
            | None \<Rightarrow> if dlSkipping st then st else st\<lparr>dlLoose := dlLoose st @ [l]\<rparr>))"

definition prose_line :: "mdLine \<Rightarrow> bool" where
  "prose_line l \<longleftrightarrow> TrimSpace (mdText l) \<noteq> [] \<and> hasProse [l]"

fun delta_none_go :: "string \<Rightarrow> string \<Rightarrow> finding list \<Rightarrow> mdLine list \<Rightarrow> string \<times> finding list" where
  "delta_none_go file none fs [] = (none, fs)"
| "delta_none_go file none fs (l # ls) =
     (if \<not> prose_line l then delta_none_go file none fs ls
      else (case match_delta_none (TrimSpace (mdText l)) of
              Some v \<Rightarrow>
                if none = [] then delta_none_go file (TrimSpace v) fs ls
                else delta_none_go file none (fs @ [mk_finding file (mdN l) DeltaNothingElse]) ls
            | None \<Rightarrow> delta_none_go file none (fs @ [mk_finding file (mdN l) DeltaNothingElse]) ls))"

text \<open>\<open>parseDelta\<close>: the deltas, the \<open>none\<close> reason and the findings.\<close>

definition parseDelta :: "string \<Rightarrow> mdLine list \<Rightarrow> delta list \<times> string \<times> finding list" where
  "parseDelta file body =
     (let st = dl_flush (foldl (dl_step file)
                 \<lparr>dlDeltas = [], dlCur = None, dlCurLines = [], dlLoose = [], dlSkipping = False, dlParse = []\<rparr> body)
      in if dlDeltas st \<noteq> []
         then (dlDeltas st, [],
               dlParse st @ (case find prose_line (dlLoose st) of
                               None \<Rightarrow> []
                             | Some l \<Rightarrow> [mk_finding file (mdN l) DeltaTextBefore]))
         else if dlSkipping st then ([], [], dlParse st)
         else let (none, fs) = delta_none_go file [] (dlParse st) (dlLoose st) in ([], none, fs))"

section \<open>Tasks\<close>

definition task_check_what :: "string \<Rightarrow> string" where
  "task_check_what tid = ''task '' @ tid @ [CHR 0x27] @ ''s check''"

definition taskCheckKind :: "task \<Rightarrow> string \<Rightarrow> bool \<times> message option" where
  "taskCheckKind t kind =
     (if tRegression t then (False, Some (TaskRegressionKind (tID t) kind))
      else (case badCheckKind (task_check_what (tID t)) kind (tCheck t) True of
              Some why \<Rightarrow> (False, Some why)
            | None \<Rightarrow> (isFullKind kind, None)))"

definition backquote :: string where "backquote = [CHR 0x60]"

definition trim_what :: "string \<Rightarrow> string" where
  "trim_what s = rev (strip (map rev ([[CHR '' ''], [TAB]] @ dashes)) (rev (TrimSpace s)))"

text \<open>The check of a task line's rest: the task with its kind's finding.\<close>

definition task_check :: "task \<Rightarrow> string \<Rightarrow> task \<times> message option" where
  "task_check t rest = (case search_sep task_sep_at True rest of
      Some (what, reg, kind, tail) \<Rightarrow>
        let t' = t\<lparr>tWhat := TrimSpace what, tCheck := Trim (TrimSpace tail) backquote, tRegression := reg\<rparr>
        in (case kind of
              None \<Rightarrow> (t', None)
            | Some k \<Rightarrow> let (full, bad) = taskCheckKind t' (TrimSpace k) in (t'\<lparr>tFull := full, tLive := full\<rparr>, bad))
    | None \<Rightarrow>
        (case LastIndex rest ''check:'' of
           Some i \<Rightarrow> (t\<lparr>tWhat := trim_what (take i rest), tCheck := Trim (TrimSpace (drop (i + 6) rest)) backquote\<rparr>, None)
         | None \<Rightarrow> (t\<lparr>tWhat := TrimSpace rest\<rparr>, None)))"

definition task_tool :: "task \<Rightarrow> task" where
  "task_tool t = (case search_sep tool_sep_at True (tWhat t) of
      Some (what, tool) \<Rightarrow> t\<lparr>tTool := Trim tool backquote, tWhat := TrimSpace what\<rparr>
    | None \<Rightarrow> t)"

definition empty_task :: "string \<Rightarrow> nat \<Rightarrow> task" where
  "empty_task tid n = \<lparr>tID = tid, tWhat = [], tCheck = [], tRegression = False, tTool = [], tFull = False,
     tLive = False, tLine = n\<rparr>"

text \<open>One line of \<open>parseTasks\<close>: its task, if it is one, and its findings.\<close>

definition parse_task_line :: "string \<Rightarrow> mdLine \<Rightarrow> task option \<times> finding list" where
  "parse_task_line file l =
     (if mdInCode l then (None, [])
      else (case match_task_item (mdText l) of
              None \<Rightarrow> (None, [])
            | Some raw \<Rightarrow>
                if HasPrefix (mdText l) ''    '' \<or> HasPrefix (mdText l) [TAB] then (None, [])
                else (case match_task_id (TrimSpace raw) of
                        None \<Rightarrow> (None, [mk_finding file (mdN l) TaskGrammar])
                      | Some (boxed, tid, rest) \<Rightarrow>
                          let (t1, bad) = task_check (empty_task tid (mdN l)) rest; t = task_tool t1 in
                          (Some t,
                           (if boxed then [mk_finding file (mdN l) TaskCheckbox] else []) @
                           (case bad of None \<Rightarrow> [] | Some why \<Rightarrow> [mk_finding file (mdN l) why]) @
                           (if tRegression t \<and> (tCheck t = HumanReview \<or> tCheck t = [])
                            then [mk_finding file (mdN l) (TaskRegressionNoCommand tid)] else [])))))"

definition parseTasks :: "string \<Rightarrow> mdLine list \<Rightarrow> task list \<times> finding list" where
  "parseTasks file body =
     (List.map_filter (\<lambda>l. fst (parse_task_line file l)) body,
      concat (map (\<lambda>l. snd (parse_task_line file l)) body))"

section \<open>The whole document\<close>

definition find_section :: "mdSection list \<Rightarrow> string \<Rightarrow> mdSection option" where
  "find_section secs title = find (\<lambda>s. EqualFold (secTitle s) title) secs"

definition sectionOf :: "change \<Rightarrow> string \<Rightarrow> mdSection option" where
  "sectionOf c title = find_section (cH2 c) title"

definition count_lf :: "string \<Rightarrow> nat" where
  "count_lf s = length (filter (\<lambda>c. c = LF) s)"

definition first_h1 :: "mdLine list \<Rightarrow> string" where
  "first_h1 lines = (case find (\<lambda>l. fst (headingLevel l) = 1) lines of
      None \<Rightarrow> [] | Some l \<Rightarrow> snd (headingLevel l))"

definition change_body :: "string \<Rightarrow> string" where
  "change_body doc = (case fm_Split doc of None \<Rightarrow> doc | Some (fm, body) \<Rightarrow> body)"

text \<open>The lines after the frontmatter, numbered as in the file.\<close>

definition change_lines :: "string \<Rightarrow> mdLine list" where
  "change_lines doc =
     (let body = change_body doc;
          offset = (if length body < length doc then count_lf (take (length doc - length body) doc) else 0)
      in map (\<lambda>l. l\<lparr>mdN := mdN l + offset\<rparr>) (splitLines body))"

definition parse_meta :: "yaml_lib \<Rightarrow> string \<Rightarrow> changeMeta \<times> metaError option \<times> string list \<times> badDocs option" where
  "parse_meta y doc = (case fm_Split doc of
      None \<Rightarrow> (empty_meta, Some NoFrontmatter, [], None)
    | Some (fm, body) \<Rightarrow>
        (case yMeta y fm of
           (m, False) \<Rightarrow> (m, Some FrontmatterUnparsed, [], None)
         | (m, True) \<Rightarrow> (m\<lparr>mDocs := fst (docsFlag y fm)\<rparr>, None, unknownKeys y fm, snd (docsFlag y fm))))"

definition ParseChange :: "yaml_lib \<Rightarrow> string \<Rightarrow> string \<Rightarrow> change" where
  "ParseChange y file doc =
     (let (meta, err, unknown, bad) = parse_meta y doc;
          lines = change_lines doc;
          secs = h2Sections lines;
          (deltas, none, fs1) = (case find_section secs ''Delta'' of
              None \<Rightarrow> ([], [], []) | Some d \<Rightarrow> parseDelta file (secBody d));
          (tasks, fs2) = (case find_section secs ''Tasks'' of
              None \<Rightarrow> ([], []) | Some t \<Rightarrow> parseTasks file (secBody t))
      in \<lparr>cMeta = meta, cMetaErr = err, cTitle = first_h1 lines, cH2 = secs, cDeltaNone = none,
          cDeltas = deltas, cTasks = tasks, cUnknownKeys = unknown, cBadDocs = bad,
          cParse = fs1 @ fs2, cFile = file, cRaw = doc\<rparr>)"

lemma ParseChange_sel [simp]:
  "cH2 (ParseChange y file doc) = h2Sections (change_lines doc)"
  "cRaw (ParseChange y file doc) = doc" "cFile (ParseChange y file doc) = file"
  "cTasks (ParseChange y file doc) =
     (case find_section (h2Sections (change_lines doc)) ''Tasks'' of
        None \<Rightarrow> [] | Some t \<Rightarrow> fst (parseTasks file (secBody t)))"
  "cDeltas (ParseChange y file doc) =
     (case find_section (h2Sections (change_lines doc)) ''Delta'' of
        None \<Rightarrow> [] | Some d \<Rightarrow> fst (parseDelta file (secBody d)))"
  by (simp_all add: ParseChange_def Let_def case_prod_unfold split: option.split)

definition Task :: "change \<Rightarrow> string \<Rightarrow> task option" where
  "Task c tid = find (\<lambda>t. tID t = tid) (cTasks c)"

definition CommandTasks :: "change \<Rightarrow> task list" where
  "CommandTasks c = filter (\<lambda>t. tCheck t \<noteq> [] \<and> \<not> Human t) (cTasks c)"

definition HumanTasks :: "change \<Rightarrow> string list" where
  "HumanTasks c = map tID (filter Human (cTasks c))"

type_synonym reqKey = "string \<times> string"

definition key :: "delta \<Rightarrow> reqKey" where
  "key d = (dCapability d, dName d)"

section \<open>The plan\<close>

text \<open>
  The bytes \<open>PlanDigest\<close> hashes: \<open>skip\<close> is the loop's flag, true inside \<open>## Why\<close> and
  \<open>## Notes\<close>.
\<close>

fun plan_go :: "bool \<Rightarrow> mdLine list \<Rightarrow> string" where
  "plan_go skip [] = []"
| "plan_go skip (l # ls) =
     (let (lv, title) = headingLevel l;
          t = TrimRight (mdText l) [CHR '' '', TAB];
          kept = (if t = [] then [] else t @ [LF]) in
      if lv > 0 \<and> lv \<le> 2
      then (if lv = 2 \<and> (EqualFold title ''Why'' \<or> EqualFold title ''Notes'')
            then ''## '' @ title @ [LF] @ plan_go True ls
            else kept @ plan_go False ls)
      else if skip then plan_go skip ls
      else kept @ plan_go skip ls)"

definition plan_text :: "string \<Rightarrow> string" where
  "plan_text raw = plan_go False (splitLines raw)"

definition PlanDigest :: "(string \<Rightarrow> string) \<Rightarrow> change \<Rightarrow> string" where
  "PlanDigest sha256_hex c = sha256_hex (plan_text (cRaw c))"

text \<open>\<open>strings.SplitAfter(s, "\n")\<close>: the pieces keep their newline.\<close>

fun split_after :: "string \<Rightarrow> string list" where
  "split_after [] = [[]]"
| "split_after (c # s) =
     (if c = LF then [c] # split_after s
      else (case split_after s of [] \<Rightarrow> [[c]] | l # ls \<Rightarrow> (c # l) # ls))"

fun notes_bytes :: "bool \<Rightarrow> mdLine list \<Rightarrow> string list \<Rightarrow> nat" where
  "notes_bytes notes (l # ls) (r # rs) =
     (let (lv, title) = headingLevel l;
          notes' = (if lv > 0 \<and> lv \<le> 2 then lv = 2 \<and> EqualFold title ''Notes'' else notes)
      in (if notes' then length r else 0) + notes_bytes notes' ls rs)"
| "notes_bytes notes _ _ = 0"

definition PlanBytes :: "change \<Rightarrow> nat" where
  "PlanBytes c = length (cRaw c) - notes_bytes False (splitLines (cRaw c)) (split_after (cRaw c))"

section \<open>What a MODIFIED block loses\<close>

datatype loss = DropsScenario string | ChangesCheck string string string

definition firstCheck :: "scenario \<Rightarrow> string" where
  "firstCheck s = (case scChecks s of [] \<Rightarrow> [] | c # _ \<Rightarrow> c)"

text \<open>\<open>byName\<close> holds the last scenario of each name, as the loop overwrites.\<close>

definition by_name :: "scenario list \<Rightarrow> string \<Rightarrow> scenario option" where
  "by_name ss = assoc_last (map (\<lambda>s. (scName s, s)) ss)"

definition scenarioLoss :: "requirement \<Rightarrow> requirement \<Rightarrow> loss list" where
  "scenarioLoss existing modified =
     concat (map (\<lambda>old. case by_name (rqScenarios modified) (scName old) of
                          None \<Rightarrow> [DropsScenario (scName old)]
                        | Some now \<Rightarrow> if firstCheck old \<noteq> firstCheck now
                                      then [ChangesCheck (scName old) (firstCheck old) (firstCheck now)] else [])
                 (rqScenarios existing))"

end
