(* ===== verification/PlanFacts.thy ===== *)
theory PlanFacts
  imports ChangeDoc
begin

text \<open>
  What the plan digest freezes. \<open>plan_lines\<close> is the text \<open>PlanDigest\<close> hashes, line by line;
  the tasks of a change are a function of it (\<open>tasks_of_plan\<close>), so two documents whose plan
  text agrees have the same tasks, whatever their \<open>## Why\<close>, \<open>## Notes\<close> and white space.
\<close>

section \<open>Trailing blanks and trimming\<close>

lemma lead_len_cong: "\<forall>u\<in>set us. HasPrefix s u = HasPrefix t u \<Longrightarrow> lead_len us s = lead_len us t"
  by (induction us) auto

lemma rune_prefix_blank:
  assumes "u \<in> set space_runes" and "x \<noteq> []" and "set w \<subseteq> {CHR '' '', TAB}"
  shows "HasPrefix (x @ w) u = HasPrefix x u"
proof -
  have tail: "set (tl u) \<inter> {CHR '' '', TAB} = {}" "u \<noteq> []"
    using assms(1) by (auto simp: space_runes_def)
  obtain c y where x: "x = c # y" using assms(2) by (cases x) auto
  obtain a v where u: "u = a # v" using tail(2) by (cases u) auto
  have "HasPrefix (y @ w) v = HasPrefix y v"
    using tail(1) assms(3) unfolding u list.sel
  proof (induction v arbitrary: y)
    case (Cons b v)
    show ?case
    proof (cases y)
      case Nil
      then show ?thesis using Cons.prems by (cases w) (auto simp: HasPrefix_def)
    next
      case (Cons d y')
      then show ?thesis using Cons.prems Cons.IH[of y'] by simp
    qed
  qed simp
  then show ?thesis by (simp add: x u)
qed

lemma lead_len_blank:
  "lead_len space_runes (CHR '' '' # s) = 1" "lead_len space_runes (TAB # s) = 1"
  "lead_len (map rev space_runes) (CHR '' '' # s) = 1" "lead_len (map rev space_runes) (TAB # s) = 1"
  by (simp_all add: space_runes_def)

lemma strip_blank_front: "set w \<subseteq> {CHR '' '', TAB} \<Longrightarrow> strip space_runes (w @ s) = strip space_runes s"
proof (induction w)
  case (Cons c w)
  then have "c = CHR '' '' \<or> c = TAB" by auto
  then have "lead_len space_runes (c # w @ s) = 1" using lead_len_blank(1,2) by blast
  then have "strip space_runes (c # w @ s) = strip space_runes (w @ s)"
    by (subst strip.simps) simp
  with Cons show ?case by simp
qed simp

lemma strip_blank_back: "set w \<subseteq> {CHR '' '', TAB} \<Longrightarrow> strip (map rev space_runes) (w @ s) = strip (map rev space_runes) s"
proof (induction w)
  case (Cons c w)
  then have "c = CHR '' '' \<or> c = TAB" by auto
  then have "lead_len (map rev space_runes) (c # w @ s) = 1" using lead_len_blank(3,4) by blast
  then have "strip (map rev space_runes) (c # w @ s) = strip (map rev space_runes) (w @ s)"
    by (subst strip.simps) simp
  with Cons show ?case by simp
qed simp

lemma strip_append_blank:
  assumes w: "set w \<subseteq> {CHR '' '', TAB}"
  shows "strip space_runes (x @ w) = (if strip space_runes x = [] then [] else strip space_runes x @ w)"
proof (induction "length x" arbitrary: x rule: less_induct)
  case less
  show ?case
  proof (cases "x = []")
    case True
    then show ?thesis using strip_blank_front[OF w, of "[]"] by (simp add: strip.simps)
  next
    case False
    have ll: "lead_len space_runes (x @ w) = lead_len space_runes x"
      using rune_prefix_blank[OF _ False w] by (intro lead_len_cong) blast
    show ?thesis
    proof (cases "lead_len space_runes x = 0")
      case True
      then show ?thesis using False ll by (simp add: strip.simps[of _ "x @ w"] strip.simps[of _ x])
    next
      case nz: False
      then obtain u where "u \<in> set space_runes" "HasPrefix x u" "lead_len space_runes x = length u"
        using lead_len_prefix by blast
      then have le: "lead_len space_runes x \<le> length x" by (auto simp: HasPrefix_iff)
      have "strip space_runes (x @ w) = strip space_runes (drop (lead_len space_runes x) x @ w)"
        using nz ll le False by (subst strip.simps) simp
      moreover have "strip space_runes x = strip space_runes (drop (lead_len space_runes x) x)"
        using nz False by (subst strip.simps) simp
      ultimately show ?thesis using less[of "drop (lead_len space_runes x) x"] nz False by simp
    qed
  qed
qed

lemma TrimSpace_append_blank:
  assumes "set w \<subseteq> {CHR '' '', TAB}"
  shows "TrimSpace (x @ w) = TrimSpace x"
  using strip_append_blank[OF assms, of x] strip_blank_back[of "rev w"] assms
  by (simp add: TrimSpace_def)

lemma TrimRight_decomp: "\<exists>w. s = TrimRight s cs @ w \<and> set w \<subseteq> set cs"
proof -
  have "s = TrimRight s cs @ rev (takeWhile (\<lambda>c. c \<in> set cs) (rev s))"
    unfolding TrimRight_def by (metis rev_append rev_rev_ident takeWhile_dropWhile_id)
  then show ?thesis by (metis set_rev set_takeWhileD subsetI)
qed

lemma TrimSpace_TrimRight [simp]: "TrimSpace (TrimRight s [CHR '' '', TAB]) = TrimSpace s"
  using TrimRight_decomp[of s "[CHR '' '', TAB]"] TrimSpace_append_blank
  by (metis empty_set list.simps(15))



section \<open>The plan, line by line\<close>

definition skipped_title :: "string \<Rightarrow> bool" where
  "skipped_title t \<longleftrightarrow> EqualFold t ''Why'' \<or> EqualFold t ''Notes''"

definition skipped_heading :: "mdLine \<Rightarrow> bool" where
  "skipped_heading l \<longleftrightarrow> fst (headingLevel l) = 2 \<and> skipped_title (snd (headingLevel l))"

definition clean :: "mdLine \<Rightarrow> mdLine" where
  "clean l = \<lparr>mdN = 0, mdText = TrimRight (mdText l) [CHR '' '', TAB], mdInCode = mdInCode l\<rparr>"

definition bare_heading :: "mdLine \<Rightarrow> mdLine" where
  "bare_heading l = \<lparr>mdN = 0, mdText = ''## '' @ snd (headingLevel l), mdInCode = False\<rparr>"

fun plan_lines :: "bool \<Rightarrow> mdLine list \<Rightarrow> mdLine list" where
  "plan_lines skip [] = []"
| "plan_lines skip (l # ls) =
     (if skipped_heading l then bare_heading l # plan_lines True ls
      else if top_heading l then clean l # plan_lines False ls
      else if skip \<or> mdText (clean l) = [] then plan_lines skip ls
      else clean l # plan_lines skip ls)"

lemma clean_sel [simp]:
  "mdInCode (clean l) = mdInCode l" "mdText (clean l) = TrimRight (mdText l) [CHR '' '', TAB]"
  "headingLevel (clean l) = headingLevel l" "top_heading (clean l) = top_heading l"
  by (simp_all add: clean_def headingLevel_def top_heading_def)

lemma top_heading_text: "top_heading l \<Longrightarrow> mdText (clean l) \<noteq> []"
  by (auto simp: top_heading_def headingLevel_def Let_def split: if_splits)

lemma skipped_top: "skipped_heading l \<Longrightarrow> top_heading l"
  by (simp add: skipped_heading_def top_heading_def)

lemma plan_go_lines: "plan_go skip ls = joinBody (plan_lines skip ls)"
proof (induction ls arbitrary: skip)
  case Nil
  then show ?case by (simp add: joinBody_def)
next
  case (Cons l ls)
  obtain lv title where h: "headingLevel l = (lv, title)" by (cases "headingLevel l")
  have t: "top_heading l \<longleftrightarrow> 0 < lv \<and> lv \<le> 2" by (simp add: top_heading_def h)
  have s: "skipped_heading l \<longleftrightarrow> lv = 2 \<and> skipped_title title" by (simp add: skipped_heading_def h)
  show ?case
    using Cons.IH top_heading_text[of l]
    by (auto simp: joinBody_def h t s skipped_title_def bare_heading_def)
qed

section \<open>Trimming is idempotent\<close>

lemma lead_len_0_iff: "lead_len us s = 0 \<longleftrightarrow> (\<forall>u\<in>set us. u = [] \<or> \<not> HasPrefix s u)"
  by (induction us) auto

lemma strip_done: "strip us s = [] \<or> lead_len us (strip us s) = 0"
proof (induction us s rule: strip.induct)
  case (1 us s)
  then show ?case by (cases "s = [] \<or> lead_len us s = 0") (auto simp: strip.simps[of us s])
qed

lemma strip_suffix: "\<exists>p. s = p @ strip us s"
proof (induction us s rule: strip.induct)
  case (1 us s)
  show ?case
  proof (cases "s = [] \<or> lead_len us s = 0")
    case True
    then show ?thesis by (auto simp: strip.simps[of us s])
  next
    case False
    from "1"[OF False] obtain p where "drop (lead_len us s) s = p @ strip us (drop (lead_len us s) s)" ..
    with False have "s = (take (lead_len us s) s @ p) @ strip us s"
      by (metis append.assoc append_take_drop_id strip.simps)
    then show ?thesis by blast
  qed
qed

lemma TrimSpace_ends:
  assumes "TrimSpace s \<noteq> []"
  shows "lead_len space_runes (TrimSpace s) = 0" and "lead_len (map rev space_runes) (rev (TrimSpace s)) = 0"
proof -
  let ?a = "strip space_runes s" and ?b = "strip (map rev space_runes) (rev (strip space_runes s))"
  have b: "TrimSpace s = rev ?b" by (simp add: TrimSpace_def)
  obtain p where p: "rev ?a = p @ ?b" using strip_suffix by blast
  then have a: "?a = TrimSpace s @ rev p" using b by (metis rev_append rev_rev_ident)
  then have "lead_len space_runes ?a = 0" using assms strip_done[of space_runes s] by auto
  then show "lead_len space_runes (TrimSpace s) = 0"
    unfolding lead_len_0_iff by (metis a HasPrefix_iff append.assoc)
  show "lead_len (map rev space_runes) (rev (TrimSpace s)) = 0"
    using assms strip_done[of "map rev space_runes" "rev ?a"] b by auto
qed

lemma TrimSpace_idem [simp]: "TrimSpace (TrimSpace s) = TrimSpace s"
  using TrimSpace_ends[of s]
  by (cases "TrimSpace s = []") (simp_all add: TrimSpace_def[of "TrimSpace s"] strip.simps)

lemma TrimSpace_last:
  assumes "TrimSpace s \<noteq> []"
  shows "last (TrimSpace s) \<notin> {CHR '' '', TAB}"
proof
  assume a: "last (TrimSpace s) \<in> {CHR '' '', TAB}"
  obtain c r where r: "rev (TrimSpace s) = c # r" using assms by (metis list.exhaust rev_is_Nil_conv)
  have "c = last (TrimSpace s)" using r assms by (metis hd_rev list.sel(1))
  with a r have "lead_len (map rev space_runes) (rev (TrimSpace s)) = 1"
    using lead_len_blank(3,4) by auto
  with TrimSpace_ends(2)[OF assms] show False by simp
qed

lemma headingLevel_title: "TrimSpace (snd (headingLevel l)) = snd (headingLevel l)"
  by (auto simp: headingLevel_def Let_def)

lemma TrimRight_id: "s = [] \<or> last s \<notin> set cs \<Longrightarrow> TrimRight s cs = s"
  by (cases s rule: rev_cases) (auto simp: TrimRight_def)

lemma skipped_title_ne: "skipped_title t \<Longrightarrow> t \<noteq> []"
  by (cases t) (auto simp: skipped_title_def)

lemma bare_heading_level:
  assumes "skipped_heading l"
  shows "headingLevel (bare_heading l) = headingLevel l"
proof -
  let ?t = "snd (headingLevel l)"
  have ne: "?t \<noteq> []" using assms skipped_title_ne by (simp add: skipped_heading_def)
  then have "last ?t \<notin> {CHR '' '', TAB}"
    using TrimSpace_last[of ?t] by (simp add: headingLevel_title)
  then have tr: "TrimRight (''## '' @ ?t) [CHR '' '', TAB] = ''## '' @ ?t"
    using ne by (intro TrimRight_id) auto
  have "headingLevel (bare_heading l) = (2, TrimSpace ?t)"
    using tr ne unfolding headingLevel_def bare_heading_def by (simp add: Let_def)
  moreover have "fst (headingLevel l) = 2" using assms by (simp add: skipped_heading_def)
  ultimately show ?thesis by (metis headingLevel_title prod.collapse)
qed


section \<open>Scanning the plan again\<close>

text \<open>The plan's lines, split anew, have the code marks they had in the document.\<close>

lemma unnum_clean [simp]: "unnum (clean l) = clean l" "unnum (bare_heading l) = bare_heading l"
  by (simp_all add: renum_def clean_def bare_heading_def)

lemma scan_cons:
  "map unnum (split_go 0 f (t # ts)) =
     \<lparr>mdN = 0, mdText = t, mdInCode = (f \<noteq> [] \<or> is_fence (TrimSpace t))\<rparr> # map unnum (split_go 0 (fence_after f [t]) ts)"
  using unnum_split_go[of 1 "fence_after f [t]" ts]
  by (auto simp: Let_def renum_def simp del: One_nat_def)

lemma split_go_line:
  "split_go i f (t # ts) = \<lparr>mdN = Suc i, mdText = t, mdInCode = (f \<noteq> [] \<or> is_fence (TrimSpace t))\<rparr>
     # split_go (Suc i) (fence_after f [t]) ts"
  by (auto simp: Let_def)

lemma fence_after_clean: "fence_after f [TrimRight t [CHR '' '', TAB]] = fence_after f [t]"
  by simp

lemma top_heading_split:
  assumes "top_heading \<lparr>mdN = n, mdText = t, mdInCode = (f \<noteq> [] \<or> is_fence (TrimSpace t))\<rparr>"
  shows "f = []" and "\<not> is_fence (TrimSpace t)" and "fence_after f [t] = []"
proof -
  show "f = []" "\<not> is_fence (TrimSpace t)"
    using assms by (auto simp: top_heading_def headingLevel_def split: if_splits)
  then show "fence_after f [t] = []" by simp
qed

lemma bare_not_fence: "\<not> is_fence (TrimSpace (''## '' @ x))"
  using TrimSpace_hash[of "''# '' @ x"] by (auto simp: is_fence_def)

lemma blank_no_fence: "TrimRight t [CHR '' '', TAB] = [] \<Longrightarrow> fence_after f [t] = f"
  using TrimSpace_TrimRight[of t] by (simp add: is_fence_def HasPrefix_def)

lemma plan_rescan:
  "plan_lines skip (split_go i f ts) =
     map unnum (split_go 0 (if skip then [] else f) (map mdText (plan_lines skip (split_go i f ts))))"
proof (induction ts arbitrary: i f skip)
  case (Cons t ts)
  let ?l = "\<lparr>mdN = Suc i, mdText = t, mdInCode = (f \<noteq> [] \<or> is_fence (TrimSpace t))\<rparr>"
  let ?ls = "split_go (Suc i) (fence_after f [t]) ts"
  note IH = Cons.IH[where i = "Suc i" and f = "fence_after f [t]"]
  consider (skipped) "skipped_heading ?l" | (top) "top_heading ?l" "\<not> skipped_heading ?l"
    | (drop) "\<not> top_heading ?l" "skip \<or> mdText (clean ?l) = []"
    | (keep) "\<not> top_heading ?l" "\<not> skip" "mdText (clean ?l) \<noteq> []" by blast
  then show ?case
  proof cases
    case skipped
    note h = top_heading_split[OF skipped_top[OF skipped]]
    have P: "plan_lines skip (split_go i f (t # ts)) = bare_heading ?l # plan_lines True ?ls"
      using skipped by (simp only: split_go_line plan_lines.simps if_True)
    have fa: "fence_after [] [''## '' @ x] = []" "\<not> is_fence (TrimSpace (''## '' @ x))" for x
      using bare_not_fence[of x] by (simp_all add: Let_def)
    show ?thesis using IH[of True] unfolding P list.map scan_cons
      by (simp only: bare_heading_def mdLine.simps h fa if_True if_cancel simp_thms)
  next
    case top
    note h = top_heading_split[OF top(1)]
    have P: "plan_lines skip (split_go i f (t # ts)) = clean ?l # plan_lines False ?ls"
      using top by (simp only: split_go_line plan_lines.simps if_True if_False)
    have fa: "fence_after [] [TrimRight t [CHR '' '', TAB]] = []" using h by simp
    show ?thesis using IH[of False] h unfolding P list.map scan_cons
      by (simp add: clean_def fa del: fence_after.simps)
  next
    case drop
    then have ns: "\<not> skipped_heading ?l" using skipped_top by blast
    have "mdText (clean ?l) = [] \<Longrightarrow> fence_after f [t] = f" using blank_no_fence by simp
    then have f: "(if skip then [] else f) = (if skip then [] else fence_after f [t])" using drop by auto
    have P: "plan_lines skip (split_go i f (t # ts)) = plan_lines skip ?ls"
      using drop ns by (simp only: split_go_line plan_lines.simps if_True if_False)
    show ?thesis using IH[of skip] unfolding P f .
  next
    case keep
    then have ns: "\<not> skipped_heading ?l" using skipped_top by blast
    have P: "plan_lines skip (split_go i f (t # ts)) = clean ?l # plan_lines False ?ls"
      using keep ns by (simp only: split_go_line plan_lines.simps if_False simp_thms)
    show ?thesis using IH[of False] keep unfolding P list.map scan_cons
      by (simp add: clean_def fence_after_clean del: fence_after.simps)
  qed
qed simp



section \<open>The sections of the plan\<close>

definition nonblank :: "mdLine \<Rightarrow> bool" where
  "nonblank l \<longleftrightarrow> mdText (clean l) \<noteq> []"

lemma plan_lines_body:
  "\<forall>l\<in>set ls. \<not> top_heading l \<Longrightarrow>
     plan_lines skip (ls @ rest) = (if skip then [] else map clean (filter nonblank ls)) @ plan_lines skip rest"
  by (induction ls) (auto simp: nonblank_def dest: skipped_top)

lemma plan_lines_top:
  assumes "ls = [] \<or> top_heading (hd ls)"
  shows "plan_lines skip ls = [] \<or> top_heading (hd (plan_lines skip ls))"
  using assms
  by (cases ls) (auto simp: top_heading_def[of "bare_heading _"] bare_heading_level skipped_heading_def)

lemma plan_takeWhile:
  fixes ls :: "mdLine list"
  defines "b \<equiv> takeWhile (\<lambda>x. \<not> top_heading x) ls"
  shows "takeWhile (\<lambda>x. \<not> top_heading x) (plan_lines skip ls) = (if skip then [] else map clean (filter nonblank b))"
    and "dropWhile (\<lambda>x. \<not> top_heading x) (plan_lines skip ls) =
         plan_lines skip (dropWhile (\<lambda>x. \<not> top_heading x) ls)"
proof -
  let ?d = "dropWhile (\<lambda>x. \<not> top_heading x) ls"
  let ?k = "if skip then [] else map clean (filter nonblank b)"
  have "\<forall>l\<in>set b. \<not> top_heading l" unfolding b_def by (auto dest: set_takeWhileD)
  from plan_lines_body[OF this, of skip ?d]
  have e: "plan_lines skip ls = ?k @ plan_lines skip ?d" by (simp add: b_def)
  have nt: "\<forall>l\<in>set ?k. \<not> top_heading l" unfolding b_def by (auto dest: set_takeWhileD)
  have "?d = [] \<or> top_heading (hd ?d)" using hd_dropWhile[of "\<lambda>x. \<not> top_heading x" ls] by auto
  then have t: "plan_lines skip ?d = [] \<or> top_heading (hd (plan_lines skip ?d))" by (rule plan_lines_top)
  show "takeWhile (\<lambda>x. \<not> top_heading x) (plan_lines skip ls) = ?k"
    unfolding e using nt t by (cases "plan_lines skip ?d") (auto simp: takeWhile_append2 takeWhile_append)
  show "dropWhile (\<lambda>x. \<not> top_heading x) (plan_lines skip ls) = plan_lines skip ?d"
    unfolding e using nt t by (cases "plan_lines skip ?d") (auto simp: dropWhile_append2 dropWhile_append)
qed

definition sec_view :: "mdSection \<Rightarrow> string \<times> mdLine list" where
  "sec_view s = (secTitle s, if skipped_title (secTitle s) then [] else map clean (filter nonblank (secBody s)))"

lemma plan_sections:
  "map (\<lambda>s. (secTitle s, secBody s)) (sections_spec (plan_lines skip ls)) = map sec_view (sections_spec ls)"
proof (induction ls arbitrary: skip)
  case (Cons l ls)
  show ?case
  proof (cases "fst (headingLevel l) = 2")
    case True
    then have "top_heading l" by (rule level2_top)
    with True Cons.IH plan_takeWhile(1)[of _ ls] show ?thesis
      by (auto simp: sec_view_def sections_spec_dropWhile bare_heading_level skipped_heading_def)
  next
    case False
    then show ?thesis
      using Cons.IH by (auto simp: skipped_heading_def)
  qed
qed simp

section \<open>Tasks\<close>

definition erase_task :: "task \<Rightarrow> task" where
  "erase_task t = t\<lparr>tLine := 0\<rparr>"

definition task_raw :: "string \<Rightarrow> (bool \<times> string \<times> string) option" where
  "task_raw s = Option.bind (match_task_item s) (\<lambda>raw. match_task_id (TrimSpace raw))"

lemma match_task_id_Nil [simp]: "match_task_id [] = None"
  by (simp add: match_task_id_def skip_checkbox_def)

lemma task_raw_Nil [simp]: "task_raw [] = None"
  by (simp add: task_raw_def match_task_item_def)

lemma dropWhile_blank: "set w \<subseteq> {CHR '' '', TAB} \<Longrightarrow> dropWhile re_space w = []"
  by (auto simp: dropWhile_eq_Nil_conv re_space_def)

lemma dropWhile_append_blank:
  assumes "set w \<subseteq> {CHR '' '', TAB}"
  shows "dropWhile re_space (x @ w) = (if dropWhile re_space x = [] then [] else dropWhile re_space x @ w)"
  using dropWhile_blank[OF assms] by (induction x) auto

lemma LF_blank: "set w \<subseteq> {CHR '' '', TAB} \<Longrightarrow> LF \<notin> set w"
  by auto

lemma skip_spaces1_blank:
  assumes w: "set w \<subseteq> {CHR '' '', TAB}"
  shows "Option.bind (skip_spaces1 (r @ w)) (\<lambda>v. if LF \<in> set v then None else match_task_id (TrimSpace v)) =
         Option.bind (skip_spaces1 r) (\<lambda>v. if LF \<in> set v then None else match_task_id (TrimSpace v))"
proof (cases r)
  case Nil
  have "skip_spaces1 w \<in> {None, Some []}"
    using w dropWhile_blank[of "tl w"] by (cases w) (auto simp: skip_spaces1_def)
  then show ?thesis using Nil by (auto simp: skip_spaces1_def)
next
  case (Cons d r')
  then show ?thesis
    using dropWhile_append_blank[OF w, of r'] TrimSpace_append_blank[OF w] LF_blank[OF w]
    by (auto simp: skip_spaces1_def simp del: dropWhile_eq_Nil_conv)
qed

lemma task_raw_alt:
  "task_raw s = (if length (takeWhile re_space s) > 3 then None
     else (case dropWhile re_space s of [] \<Rightarrow> None
       | c # r \<Rightarrow> if c \<in> set ''-*+'' then Option.bind (skip_spaces1 r) (\<lambda>v. if LF \<in> set v then None else match_task_id (TrimSpace v)) else None))"
  by (cases "dropWhile re_space s")
    (simp_all add: task_raw_def match_task_item_def Option.bind_assoc del: dropWhile_eq_Nil_conv
      split: option.split)

lemma task_raw_blank:
  assumes w: "set w \<subseteq> {CHR '' '', TAB}"
  shows "task_raw (x @ w) = task_raw x"
proof (cases "dropWhile re_space x")
  case Nil
  then show ?thesis using dropWhile_append_blank[OF w, of x] by (simp add: task_raw_alt del: dropWhile_eq_Nil_conv)
next
  case (Cons c r)
  then have "takeWhile re_space (x @ w) = takeWhile re_space x"
    by (metis dropWhile_eq_Nil_conv list.discI takeWhile_append1)
  with Cons show ?thesis
    using dropWhile_append_blank[OF w, of x] skip_spaces1_blank[OF w, of r]
    by (simp add: task_raw_alt del: dropWhile_eq_Nil_conv)
qed


lemma task_check_erase:
  "fst (task_check (t\<lparr>tLine := n\<rparr>) rest) = (fst (task_check t rest))\<lparr>tLine := n\<rparr>"
  by (auto simp: task_check_def taskCheckKind_def Let_def split: option.splits prod.splits)

lemma task_tool_erase: "task_tool (t\<lparr>tLine := n\<rparr>) = (task_tool t)\<lparr>tLine := n\<rparr>"
  by (auto simp: task_tool_def split: option.splits)

lemma empty_task_line: "empty_task tid n = (empty_task tid 0)\<lparr>tLine := n\<rparr>"
  by (simp add: empty_task_def)

lemma parse_task_line_fst:
  "fst (parse_task_line file l) =
     (if mdInCode l \<or> HasPrefix (mdText l) [TAB] then None
      else map_option (\<lambda>(b, tid, rest). (task_tool (fst (task_check (empty_task tid 0) rest)))\<lparr>tLine := mdN l\<rparr>)
             (task_raw (mdText l)))"
proof -
  have "match_task_item s = None" if pre: "HasPrefix s ''    ''" for s
  proof -
    obtain r where "s = CHR '' '' # CHR '' '' # CHR '' '' # CHR '' '' # r" using pre by (auto simp: HasPrefix_iff)
    then have "length (takeWhile re_space s) > 3" by (simp add: re_space_def)
    then show ?thesis by (simp add: match_task_item_def)
  qed
  then show ?thesis
    by (auto simp: parse_task_line_def task_raw_def empty_task_line[of _ "mdN l"] task_check_erase task_tool_erase
        Let_def case_prod_unfold split: option.splits)
qed

lemma parse_task_clean:
  "fst (parse_task_line file (clean l)) = map_option erase_task (fst (parse_task_line file l))"
proof -
  obtain w where w: "mdText l = TrimRight (mdText l) [CHR '' '', TAB] @ w" "set w \<subseteq> {CHR '' '', TAB}"
    using TrimRight_decomp[of "mdText l" "[CHR '' '', TAB]"] by auto
  have raw: "task_raw (mdText l) = task_raw (TrimRight (mdText l) [CHR '' '', TAB])"
    using task_raw_blank[OF w(2)] w(1) by metis
  have "mdText (clean l) = [] \<or> HasPrefix (mdText l) [TAB] = HasPrefix (mdText (clean l)) [TAB]"
    using w(1) by (cases "mdText (clean l)") (auto simp: HasPrefix_def)
  then show ?thesis
    using raw by (auto simp: parse_task_line_fst clean_def erase_task_def option.map_comp comp_def case_prod_unfold)
qed

lemma parse_task_blank: "\<not> nonblank l \<Longrightarrow> fst (parse_task_line file l) = None"
  using parse_task_clean[of "file" l]
  by (auto simp: nonblank_def parse_task_line_fst[of _ "clean l"] split: if_splits)

definition tasks_in :: "mdLine list \<Rightarrow> task list" where
  "tasks_in lines = (case find_section (sections_spec lines) ''Tasks'' of
      None \<Rightarrow> [] | Some s \<Rightarrow> fst (parseTasks [] (secBody s)))"

lemma tasks_body_clean:
  "fst (parseTasks file (map clean (filter nonblank body))) = map erase_task (fst (parseTasks file body))"
  by (induction body)
    (auto simp: parseTasks_def List.map_filter_simps parse_task_clean parse_task_blank
      split: option.splits)

lemma parseTasks_file: "fst (parseTasks file body) = fst (parseTasks [] body)"
  by (simp add: parseTasks_def parse_task_line_fst)

lemma EqualFold_hd:
  "EqualFold s (d # t) \<Longrightarrow> lower_char d \<noteq> CHR ''s'' \<Longrightarrow> lower_char d \<noteq> CHR ''k'' \<Longrightarrow>
     s \<noteq> [] \<and> lower_char (hd s) = lower_char d"
  by (cases s) (auto split: if_splits)

lemma lower_TWN [simp]:
  "lower_char (CHR ''T'') = CHR ''t''" "lower_char (CHR ''W'') = CHR ''w''" "lower_char (CHR ''N'') = CHR ''n''"
  by code_simp+

lemma Tasks_not_skipped: "EqualFold t ''Tasks'' \<Longrightarrow> \<not> skipped_title t"
  by (auto simp: skipped_title_def dest!: EqualFold_hd simp del: EqualFold.simps)

lemma find_map: "find P (map f xs) = map_option f (find (\<lambda>x. P (f x)) xs)"
  by (induction xs) auto

lemma find_section_plan:
  "map_option (\<lambda>s. (secTitle s, secBody s)) (find_section (sections_spec (plan_lines skip ls)) title) =
   map_option sec_view (find_section (sections_spec ls) title)"
  using arg_cong[OF plan_sections[of skip ls], of "find (\<lambda>p. EqualFold (fst p) title)"]
  by (simp add: find_section_def find_map sec_view_def)

lemma tasks_of_plan: "tasks_in (plan_lines skip ls) = map erase_task (tasks_in ls)"
proof (cases "find_section (sections_spec ls) ''Tasks''")
  case None
  then have "find_section (sections_spec (plan_lines skip ls)) ''Tasks'' = None"
    using find_section_plan[of skip ls "''Tasks''"] by simp
  with None show ?thesis by (simp add: tasks_in_def)
next
  case (Some s)
  then have "EqualFold (secTitle s) ''Tasks''" by (auto simp: find_section_def find_Some_iff)
  with Some obtain s' where s': "find_section (sections_spec (plan_lines skip ls)) ''Tasks'' = Some s'"
      "secBody s' = map clean (filter nonblank (secBody s))"
    using find_section_plan[of skip ls "''Tasks''"] Tasks_not_skipped by (auto simp: sec_view_def)
  then show ?thesis using Some by (simp add: tasks_in_def tasks_body_clean)
qed


section \<open>The parsed change\<close>

lemma plan_lines_renum: "plan_lines skip (map (renum g) ls) = plan_lines skip ls"
proof (induction ls arbitrary: skip)
  case (Cons l ls)
  have "clean (renum g l) = clean l" "bare_heading (renum g l) = bare_heading l"
    "skipped_heading (renum g l) = skipped_heading l" "top_heading (renum g l) = top_heading l"
    by (simp_all add: clean_def bare_heading_def skipped_heading_def top_heading_def)
  with Cons.IH show ?case by simp
qed simp

lemma tasks_in_renum: "map erase_task (tasks_in (map (renum g) ls)) = map erase_task (tasks_in ls)"
  using tasks_of_plan[of False] plan_lines_renum by metis

lemma cTasks_ParseChange:
  "map erase_task (cTasks (ParseChange y file doc)) = map erase_task (tasks_in (splitLines (change_body doc)))"
proof -
  have "cTasks (ParseChange y file doc) = tasks_in (change_lines doc)"
    by (auto simp: tasks_in_def h2Sections_spec parseTasks_file[of "file"] split: option.split)
  moreover obtain n where "change_lines doc = map (renum (\<lambda>k. k + n)) (splitLines (change_body doc))"
    by (auto simp: change_lines_def renum_def Let_def)
  ultimately show ?thesis using tasks_in_renum by metis
qed



section \<open>Text and lines of the plan\<close>

lemma set_strip: "set (strip us s) \<subseteq> set s"
  using strip_suffix[of s us] by (metis Un_upper2 set_append)

lemma set_TrimSpace: "set (TrimSpace s) \<subseteq> set s"
  unfolding TrimSpace_def using set_strip[of "map rev space_runes" "rev (strip space_runes s)"] set_strip[of space_runes s]
  by auto

lemma set_TrimRight: "set (TrimRight s cs) \<subseteq> set s"
  using TrimRight_decomp[of s cs] by (metis Un_upper1 set_append)

lemma set_heading_title: "set (snd (headingLevel l)) \<subseteq> set (mdText l)"
proof (cases "headingLevel l = (0, [])")
  case False
  then obtain n where "snd (headingLevel l) = TrimSpace (drop n (TrimRight (mdText l) [CHR '' '', TAB]))"
    by (auto simp: headingLevel_def Let_def split: if_splits)
  then show ?thesis using set_TrimSpace set_TrimRight set_drop_subset by (metis subset_trans)
qed simp

lemma plan_lines_free:
  assumes "\<forall>l\<in>set ls. LF \<notin> set (mdText l)"
  shows "\<forall>l\<in>set (plan_lines skip ls). LF \<notin> set (mdText l)"
  using assms
proof (induction ls arbitrary: skip)
  case (Cons l ls)
  then have "LF \<notin> set (mdText (clean l))" "LF \<notin> set (mdText (bare_heading l))"
    using set_TrimRight[of "mdText l"] set_heading_title[of l] by (auto simp: bare_heading_def)
  with Cons show ?case by simp
qed simp

lemma joinBody_inj:
  assumes "joinBody ls = joinBody ls'" and "\<forall>l\<in>set ls \<union> set ls'. LF \<notin> set (mdText l)"
  shows "map mdText ls = map mdText ls'"
proof -
  have "split_char LF (joinBody xs) = map mdText xs @ [[]]" if "\<forall>l\<in>set xs. LF \<notin> set (mdText l)" for xs
    using split_char_lines[of "map mdText xs" LF] that by (simp add: joinBody_def comp_def)
  with assms show ?thesis by (metis UnCI append_same_eq)
qed

lemma splitLines_free: "l \<in> set (splitLines doc) \<Longrightarrow> LF \<notin> set (mdText l)"
  using raw_lines_free map_mdText_split_go[of 0 "[]" "raw_lines doc"] unfolding splitLines_def
  by (metis image_eqI list.set_map)

lemma plan_text_lines:
  assumes "plan_text b = plan_text b'"
  shows "plan_lines False (splitLines b) = plan_lines False (splitLines b')"
proof -
  have "map mdText (plan_lines False (splitLines b)) = map mdText (plan_lines False (splitLines b'))"
    using assms plan_lines_free[of "splitLines b"] plan_lines_free[of "splitLines b'"] splitLines_free
    by (intro joinBody_inj) (auto simp: plan_text_def plan_go_lines)
  then show ?thesis
    using plan_rescan[of False 0 "[]" "raw_lines b"] plan_rescan[of False 0 "[]" "raw_lines b'"]
    by (simp add: splitLines_def)
qed

section \<open>Documents in two parts\<close>

lemma crlf_to_lf_Cons: "c \<noteq> CR \<Longrightarrow> crlf_to_lf (c # s) = c # crlf_to_lf s"
  by (cases s) auto

lemma crlf_to_lf_append:
  "A = [] \<or> last A \<noteq> CR \<Longrightarrow> crlf_to_lf (A @ B) = crlf_to_lf A @ crlf_to_lf B"
  by (induction A rule: crlf_to_lf.induct) (auto simp: crlf_to_lf_Cons split: if_splits)

lemma split_char_append_any: "split_char c (x @ c # y) = split_char c x @ split_char c y"
  by (induction x) (auto split: list.splits)

lemma crlf_to_lf_last: "A \<noteq> [] \<Longrightarrow> last A = LF \<Longrightarrow> \<exists>X. crlf_to_lf A = X @ [LF]"
  by (induction A rule: crlf_to_lf.induct) (auto split: if_splits)

lemma raw_lines_append:
  assumes "F \<noteq> []" and "last F = LF"
  shows "raw_lines (F @ B) = raw_lines F @ raw_lines B"
proof -
  obtain X where X: "crlf_to_lf F = X @ [LF]" using crlf_to_lf_last[OF assms] by blast
  have "raw_lines F = split_char LF X"
    using split_char_append_any[of LF X "[]"] by (simp add: raw_lines_def X)
  moreover have "split_char LF (crlf_to_lf (F @ B)) = split_char LF X @ split_char LF (crlf_to_lf B)"
    using assms split_char_append_any[of LF X "crlf_to_lf B"] by (simp add: crlf_to_lf_append X)
  ultimately show ?thesis by (simp add: raw_lines_def butlast_append Let_def)
qed

text \<open>A front part that ends its last line, leaves no fence open and opens no section.\<close>

definition plain_front :: "string \<Rightarrow> bool" where
  "plain_front F \<longleftrightarrow> F \<noteq> [] \<and> last F = LF \<and> fence_after [] (raw_lines F) = [] \<and>
     list_all (\<lambda>l. \<not> top_heading l) (splitLines F)"

lemma plan_text_front:
  assumes "plain_front F"
  shows "plan_text (F @ B) = joinBody (map clean (filter nonblank (splitLines F))) @ plan_text B"
proof -
  have "splitLines (F @ B) = splitLines F @ map (renum (\<lambda>n. n + length (raw_lines F))) (splitLines B)"
    using assms split_go_append[of 0 "[]" "raw_lines F" "raw_lines B"] split_go_shift[of 0 "length (raw_lines F)"]
    by (simp add: plain_front_def splitLines_def raw_lines_append)
  then have "plan_text (F @ B) = joinBody (plan_lines False (splitLines F @ map (renum (\<lambda>n. n + length (raw_lines F))) (splitLines B)))"
    by (simp add: plan_text_def plan_go_lines)
  also have "\<dots> = joinBody (map clean (filter nonblank (splitLines F))) @ plan_go False (map (renum (\<lambda>n. n + length (raw_lines F))) (splitLines B))"
    using assms by (subst plan_lines_body) (auto simp: plain_front_def list_all_iff plan_go_lines joinBody_def)
  finally show ?thesis by (simp add: plan_text_def plan_go_lines plan_lines_renum)
qed

section \<open>Properties\<close>

text \<open>C23: the plan digest freezes the tasks. If two versions of a change's document have the
  same frontmatter part (which opens no section and no code block) and the same \<open>PlanDigest\<close>,
  and the digest does not collide on their two plan texts, then they parse to the same tasks:
  the same ids, texts, check commands, regression marks, tools and kinds in the same order. So
  after \<open>ape change start\<close> no edit that keeps the digest changes what a verify runs.\<close>

theorem PlanDigest_freezes_tasks:
  assumes "doc = front @ change_body doc" and "doc' = front @ change_body doc'" and "plain_front front"
    and "inj_on sha256_hex {plan_text doc, plan_text doc'}"
    and "PlanDigest sha256_hex (ParseChange y file doc) = PlanDigest sha256_hex (ParseChange y file' doc')"
  shows "map erase_task (cTasks (ParseChange y file doc)) = map erase_task (cTasks (ParseChange y file' doc'))"
proof -
  have "plan_text doc = plan_text doc'"
    by (rule inj_onD[OF assms(4)]) (use assms(5) in \<open>simp_all add: PlanDigest_def\<close>)
  then have "plan_text (change_body doc) = plan_text (change_body doc')"
    using plan_text_front[OF assms(3), of "change_body doc"] plan_text_front[OF assms(3), of "change_body doc'"]
    unfolding assms(1)[symmetric] assms(2)[symmetric] by simp
  from plan_text_lines[OF this] show ?thesis
    using tasks_of_plan[of False "splitLines (change_body doc)"] tasks_of_plan[of False "splitLines (change_body doc')"]
    by (simp only: cTasks_ParseChange)
qed


text \<open>A change document, and the same with blanks moved and its notes filled in.\<close>

definition ex_front :: string where
  "ex_front = ''---'' @ [LF] @ ''id: abc'' @ [LF] @ ''---'' @ [LF]"

definition ex_plan :: string where
  "ex_plan = ex_front @ ''## Tasks'' @ [LF] @ ''- T1 do it -- check: make test'' @ [LF] @ ''## Notes'' @ [LF]"

definition ex_plan2 :: string where
  "ex_plan2 = ex_front @ ''## Tasks'' @ [LF, LF] @ ''- T1 do it -- check: make test  '' @ [LF] @
     ''## Notes'' @ [LF] @ ''- T2'' @ [LF]"

definition no_yaml :: yaml_lib where
  "no_yaml = \<lparr>yMeta = (\<lambda>_. (empty_meta, True)), yKeys = (\<lambda>_. Some []), yDocs = (\<lambda>_. Some DocsAbsent)\<rparr>"

lemma ex_facts:
  "ex_plan = ex_front @ change_body ex_plan" "ex_plan2 = ex_front @ change_body ex_plan2"
  "plan_text ex_plan = plan_text ex_plan2" "plain_front ex_front"
  "map tID (cTasks (ParseChange no_yaml [] ex_plan)) = [''T1'']"
  by code_simp+

theorem PlanDigest_freezes_tasks_witness:
  "ex_plan \<noteq> ex_plan2 \<and> map tID (cTasks (ParseChange no_yaml [] ex_plan2)) = [''T1'']"
proof -
  have "map erase_task (cTasks (ParseChange no_yaml [] ex_plan)) =
        map erase_task (cTasks (ParseChange no_yaml [] ex_plan2))"
    by (rule PlanDigest_freezes_tasks[where sha256_hex = "\<lambda>x. x"])
      (use ex_facts in \<open>simp_all add: PlanDigest_def inj_on_def del: ParseChange_sel(4)\<close>)
  then have "map tID (map erase_task (cTasks (ParseChange no_yaml [] ex_plan))) =
      map tID (map erase_task (cTasks (ParseChange no_yaml [] ex_plan2)))" by (rule arg_cong)
  then have "map tID (cTasks (ParseChange no_yaml [] ex_plan2)) = [''T1'']"
    using ex_facts(5) by (simp add: erase_task_def comp_def del: ParseChange_sel(4))
  moreover have "ex_plan \<noteq> ex_plan2" by code_simp
  ultimately show ?thesis by blast
qed

definition closed_body :: "string list \<Rightarrow> bool" where
  "closed_body ts \<longleftrightarrow> fence_after [] ts = [] \<and> list_all (\<lambda>l. \<not> top_heading l) (split_go 0 [] ts)"

lemma plan_lines_at_skipped:
  "skipped_heading h \<Longrightarrow> plan_lines skip (xs @ h # rest) = plan_lines skip xs @ bare_heading h # plan_lines True rest"
  by (induction xs arbitrary: skip) auto

lemma plan_lines_section:
  assumes "skipped_heading (last (split_go 0 [] (pre @ [h])))" and "closed_body body"
  shows "plan_lines False (split_go 0 [] (pre @ h # body @ post)) =
         plan_lines False (split_go 0 [] (pre @ [h])) @ plan_lines True (split_go 0 [] post)"
proof -
  let ?A = "split_go 0 [] (pre @ [h])"
  let ?B = "map (renum (\<lambda>n. n + length (pre @ [h]))) (split_go 0 [] body)"
  let ?C = "map (renum (\<lambda>n. n + length (pre @ h # body))) (split_go 0 [] post)"
  have l: "last ?A = \<lparr>mdN = Suc (length pre), mdText = h,
      mdInCode = (fence_after [] pre \<noteq> [] \<or> is_fence (TrimSpace h))\<rparr>"
    by (simp add: split_go_append split_go_line del: split_go.simps(2))
  have f: "fence_after [] (pre @ [h]) = []"
    using top_heading_split(3)[of "Suc (length pre)" h "fence_after [] pre"] skipped_top[OF assms(1)]
    unfolding l by (simp add: fence_after_append)
  have A: "?A = butlast ?A @ [last ?A]" by simp
  have "split_go 0 [] (pre @ h # body @ post) = ?A @ ?B @ ?C"
    using f assms(2) split_go_append[of 0 "[]" "pre @ [h]" "body @ post"]
      split_go_append[of "length (pre @ [h])" "[]" body post]
      split_go_shift[of 0 "length (pre @ [h])"] split_go_shift[of 0 "length (pre @ h # body)"]
    by (simp add: closed_body_def)
  moreover have "plan_lines True (?B @ ?C) = plan_lines True ?C"
    using assms(2) by (subst plan_lines_body) (auto simp: closed_body_def list_all_iff top_heading_def)
  moreover have "plan_lines False (?A @ rest) = plan_lines False ?A @ plan_lines True rest" for rest
    using plan_lines_at_skipped[OF assms(1), of False "butlast ?A" "rest"]
      plan_lines_at_skipped[OF assms(1), of False "butlast ?A" "[]"] A
    by (metis append.assoc append_Cons append_Nil plan_lines.simps(1))
  ultimately show ?thesis by (simp add: plan_lines_renum)
qed

text \<open>\<open>## Why\<close> and \<open>## Notes\<close> are free. Replacing the body of such a section by any other body
  that opens no section of its own and closes its code blocks leaves the digest as it was,
  whatever stands before and after the section.\<close>

lemma PlanDigest_ignores_notes:
  assumes "raw_lines (cRaw c) = pre @ h # body @ post" and "raw_lines (cRaw c') = pre @ h # body' @ post"
    and "skipped_heading (last (split_go 0 [] (pre @ [h])))" and "closed_body body" and "closed_body body'"
  shows "PlanDigest sha256_hex c = PlanDigest sha256_hex c'"
  using plan_lines_section[OF assms(3,4), of post] plan_lines_section[OF assms(3,5), of post] assms(1,2)
  by (simp add: PlanDigest_def plan_text_def plan_go_lines splitLines_def)

definition ex_change :: "string \<Rightarrow> change" where
  "ex_change doc = ParseChange no_yaml [] doc"

lemma ex_notes_facts:
  "raw_lines ex_plan = raw_lines (ex_front @ ''## Tasks'' @ [LF] @ ''- T1 do it -- check: make test'' @ [LF]) @
     ''## Notes'' # [] @ []"
  "raw_lines (ex_plan @ ''found a flaw'' @ [LF]) =
     raw_lines (ex_front @ ''## Tasks'' @ [LF] @ ''- T1 do it -- check: make test'' @ [LF]) @
     ''## Notes'' # [''found a flaw''] @ []"
  "skipped_heading (last (split_go 0 [] (raw_lines (ex_front @ ''## Tasks'' @ [LF] @
     ''- T1 do it -- check: make test'' @ [LF]) @ [''## Notes''])))"
  "closed_body []" "closed_body [''found a flaw'']"
  by code_simp+

lemma PlanDigest_ignores_notes_witness:
  "PlanDigest (\<lambda>x. x) (ex_change ex_plan) = PlanDigest (\<lambda>x. x) (ex_change (ex_plan @ ''found a flaw'' @ [LF]))"
  by (rule PlanDigest_ignores_notes[OF _ _ ex_notes_facts(3-5)])
    (simp_all only: ex_change_def ParseChange_sel ex_notes_facts)

text \<open>
  The digest does not freeze the checks of a delta's scenarios: a \<open>Purpose:\<close> block ends at a
  blank line, which the digest drops, so deleting one lets the block swallow the check line
  after it. The two documents below have the same digest whatever the hash; the first has a
  scenario with a check, the second the same scenario with none.
\<close>

definition ex_delta :: "string \<Rightarrow> string" where
  "ex_delta gap = ex_front @ ''## Delta'' @ [LF] @ ''### ADDED [cap] Requirement: R'' @ [LF] @
     ''#### Scenario: S'' @ [LF] @ ''Purpose: p'' @ [LF] @ gap @ ''- check: make test'' @ [LF]"

definition delta_checks :: "change \<Rightarrow> string list list" where
  "delta_checks c = concat (map (\<lambda>d. map scChecks (rqScenarios (dReq d))) (cDeltas c))"

lemma ex_delta_facts:
  "plan_text (ex_delta [LF]) = plan_text (ex_delta [])"
  "delta_checks (ParseChange no_yaml [] (ex_delta [LF])) = [[''make test'']]"
  "delta_checks (ParseChange no_yaml [] (ex_delta [])) = [[]]"
  by code_simp+

theorem PlanDigest_misses_scenario_check:
  "PlanDigest sha256_hex (ParseChange no_yaml [] (ex_delta [LF])) =
     PlanDigest sha256_hex (ParseChange no_yaml [] (ex_delta [])) \<and>
   delta_checks (ParseChange no_yaml [] (ex_delta [LF])) = [[''make test'']] \<and>
   delta_checks (ParseChange no_yaml [] (ex_delta [])) = [[]]"
  using ex_delta_facts by (simp add: PlanDigest_def del: ParseChange_sel(5))

end
