(* ===== verification/ChangeFacts.thy ===== *)
theory ChangeFacts
  imports PlanFacts
begin

text \<open>
  Facts on the rest of a change document: the byte count its size cap measures, the frontmatter
  split, what a MODIFIED block may lose, and the two kinds of task.
\<close>

section \<open>The byte count of the plan\<close>

lemma concat_split_after: "concat (split_after s) = s"
  by (induction s) (auto split: list.splits)

lemma split_after_nonempty [simp]: "split_after s \<noteq> []"
  by (cases s) (auto split: list.splits)

lemma length_split_after: "length (split_after s) = Suc (count_lf s)"
  by (induction s) (auto simp: count_lf_def split: list.splits)

lemma length_split_char: "length (split_char LF s) = Suc (count_lf s)"
  by (induction s) (auto simp: count_lf_def split: list.splits)

lemma count_lf_crlf [simp]: "count_lf (crlf_to_lf s) = count_lf s"
  by (induction s rule: crlf_to_lf.induct) (auto simp: count_lf_def)

lemma length_splitLines_le: "length (splitLines doc) \<le> length (split_after doc)"
  by (auto simp: splitLines_def raw_lines_def length_split_after length_split_char Let_def)

text \<open>The bytes of the lines of \<open>## Notes\<close> sections, heading included, as a sum over the lines.\<close>

fun note_flags :: "bool \<Rightarrow> mdLine list \<Rightarrow> bool list" where
  "note_flags notes [] = []"
| "note_flags notes (l # ls) =
     (let notes' = (if top_heading l then fst (headingLevel l) = 2 \<and> EqualFold (snd (headingLevel l)) ''Notes'' else notes)
      in notes' # note_flags notes' ls)"

lemma notes_bytes_flags:
  "length ls \<le> length rs \<Longrightarrow>
     notes_bytes nt ls rs = (\<Sum>(b, r) \<leftarrow> zip (note_flags nt ls) rs. if b then length r else 0)"
  by (induction nt ls rs rule: notes_bytes.induct)
    (auto simp: Let_def case_prod_unfold top_heading_def)

lemma sum_flags:
  "length bs \<le> length rs \<Longrightarrow>
     (\<Sum>(b, r) \<leftarrow> zip bs rs. if b then length r else 0) + (\<Sum>(b, r) \<leftarrow> zip bs rs. if b then 0 else length r)
       + length (concat (drop (length bs) rs)) = length (concat rs)"
proof (induction bs arbitrary: rs)
  case (Cons b bs)
  then obtain r rs' where "rs = r # rs'" by (cases rs) auto
  with Cons.prems Cons.IH[of rs'] show ?case by (auto simp: algebra_simps)
qed simp

lemma length_note_flags [simp]: "length (note_flags nt ls) = length ls"
  by (induction ls arbitrary: nt) (auto simp: Let_def)

text \<open>\<open>PlanBytes\<close> is the bytes of the lines outside \<open>## Notes\<close>, each with its own line ending
  as on disk, plus the tail after the last line ending: its subtraction never passes below
  zero and its index \<open>raw[i]\<close> never leaves the slice.\<close>

lemma PlanBytes_counts:
  "length (splitLines (cRaw c)) \<le> length (split_after (cRaw c)) \<and>
   PlanBytes c = (\<Sum>(b, r) \<leftarrow> zip (note_flags False (splitLines (cRaw c))) (split_after (cRaw c)). if b then 0 else length r)
     + length (concat (drop (length (splitLines (cRaw c))) (split_after (cRaw c))))"
proof
  let ?bs = "note_flags False (splitLines (cRaw c))" and ?rs = "split_after (cRaw c)"
  show le: "length (splitLines (cRaw c)) \<le> length ?rs" by (rule length_splitLines_le)
  then have "length ?bs \<le> length ?rs" by simp
  from sum_flags[OF this] notes_bytes_flags[OF le, of False] show
    "PlanBytes c = (\<Sum>(b, r) \<leftarrow> zip ?bs ?rs. if b then 0 else length r) + length (concat (drop (length (splitLines (cRaw c))) ?rs))"
    by (simp add: PlanBytes_def concat_split_after)
qed

section \<open>What a MODIFIED block loses\<close>

lemma by_name_Some:
  "by_name ss n = Some s \<Longrightarrow> s \<in> set ss \<and> scName s = n"
  unfolding by_name_def by (auto dest!: assoc_last_Some_in)

text \<open>\<open>scenarioLoss\<close> is empty exactly when the modified requirement still has every scenario
  of the existing one, under its name and with its check.\<close>

lemma scenarioLoss_empty_iff:
  assumes "distinct (map scName (rqScenarios modified))"
  shows "scenarioLoss existing modified = [] \<longleftrightarrow>
    (\<forall>old\<in>set (rqScenarios existing). \<exists>now\<in>set (rqScenarios modified).
       scName now = scName old \<and> firstCheck now = firstCheck old)"
proof -
  have look: "by_name (rqScenarios modified) (scName s) = Some s" if "s \<in> set (rqScenarios modified)" for s
    unfolding by_name_def using assms that by (intro assoc_last_distinct) (auto simp: comp_def)
  have one: "(case by_name (rqScenarios modified) (scName old) of None \<Rightarrow> [DropsScenario (scName old)]
       | Some now \<Rightarrow> if firstCheck old \<noteq> firstCheck now
           then [ChangesCheck (scName old) (firstCheck old) (firstCheck now)] else []) = [] \<longleftrightarrow>
     (\<exists>now\<in>set (rqScenarios modified). scName now = scName old \<and> firstCheck now = firstCheck old)" for old
  proof (cases "by_name (rqScenarios modified) (scName old)")
    case None
    then have "\<forall>s\<in>set (rqScenarios modified). scName s \<noteq> scName old" using look by force
    with None show ?thesis by auto
  next
    case (Some now)
    have "\<forall>s\<in>set (rqScenarios modified). scName s = scName old \<longrightarrow> s = now" using look Some by force
    with Some by_name_Some[OF Some] show ?thesis by auto
  qed
  show ?thesis by (simp add: scenarioLoss_def one)
qed

definition ex_scenario :: "string \<Rightarrow> string \<Rightarrow> scenario" where
  "ex_scenario n c = (new_scenario n 1)\<lparr>scChecks := [c]\<rparr>"

definition ex_req :: "scenario list \<Rightarrow> requirement" where
  "ex_req ss = (empty_requirement ''R'' 1)\<lparr>rqScenarios := ss\<rparr>"

lemma scenarioLoss_empty_iff_witness:
  "scenarioLoss (ex_req [ex_scenario ''a'' ''x'']) (ex_req [ex_scenario ''b'' ''y'', ex_scenario ''a'' ''x'']) = []"
  by (subst scenarioLoss_empty_iff) (simp_all add: ex_req_def ex_scenario_def new_scenario_def firstCheck_def)

section \<open>Frontmatter\<close>

text \<open>Splitting undoes the writing of a frontmatter block. A document made of a delimiter
  line, lines that are no delimiter, a closing delimiter line and any body splits into exactly
  those lines and that body, with or without a byte-order mark.\<close>

lemma fm_Split_roundtrip:
  assumes "\<forall>l\<in>set ls. LF \<notin> set l \<and> \<not> isDelimiter l" and "isDelimiter d" "isDelimiter d'"
    and "LF \<notin> set d" "LF \<notin> set d'" and "b = [] \<or> b = bom"
  shows "fm_Split (b @ d @ [LF] @ concat (map (\<lambda>l. l @ [LF]) ls) @ d' @ [LF] @ body) =
         Some (concat (map (\<lambda>l. l @ [LF]) ls), body)"
proof -
  let ?r = "concat (map (\<lambda>l. l @ [LF]) ls) @ d' @ LF # body"
  have nb: "\<not> HasPrefix (d @ LF # ?r) bom"
  proof
    assume "HasPrefix (d @ LF # ?r) bom"
    then have "hd (d @ LF # ?r) = CHR 0xEF" by (auto simp: HasPrefix_iff bom_def)
    moreover have "hd d = CHR ''-''" "d \<noteq> []"
      using assms(2) TrimRight_decomp[of d "[CHR '' '', TAB, CR]"] by (auto simp: isDelimiter_def)
    ultimately show False by simp
  qed
  have "dropWhile (\<lambda>c. c \<noteq> LF) (d @ LF # ?r) = LF # ?r" using assms(4) by (induction d) auto
  then have "consumeDelimiterLine (d @ LF # ?r) = Some ?r"
    using assms(2,4) by (simp add: consumeDelimiterLine_def Let_def takeWhile_line)
  moreover have "TrimPrefix (b @ d @ LF # ?r) bom = d @ LF # ?r"
    using assms(6) nb by (auto simp: TrimPrefix_def)
  ultimately show ?thesis
    using fm_scan_lines[OF assms(1,3,5), of "[]" body] by (simp add: fm_Split_def)
qed

lemma fm_Split_roundtrip_witness:
  "fm_Split (bom @ ''--- '' @ [LF] @ ''id: a'' @ [LF] @ ''---'' @ [LF] @ ''# T'') = Some (''id: a'' @ [LF], ''# T'')"
  using fm_Split_roundtrip[of "[''id: a'']" "''--- ''" "''---''" bom "''# T''"]
  by (simp add: isDelimiter_def TrimRight_def)

end
