(* ===== verification/Merge.thy ===== *)
theory Merge
  imports ChangeFacts
begin

text \<open>
  The merge of a change's delta into the living specification: \<open>MergeDelta\<close> and \<open>applyDeltas\<close>
  of \<open>internal/apexv1/archive.go\<close>, the \<open>(live)\<close> rewrite of \<open>rewritelive.go\<close> it applies to each
  block, and the two reads of \<open>project.go\<close> it rests on. Specifications are files: the
  project's record holds the directory entries under \<open>specs/\<close> and the content of each spec.
  \<open>strings.ToLower\<close>, used only to suggest a name, is a parameter.
\<close>

section \<open>The project's specifications\<close>

record project =
  pSpecDirs :: "string list"
  pSpecFile :: "string \<Rightarrow> string option"
  pSpecPath :: "string \<Rightarrow> string"

definition Capabilities :: "project \<Rightarrow> string list" where
  "Capabilities p = sort (filter (\<lambda>d. \<not> HasPrefix d ''.'') (pSpecDirs p))"

definition LoadSpec :: "project \<Rightarrow> string \<Rightarrow> (spec_doc \<times> string) option" where
  "LoadSpec p cap = map_option (\<lambda>doc. (ParseSpec doc, doc)) (pSpecFile p cap)"

section \<open>The rewrite of a live tag\<close>

text \<open>White space and then a word, as \<open>\s*word\<close>: what follows them.\<close>

definition eat :: "string \<Rightarrow> string \<Rightarrow> string option" where
  "eat w s = (let r = dropWhile re_space s in if HasPrefix r w then Some (drop (length w) r) else None)"

text \<open>
  After the keyword: the opening parenthesis, \<open>live\<close>, the closing one and the colon. The value
  is the text to keep before \<open>full\<close>, the text to keep after it, and the rest.
\<close>

definition live_tail :: "string \<Rightarrow> (string \<times> string \<times> string) option" where
  "live_tail s =
     Option.bind (eat ''('' s) (\<lambda>r1. Option.bind (eat ''live'' r1) (\<lambda>r2. Option.bind (eat '')'' r2) (\<lambda>r3.
       map_option (\<lambda>r4. (takeWhile re_space s @ ''('', '')'' @ takeWhile re_space r3 @ '':'', r4)) (eat '':'' r3))))"

definition live_bullet :: "string \<Rightarrow> string \<times> string" where
  "live_bullet s = (case s of
      b # c # r \<Rightarrow> if b \<in> set ''-*'' \<and> re_space c
                   then (b # takeWhile re_space (c # r), dropWhile re_space (c # r)) else ([], s)
    | _ \<Rightarrow> ([], s))"

definition rw_check_line :: "string \<Rightarrow> string option" where
  "rw_check_line l =
     (let (bul, r) = live_bullet (dropWhile re_space l) in
      if \<not> HasPrefix r ''check'' then None
      else map_option (\<lambda>(g1, g2, rest). takeWhile re_space l @ bul @ ''check'' @ g1 @ ''full'' @ g2 @ rest)
             (live_tail (drop 5 r)))"

text \<open>One match of \<open>liveTaskRe\<close> at the front: the replacement and what follows it.\<close>

definition live_task_at :: "string \<Rightarrow> (string \<times> string) option" where
  "live_task_at s = (case skip_dashes s of
      None \<Rightarrow> None
    | Some r \<Rightarrow>
        let pre = take (length s - length r) s;
            kw = (if HasPrefix r ''check'' then Some ''check''
                  else if HasPrefix r ''regression'' then Some ''regression'' else None)
        in case kw of
             None \<Rightarrow> None
           | Some k \<Rightarrow> map_option (\<lambda>(g1, g2, rest). (pre @ k @ g1 @ ''full'' @ g2, rest)) (live_tail (drop (length k) r)))"

lemma eat_shorter:
  assumes "eat w s = Some r" and "w \<noteq> []"
  shows "length r < length s"
proof -
  have "HasPrefix (dropWhile re_space s) w" "r = drop (length w) (dropWhile re_space s)"
    using assms(1) by (auto simp: eat_def Let_def split: if_splits)
  then have "length r < length (dropWhile re_space s)" using assms(2) by (auto simp: HasPrefix_iff)
  then show ?thesis using length_dropWhile_le[of re_space s] by linarith
qed

lemma live_tail_shorter:
  assumes "live_tail s = Some (g1, g2, rest)"
  shows "length rest < length s"
proof -
  obtain r1 r2 r3 where "eat ''('' s = Some r1" "eat ''live'' r1 = Some r2" "eat '')'' r2 = Some r3" "eat '':'' r3 = Some rest"
    using assms by (auto simp: live_tail_def bind_eq_Some_conv)
  from this[THEN eat_shorter] show ?thesis by simp
qed

lemma live_task_at_shorter:
  assumes "live_task_at s = Some (out, rest)"
  shows "length rest < length s"
proof -
  obtain r where r: "skip_dashes s = Some r"
    using assms by (cases "skip_dashes s") (simp_all add: live_task_at_def)
  then have "length r \<le> length s"
    using length_strip_le[of dashes s] length_dropWhile_le[of re_space "strip dashes s"]
    by (auto simp: skip_dashes_def split: if_splits)
  moreover have "\<exists>k g1 g2. live_tail (drop k r) = Some (g1, g2, rest)"
    using assms r by (auto simp: live_task_at_def Let_def split: option.splits if_splits)
  then have "length rest < length r" using live_tail_shorter by fastforce
  ultimately show ?thesis by simp
qed

text \<open>All matches of \<open>liveTaskRe\<close>, left to right; the flag says the text starts here.\<close>

function rw_task :: "bool \<Rightarrow> string \<Rightarrow> bool \<times> string" where
  "rw_task bos [] = (False, [])"
| "rw_task bos (c # r) =
     (case (if bos then live_task_at (c # r) else None) of
        Some (out, rest) \<Rightarrow> (True, out @ snd (rw_task False rest))
      | None \<Rightarrow>
          (case (if re_space c then live_task_at r else None) of
             Some (out, rest) \<Rightarrow> (True, c # out @ snd (rw_task False rest))
           | None \<Rightarrow> (let (hit, s) = rw_task False r in (hit, c # s))))"
  by pat_completeness auto
termination
  by (relation "measure (\<lambda>(b, s). length s)")
    (auto dest: live_task_at_shorter split: if_splits)

declare rw_task.simps [simp del]

definition live_fence :: "string \<Rightarrow> bool" where
  "live_fence l \<longleftrightarrow> HasPrefix (dropWhile re_space l) ''```'' \<or> HasPrefix (dropWhile re_space l) ''~~~''"

fun rw_lines :: "bool \<Rightarrow> string list \<Rightarrow> string list" where
  "rw_lines fenced [] = []"
| "rw_lines fenced (l # ls) =
     (if live_fence l then l # rw_lines (\<not> fenced) ls
      else if fenced then l # rw_lines fenced ls
      else (case rw_check_line l of
              Some l' \<Rightarrow> l'
            | None \<Rightarrow> if fst (rw_task True l) then snd (rw_task True l) else l) # rw_lines fenced ls)"

definition rewriteLiveMarkdown :: "string \<Rightarrow> string" where
  "rewriteLiveMarkdown doc = concat (rw_lines False (split_after doc))"

section \<open>Applying deltas to one specification\<close>

datatype conflict =
    AddedExists string string
  | ModifiedMissing string string string
  | ModifiedLoses string string "loss list"
  | RemovedMissing string string string
  | LeavesEmpty string

record specUpdate =
  suCapability :: string
  suPath :: string
  suCreated :: bool
  suRetired :: bool
  suAdded :: nat
  suModified :: nat
  suRemoved :: nat
  suContent :: string

text \<open>The index of the first requirement of a name, the code's \<open>idx\<close> (\<open>None\<close> for -1).\<close>

fun req_index :: "requirement list \<Rightarrow> string \<Rightarrow> nat option" where
  "req_index [] n = None"
| "req_index (r # rs) n = (if rqName r = n then Some 0 else map_option Suc (req_index rs n))"

definition live_req :: "delta \<Rightarrow> requirement" where
  "live_req d = (dReq d)\<lparr>rqText := rewriteLiveMarkdown (rqText (dReq d))\<rparr>"

definition apply_delta ::
  "(string \<Rightarrow> string) \<Rightarrow> string \<Rightarrow> spec_doc \<times> specUpdate \<times> conflict list \<Rightarrow> delta \<Rightarrow> spec_doc \<times> specUpdate \<times> conflict list" where
  "apply_delta lower cap st d =
     (let (spec, u, cs) = st; idx = req_index (spRequirements spec) (dName d); req = live_req d in
      if dOp d = OpAdded then
        (case idx of
           Some _ \<Rightarrow> (spec, u, cs @ [AddedExists cap (dName d)])
         | None \<Rightarrow> (spec\<lparr>spRequirements := spRequirements spec @ [req]\<rparr>, u\<lparr>suAdded := suAdded u + 1\<rparr>, cs))
      else if dOp d = OpModified then
        (case idx of
           None \<Rightarrow> (spec, u, cs @ [ModifiedMissing cap (dName d) (nearMiss lower spec (dName d))])
         | Some i \<Rightarrow>
             let loss = scenarioLoss (spRequirements spec ! i) req in
             if loss \<noteq> [] then (spec, u, cs @ [ModifiedLoses cap (dName d) loss])
             else (spec\<lparr>spRequirements := (spRequirements spec)[i := req]\<rparr>, u\<lparr>suModified := suModified u + 1\<rparr>, cs))
      else if dOp d = OpRemoved then
        (case idx of
           None \<Rightarrow> (spec, u, cs @ [RemovedMissing cap (dName d) (nearMiss lower spec (dName d))])
         | Some i \<Rightarrow>
             (spec\<lparr>spRequirements := take i (spRequirements spec) @ drop (i + 1) (spRequirements spec)\<rparr>,
              u\<lparr>suRemoved := suRemoved u + 1\<rparr>, cs))
      else st)"

definition applyDeltas ::
  "(string \<Rightarrow> string) \<Rightarrow> string \<Rightarrow> spec_doc \<Rightarrow> delta list \<Rightarrow> specUpdate \<Rightarrow> spec_doc \<times> specUpdate \<times> conflict list" where
  "applyDeltas lower cap spec ds u = foldl (apply_delta lower cap) (spec, u, []) ds"

section \<open>The purpose of a new capability\<close>

fun first_para :: "string list \<Rightarrow> bool \<Rightarrow> mdLine list \<Rightarrow> string list" where
  "first_para para inComment [] = para"
| "first_para para inComment (l # ls) =
     (let t = TrimSpace (mdText l) in
      if HasPrefix t ''<!--'' \<or> inComment then first_para para (\<not> Contains t ''-->'') ls
      else if t = [] then (if para \<noteq> [] then para else first_para para inComment ls)
      else first_para (para @ [t]) inComment ls)"

definition firstParagraph :: "mdLine list \<Rightarrow> string" where
  "firstParagraph body = Join (first_para [] False body) '' ''"

definition purposeFrom :: "change \<Rightarrow> string" where
  "purposeFrom c =
     (let para = (case sectionOf c ''Why'' of None \<Rightarrow> [] | Some s \<Rightarrow> firstParagraph (secBody s))
      in if para \<noteq> [] then para else ''Introduced by change '' @ mID (cMeta c) @ ''.'')"

definition capabilityPurpose :: "change \<Rightarrow> string \<Rightarrow> string" where
  "capabilityPurpose c cap =
     (case find (\<lambda>d. dOp d = OpAdded \<and> dCapability d = cap \<and> dPurpose d \<noteq> []) (cDeltas c) of
        Some d \<Rightarrow> dPurpose d | None \<Rightarrow> purposeFrom c)"

section \<open>The whole delta\<close>

definition new_spec :: "change \<Rightarrow> string \<Rightarrow> spec_doc" where
  "new_spec c cap = \<lparr>spTitle = [], spPurpose = [],
     spPreamble = ''# '' @ titleFromSlug cap @ [LF] @ ''Purpose: '' @ capabilityPurpose c cap,
     spRequirements = [], spOther = []\<rparr>"

definition start_update :: "project \<Rightarrow> string \<Rightarrow> specUpdate" where
  "start_update p cap = \<lparr>suCapability = cap, suPath = pSpecPath p cap, suCreated = (LoadSpec p cap = None),
     suRetired = False, suAdded = 0, suModified = 0, suRemoved = 0, suContent = []\<rparr>"

definition deltas_of :: "change \<Rightarrow> string \<Rightarrow> delta list" where
  "deltas_of c cap = filter (\<lambda>d. dCapability d = cap) (cDeltas c)"

definition delta_caps :: "change \<Rightarrow> string list" where
  "delta_caps c = sort (dedup_acc [] (map dCapability (cDeltas c)))"

definition base_spec :: "project \<Rightarrow> change \<Rightarrow> string \<Rightarrow> spec_doc" where
  "base_spec p c cap = (case LoadSpec p cap of Some (s, _) \<Rightarrow> s | None \<Rightarrow> new_spec c cap)"

definition merge_cap :: "(string \<Rightarrow> string) \<Rightarrow> project \<Rightarrow> change \<Rightarrow> string \<Rightarrow> specUpdate option \<times> conflict list" where
  "merge_cap lower p c cap =
     (let (spec, u, cs) = applyDeltas lower cap (base_spec p c cap) (deltas_of c cap) (start_update p cap);
          emptied = (cs = [] \<and> LoadSpec p cap \<noteq> None \<and> spRequirements spec = []);
          u' = (if emptied \<and> cap \<in> set (mRetire (cMeta c)) then u\<lparr>suRetired := True\<rparr> else u);
          cs' = (if emptied \<and> cap \<notin> set (mRetire (cMeta c)) then cs @ [LeavesEmpty cap] else cs)
      in (if cs' = [] then Some (u'\<lparr>suContent := Render spec\<rparr>) else None, cs'))"

definition MergeDelta :: "(string \<Rightarrow> string) \<Rightarrow> project \<Rightarrow> change \<Rightarrow> specUpdate list \<times> conflict list" where
  "MergeDelta lower p c =
     (let rs = map (merge_cap lower p c) (delta_caps c);
          conflicts = concat (map snd rs)
      in if conflicts \<noteq> [] then ([], conflicts) else (List.map_filter fst rs, []))"

end
