(* ===== verification/MergeFacts.thy ===== *)
theory MergeFacts
  imports Merge
begin

text \<open>
  What a merge does to the living specification. A specification is a store of requirements
  by name (\<open>requirement_store\<close>, interpreted on the requirement list of a spec); a conflict-free
  \<open>applyDeltas\<close> is the corresponding sequence of map updates, never loses a scenario of a
  requirement it does not remove, and its rendering parses back to what was merged.
\<close>

section \<open>A store of requirements\<close>

datatype ('n, 'r) store_op = Insert 'n 'r | Replace 'n 'r | Delete 'n

locale requirement_store =
  fixes lookup :: "'s \<Rightarrow> 'n \<Rightarrow> 'r option"
    and insert_req :: "'s \<Rightarrow> 'r \<Rightarrow> 's"
    and replace_req :: "'s \<Rightarrow> 'n \<Rightarrow> 'r \<Rightarrow> 's"
    and delete_req :: "'s \<Rightarrow> 'n \<Rightarrow> 's"
    and name :: "'r \<Rightarrow> 'n"
    and inv :: "'s \<Rightarrow> bool"
  assumes insert_lookup: "inv s \<Longrightarrow> lookup s (name r) = None \<Longrightarrow> lookup (insert_req s r) = (lookup s)(name r \<mapsto> r)"
    and insert_inv: "inv s \<Longrightarrow> lookup s (name r) = None \<Longrightarrow> inv (insert_req s r)"
    and replace_lookup: "inv s \<Longrightarrow> lookup s (name r) \<noteq> None \<Longrightarrow> lookup (replace_req s (name r) r) = (lookup s)(name r \<mapsto> r)"
    and replace_inv: "inv s \<Longrightarrow> lookup s (name r) \<noteq> None \<Longrightarrow> inv (replace_req s (name r) r)"
    and delete_lookup: "inv s \<Longrightarrow> lookup (delete_req s n) = (lookup s)(n := None)"
    and delete_inv: "inv s \<Longrightarrow> inv (delete_req s n)"
begin

fun exec :: "'s \<Rightarrow> ('n, 'r) store_op \<Rightarrow> 's" where
  "exec s (Insert n r) = insert_req s r"
| "exec s (Replace n r) = replace_req s n r"
| "exec s (Delete n) = delete_req s n"

fun spec_exec :: "('n \<Rightarrow> 'r option) \<Rightarrow> ('n, 'r) store_op \<Rightarrow> ('n \<Rightarrow> 'r option)" where
  "spec_exec m (Insert n r) = m(n \<mapsto> r)"
| "spec_exec m (Replace n r) = m(n \<mapsto> r)"
| "spec_exec m (Delete n) = m(n := None)"

fun enabled :: "('n \<Rightarrow> 'r option) \<Rightarrow> ('n, 'r) store_op \<Rightarrow> bool" where
  "enabled m (Insert n r) \<longleftrightarrow> name r = n \<and> m n = None"
| "enabled m (Replace n r) \<longleftrightarrow> name r = n \<and> m n \<noteq> None"
| "enabled m (Delete n) \<longleftrightarrow> m n \<noteq> None"

fun all_enabled :: "('n \<Rightarrow> 'r option) \<Rightarrow> ('n, 'r) store_op list \<Rightarrow> bool" where
  "all_enabled m [] \<longleftrightarrow> True"
| "all_enabled m (x # xs) \<longleftrightarrow> enabled m x \<and> all_enabled (spec_exec m x) xs"

lemma exec_step:
  assumes "inv s" and "enabled (lookup s) x"
  shows "inv (exec s x)" and "lookup (exec s x) = spec_exec (lookup s) x"
  using assms by (cases x; auto simp: insert_lookup insert_inv replace_lookup replace_inv delete_lookup delete_inv)+

lemma exec_all:
  assumes "inv s" and "all_enabled (lookup s) xs"
  shows "inv (foldl exec s xs)" and "lookup (foldl exec s xs) = foldl spec_exec (lookup s) xs"
  using assms by (induction xs arbitrary: s) (auto simp: exec_step)

end

section \<open>The requirement list as a store\<close>

definition req_lookup :: "requirement list \<Rightarrow> string \<Rightarrow> requirement option" where
  "req_lookup rs n = map_option ((!) rs) (req_index rs n)"

definition req_insert :: "requirement list \<Rightarrow> requirement \<Rightarrow> requirement list" where
  "req_insert rs r = rs @ [r]"

definition req_replace :: "requirement list \<Rightarrow> string \<Rightarrow> requirement \<Rightarrow> requirement list" where
  "req_replace rs n r = (case req_index rs n of None \<Rightarrow> rs | Some i \<Rightarrow> rs[i := r])"

definition req_delete :: "requirement list \<Rightarrow> string \<Rightarrow> requirement list" where
  "req_delete rs n = (case req_index rs n of None \<Rightarrow> rs | Some i \<Rightarrow> take i rs @ drop (i + 1) rs)"

definition req_names_distinct :: "requirement list \<Rightarrow> bool" where
  "req_names_distinct rs \<longleftrightarrow> distinct (map rqName rs)"

lemma req_lookup_Nil [simp]: "req_lookup [] n = None"
  by (simp add: req_lookup_def)

lemma req_lookup_Cons [simp]: "req_lookup (r # rs) n = (if rqName r = n then Some r else req_lookup rs n)"
  by (auto simp: req_lookup_def option.map_comp comp_def)

lemma req_replace_Cons [simp]:
  "req_replace (r # rs) n r' = (if rqName r = n then r' # rs else r # req_replace rs n r')"
  by (auto simp: req_replace_def split: option.split)

lemma req_delete_Cons [simp]:
  "req_delete (r # rs) n = (if rqName r = n then rs else r # req_delete rs n)"
  by (auto simp: req_delete_def split: option.split)

lemma req_store_Nil [simp]: "req_replace [] n r = []" "req_delete [] n = []"
  by (simp_all add: req_replace_def req_delete_def)

lemma req_lookup_None: "req_lookup rs n = None \<longleftrightarrow> n \<notin> rqName ` set rs"
  by (induction rs) auto

lemma req_lookup_Some: "req_lookup rs n = Some r \<Longrightarrow> r \<in> set rs \<and> rqName r = n"
  by (induction rs) (auto split: if_splits)

lemma req_lookup_index: "req_index rs n = None \<longleftrightarrow> req_lookup rs n = None"
  "req_index rs n = Some i \<Longrightarrow> req_lookup rs n = Some (rs ! i)"
  by (auto simp: req_lookup_def)

lemma req_lookup_distinct:
  "distinct (map rqName rs) \<Longrightarrow> r \<in> set rs \<Longrightarrow> req_lookup rs (rqName r) = Some r"
  by (induction rs) auto

lemma req_lookup_snoc: "req_lookup (rs @ [r]) n = (if req_lookup rs n = None \<and> n = rqName r then Some r else req_lookup rs n)"
  by (induction rs) auto

lemma names_replace: "rqName r = n \<Longrightarrow> map rqName (req_replace rs n r) = map rqName rs"
  by (induction rs) auto

lemma names_delete: "map rqName (req_delete rs n) = remove1 n (map rqName rs)"
  by (induction rs) auto

lemma lookup_replace:
  "req_lookup (req_replace rs (rqName r) r) n =
     (if n = rqName r \<and> req_lookup rs n \<noteq> None then Some r else req_lookup rs n)"
  by (induction rs) auto

lemma lookup_delete:
  "distinct (map rqName rs) \<Longrightarrow> req_lookup (req_delete rs k) n = (if n = k then None else req_lookup rs n)"
  by (induction rs) (auto simp: req_lookup_None)

interpretation rs: requirement_store req_lookup req_insert req_replace req_delete rqName req_names_distinct
proof
  fix s :: "requirement list" and n and r :: requirement
  assume inv: "req_names_distinct s"
  then have d: "distinct (map rqName s)" by (simp add: req_names_distinct_def)
  { assume "req_lookup s (rqName r) = None"
    then show "req_lookup (req_insert s r) = (req_lookup s)(rqName r \<mapsto> r)" "req_names_distinct (req_insert s r)"
      using d by (auto simp: fun_eq_iff req_insert_def req_lookup_snoc req_names_distinct_def req_lookup_None) }
  { assume "req_lookup s (rqName r) \<noteq> None"
    then show "req_lookup (req_replace s (rqName r) r) = (req_lookup s)(rqName r \<mapsto> r)"
      "req_names_distinct (req_replace s (rqName r) r)"
      using d by (auto simp: fun_eq_iff lookup_replace req_names_distinct_def names_replace) }
  show "req_lookup (req_delete s n) = (req_lookup s)(n := None)" "req_names_distinct (req_delete s n)"
    using d by (auto simp: fun_eq_iff lookup_delete req_names_distinct_def names_delete distinct_remove1)
qed


section \<open>A delta as a store operation\<close>

definition delta_op_of :: "delta \<Rightarrow> (string, requirement) store_op" where
  "delta_op_of d = (if dOp d = OpAdded then Insert (dName d) (live_req d)
     else if dOp d = OpModified then Replace (dName d) (live_req d) else Delete (dName d))"

text \<open>What every parsed delta satisfies: one of the three operations, and a block of its name.\<close>

definition wf_delta :: "delta \<Rightarrow> bool" where
  "wf_delta d \<longleftrightarrow> dOp d \<in> {OpAdded, OpModified, OpRemoved} \<and> rqName (dReq d) = dName d"

text \<open>When a delta applies to a specification seen as a map from names to requirements.\<close>

definition applies :: "(string \<Rightarrow> requirement option) \<Rightarrow> delta \<Rightarrow> bool" where
  "applies m d = (if dOp d = OpAdded then m (dName d) = None
     else (case m (dName d) of None \<Rightarrow> False
           | Some r \<Rightarrow> dOp d = OpModified \<longrightarrow> scenarioLoss r (live_req d) = []))"

definition delta_map :: "(string \<Rightarrow> requirement option) \<Rightarrow> delta \<Rightarrow> (string \<Rightarrow> requirement option)" where
  "delta_map m d = (if dOp d = OpRemoved then m(dName d := None) else m(dName d \<mapsto> live_req d))"

fun all_apply :: "(string \<Rightarrow> requirement option) \<Rightarrow> delta list \<Rightarrow> bool" where
  "all_apply m [] = True"
| "all_apply m (d # ds) \<longleftrightarrow> applies m d \<and> all_apply (delta_map m d) ds"

definition bump :: "delta \<Rightarrow> specUpdate \<Rightarrow> specUpdate" where
  "bump d u = (if dOp d = OpAdded then u\<lparr>suAdded := suAdded u + 1\<rparr>
     else if dOp d = OpModified then u\<lparr>suModified := suModified u + 1\<rparr> else u\<lparr>suRemoved := suRemoved u + 1\<rparr>)"

lemma rqName_live_req [simp]: "wf_delta d \<Longrightarrow> rqName (live_req d) = dName d"
  by (simp add: live_req_def wf_delta_def)

lemma apply_delta_ok:
  assumes "wf_delta d" and "applies (req_lookup (spRequirements spec)) d"
  shows "apply_delta lower cap (spec, u, cs) d =
    (spec\<lparr>spRequirements := rs.exec (spRequirements spec) (delta_op_of d)\<rparr>, bump d u, cs)"
proof (cases "req_index (spRequirements spec) (dName d)")
  case None
  then have "req_lookup (spRequirements spec) (dName d) = None" by (simp add: req_lookup_def)
  with None assms show ?thesis
    by (auto simp: apply_delta_def applies_def delta_op_of_def bump_def req_insert_def split: if_splits)
next
  case (Some i)
  then have "req_lookup (spRequirements spec) (dName d) = Some (spRequirements spec ! i)" by (simp add: req_lookup_def)
  with Some assms show ?thesis
    by (auto simp: apply_delta_def applies_def delta_op_of_def bump_def wf_delta_def req_replace_def req_delete_def
        split: if_splits)
qed

lemma apply_delta_conflict:
  assumes "wf_delta d" and "\<not> applies (req_lookup (spRequirements spec)) d"
  shows "\<exists>x. apply_delta lower cap (spec, u, cs) d = (spec, u, cs @ [x])"
proof (cases "req_index (spRequirements spec) (dName d)")
  case None
  then have "req_lookup (spRequirements spec) (dName d) = None" by (simp add: req_lookup_def)
  with None assms show ?thesis by (auto simp: apply_delta_def applies_def wf_delta_def split: if_splits)
next
  case (Some i)
  then have "req_lookup (spRequirements spec) (dName d) = Some (spRequirements spec ! i)" by (simp add: req_lookup_def)
  with Some assms show ?thesis by (auto simp: apply_delta_def applies_def wf_delta_def split: if_splits)
qed

lemma enabled_delta:
  "wf_delta d \<Longrightarrow> applies m d \<Longrightarrow> rs.enabled m (delta_op_of d)"
  by (auto simp: applies_def delta_op_of_def wf_delta_def live_req_def split: option.splits if_splits)

lemma spec_exec_delta: "wf_delta d \<Longrightarrow> rs.spec_exec m (delta_op_of d) = delta_map m d"
  by (auto simp: delta_op_of_def delta_map_def wf_delta_def)

lemma apply_delta_grows: "\<exists>xs. snd (snd (apply_delta lower cap st d)) = snd (snd st) @ xs"
  by (cases st) (auto simp: apply_delta_def Let_def split: option.splits)

lemma apply_deltas_grow: "\<exists>xs. snd (snd (foldl (apply_delta lower cap) st ds)) = snd (snd st) @ xs"
proof (induction ds arbitrary: st)
  case (Cons d ds)
  then show ?case using apply_delta_grows[of lower cap st d] by (metis append.assoc foldl_Cons)
qed simp

lemma applyDeltas_all:
  assumes "list_all wf_delta ds" and "distinct (map rqName (spRequirements spec))"
    and "all_apply (req_lookup (spRequirements spec)) ds"
  shows "foldl (apply_delta lower cap) (spec, u, cs) ds =
     (spec\<lparr>spRequirements := foldl rs.exec (spRequirements spec) (map delta_op_of ds)\<rparr>, fold bump ds u, cs) \<and>
     rs.all_enabled (req_lookup (spRequirements spec)) (map delta_op_of ds)"
  using assms
proof (induction ds arbitrary: spec u)
  case (Cons d ds)
  let ?rs = "rs.exec (spRequirements spec) (delta_op_of d)"
  have w: "wf_delta d" "applies (req_lookup (spRequirements spec)) d" using Cons.prems by simp_all
  have e: "rs.enabled (req_lookup (spRequirements spec)) (delta_op_of d)" using enabled_delta[OF w] .
  have i: "req_names_distinct (spRequirements spec)" using Cons.prems(2) by (simp add: req_names_distinct_def)
  have l: "req_lookup ?rs = delta_map (req_lookup (spRequirements spec)) d"
    using rs.exec_step(2)[OF i e] spec_exec_delta[OF w(1)] by simp
  have "distinct (map rqName ?rs)" using rs.exec_step(1)[OF i e] by (simp add: req_names_distinct_def)
  with Cons.prems Cons.IH[of "spec\<lparr>spRequirements := ?rs\<rparr>" "bump d u"] l
  have IH: "foldl (apply_delta lower cap) (spec\<lparr>spRequirements := ?rs\<rparr>, bump d u, cs) ds =
     (spec\<lparr>spRequirements := foldl rs.exec ?rs (map delta_op_of ds)\<rparr>, fold bump ds (bump d u), cs) \<and>
     rs.all_enabled (req_lookup ?rs) (map delta_op_of ds)" by simp
  with e w l show ?case by (simp add: apply_delta_ok spec_exec_delta)
qed simp

lemma applyDeltas_conflict_free_iff:
  assumes "list_all wf_delta ds" and "distinct (map rqName (spRequirements spec))"
  shows "snd (snd (applyDeltas lower cap spec ds u)) = [] \<longleftrightarrow> all_apply (req_lookup (spRequirements spec)) ds"
proof
  show "snd (snd (applyDeltas lower cap spec ds u)) = []" if "all_apply (req_lookup (spRequirements spec)) ds"
    using applyDeltas_all[OF assms that, of lower cap u "[]"] by (simp add: applyDeltas_def)
  show "all_apply (req_lookup (spRequirements spec)) ds" if "snd (snd (applyDeltas lower cap spec ds u)) = []"
    using assms that unfolding applyDeltas_def
  proof (induction ds arbitrary: spec u)
    case (Cons d ds)
    have w: "wf_delta d" using Cons.prems by simp
    have ap: "applies (req_lookup (spRequirements spec)) d"
    proof (rule ccontr)
      assume "\<not> ?thesis"
      then obtain x where "apply_delta lower cap (spec, u, []) d = (spec, u, [x])"
        using apply_delta_conflict[OF w, of spec lower cap u "[]"] by auto
      then show False using Cons.prems(3) apply_deltas_grow[of lower cap "(spec, u, [x])" ds] by simp
    qed
    let ?rs = "rs.exec (spRequirements spec) (delta_op_of d)"
    have i: "req_names_distinct (spRequirements spec)" using Cons.prems(2) by (simp add: req_names_distinct_def)
    note e = rs.exec_step[OF i enabled_delta[OF w ap]]
    have "all_apply (req_lookup ?rs) ds"
      using Cons.IH[of "spec\<lparr>spRequirements := ?rs\<rparr>" "bump d u"] Cons.prems apply_delta_ok[OF w ap] e(1)
      by (simp add: req_names_distinct_def)
    with ap e(2) spec_exec_delta[OF w] show ?case by simp
  qed simp
qed



section \<open>Parsed deltas\<close>

lemma rqName_build: "rqName (buildRequirement r ls) = rqName r"
  by (auto simp: buildRequirement_def Let_def split: prod.splits list.splits)

lemma takePurpose_keeps: "takePurpose d ls b = Some (d', rest) \<Longrightarrow> dOp d' = dOp d \<and> dName d' = dName d"
  by (auto simp: takePurpose_def Let_def split: list.splits if_splits prod.splits)

lemma flush_lines_keeps: "dOp (fst (flush_lines d body ls)) = dOp d \<and> dName (fst (flush_lines d body ls)) = dName d"
  by (induction d body ls rule: flush_lines.induct)
    (auto simp: Let_def dest: takePurpose_keeps split: option.splits if_splits)

lemma flush_delta_wf:
  assumes "dOp d \<in> {OpAdded, OpModified, OpRemoved}"
  shows "wf_delta (flush_delta d ls)"
  using assms flush_lines_keeps[of d "[]" ls]
  by (auto simp: wf_delta_def flush_delta_def rqName_build empty_requirement_def Let_def case_prod_unfold)

lemma match_delta_head_op: "match_delta_head s = Some (op, cap, nm) \<Longrightarrow> op \<in> {OpAdded, OpModified, OpRemoved}"
  by (auto simp: match_delta_head_def delta_op_def Let_def split: option.splits list.splits if_splits)

definition dl_inv :: "delta_loop \<Rightarrow> bool" where
  "dl_inv st \<longleftrightarrow>
     (\<forall>i < length (dlDeltas st). dOp (dlDeltas st ! i) \<in> {OpAdded, OpModified, OpRemoved}
        \<and> (dlCur st \<noteq> Some i \<longrightarrow> wf_delta (dlDeltas st ! i))) \<and>
     (\<forall>c. dlCur st = Some c \<longrightarrow> c < length (dlDeltas st))"

lemma dl_flush_wf: "dl_inv st \<Longrightarrow> list_all wf_delta (dlDeltas (dl_flush st))"
  by (auto simp: dl_inv_def dl_flush_def list_all_length nth_list_update flush_delta_wf split: option.split)

lemma dl_step_inv: "dl_inv st \<Longrightarrow> dl_inv (dl_step file st l)"
proof (cases "fst (headingLevel l) = 3")
  case True
  assume inv: "dl_inv st"
  have w: "list_all wf_delta (dlDeltas (dl_flush st))" using dl_flush_wf[OF inv] .
  then have o: "i < length (dlDeltas (dl_flush st)) \<Longrightarrow> dOp (dlDeltas (dl_flush st) ! i) \<in> {OpAdded, OpModified, OpRemoved}" for i
    by (auto simp: list_all_length wf_delta_def)
  show ?thesis
  proof (cases "match_delta_head (snd (headingLevel l))")
    case None
    then show ?thesis using True w o by (simp add: dl_step_def dl_inv_def list_all_length Let_def)
  next
    case (Some x)
    then obtain op cap nm where x: "match_delta_head (snd (headingLevel l)) = Some (op, cap, nm)" by (cases x) auto
    show ?thesis using True w o match_delta_head_op[OF x]
      by (auto simp: dl_step_def dl_inv_def list_all_length Let_def x nth_append new_delta_def less_Suc_eq)
  qed
next
  case False
  assume "dl_inv st"
  with False show ?thesis by (auto simp: dl_step_def dl_inv_def split: option.splits)
qed

lemma wf_deltas_ParseChange: "list_all wf_delta (cDeltas (ParseChange y file doc))"
proof -
  have "list_all wf_delta (fst (parseDelta file body))" for body
  proof -
    let ?st = "foldl (dl_step file) \<lparr>dlDeltas = [], dlCur = None, dlCurLines = [], dlLoose = [], dlSkipping = False, dlParse = []\<rparr> body"
    have "dl_inv ?st" by (rule foldl_invariant) (auto simp: dl_inv_def[of "\<lparr>dlDeltas = [], dlCur = _, dlCurLines = _, dlLoose = _, dlSkipping = _, dlParse = _\<rparr>"] intro: dl_step_inv)
    from dl_flush_wf[OF this] show ?thesis by (auto simp: parseDelta_def Let_def case_prod_unfold)
  qed
  then show ?thesis by (auto split: option.split)
qed

section \<open>Scenarios survive\<close>

definition keeps_scenarios :: "requirement \<Rightarrow> requirement \<Rightarrow> bool" where
  "keeps_scenarios r r' \<longleftrightarrow> (\<forall>old\<in>set (rqScenarios r). \<exists>now\<in>set (rqScenarios r').
     scName now = scName old \<and> firstCheck now = firstCheck old)"

lemma keeps_refl [simp]: "keeps_scenarios r r"
  by (auto simp: keeps_scenarios_def)

lemma keeps_trans: "keeps_scenarios r s \<Longrightarrow> keeps_scenarios s t \<Longrightarrow> keeps_scenarios r t"
  unfolding keeps_scenarios_def by metis

lemma no_loss_keeps:
  assumes "scenarioLoss r r' = []"
  shows "keeps_scenarios r r'"
  unfolding keeps_scenarios_def
proof
  fix old assume "old \<in> set (rqScenarios r)"
  with assms show "\<exists>now\<in>set (rqScenarios r'). scName now = scName old \<and> firstCheck now = firstCheck old"
  proof (cases "by_name (rqScenarios r') (scName old)")
    case None
    then show ?thesis using assms \<open>old \<in> _\<close> by (force simp: scenarioLoss_def)
  next
    case (Some now)
    have "(if firstCheck old \<noteq> firstCheck now
           then [ChangesCheck (scName old) (firstCheck old) (firstCheck now)] else []) = []"
      using assms \<open>old \<in> _\<close> Some unfolding scenarioLoss_def map_concat_nil_iff by fastforce
    then have "firstCheck old = firstCheck now" by (simp split: if_splits)
    with by_name_Some[OF Some] show ?thesis by auto
  qed
qed

lemma merge_keeps:
  assumes "list_all wf_delta ds" and "all_apply m ds" and "m n = Some r" and "\<forall>d\<in>set ds. dName d = n \<longrightarrow> dOp d \<noteq> OpRemoved"
  shows "\<exists>r'. foldl delta_map m ds n = Some r' \<and> keeps_scenarios r r'"
  using assms
proof (induction ds arbitrary: m r)
  case (Cons d ds)
  have "\<exists>r1. delta_map m d n = Some r1 \<and> keeps_scenarios r r1"
  proof (cases "dName d = n")
    case True
    then have "dOp d = OpModified" using Cons.prems by (auto simp: applies_def wf_delta_def)
    then show ?thesis using True Cons.prems
      by (auto simp: delta_map_def applies_def no_loss_keeps split: if_splits)
  qed (use Cons.prems in \<open>auto simp: delta_map_def\<close>)
  then obtain r1 where r1: "delta_map m d n = Some r1" "keeps_scenarios r r1" by blast
  with Cons.IH[of "delta_map m d" r1] Cons.prems keeps_trans show ?case by fastforce
qed auto


section \<open>The merged specification\<close>

lemma merged_spec:
  assumes "list_all wf_delta ds" and "distinct (map rqName (spRequirements spec))"
    and "applyDeltas lower cap spec ds u = (spec', u', [])"
  shows "spec' = spec\<lparr>spRequirements := foldl rs.exec (spRequirements spec) (map delta_op_of ds)\<rparr>"
    and "u' = fold bump ds u"
    and "rs.all_enabled (req_lookup (spRequirements spec)) (map delta_op_of ds)"
proof -
  have "all_apply (req_lookup (spRequirements spec)) ds"
    using applyDeltas_conflict_free_iff[OF assms(1,2), of lower cap u] assms(3) by simp
  note a = applyDeltas_all[OF assms(1,2) this, of lower cap u "[]"]
  show "spec' = spec\<lparr>spRequirements := foldl rs.exec (spRequirements spec) (map delta_op_of ds)\<rparr>"
    "u' = fold bump ds u" "rs.all_enabled (req_lookup (spRequirements spec)) (map delta_op_of ds)"
    using a assms(3) by (simp_all add: applyDeltas_def)
qed

lemma merged_lookup:
  assumes "list_all wf_delta ds" and "distinct (map rqName (spRequirements spec))"
    and "applyDeltas lower cap spec ds u = (spec', u', [])"
  shows "req_lookup (spRequirements spec') = foldl delta_map (req_lookup (spRequirements spec)) ds"
    and "distinct (map rqName (spRequirements spec'))"
proof -
  have i: "req_names_distinct (spRequirements spec)" using assms(2) by (simp add: req_names_distinct_def)
  have m: "foldl rs.spec_exec m (map delta_op_of ds) = foldl delta_map m ds" for m
    using assms(1) by (induction ds arbitrary: m) (simp_all add: spec_exec_delta)
  from rs.exec_all[OF i merged_spec(3)[OF assms]] merged_spec(1)[OF assms]
  show "req_lookup (spRequirements spec') = foldl delta_map (req_lookup (spRequirements spec)) ds"
    "distinct (map rqName (spRequirements spec'))" by (simp_all add: m req_names_distinct_def)
qed

lemma exec_list_all:
  assumes "list_all P xs" and "list_all (\<lambda>d. P (live_req d)) ds"
  shows "list_all P (foldl rs.exec xs (map delta_op_of ds))"
  using assms
proof (induction ds arbitrary: xs)
  case (Cons d ds)
  have "list_all P (rs.exec xs (delta_op_of d))"
  proof -
    have "list_all P (req_replace xs n r)" if "P r" for n r
      using Cons.prems(1) that by (induction xs) auto
    moreover have "list_all P (req_delete xs n)" for n
      using Cons.prems(1) by (induction xs) auto
    ultimately show ?thesis using Cons.prems by (simp add: delta_op_of_def req_insert_def)
  qed
  then show ?case using Cons by simp
qed simp

text \<open>A block that can be written into a spec: it parses as itself and closes its code blocks.\<close>

definition clean_req :: "requirement \<Rightarrow> bool" where
  "clean_req r \<longleftrightarrow> wf_req r \<and> closed_text (rqText r)"

lemma wf_spec_clean:
  assumes "wf_spec s" and "closed_text (spPreamble s)" and "list_all clean_req rs"
  shows "wf_spec (s\<lparr>spRequirements := rs\<rparr>)"
  using assms by (auto simp: wf_spec_def clean_req_def list_all_iff dest: in_set_butlastD)

section \<open>Properties of the merge\<close>

text \<open>C14: \<open>applyDeltas\<close> refines map updates. On a spec whose requirement names are distinct, the
  merge reports no conflict exactly when the deltas, taken in order, each apply to the spec
  seen as a map (ADDED of a fresh name, MODIFIED of a present one without losing a scenario,
  REMOVED of a present one); it then keeps the names distinct and the preamble, has as its map
  the same sequence of map updates, and counts each kind of delta.\<close>

theorem applyDeltas_refines:
  assumes "list_all wf_delta ds" and "distinct (map rqName (spRequirements spec))"
    and "applyDeltas lower cap spec ds u = (spec', u', cs)"
  shows "(cs = [] \<longleftrightarrow> all_apply (req_lookup (spRequirements spec)) ds) \<and>
    (cs = [] \<longrightarrow> distinct (map rqName (spRequirements spec')) \<and> spPreamble spec' = spPreamble spec \<and>
       req_lookup (spRequirements spec') = foldl delta_map (req_lookup (spRequirements spec)) ds \<and>
       u' = fold bump ds u)"
proof -
  have iff: "cs = [] \<longleftrightarrow> all_apply (req_lookup (spRequirements spec)) ds"
    using applyDeltas_conflict_free_iff[OF assms(1,2), of lower cap u] assms(3) by simp
  have "distinct (map rqName (spRequirements spec')) \<and> spPreamble spec' = spPreamble spec \<and>
       req_lookup (spRequirements spec') = foldl delta_map (req_lookup (spRequirements spec)) ds \<and> u' = fold bump ds u"
    if "cs = []"
  proof -
    have a: "applyDeltas lower cap spec ds u = (spec', u', [])" using assms(3) that by simp
    show ?thesis using merged_spec[OF assms(1,2) a] merged_lookup[OF assms(1,2) a] by simp
  qed
  with iff show ?thesis by blast
qed

definition ex_delta_rec :: "string \<Rightarrow> string \<Rightarrow> scenario list \<Rightarrow> delta" where
  "ex_delta_rec op n ss = (new_delta op ''cap'' n 1)\<lparr>dReq := (empty_requirement n 1)\<lparr>rqScenarios := ss\<rparr>\<rparr>"

definition ex_spec :: spec_doc where
  "ex_spec = \<lparr>spTitle = [], spPurpose = [], spPreamble = [],
     spRequirements = [(empty_requirement ''A'' 1)\<lparr>rqScenarios := [ex_scenario ''s'' ''x'']\<rparr>, empty_requirement ''B'' 2],
     spOther = []\<rparr>"

definition ex_update :: specUpdate where
  "ex_update = start_update \<lparr>pSpecDirs = [], pSpecFile = Map.empty, pSpecPath = (\<lambda>c. c)\<rparr> ''cap''"

definition ex_deltas :: "delta list" where
  "ex_deltas = [ex_delta_rec OpModified ''A'' [ex_scenario ''s'' ''x'', ex_scenario ''t'' ''y''],
     ex_delta_rec OpRemoved ''B'' [], ex_delta_rec OpAdded ''C'' []]"

lemma ex_merge_facts:
  "list_all wf_delta ex_deltas" "distinct (map rqName (spRequirements ex_spec))"
  "case applyDeltas (\<lambda>s. s) ''cap'' ex_spec ex_deltas ex_update of
     (spec', u', cs) \<Rightarrow> cs = [] \<and> map rqName (spRequirements spec') = [''A'', ''C'']"
  by code_simp+

theorem applyDeltas_refines_witness: "all_apply (req_lookup (spRequirements ex_spec)) ex_deltas"
proof -
  obtain spec' u' cs where a: "applyDeltas (\<lambda>s. s) ''cap'' ex_spec ex_deltas ex_update = (spec', u', cs)"
    by (rule prod_cases3)
  then have "cs = []" using ex_merge_facts(3) by simp
  with applyDeltas_refines[OF ex_merge_facts(1,2) a] show ?thesis by blast
qed

text \<open>C15: a merge never weakens the living spec. If \<open>applyDeltas\<close> reports no conflict, every
  requirement of the spec that no delta REMOVES is still there under its name, with each of its
  scenarios still there and checked by the same command.\<close>

theorem merge_keeps_scenarios:
  assumes "list_all wf_delta ds" and "distinct (map rqName (spRequirements spec))"
    and "applyDeltas lower cap spec ds u = (spec', u', [])"
    and "r \<in> set (spRequirements spec)" and "\<forall>d\<in>set ds. dName d = rqName r \<longrightarrow> dOp d \<noteq> OpRemoved"
  shows "\<exists>r'\<in>set (spRequirements spec'). rqName r' = rqName r \<and>
    (\<forall>old\<in>set (rqScenarios r). \<exists>now\<in>set (rqScenarios r'). scName now = scName old \<and> firstCheck now = firstCheck old)"
proof -
  have ok: "all_apply (req_lookup (spRequirements spec)) ds"
    using applyDeltas_conflict_free_iff[OF assms(1,2), of lower cap u] assms(3) by simp
  have "req_lookup (spRequirements spec) (rqName r) = Some r"
    using req_lookup_distinct[OF assms(2,4)] .
  from merge_keeps[OF assms(1) ok this assms(5)] obtain r' where
    r': "foldl delta_map (req_lookup (spRequirements spec)) ds (rqName r) = Some r'" "keeps_scenarios r r'" by blast
  have "req_lookup (spRequirements spec') = foldl delta_map (req_lookup (spRequirements spec)) ds"
    by (rule merged_lookup(1)[OF assms(1,2,3)])
  with r' show ?thesis using req_lookup_Some[of "spRequirements spec'" "rqName r" r']
    by (auto simp: keeps_scenarios_def)
qed

theorem merge_keeps_scenarios_witness:
  "case applyDeltas (\<lambda>s. s) ''cap'' ex_spec ex_deltas ex_update of (spec', u', cs) \<Rightarrow>
     \<exists>r'\<in>set (spRequirements spec'). rqName r' = ''A'' \<and> (\<exists>now\<in>set (rqScenarios r'). firstCheck now = ''x'')"
proof -
  let ?r = "(empty_requirement ''A'' 1)\<lparr>rqScenarios := [ex_scenario ''s'' ''x'']\<rparr>"
  obtain spec' u' cs where a: "applyDeltas (\<lambda>s. s) ''cap'' ex_spec ex_deltas ex_update = (spec', u', cs)"
    by (rule prod_cases3)
  then have "cs = []" using ex_merge_facts(3) by simp
  with a have a': "applyDeltas (\<lambda>s. s) ''cap'' ex_spec ex_deltas ex_update = (spec', u', [])" by simp
  have "?r \<in> set (spRequirements ex_spec)" by (simp add: ex_spec_def)
  moreover have "\<forall>d\<in>set ex_deltas. dName d = rqName ?r \<longrightarrow> dOp d \<noteq> OpRemoved"
    by (simp add: ex_deltas_def ex_delta_rec_def new_delta_def empty_requirement_def)
  ultimately show ?thesis using merge_keeps_scenarios[OF ex_merge_facts(1,2) a'] a'
    by (fastforce simp: ex_scenario_def firstCheck_def empty_requirement_def)
qed


text \<open>A merged spec reads back as what was merged, where nothing leaves a code block open.\<close>

lemma applyDeltas_reparses:
  assumes "list_all wf_delta ds" and "distinct (map rqName (spRequirements (ParseSpec doc)))"
    and "applyDeltas lower cap (ParseSpec doc) ds u = (spec', u', [])"
    and "CR \<notin> set (crlf_to_lf doc)" and "closed_text (spPreamble (ParseSpec doc))"
    and "list_all (\<lambda>r. closed_text (rqText r)) (spRequirements (ParseSpec doc))"
    and "list_all (\<lambda>d. clean_req (dReq d) \<and> rewriteLiveMarkdown (rqText (dReq d)) = rqText (dReq d)) ds"
  shows "map erase_req (spRequirements (ParseSpec (Render spec'))) = map erase_req (spRequirements spec') \<and>
         spPreamble (ParseSpec (Render spec')) = spPreamble (ParseSpec doc)"
proof -
  have wf: "wf_spec (ParseSpec doc)" using assms(4) by (rule wf_spec_ParseSpec)
  have "list_all clean_req (spRequirements (ParseSpec doc))"
    using wf assms(6) by (auto simp: wf_spec_def clean_req_def list_all_iff)
  moreover have "list_all (\<lambda>d. clean_req (live_req d)) ds"
    using assms(7) by (auto simp: list_all_iff live_req_def)
  ultimately have "list_all clean_req (spRequirements spec')"
    using merged_spec(1)[OF assms(1-3)] by (simp add: exec_list_all)
  then have "wf_spec spec'"
    using wf_spec_clean[OF wf assms(5), of "spRequirements spec'"] merged_spec(1)[OF assms(1-3)] by simp
  from ParseSpec_Render[OF this] merged_spec(1)[OF assms(1-3)] show ?thesis by simp
qed

lemma apply_delta_capability: "suCapability (fst (snd (apply_delta lower cap st d))) = suCapability (fst (snd st))"
  by (cases st) (simp add: apply_delta_def Let_def split: option.split)

lemma applyDeltas_capability: "suCapability (fst (snd (applyDeltas lower cap spec ds u))) = suCapability u"
proof -
  have "suCapability (fst (snd (foldl (apply_delta lower cap) st ds))) = suCapability (fst (snd st))" for st
    by (induction ds arbitrary: st) (simp_all add: apply_delta_capability)
  then show ?thesis by (simp add: applyDeltas_def)
qed

text \<open>C16: the file a merge writes for an existing capability reads back as what was merged. If \<open>MergeDelta\<close> reports no
  conflict, the spec on disk closes its code blocks in its preamble and every requirement and has no carriage return
  outside a line end, and each delta's block parses as itself, closes its code blocks and holds no \<open>(live)\<close> tag, then the
  content of the capability's update parses to exactly the requirements \<open>applyDeltas\<close> left, up to line numbers, under
  the preamble on disk.\<close>

theorem merged_spec_reparses:
  assumes "MergeDelta lower p c = (us, [])" and "cap \<in> dCapability ` set (cDeltas c)" and "pSpecFile p cap = Some doc"
    and "list_all wf_delta (cDeltas c)" and "distinct (map rqName (spRequirements (ParseSpec doc)))"
    and "CR \<notin> set (crlf_to_lf doc)" and "closed_text (spPreamble (ParseSpec doc))"
    and "list_all (\<lambda>r. closed_text (rqText r)) (spRequirements (ParseSpec doc))"
    and "list_all (\<lambda>d. clean_req (dReq d) \<and> rewriteLiveMarkdown (rqText (dReq d)) = rqText (dReq d)) (deltas_of c cap)"
  shows "\<exists>u\<in>set us. \<exists>spec' u'. suCapability u = cap
    \<and> applyDeltas lower cap (ParseSpec doc) (deltas_of c cap) (start_update p cap) = (spec', u', [])
    \<and> map erase_req (spRequirements (ParseSpec (suContent u))) = map erase_req (spRequirements spec')
    \<and> spPreamble (ParseSpec (suContent u)) = spPreamble (ParseSpec doc)"
proof -
  have base: "base_spec p c cap = ParseSpec doc" using assms(3) by (simp add: base_spec_def LoadSpec_def)
  have cap: "cap \<in> set (delta_caps c)" using assms(2) by (simp add: delta_caps_def set_dedup_acc)
  have free: "concat (map snd (map (merge_cap lower p c) (delta_caps c))) = []"
    and us: "us = List.map_filter fst (map (merge_cap lower p c) (delta_caps c))"
    using assms(1) by (auto simp: MergeDelta_def Let_def split: if_splits)
  from free cap have mc: "snd (merge_cap lower p c cap) = []" by auto
  obtain spec' u' cs where a: "applyDeltas lower cap (ParseSpec doc) (deltas_of c cap) (start_update p cap) = (spec', u', cs)"
    by (rule prod_cases3)
  have cs: "cs = []" using mc a by (auto simp: merge_cap_def base Let_def split: if_splits)
  obtain u where u: "fst (merge_cap lower p c cap) = Some u" "suContent u = Render spec'" "suCapability u = suCapability u'"
    using mc a by (auto simp: merge_cap_def base Let_def split: if_splits)
  have "suCapability u' = cap" using applyDeltas_capability[of lower cap "ParseSpec doc" "deltas_of c cap" "start_update p cap"] a
    by (simp add: start_update_def)
  moreover have "u \<in> set us" using cap u(1) unfolding us by (force simp: List.map_filter_def)
  moreover have "list_all wf_delta (deltas_of c cap)" using assms(4) by (auto simp: deltas_of_def list_all_iff)
  ultimately show ?thesis
    using applyDeltas_reparses[OF _ assms(5) a[unfolded cs] assms(6-9)] a cs u(2,3) by (intro bexI[of _ u] exI[of _ spec'] exI[of _ u']) auto
qed

definition ex_doc :: string where
  "ex_doc = ''# S'' @ [LF] @ ''Purpose: p'' @ [LF, LF] @ ''### Requirement: A'' @ [LF] @ ''text'' @ [LF]"

definition ex_added :: delta where
  "ex_added = flush_delta (new_delta OpAdded ''cap'' ''B'' 1)
     (splitLines ([LF] @ ''#### Scenario: s'' @ [LF] @ ''- check: make test'' @ [LF]))"

lemma ex_reparse_facts:
  "list_all wf_delta [ex_added]" "distinct (map rqName (spRequirements (ParseSpec ex_doc)))"
  "CR \<notin> set (crlf_to_lf ex_doc)" "closed_text (spPreamble (ParseSpec ex_doc))"
  "list_all (\<lambda>r. closed_text (rqText r)) (spRequirements (ParseSpec ex_doc))"
  "list_all (\<lambda>d. clean_req (dReq d) \<and> rewriteLiveMarkdown (rqText (dReq d)) = rqText (dReq d)) [ex_added]"
  "case applyDeltas (\<lambda>s. s) ''cap'' (ParseSpec ex_doc) [ex_added] ex_update of
     (spec', u', cs) \<Rightarrow> cs = [] \<and> map rqName (map erase_req (spRequirements spec')) = [''A'', ''B'']"
  by code_simp+

definition ex_project :: project where
  "ex_project = \<lparr>pSpecDirs = [''cap''], pSpecFile = [''cap'' \<mapsto> ex_doc], pSpecPath = (\<lambda>c. c)\<rparr>"

definition ex_merge_change :: change where
  "ex_merge_change = (ParseChange no_yaml [] [])\<lparr>cDeltas := [ex_added]\<rparr>"

lemma ex_merge_cap:
  "delta_caps ex_merge_change = [''cap'']"
  "case applyDeltas (\<lambda>s. s) ''cap'' (base_spec ex_project ex_merge_change ''cap'')
       (deltas_of ex_merge_change ''cap'') (start_update ex_project ''cap'') of
     (spec, u, cs) \<Rightarrow> cs = [] \<and> spRequirements spec \<noteq> []"
  by code_simp+

lemma ex_merge_free: "snd (MergeDelta (\<lambda>s. s) ex_project ex_merge_change) = []"
proof -
  have "snd (merge_cap (\<lambda>s. s) ex_project ex_merge_change ''cap'') = []"
    using ex_merge_cap(2) by (auto simp: merge_cap_def Let_def split: prod.splits)
  then show ?thesis using ex_merge_cap(1) by (simp add: MergeDelta_def Let_def)
qed

lemma ex_merged:
  "deltas_of ex_merge_change ''cap'' = [ex_added]" "dCapability ex_added = ''cap''"
  "case applyDeltas (\<lambda>s. s) ''cap'' (ParseSpec ex_doc) [ex_added] (start_update ex_project ''cap'') of
     (spec', u', cs) \<Rightarrow> map rqName (map erase_req (spRequirements spec')) = [''A'', ''B'']"
  by code_simp+

theorem merged_spec_reparses_witness:
  "\<exists>u\<in>set (fst (MergeDelta (\<lambda>s. s) ex_project ex_merge_change)).
     map rqName (map erase_req (spRequirements (ParseSpec (suContent u)))) = [''A'', ''B'']"
proof -
  let ?us = "fst (MergeDelta (\<lambda>s. s) ex_project ex_merge_change)"
  have m: "MergeDelta (\<lambda>s. s) ex_project ex_merge_change = (?us, [])" using ex_merge_free by (simp add: prod_eq_iff)
  have c: "cDeltas ex_merge_change = [ex_added]" by (simp add: ex_merge_change_def)
  have "\<exists>u\<in>set ?us. \<exists>spec' u'. suCapability u = ''cap''
    \<and> applyDeltas (\<lambda>s. s) ''cap'' (ParseSpec ex_doc) (deltas_of ex_merge_change ''cap'') (start_update ex_project ''cap'') = (spec', u', [])
    \<and> map erase_req (spRequirements (ParseSpec (suContent u))) = map erase_req (spRequirements spec')
    \<and> spPreamble (ParseSpec (suContent u)) = spPreamble (ParseSpec ex_doc)"
    using ex_reparse_facts(1-6) c ex_merged(1,2)
    by (intro merged_spec_reparses[OF m]) (simp_all add: ex_project_def)
  then obtain u spec' u' where u: "u \<in> set ?us"
      "applyDeltas (\<lambda>s. s) ''cap'' (ParseSpec ex_doc) [ex_added] (start_update ex_project ''cap'') = (spec', u', [])"
      "map erase_req (spRequirements (ParseSpec (suContent u))) = map erase_req (spRequirements spec')"
    unfolding ex_merged(1) by blast
  from ex_merged(3) u(2) have "map rqName (map erase_req (spRequirements spec')) = [''A'', ''B'']" by simp
  then show ?thesis unfolding u(3)[symmetric] by (rule bexI[OF _ u(1)])
qed

text \<open>
  The condition on code blocks is needed: a spec whose last requirement leaves a code block open
  passes \<open>ValidateSpec\<close>, takes an ADDED requirement without conflict, and the merged file
  passes \<open>ValidateSpec\<close> too, but the added requirement is inside the open block: no reader of
  the file sees it.
\<close>

definition ex_open_doc :: string where
  "ex_open_doc = ''# S'' @ [LF] @ ''Purpose: p'' @ [LF, LF] @ ''### Requirement: A'' @ [LF, LF] @ ''#### Scenario: s'' @ [LF] @
     ''- check: make test'' @ [LF] @ ''```'' @ [LF] @ ''sample'' @ [LF]"

theorem open_fence_hides_added:
  "ValidateSpec ''spec.md'' ex_open_doc 24576 = [] \<and>
   (case applyDeltas (\<lambda>s. s) ''cap'' (ParseSpec ex_open_doc) [ex_added] ex_update of (spec', u', cs) \<Rightarrow>
      cs = [] \<and> map rqName (map erase_req (spRequirements spec')) = [''A'', ''B''] \<and>
      ValidateSpec ''spec.md'' (Render spec') 24576 = [] \<and>
      map rqName (map erase_req (spRequirements (ParseSpec (Render spec')))) = [''A''])"
  by code_simp

text \<open>
  The rewrite toggles its fence flag on either kind of fence line, where the parser closes a block
  only by the kind that opened it: a check line inside a back-quote block that shows a tilde
  line is rewritten, although it is code for the parser.
\<close>

theorem live_rewrite_inside_code:
  "map mdInCode (splitLines (''```'' @ [LF] @ ''~~~'' @ [LF] @ ''- check (live): x'' @ [LF] @ ''```'' @ [LF])) =
     [True, True, True, True] \<and>
   rewriteLiveMarkdown (''```'' @ [LF] @ ''~~~'' @ [LF] @ ''- check (live): x'' @ [LF] @ ''```'' @ [LF]) =
     ''```'' @ [LF] @ ''~~~'' @ [LF] @ ''- check (full): x'' @ [LF] @ ''```'' @ [LF]"
  by code_simp

end
