(* ===== verification/Effective.thy ===== *)
theory Effective
  imports MergeFacts
begin

text \<open>
  \<open>internal/apexv1/effective.go\<close> and the check results of \<open>state.go\<close>: which commands a verify,
  a baseline and a gate run, and how they are run. Running a command is the parameter \<open>run\<close>
  of \<open>runWithRetries\<close> and \<open>RunChecks\<close>: the result of one try, the paths undone after it and the
  folder that keeps them; \<open>ctx_err\<close> is whether the context was cancelled when asked.
\<close>

section \<open>Data\<close>

definition KindTask :: string where "KindTask = ''task''"
definition KindScenario :: string where "KindScenario = ''scenario''"
definition KindGate :: string where "KindGate = ''gate''"

record plannedCheck =
  pcRef :: string
  pcKind :: string
  pcCapability :: string
  pcRequirement :: string
  pcScenario :: string
  pcDelta :: bool
  pcCmd :: string
  pcLine :: nat
  pcFull :: bool

record checkResult =
  crTask :: string
  crKind :: string
  crCapability :: string
  crRequirement :: string
  crScenario :: string
  crDelta :: bool
  crCmd :: string
  crExit :: int
  crReason :: string
  crStrayFiles :: "string list"
  crStraysKept :: "string list"
  crPreExistingRed :: bool
  crFlaky :: bool
  crTries :: nat

definition crRed :: "checkResult \<Rightarrow> bool" where
  "crRed r \<longleftrightarrow> crExit r \<noteq> 0 \<and> \<not> crPreExistingRed r"

definition scenarioRef :: "string \<Rightarrow> string \<Rightarrow> string \<Rightarrow> string" where
  "scenarioRef capName req scen = capName @ ''/'' @ req @ ''/'' @ scen"

section \<open>The checks of a specification\<close>

definition scenario_check :: "string \<Rightarrow> bool \<Rightarrow> requirement \<Rightarrow> scenario \<Rightarrow> plannedCheck option" where
  "scenario_check capName delta r s =
     (let cmd = firstCheck s in
      if cmd = [] \<or> cmd = HumanReview then None
      else Some \<lparr>pcRef = scenarioRef capName (rqName r) (scName s), pcKind = KindScenario, pcCapability = capName,
                 pcRequirement = rqName r, pcScenario = scName s, pcDelta = delta, pcCmd = cmd, pcLine = scLine s,
                 pcFull = Full s\<rparr>)"

definition scenarioChecks :: "string \<Rightarrow> requirement list \<Rightarrow> bool \<Rightarrow> plannedCheck list" where
  "scenarioChecks capName reqs delta =
     concat (map (\<lambda>r. List.map_filter (scenario_check capName delta r) (rqScenarios r)) reqs)"

definition replaced :: "delta list \<Rightarrow> reqKey set" where
  "replaced ds = key ` set (filter (\<lambda>d. dOp d \<noteq> OpAdded) ds)"

text \<open>\<open>byCap[cap]\<close>: the blocks of the ADDED and MODIFIED deltas of a capability.\<close>

definition by_cap :: "delta list \<Rightarrow> string \<Rightarrow> requirement list" where
  "by_cap ds capName = map dReq (filter (\<lambda>d. dOp d \<noteq> OpRemoved \<and> dCapability d = capName) ds)"

text \<open>The second loop: \<open>gone\<close> are the capabilities already deleted from \<open>byCap\<close>.\<close>

fun delta_checks_go :: "delta list \<Rightarrow> string list \<Rightarrow> delta list \<Rightarrow> plannedCheck list" where
  "delta_checks_go all gone [] = []"
| "delta_checks_go all gone (d # ds) =
     (if by_cap all (dCapability d) \<noteq> [] \<and> dCapability d \<notin> set gone
      then scenarioChecks (dCapability d) (by_cap all (dCapability d)) True
           @ delta_checks_go all (dCapability d # gone) ds
      else delta_checks_go all gone ds)"

definition kept_checks :: "project \<Rightarrow> delta list \<Rightarrow> string \<Rightarrow> plannedCheck list" where
  "kept_checks p ds capName = (case LoadSpec p capName of
      None \<Rightarrow> []
    | Some (spec, _) \<Rightarrow>
        scenarioChecks capName (filter (\<lambda>r. (capName, rqName r) \<notin> replaced ds) (spRequirements spec)) False)"

definition EffectiveSpecChecks :: "project \<Rightarrow> change option \<Rightarrow> plannedCheck list" where
  "EffectiveSpecChecks p c =
     (let ds = (case c of None \<Rightarrow> [] | Some ch \<Rightarrow> cDeltas ch)
      in concat (map (kept_checks p ds) (Capabilities p)) @ delta_checks_go ds [] ds)"

section \<open>The checks of a change\<close>

record gateRun =
  grAt :: string
  grSpecFailed :: "string list"

text \<open>
  The refs red at the newest gate run: \<open>runs\<close> holds the last run of each milestone in the
  roadmap's order (\<open>None\<close> for none), and there is no roadmap when it is \<open>None\<close> itself.
\<close>

definition newest_run :: "gateRun option \<Rightarrow> gateRun option \<Rightarrow> gateRun option" where
  "newest_run newest run = (case run of
      None \<Rightarrow> newest
    | Some r \<Rightarrow> (case newest of None \<Rightarrow> Some r | Some n \<Rightarrow> if grAt n < grAt r then Some r else newest))"

definition lastGateRed :: "gateRun option list option \<Rightarrow> string set" where
  "lastGateRed runs = (case runs of
      None \<Rightarrow> {}
    | Some rs \<Rightarrow> (case foldl newest_run None rs of None \<Rightarrow> {} | Some n \<Rightarrow> set (grSpecFailed n)))"

definition task_check_plan :: "task \<Rightarrow> plannedCheck" where
  "task_check_plan t = \<lparr>pcRef = tID t, pcKind = KindTask, pcCapability = [], pcRequirement = [], pcScenario = [],
     pcDelta = False, pcCmd = tCheck t, pcLine = 0, pcFull = tFull t\<rparr>"

definition in_scope :: "change \<Rightarrow> plannedCheck \<Rightarrow> bool" where
  "in_scope c pc \<longleftrightarrow> pcDelta pc \<or> pcCapability pc \<in> set (mTouches (cMeta c)) \<or> pcCmd pc \<in> tCheck ` set (CommandTasks c)"

definition skipped_full :: "string set \<Rightarrow> change \<Rightarrow> plannedCheck \<Rightarrow> bool" where
  "skipped_full redAtGate c pc \<longleftrightarrow>
     pcFull pc \<and> \<not> pcDelta pc \<and> pcCmd pc \<notin> tCheck ` set (CommandTasks c) \<and> pcRef pc \<notin> redAtGate"

definition changeChecks :: "project \<Rightarrow> string set \<Rightarrow> change \<Rightarrow> plannedCheck list \<times> nat" where
  "changeChecks p redAtGate c =
     (let specs = filter (in_scope c) (EffectiveSpecChecks p (Some c))
      in (map task_check_plan (CommandTasks c) @ filter (\<lambda>pc. \<not> skipped_full redAtGate c pc) specs,
          length (filter (skipped_full redAtGate c) specs)))"

definition ChangeChecks :: "project \<Rightarrow> string set \<Rightarrow> change \<Rightarrow> plannedCheck list" where
  "ChangeChecks p redAtGate c = fst (changeChecks p redAtGate c)"

definition logName :: "(string \<Rightarrow> string) \<Rightarrow> string \<Rightarrow> plannedCheck \<Rightarrow> string" where
  "logName sha256_hex prefix pc =
     (if pcKind pc \<noteq> KindScenario then prefix @ pcRef pc @ ''.log''
      else prefix @ ''S-'' @ take 12 (sha256_hex (pcRef pc)) @ ''.log'')"

section \<open>Running the checks\<close>

text \<open>
  One check, run again while it is red for no reason of its own, up to \<open>retries\<close> more times.
  \<open>run k\<close> is try \<open>k\<close>: its result, what was undone after it, and the folder that keeps it
  (empty when nothing was kept); outside a work tree nothing is undone.
\<close>

type_synonym try_run = "nat \<Rightarrow> checkResult \<times> string list \<times> string"

function run_tries :: "try_run \<Rightarrow> (nat \<Rightarrow> bool) \<Rightarrow> nat \<Rightarrow> string list \<Rightarrow> string list \<Rightarrow> nat \<Rightarrow> checkResult" where
  "run_tries run ctx_err retries strays keptDirs k =
     (let (r, undone, kept) = run k;
          strays' = strays @ undone;
          kept' = (if kept = [] then keptDirs else keptDirs @ [kept]) in
      if crExit r \<noteq> 0 \<and> crReason r = [] \<and> k < retries \<and> \<not> ctx_err k
      then run_tries run ctx_err retries strays' kept' (k + 1)
      else (if k > 0 then r\<lparr>crTries := k + 1, crFlaky := (crExit r = 0)\<rparr> else r)
             \<lparr>crStrayFiles := strays', crStraysKept := kept'\<rparr>)"
  by pat_completeness auto
termination
  by (relation "measure (\<lambda>(run, e, n, s, kd, k). n - k)") auto

declare run_tries.simps [simp del]

definition runWithRetries :: "try_run \<Rightarrow> (nat \<Rightarrow> bool) \<Rightarrow> nat \<Rightarrow> checkResult" where
  "runWithRetries run ctx_err retries = run_tries run ctx_err retries [] [] 0"

definition exitInterrupted :: int where "exitInterrupted = 130"

definition blank_result :: "string \<Rightarrow> int \<Rightarrow> checkResult" where
  "blank_result cmd ex = \<lparr>crTask = [], crKind = [], crCapability = [], crRequirement = [], crScenario = [],
     crDelta = False, crCmd = cmd, crExit = ex, crReason = [], crStrayFiles = [], crStraysKept = [],
     crPreExistingRed = False, crFlaky = False, crTries = 0\<rparr>"

definition label :: "plannedCheck \<Rightarrow> checkResult \<Rightarrow> checkResult" where
  "label pc r = r\<lparr>crTask := pcRef pc, crKind := pcKind pc, crCapability := pcCapability pc,
     crRequirement := pcRequirement pc, crScenario := pcScenario pc, crDelta := pcDelta pc\<rparr>"

text \<open>
  \<open>RunChecks\<close>: \<open>seen\<close> is the code's \<open>done\<close> map by command. \<open>exec i pc\<close> is what executing the
  \<open>i\<close>-th planned check gives (the unrun result of a missing requirement, or the tries), and
  \<open>ctx_err i\<close> whether the context is cancelled when its turn comes.
\<close>

fun run_checks :: "(nat \<Rightarrow> plannedCheck \<Rightarrow> checkResult) \<Rightarrow> (nat \<Rightarrow> bool) \<Rightarrow> (string \<rightharpoonup> checkResult) \<Rightarrow> nat
    \<Rightarrow> plannedCheck list \<Rightarrow> checkResult list" where
  "run_checks exec ctx_err seen i [] = []"
| "run_checks exec ctx_err seen i (pc # pcs) =
     (case seen (pcCmd pc) of
        Some r \<Rightarrow> label pc r # run_checks exec ctx_err seen (i + 1) pcs
      | None \<Rightarrow>
          if ctx_err i then label pc (blank_result (pcCmd pc) exitInterrupted) # run_checks exec ctx_err seen (i + 1) pcs
          else let r = exec i pc in label pc r # run_checks exec ctx_err (seen(pcCmd pc \<mapsto> r)) (i + 1) pcs)"

definition RunChecks :: "(nat \<Rightarrow> plannedCheck \<Rightarrow> checkResult) \<Rightarrow> (nat \<Rightarrow> bool) \<Rightarrow> plannedCheck list \<Rightarrow> checkResult list" where
  "RunChecks exec ctx_err checks = run_checks exec ctx_err Map.empty 0 checks"

definition StraysKept :: "checkResult list \<Rightarrow> string list" where
  "StraysKept results = concat (map crStraysKept results)"

definition StrayFiles :: "checkResult list \<Rightarrow> string list" where
  "StrayFiles results = sort (dedup_acc [] (concat (map crStrayFiles results)))"

end
