(* ===== verification/EffectiveFacts.thy ===== *)
theory EffectiveFacts
  imports Effective "HOL-Library.Multiset"
begin

text \<open>
  The checks a verify runs are the checks of the specification the archive will write
  (\<open>effective_is_merged\<close>), every distinct command is run once, and a check's retries end.
\<close>

section \<open>The merged requirements of one capability\<close>

definition replaced_names :: "delta list \<Rightarrow> string set" where
  "replaced_names ds = dName ` {d \<in> set ds. dOp d \<noteq> OpAdded}"

lemma filter_names_id: "n \<notin> rqName ` set rs \<Longrightarrow> filter (\<lambda>r. rqName r \<noteq> n) rs = rs"
  by (induction rs) auto

lemma mset_req_delete:
  "distinct (map rqName rs) \<Longrightarrow> mset (req_delete rs n) = mset (filter (\<lambda>r. rqName r \<noteq> n) rs)"
proof (induction rs)
  case (Cons r rs)
  then have "rqName r = n \<Longrightarrow> filter (\<lambda>r. rqName r \<noteq> n) rs = rs" using filter_names_id[of n rs] by auto
  with Cons show ?case by auto
qed simp

lemma mset_req_replace:
  "distinct (map rqName rs) \<Longrightarrow> n \<in> rqName ` set rs \<Longrightarrow>
     mset (req_replace rs n r') = add_mset r' (mset (filter (\<lambda>r. rqName r \<noteq> n) rs))"
proof (induction rs)
  case (Cons r rs)
  then have "rqName r = n \<Longrightarrow> filter (\<lambda>r. rqName r \<noteq> n) rs = rs" using filter_names_id[of n rs] by auto
  with Cons show ?case by auto
qed simp

lemma mset_merged:
  assumes "list_all wf_delta ds" and "distinct (map dName ds)" and "distinct (map rqName rs)"
    and "rs.all_enabled (req_lookup rs) (map delta_op_of ds)"
  shows "mset (foldl rs.exec rs (map delta_op_of ds)) =
     mset (filter (\<lambda>r. rqName r \<notin> replaced_names ds) rs) + mset (map live_req (filter (\<lambda>d. dOp d \<noteq> OpRemoved) ds))"
  using assms
proof (induction ds arbitrary: rs)
  case Nil
  then show ?case by (simp add: replaced_names_def)
next
  case (Cons d ds)
  let ?rs = "rs.exec rs (delta_op_of d)"
  have i: "req_names_distinct rs" using Cons.prems(3) by (simp add: req_names_distinct_def)
  have en: "rs.enabled (req_lookup rs) (delta_op_of d)" using Cons.prems(4) by simp
  have w: "wf_delta d" "rqName (live_req d) = dName d" using Cons.prems(1) by simp_all
  have rest: "rs.all_enabled (req_lookup ?rs) (map delta_op_of ds)"
    using Cons.prems(4) rs.exec_step(2)[OF i en] by simp
  have d: "distinct (map rqName ?rs)" using rs.exec_step(1)[OF i en] by (simp add: req_names_distinct_def)
  have IH: "mset (foldl rs.exec ?rs (map delta_op_of ds)) =
     filter_mset (\<lambda>r. rqName r \<notin> replaced_names ds) (mset ?rs) + mset (map live_req (filter (\<lambda>d. dOp d \<noteq> OpRemoved) ds))"
    using Cons.IH[OF _ _ d rest] Cons.prems by simp
  have fresh: "dName d \<notin> replaced_names ds" using Cons.prems(2) by (auto simp: replaced_names_def)
  have names: "replaced_names (d # ds) = (if dOp d = OpAdded then {} else {dName d}) \<union> replaced_names ds"
    by (auto simp: replaced_names_def)
  have ff: "filter_mset (\<lambda>r. rqName r \<notin> replaced_names ds) (filter_mset (\<lambda>r. rqName r \<noteq> dName d) M) =
      filter_mset (\<lambda>r. rqName r \<noteq> dName d \<and> rqName r \<notin> replaced_names ds) M" for M
    by (simp add: filter_filter_mset conj_commute)
  consider "dOp d = OpAdded" | "dOp d = OpModified" | "dOp d = OpRemoved" using w(1) by (auto simp: wf_delta_def)
  then show ?case
  proof cases
    case 1
    then have "mset ?rs = add_mset (live_req d) (mset rs)" by (simp add: delta_op_of_def req_insert_def)
    then show ?thesis using 1 IH fresh w names by simp
  next
    case 2
    then have "dName d \<in> rqName ` set rs"
      using en w req_lookup_Some[of rs "dName d"] by (auto simp: delta_op_of_def intro: rev_image_eqI)
    from mset_req_replace[OF Cons.prems(3) this, of "live_req d"] 2
    have "mset ?rs = add_mset (live_req d) (filter_mset (\<lambda>r. rqName r \<noteq> dName d) (mset rs))"
      by (simp add: delta_op_of_def)
    with 2 IH fresh w names show ?thesis by (simp add: ff)
  next
    case 3
    with mset_req_delete[OF Cons.prems(3), of "dName d"]
    have "mset ?rs = filter_mset (\<lambda>r. rqName r \<noteq> dName d) (mset rs)" by (simp add: delta_op_of_def)
    with 3 IH names show ?thesis by (simp add: ff)
  qed
qed

section \<open>Checks of a requirement multiset\<close>

definition unmark :: "plannedCheck \<Rightarrow> plannedCheck" where
  "unmark pc = pc\<lparr>pcDelta := False\<rparr>"

definition req_checks :: "string \<Rightarrow> requirement \<Rightarrow> plannedCheck multiset" where
  "req_checks cap r = mset (List.map_filter (scenario_check cap False r) (rqScenarios r))"

lemma unmark_map_filter:
  "map unmark (List.map_filter (scenario_check cap b r) ss) = List.map_filter (scenario_check cap False r) ss"
proof (induction ss)
  case (Cons s ss)
  have "map_option unmark (scenario_check cap b r s) = scenario_check cap False r s"
    by (simp add: scenario_check_def Let_def unmark_def)
  with Cons show ?case
    by (cases "scenario_check cap b r s"; cases "scenario_check cap False r s") (auto simp: List.map_filter_simps)
qed (simp add: List.map_filter_simps)

lemma mset_scenarioChecks:
  "mset (map unmark (scenarioChecks cap rs b)) = (\<Sum>r\<in>#mset rs. req_checks cap r)"
  by (induction rs) (simp_all add: scenarioChecks_def req_checks_def unmark_map_filter mset_map[symmetric] del: mset_map)

lemma scenario_check_text: "scenario_check cap b (r\<lparr>rqText := t\<rparr>) = scenario_check cap b r"
  by (simp add: scenario_check_def fun_eq_iff Let_def)

lemma req_checks_live [simp]: "req_checks cap (live_req d) = req_checks cap (dReq d)"
  by (simp add: req_checks_def live_req_def scenario_check_text)

lemma by_cap_deltas_of:
  "by_cap (cDeltas c) cap = map dReq (filter (\<lambda>d. dOp d \<noteq> OpRemoved) (deltas_of c cap))"
  by (simp add: by_cap_def deltas_of_def conj_commute)

lemma delta_checks_sum:
  "mset (map unmark (delta_checks_go all gone ds)) =
     (\<Sum>cap\<in>dCapability ` set ds - set gone. \<Sum>r\<in>#mset (by_cap all cap). req_checks cap r)"
proof (induction ds arbitrary: gone)
  case (Cons d ds)
  let ?c = "dCapability d"
  let ?f = "\<lambda>cap. \<Sum>r\<in>#mset (by_cap all cap). req_checks cap r"
  consider "?c \<in> set gone" | "?c \<notin> set gone" "by_cap all ?c = []" | "?c \<notin> set gone" "by_cap all ?c \<noteq> []" by blast
  then show ?case
  proof cases
    case 1
    then have "dCapability ` set (d # ds) - set gone = dCapability ` set ds - set gone" by auto
    with 1 Cons.IH show ?thesis by simp
  next
    case 2
    then have "?f ?c = {#}" by simp
    then have "(\<Sum>cap\<in>insert ?c (dCapability ` set ds - set gone). ?f cap) = (\<Sum>cap\<in>dCapability ` set ds - set gone. ?f cap)"
      by (cases "?c \<in> dCapability ` set ds - set gone") (simp_all add: insert_absorb)
    moreover have "dCapability ` set (d # ds) - set gone = insert ?c (dCapability ` set ds - set gone)" using 2 by auto
    ultimately show ?thesis using 2 Cons.IH by simp
  next
    case 3
    have "dCapability ` set (d # ds) - set gone = insert ?c (dCapability ` set ds - set (?c # gone))" using 3 by auto
    moreover have "?c \<notin> dCapability ` set ds - set (?c # gone)" by simp
    ultimately show ?thesis using 3 Cons.IH[of "?c # gone"]
      by (simp add: mset_scenarioChecks del: mset_map)
  qed
qed simp


section \<open>The checks of the merged specification\<close>

definition merged_reqs :: "(string \<Rightarrow> string) \<Rightarrow> project \<Rightarrow> change \<Rightarrow> string \<Rightarrow> requirement list" where
  "merged_reqs lower p c cap =
     spRequirements (fst (applyDeltas lower cap (base_spec p c cap) (deltas_of c cap) (start_update p cap)))"

lemma delta_caps_set [simp]: "set (delta_caps c) = dCapability ` set (cDeltas c)"
  by (simp add: delta_caps_def set_dedup_acc)

lemma MergeDelta_conflict_free:
  assumes "MergeDelta lower p c = (us, [])" and "cap \<in> dCapability ` set (cDeltas c)"
  shows "snd (snd (applyDeltas lower cap (base_spec p c cap) (deltas_of c cap) (start_update p cap))) = []"
proof -
  have "concat (map snd (map (merge_cap lower p c) (delta_caps c))) = []"
    using assms(1) by (auto simp: MergeDelta_def Let_def split: if_splits)
  then have "snd (merge_cap lower p c cap) = []" using assms(2) by auto
  then show ?thesis by (auto simp: merge_cap_def Let_def case_prod_unfold split: if_splits)
qed

lemma replaced_cap: "(cap, n) \<in> replaced (cDeltas c) \<longleftrightarrow> n \<in> replaced_names (deltas_of c cap)"
  by (auto simp: replaced_def replaced_names_def deltas_of_def key_def image_iff)

lemma merged_cap_checks:
  assumes "list_all wf_delta (cDeltas c)" and "distinct (map key (cDeltas c))"
    and "distinct (map rqName (spRequirements (base_spec p c cap)))" and "MergeDelta lower p c = (us, [])"
  shows "mset (merged_reqs lower p c cap) =
    mset (filter (\<lambda>r. (cap, rqName r) \<notin> replaced (cDeltas c)) (spRequirements (base_spec p c cap))) +
    mset (map live_req (filter (\<lambda>d. dOp d \<noteq> OpRemoved) (deltas_of c cap)))"
proof (cases "cap \<in> dCapability ` set (cDeltas c)")
  case True
  let ?a = "applyDeltas lower cap (base_spec p c cap) (deltas_of c cap) (start_update p cap)"
  have w: "list_all wf_delta (deltas_of c cap)" using assms(1) by (auto simp: deltas_of_def list_all_iff)
  have dn: "distinct (map dName (deltas_of c cap))"
    using assms(2) by (auto simp: deltas_of_def distinct_map key_def inj_on_def)
  have a: "?a = (fst ?a, fst (snd ?a), [])" using MergeDelta_conflict_free[OF assms(4) True] by (metis prod.collapse)
  from merged_spec[OF w assms(3) a] mset_merged[OF w dn assms(3)] show ?thesis
    by (simp add: merged_reqs_def replaced_cap)
next
  case False
  then have "deltas_of c cap = []" by (auto simp: deltas_of_def filter_empty_conv)
  then show ?thesis by (simp add: merged_reqs_def applyDeltas_def replaced_cap replaced_names_def)
qed

text \<open>C24: what a verify checks is what the archive will write. For a change whose delta keys are
  distinct, over specs whose requirement names are distinct, if the delta merges without
  conflict then the effective checks are, as a multiset and up to the mark for the change's own,
  exactly the scenario checks of the merged requirements of every capability the project or the
  delta has: none is missed, none is run twice, none of a removed or replaced block is run.\<close>

theorem effective_is_merged:
  assumes "list_all wf_delta (cDeltas c)" and "distinct (map key (cDeltas c))"
    and "\<forall>cap. distinct (map rqName (spRequirements (base_spec p c cap)))"
    and "distinct (pSpecDirs p)" and "dom (pSpecFile p) \<subseteq> set (Capabilities p)"
    and "MergeDelta lower p c = (us, [])"
  shows "mset (map unmark (EffectiveSpecChecks p (Some c))) =
    (\<Sum>cap \<in> set (Capabilities p) \<union> dCapability ` set (cDeltas c).
       mset (map unmark (scenarioChecks cap (merged_reqs lower p c cap) False)))"
proof -
  let ?ds = "cDeltas c" and ?D = "dCapability ` set (cDeltas c)" and ?C = "set (Capabilities p)"
  let ?k = "\<lambda>cap. \<Sum>r\<in>#mset (filter (\<lambda>r. (cap, rqName r) \<notin> replaced ?ds) (spRequirements (base_spec p c cap))). req_checks cap r"
  let ?d = "\<lambda>cap. \<Sum>r\<in>#mset (by_cap ?ds cap). req_checks cap r"
  have dist: "distinct (Capabilities p)" using assms(4) by (simp add: Capabilities_def)
  have kept: "mset (map unmark (kept_checks p ?ds cap)) = (if LoadSpec p cap = None then {#} else ?k cap)" for cap
    by (cases "LoadSpec p cap") (auto simp: kept_checks_def base_spec_def mset_scenarioChecks simp del: mset_map mset_filter)
  have k0: "?k cap = {#}" if "LoadSpec p cap = None" for cap
    using that by (simp add: base_spec_def new_spec_def)
  have d0: "?d cap = {#}" if "cap \<notin> ?D" for cap
  proof -
    have "filter (\<lambda>d. dOp d \<noteq> OpRemoved \<and> dCapability d = cap) ?ds = []" using that by (auto simp: filter_empty_conv)
    then show ?thesis by (simp add: by_cap_def)
  qed
  have kk: "mset (map unmark (kept_checks p ?ds cap)) = ?k cap" for cap using kept[of cap] k0[of cap] by metis
  have "mset (map unmark (concat (map (kept_checks p ?ds) caps))) = (\<Sum>cap\<leftarrow>caps. ?k cap)" for caps
    by (induction caps) (simp_all add: kk del: mset_map mset_filter)
  then have "mset (map unmark (concat (map (kept_checks p ?ds) (Capabilities p)))) = (\<Sum>cap\<in>?C. ?k cap)"
    using dist by (simp add: sum_list_distinct_conv_sum_set)
  also have "\<dots> = (\<Sum>cap\<in>?C \<union> ?D. ?k cap)"
  proof (rule sum.mono_neutral_left)
    show "\<forall>cap\<in>?C \<union> ?D - ?C. ?k cap = {#}"
      using k0 assms(5) by (auto simp: LoadSpec_def)
  qed auto
  finally have 1: "mset (map unmark (concat (map (kept_checks p ?ds) (Capabilities p)))) = (\<Sum>cap\<in>?C \<union> ?D. ?k cap)" .
  have 2: "mset (map unmark (delta_checks_go ?ds [] ?ds)) = (\<Sum>cap\<in>?C \<union> ?D. ?d cap)"
    using d0 by (simp add: delta_checks_sum del: mset_map) (rule sum.mono_neutral_left; auto)
  have "mset (map unmark (scenarioChecks cap (merged_reqs lower p c cap) False)) = ?k cap + ?d cap" for cap
    unfolding mset_scenarioChecks merged_cap_checks[OF assms(1,2) assms(3)[rule_format] assms(6)] by_cap_deltas_of
    by (simp add: image_mset.compositionality comp_def)
  then show ?thesis using 1 2
    by (simp add: EffectiveSpecChecks_def Let_def sum.distrib del: mset_map)
qed


lemma ex_effective_facts:
  "list_all wf_delta (cDeltas ex_merge_change)" "distinct (map key (cDeltas ex_merge_change))"
  "distinct (map rqName (spRequirements (base_spec ex_project ex_merge_change ''cap'')))"
  by code_simp+

theorem effective_is_merged_witness:
  "mset (map unmark (EffectiveSpecChecks ex_project (Some ex_merge_change))) =
    (\<Sum>cap \<in> set (Capabilities ex_project) \<union> dCapability ` set (cDeltas ex_merge_change).
       mset (map unmark (scenarioChecks cap (merged_reqs (\<lambda>s. s) ex_project ex_merge_change cap) False)))"
proof (rule effective_is_merged[OF ex_effective_facts(1,2)])
  show "\<forall>cap. distinct (map rqName (spRequirements (base_spec ex_project ex_merge_change cap)))"
  proof
    fix cap
    show "distinct (map rqName (spRequirements (base_spec ex_project ex_merge_change cap)))"
      using ex_effective_facts(3)
      by (cases "cap = ''cap''") (simp_all add: base_spec_def LoadSpec_def ex_project_def new_spec_def)
  qed
  show "distinct (pSpecDirs ex_project)" by (simp add: ex_project_def)
  show "dom (pSpecFile ex_project) \<subseteq> set (Capabilities ex_project)" by (simp add: ex_project_def Capabilities_def)
  show "MergeDelta (\<lambda>s. s) ex_project ex_merge_change = (fst (MergeDelta (\<lambda>s. s) ex_project ex_merge_change), [])"
    using ex_merge_free by (metis prod.collapse)
qed

section \<open>Which checks a change runs\<close>

text \<open>C25: a verify never leaves out a check of the change's own. Every command task, every scenario
  of the change's ADDED and MODIFIED blocks, every scenario that shares a task's command, and every scenario of a touched
  capability that is not full or was red at the last gate is run; a scenario in scope is left out only when it is full, not the change's own,
  shares no task's command and was not red at the last gate, and \<open>fullSkipped\<close> counts them.\<close>

theorem changeChecks_complete:
  "tCheck ` set (CommandTasks c) \<subseteq> pcCmd ` set (fst (changeChecks p redAtGate c)) \<and>
   (\<forall>pc \<in> set (EffectiveSpecChecks p (Some c)).
      pcDelta pc \<or> pcCmd pc \<in> tCheck ` set (CommandTasks c)
        \<or> pcCapability pc \<in> set (mTouches (cMeta c)) \<and> (\<not> pcFull pc \<or> pcRef pc \<in> redAtGate)
      \<longrightarrow> pc \<in> set (fst (changeChecks p redAtGate c))) \<and>
   length (filter (in_scope c) (EffectiveSpecChecks p (Some c))) + length (CommandTasks c) =
     length (fst (changeChecks p redAtGate c)) + snd (changeChecks p redAtGate c)"
proof -
  have len: "length xs = length (filter (\<lambda>x. \<not> P x) xs) + length (filter P xs)" for P and xs :: "plannedCheck list"
    using sum_length_filter_compl[of P xs] by simp
  have "pcCmd ` set (map task_check_plan (CommandTasks c)) = tCheck ` set (CommandTasks c)"
    by (simp add: image_image task_check_plan_def)
  then have "tCheck ` set (CommandTasks c) \<subseteq> pcCmd ` set (fst (changeChecks p redAtGate c))"
    by (simp add: changeChecks_def Let_def image_Un)
  moreover have "\<forall>pc \<in> set (EffectiveSpecChecks p (Some c)).
      pcDelta pc \<or> pcCmd pc \<in> tCheck ` set (CommandTasks c)
        \<or> pcCapability pc \<in> set (mTouches (cMeta c)) \<and> (\<not> pcFull pc \<or> pcRef pc \<in> redAtGate)
      \<longrightarrow> pc \<in> set (fst (changeChecks p redAtGate c))"
    by (auto simp: changeChecks_def Let_def in_scope_def skipped_full_def)
  ultimately show ?thesis
    using len[of "filter (in_scope c) (EffectiveSpecChecks p (Some c))" "skipped_full redAtGate c"]
    by (simp add: changeChecks_def Let_def)
qed

theorem changeChecks_complete_witness:
  "map pcCmd (fst (changeChecks ex_project {} ex_merge_change)) \<noteq> []"
proof -
  have "\<exists>pc \<in> set (EffectiveSpecChecks ex_project (Some ex_merge_change)). pcDelta pc" by code_simp
  then show ?thesis
    using changeChecks_complete[of ex_merge_change ex_project "{}"] by (auto simp del: set_map)
qed

section \<open>Running checks\<close>

text \<open>The index of the first planned check of a command.\<close>

fun first_with :: "string \<Rightarrow> plannedCheck list \<Rightarrow> nat" where
  "first_with cmd [] = 0"
| "first_with cmd (pc # pcs) = (if pcCmd pc = cmd then 0 else Suc (first_with cmd pcs))"

lemma first_with_append:
  "first_with cmd (xs @ ys) = (if cmd \<in> pcCmd ` set xs then first_with cmd xs else length xs + first_with cmd ys)"
  by (induction xs) auto

lemma first_with_less: "cmd \<in> pcCmd ` set xs \<Longrightarrow> first_with cmd xs < length xs \<and> pcCmd (xs ! first_with cmd xs) = cmd"
  by (induction xs) auto

lemma run_checks_all:
  assumes "\<And>cmd. seen cmd = (if cmd \<in> pcCmd ` set pre
           then Some (exec (first_with cmd pre) ((pre @ pcs) ! first_with cmd pre)) else None)"
  shows "run_checks exec (\<lambda>_. False) seen (length pre) pcs =
    map (\<lambda>pc. label pc (exec (first_with (pcCmd pc) (pre @ pcs)) ((pre @ pcs) ! first_with (pcCmd pc) (pre @ pcs)))) pcs"
  using assms
proof (induction pcs arbitrary: pre seen)
  case (Cons pc pcs)
  let ?all = "pre @ pc # pcs" and ?seen = "if pcCmd pc \<in> pcCmd ` set pre then seen else seen(pcCmd pc \<mapsto> exec (length pre) pc)"
  have all: "(pre @ [pc]) @ pcs = ?all" by simp
  have "run_checks exec (\<lambda>_. False) ?seen (length (pre @ [pc])) pcs =
      map (\<lambda>pc. label pc (exec (first_with (pcCmd pc) ?all) (?all ! first_with (pcCmd pc) ?all))) pcs"
  proof (rule Cons.IH[where pre = "pre @ [pc]", unfolded all])
    show "?seen cmd = (if cmd \<in> pcCmd ` set (pre @ [pc])
        then Some (exec (first_with cmd (pre @ [pc])) (?all ! first_with cmd (pre @ [pc]))) else None)" for cmd
      using Cons.prems[of cmd] by (auto simp: first_with_append)
  qed
  then show ?case
    using Cons.prems[of "pcCmd pc"] by (auto simp: first_with_append Let_def)
qed simp

text \<open>C29: a command shared by several checks runs once. When the run is not interrupted,
  \<open>RunChecks\<close> gives one result per planned check, in order and under its own reference, and
  each is the outcome of executing the first planned check with that command: no other
  position is executed.\<close>

theorem RunChecks_once:
  assumes "\<And>i. \<not> ctx_err i"
  shows "RunChecks exec ctx_err checks =
    map (\<lambda>pc. label pc (exec (first_with (pcCmd pc) checks) (checks ! first_with (pcCmd pc) checks))) checks"
proof -
  have "ctx_err = (\<lambda>_. False)" using assms by auto
  then show ?thesis using run_checks_all[of Map.empty "[]" exec checks] by (simp add: RunChecks_def)
qed

definition ex_checks :: "plannedCheck list" where
  "ex_checks = [task_check_plan ((empty_task ''T1'' 1)\<lparr>tCheck := ''a''\<rparr>),
     task_check_plan ((empty_task ''T2'' 2)\<lparr>tCheck := ''b''\<rparr>), task_check_plan ((empty_task ''T3'' 3)\<lparr>tCheck := ''a''\<rparr>)]"

theorem RunChecks_once_witness:
  "map (\<lambda>r. (crTask r, crExit r)) (RunChecks (\<lambda>i pc. blank_result (pcCmd pc) (int i)) (\<lambda>_. False) ex_checks) =
     [(''T1'', 0), (''T2'', 1), (''T3'', 0)]"
  by (subst RunChecks_once) (simp_all add: ex_checks_def task_check_plan_def empty_task_def label_def blank_result_def)


text \<open>What \<open>run_tries\<close> stops at: try \<open>n\<close> is the first from \<open>k\<close> on that is not to be run again.\<close>

definition retried :: "try_run \<Rightarrow> (nat \<Rightarrow> bool) \<Rightarrow> nat \<Rightarrow> nat \<Rightarrow> bool" where
  "retried run ctx_err retries k \<longleftrightarrow>
     crExit (fst (run k)) \<noteq> 0 \<and> crReason (fst (run k)) = [] \<and> k < retries \<and> \<not> ctx_err k"

definition tries_end :: "try_run \<Rightarrow> (nat \<Rightarrow> bool) \<Rightarrow> nat \<Rightarrow> string list \<Rightarrow> string list \<Rightarrow> nat \<Rightarrow> nat \<Rightarrow> bool" where
  "tries_end run ctx_err retries strays keptDirs k n \<longleftrightarrow>
     k \<le> n \<and> n \<le> retries \<and> (\<forall>j. k \<le> j \<and> j < n \<longrightarrow> retried run ctx_err retries j) \<and> \<not> retried run ctx_err retries n \<and>
     run_tries run ctx_err retries strays keptDirs k =
      (if n > 0 then (fst (run n))\<lparr>crTries := n + 1, crFlaky := (crExit (fst (run n)) = 0)\<rparr> else fst (run n))
        \<lparr>crStrayFiles := strays @ concat (map (\<lambda>j. fst (snd (run j))) [k..<Suc n]),
         crStraysKept := keptDirs @ filter (\<lambda>d. d \<noteq> []) (map (\<lambda>j. snd (snd (run j))) [k..<Suc n])\<rparr>"

lemma run_tries_result:
  assumes "k \<le> retries"
  shows "\<exists>n. tries_end run ctx_err retries strays keptDirs k n"
  using assms
proof (induction "retries - k" arbitrary: strays keptDirs k rule: less_induct)
  case less
  obtain r undone kept where r: "run k = (r, undone, kept)" by (cases "run k")
  let ?s = "strays @ undone" and ?kd = "if kept = [] then keptDirs else keptDirs @ [kept]"
  show ?case
  proof (cases "retried run ctx_err retries k")
    case False
    then have "run_tries run ctx_err retries strays keptDirs k =
        (if k > 0 then r\<lparr>crTries := k + 1, crFlaky := (crExit r = 0)\<rparr> else r)\<lparr>crStrayFiles := ?s, crStraysKept := ?kd\<rparr>"
      by (subst run_tries.simps) (auto simp: r retried_def Let_def)
    with False less.prems r have "tries_end run ctx_err retries strays keptDirs k k" by (auto simp: tries_end_def)
    then show ?thesis ..
  next
    case True
    then have step: "run_tries run ctx_err retries strays keptDirs k = run_tries run ctx_err retries ?s ?kd (k + 1)"
      by (subst run_tries.simps) (simp add: r retried_def)
    have lt: "k < retries" using True by (simp add: retried_def)
    then have "retries - (k + 1) < retries - k" "k + 1 \<le> retries" by simp_all
    from less.hyps[OF this] obtain n where n: "tries_end run ctx_err retries ?s ?kd (k + 1) n" ..
    then have u: "[k..<Suc n] = k # [k + 1..<Suc n]" by (simp add: tries_end_def upt_conv_Cons)
    have "\<forall>j. k \<le> j \<and> j < n \<longrightarrow> retried run ctx_err retries j"
      using n True by (metis tries_end_def Suc_eq_plus1 le_eq_less_or_eq Suc_leI)
    with n have "tries_end run ctx_err retries strays keptDirs k n"
      unfolding tries_end_def step u by (auto simp: r simp del: upt_Suc)
    then show ?thesis ..
  qed
qed

text \<open>Retries end and are honest. \<open>runWithRetries\<close> runs try 0 and then a further try only
  after one that was red for no recorded reason, with tries left and the context alive, so at most
  \<open>retries + 1\<close> in all; the outcome is that of the last one, it is marked flaky exactly when it
  is green after a red try, and it reports everything undone and kept after every try.\<close>

lemma runWithRetries_spec:
  "\<exists>n \<le> retries. (\<forall>j < n. retried run ctx_err retries j) \<and> \<not> retried run ctx_err retries n \<and>
     (let res = runWithRetries run ctx_err retries in
        crExit res = crExit (fst (run n)) \<and>
        (n > 0 \<longrightarrow> crTries res = n + 1 \<and> crFlaky res = (crExit res = 0)) \<and>
        crStrayFiles res = concat (map (\<lambda>j. fst (snd (run j))) [0..<Suc n]) \<and>
        crStraysKept res = filter (\<lambda>d. d \<noteq> []) (map (\<lambda>j. snd (snd (run j))) [0..<Suc n]))"
proof -
  obtain n where n: "n \<le> retries" "\<forall>j < n. retried run ctx_err retries j" "\<not> retried run ctx_err retries n"
    and res: "runWithRetries run ctx_err retries =
      (if n > 0 then (fst (run n))\<lparr>crTries := n + 1, crFlaky := (crExit (fst (run n)) = 0)\<rparr> else fst (run n))
        \<lparr>crStrayFiles := concat (map (\<lambda>j. fst (snd (run j))) [0..<Suc n]),
         crStraysKept := filter (\<lambda>d. d \<noteq> []) (map (\<lambda>j. snd (snd (run j))) [0..<Suc n])\<rparr>"
    using run_tries_result[of 0 retries run ctx_err "[]" "[]"]
    by (auto simp: runWithRetries_def tries_end_def simp del: upt_Suc)
  show ?thesis
    by (rule exI[of _ n]) (use n in \<open>simp add: res Let_def del: upt_Suc\<close>)
qed

definition ex_run :: try_run where
  "ex_run k = (blank_result ''a'' (if k = 1 then 0 else 1), [], [])"

lemma runWithRetries_spec_witness: "crExit (runWithRetries ex_run (\<lambda>_. False) 2) = 0"
proof -
  obtain n where n: "n \<le> 2" "\<forall>j < n. retried ex_run (\<lambda>_. False) 2 j" "\<not> retried ex_run (\<lambda>_. False) 2 n"
    "crExit (runWithRetries ex_run (\<lambda>_. False) 2) = crExit (fst (ex_run n))"
    using runWithRetries_spec[of 2 ex_run "\<lambda>_. False"] by (auto simp: Let_def)
  have "retried ex_run (\<lambda>_. False) 2 0" "\<not> retried ex_run (\<lambda>_. False) 2 1"
    by (simp_all add: retried_def ex_run_def blank_result_def)
  then have "n = 1" using n(1-3) by (metis One_nat_def less_Suc_eq less_one nat_neq_iff numeral_2_eq_2 not_less)
  then show ?thesis using n(4) by (simp add: ex_run_def blank_result_def)
qed

end
