(* ===== verification/Regression.thy ===== *)
theory Regression
  imports Effective
begin

text \<open>
  \<open>internal/apexv1/regression.go\<close>: the regression command's baseline and how a later run is judged
  against it. The failing tests a run's output names are an argument (\<open>now\<close>, \<open>names\<close>): reading the
  log and finding the names in it is not modelled.
\<close>

section \<open>Data\<close>

definition ReasonUnrun :: string where "ReasonUnrun = ''unrun''"
definition RegressionSkippedDocsOnly :: string where "RegressionSkippedDocsOnly = ''docs-only''"
definition regressionFailingCap :: nat where "regressionFailingCap = 500"
definition regressionNewFailuresShown :: nat where "regressionNewFailuresShown = 50"
definition regressionPathsShown :: nat where "regressionPathsShown = 50"
definition KindRegression :: string where "KindRegression = ''regression''"
definition regressionRef :: string where "regressionRef = ''regression''"

record regressionBaselineRec =
  rbCmd :: string
  rbExit :: int
  rbSHA :: string
  rbAt :: string
  rbFailing :: "string list"

record regressionVerdict =
  rvCmd :: string
  rvExit :: int
  rvBaselineExit :: "int option"
  rvBaselineSHA :: string
  rvPreExistingRed :: bool
  rvFailed :: bool
  rvNewFailures :: "string list"
  rvNewFailuresTotal :: nat
  rvReason :: string
  rvSkipped :: string
  rvPaths :: "string list"
  rvPathsTotal :: nat
  rvNotSkipped :: string

definition empty_verdict :: "string \<Rightarrow> regressionVerdict" where
  "empty_verdict cmd = \<lparr>rvCmd = cmd, rvExit = 0, rvBaselineExit = None, rvBaselineSHA = [], rvPreExistingRed = False,
     rvFailed = False, rvNewFailures = [], rvNewFailuresTotal = 0, rvReason = [], rvSkipped = [], rvPaths = [],
     rvPathsTotal = 0, rvNotSkipped = []\<rparr>"

section \<open>Verdicts\<close>

text \<open>The baseline's exit and SHA, when there is one for this command.\<close>

definition with_baseline :: "regressionBaselineRec option \<Rightarrow> string \<Rightarrow> regressionVerdict \<Rightarrow> regressionVerdict" where
  "with_baseline base cmd v = (case base of
      Some b \<Rightarrow> if rbCmd b = cmd then v\<lparr>rvBaselineExit := Some (rbExit b), rvBaselineSHA := rbSHA b\<rparr> else v
    | None \<Rightarrow> v)"

definition skippedRegression :: "string \<Rightarrow> regressionBaselineRec option \<Rightarrow> string list \<Rightarrow> regressionVerdict" where
  "skippedRegression cmd base paths =
     (with_baseline base cmd ((empty_verdict cmd)\<lparr>rvSkipped := RegressionSkippedDocsOnly, rvPaths := paths\<rparr>))
       \<lparr>rvPathsTotal := length paths, rvPaths := (if length paths > regressionPathsShown then take regressionPathsShown paths else paths)\<rparr>"

definition skip_verdict :: "regressionVerdict option \<Rightarrow> regressionVerdict option" where
  "skip_verdict v = (case v of None \<Rightarrow> None | Some x \<Rightarrow> if rvSkipped x = [] then None else v)"

definition namesNotIn :: "string list \<Rightarrow> string list \<Rightarrow> string list" where
  "namesNotIn names known = filter (\<lambda>n. n \<notin> set known) names"

text \<open>
  The switch of \<open>judgeRegression\<close> on a red run: the new failures and whether the red was there
  before. \<open>base_failing\<close> is read only where the baseline is for this command.
\<close>

definition judge_red :: "string \<Rightarrow> int option \<Rightarrow> string list \<Rightarrow> string list \<Rightarrow> string list \<times> bool" where
  "judge_red reason baselineExit base_failing now =
     (case baselineExit of
        None \<Rightarrow> ([], False)
      | Some e \<Rightarrow>
          if reason = ReasonUnrun then ([], False)
          else if e = 0 then (now, False)
          else if now \<noteq> [] \<and> base_failing \<noteq> []
          then (namesNotIn now base_failing, namesNotIn now base_failing = [])
          else ([], True))"

definition judgeRegression ::
  "checkResult \<Rightarrow> regressionBaselineRec option \<Rightarrow> string list \<Rightarrow> checkResult \<times> regressionVerdict" where
  "judgeRegression r base names =
     (let v0 = with_baseline base (crCmd r) ((empty_verdict (crCmd r))\<lparr>rvExit := crExit r, rvReason := crReason r\<rparr>);
          now = (if crReason r = ReasonUnrun then [] else names);
          base_failing = (case base of None \<Rightarrow> [] | Some b \<Rightarrow> rbFailing b);
          v = (if crExit r = 0 then v0
               else let (new, pre) = judge_red (crReason r) (rvBaselineExit v0) base_failing now in
                    v0\<lparr>rvPreExistingRed := pre, rvFailed := \<not> pre, rvNewFailuresTotal := length new,
                       rvNewFailures := (if length new > regressionNewFailuresShown then take regressionNewFailuresShown new else new)\<rparr>)
      in (r\<lparr>crPreExistingRed := rvPreExistingRed v\<rparr>, v))"

definition regressionBaseline :: "checkResult \<Rightarrow> string \<Rightarrow> string \<Rightarrow> string list \<Rightarrow> regressionBaselineRec" where
  "regressionBaseline r sha at names =
     \<lparr>rbCmd = crCmd r, rbExit = crExit r, rbSHA = sha, rbAt = at,
      rbFailing = (if crExit r \<noteq> 0 \<and> crReason r \<noteq> ReasonUnrun \<and> length names \<le> regressionFailingCap then names else [])\<rparr>"

definition regression_check :: "string \<Rightarrow> plannedCheck" where
  "regression_check cmd = \<lparr>pcRef = regressionRef, pcKind = KindRegression, pcCapability = [], pcRequirement = [],
     pcScenario = [], pcDelta = False, pcCmd = cmd, pcLine = 0, pcFull = False\<rparr>"

text \<open>
  The baseline a milestone gate judges by: the earliest for the command among the changes of the
  milestone, ties to the smaller id. Each candidate is a change's id with its two baselines.
\<close>

definition earlier :: "(string \<times> regressionBaselineRec) option \<Rightarrow> string \<times> regressionBaselineRec
    \<Rightarrow> (string \<times> regressionBaselineRec) option" where
  "earlier best cb = (case best of
      None \<Rightarrow> Some cb
    | Some (c, b) \<Rightarrow>
        if rbAt (snd cb) < rbAt b \<or> (rbAt (snd cb) = rbAt b \<and> fst cb < c) then Some cb else best)"

definition opt_list :: "'a option \<Rightarrow> 'a list" where
  "opt_list a = (case a of None \<Rightarrow> [] | Some x \<Rightarrow> [x])"

lemma set_opt_list [simp]: "set (opt_list a) = {r. a = Some r}"
  by (auto simp: opt_list_def split: option.splits)

definition milestoneRegressionBaseline ::
  "(string \<times> regressionBaselineRec option \<times> regressionBaselineRec option) list \<Rightarrow> string \<Rightarrow> (string \<times> regressionBaselineRec) option" where
  "milestoneRegressionBaseline changes cmd =
     foldl earlier None (concat (map (\<lambda>(i, a, b).
        map (Pair i) (filter (\<lambda>r. rbCmd r = cmd) (opt_list a @ opt_list b))) changes))"

section \<open>Facts\<close>

lemma with_baseline_exit:
  "rvBaselineExit (with_baseline base cmd v) =
     (case base of Some b \<Rightarrow> if rbCmd b = cmd then Some (rbExit b) else rvBaselineExit v | None \<Rightarrow> rvBaselineExit v)"
  by (simp add: with_baseline_def split: option.split)

lemma with_baseline_keeps [simp]:
  "rvFailed (with_baseline base cmd v) = rvFailed v" "rvPreExistingRed (with_baseline base cmd v) = rvPreExistingRed v"
  "rvNewFailures (with_baseline base cmd v) = rvNewFailures v"
  "rvNewFailuresTotal (with_baseline base cmd v) = rvNewFailuresTotal v"
  by (simp_all add: with_baseline_def split: option.split)

text \<open>The regression verdict. A run of the regression command fails its verify exactly when it
  is red and not excused; it is excused exactly when it ran, the baseline for the same command was
  red too, and, where both runs name their failing tests, every test failing now failed then. So a new
  failure is never hidden behind a suite that was already red, and the result is marked red for the
  verify accordingly.\<close>

lemma judgeRegression_verdict:
  assumes "judgeRegression r base names = (r', v)"
  shows "(rvFailed v \<longleftrightarrow> crExit r \<noteq> 0 \<and> \<not> rvPreExistingRed v) \<and>
    (rvPreExistingRed v \<longleftrightarrow> crExit r \<noteq> 0 \<and> crReason r \<noteq> ReasonUnrun \<and>
       (\<exists>b. base = Some b \<and> rbCmd b = crCmd r \<and> rbExit b \<noteq> 0 \<and>
            (names = [] \<or> rbFailing b = [] \<or> set names \<subseteq> set (rbFailing b)))) \<and>
    (crRed r' \<longleftrightarrow> rvFailed v)"
proof -
  have sub: "namesNotIn xs ys = [] \<longleftrightarrow> set xs \<subseteq> set ys" for xs ys
    by (auto simp: namesNotIn_def filter_empty_conv)
  show ?thesis
    using assms
    by (cases base) (auto simp: judgeRegression_def Let_def judge_red_def with_baseline_exit empty_verdict_def sub crRed_def
        split: if_splits)
qed

definition ex_base :: regressionBaselineRec where
  "ex_base = \<lparr>rbCmd = ''go test'', rbExit = 1, rbSHA = ''s'', rbAt = ''t'', rbFailing = [''TestA'']\<rparr>"

lemma judgeRegression_verdict_witness:
  "rvFailed (snd (judgeRegression (blank_result ''go test'' 1) (Some ex_base) [''TestA'', ''TestB'']))"
  using judgeRegression_verdict[OF surjective_pairing, of "blank_result ''go test'' 1" "Some ex_base" "[''TestA'', ''TestB'']"]
  by (auto simp: ex_base_def blank_result_def)

definition no_later :: "string \<times> regressionBaselineRec \<Rightarrow> string \<times> regressionBaselineRec \<Rightarrow> bool" where
  "no_later x y \<longleftrightarrow> rbAt (snd x) < rbAt (snd y) \<or> rbAt (snd x) = rbAt (snd y) \<and> fst x \<le> fst y"

lemma no_later_trans: "no_later x y \<Longrightarrow> no_later y z \<Longrightarrow> no_later x z"
  unfolding no_later_def by (auto intro: order.strict_trans order.trans)

lemma no_later_refl [simp]: "no_later x x"
  by (simp add: no_later_def)

lemma earlier_cases:
  "\<exists>y. earlier best x = Some y \<and> no_later y x \<and> (\<forall>z. best = Some z \<longrightarrow> no_later y z) \<and> (y = x \<or> best = Some y)"
  by (cases x; cases best) (auto simp: earlier_def no_later_def not_less le_less)

lemma foldl_earlier:
  assumes "foldl earlier best xs = Some y"
  shows "(y \<in> set xs \<or> best = Some y) \<and> (\<forall>x\<in>set xs. no_later y x) \<and> (\<forall>z. best = Some z \<longrightarrow> no_later y z)"
  using assms
proof (induction xs arbitrary: best)
  case (Cons x xs)
  obtain e where e: "earlier best x = Some e" "no_later e x" "\<forall>z. best = Some z \<longrightarrow> no_later e z" "e = x \<or> best = Some e"
    using earlier_cases[of best x] by blast
  have y: "y \<in> set xs \<or> e = y" "\<forall>x\<in>set xs. no_later y x" "no_later y e"
    using Cons.IH[of "Some e"] Cons.prems e(1) by auto
  have "no_later y x" "\<forall>z. best = Some z \<longrightarrow> no_later y z"
    using e(2,3) y(3) no_later_trans by blast+
  with e(4) y show ?case by auto
qed simp

text \<open>The gate's baseline. \<open>milestoneRegressionBaseline\<close> returns a baseline one of the
  milestone's changes recorded for this very command, and none recorded for it is earlier; among
  equally early ones it is the one of the smallest change id.\<close>

lemma milestoneRegressionBaseline_earliest:
  assumes "milestoneRegressionBaseline changes cmd = Some (c, b)"
  shows "(\<exists>a1 a2. (c, a1, a2) \<in> set changes \<and> (a1 = Some b \<or> a2 = Some b)) \<and> rbCmd b = cmd \<and>
    (\<forall>(c', a1, a2)\<in>set changes. \<forall>b'. (a1 = Some b' \<or> a2 = Some b') \<and> rbCmd b' = cmd \<longrightarrow>
       rbAt b < rbAt b' \<or> rbAt b = rbAt b' \<and> c \<le> c')"
proof -
  let ?cands = "concat (map (\<lambda>(i, a, b). map (Pair i) (filter (\<lambda>r. rbCmd r = cmd) (opt_list a @ opt_list b))) changes)"
  have m: "(i, r) \<in> set ?cands \<longleftrightarrow> (\<exists>a1 a2. (i, a1, a2) \<in> set changes \<and> (a1 = Some r \<or> a2 = Some r)) \<and> rbCmd r = cmd" for i r
  proof
    assume "(i, r) \<in> set ?cands"
    then show "(\<exists>a1 a2. (i, a1, a2) \<in> set changes \<and> (a1 = Some r \<or> a2 = Some r)) \<and> rbCmd r = cmd" by auto
  next
    assume "(\<exists>a1 a2. (i, a1, a2) \<in> set changes \<and> (a1 = Some r \<or> a2 = Some r)) \<and> rbCmd r = cmd"
    then obtain a1 a2 where a: "(i, a1, a2) \<in> set changes" "a1 = Some r \<or> a2 = Some r" "rbCmd r = cmd" by blast
    let ?f = "\<lambda>(i, a, b). map (Pair i) (filter (\<lambda>r. rbCmd r = cmd) (opt_list a @ opt_list b))"
    have "(i, r) \<in> set (?f (i, a1, a2))" using a by auto
    then show "(i, r) \<in> set ?cands"
      unfolding set_concat set_map using a(1) by (intro UN_I[of "?f (i, a1, a2)"] imageI)
  qed
  have f: "(c, b) \<in> set ?cands" "\<forall>x\<in>set ?cands. no_later (c, b) x"
    using foldl_earlier[of None ?cands "(c, b)"] assms by (auto simp: milestoneRegressionBaseline_def)
  show ?thesis
  proof (intro conjI)
    show "\<exists>a1 a2. (c, a1, a2) \<in> set changes \<and> (a1 = Some b \<or> a2 = Some b)" "rbCmd b = cmd" using f(1) m by blast+
    show "\<forall>(c', a1, a2)\<in>set changes. \<forall>b'. (a1 = Some b' \<or> a2 = Some b') \<and> rbCmd b' = cmd \<longrightarrow>
       rbAt b < rbAt b' \<or> rbAt b = rbAt b' \<and> c \<le> c'"
    proof (clarify)
      fix c' a1 a2 b'
      assume "(c', a1, a2) \<in> set changes" "a1 = Some b' \<or> a2 = Some b'" "cmd = rbCmd b'" "\<not> (rbAt b = rbAt b' \<and> c \<le> c')"
      then have "no_later (c, b) (c', b')" using f(2) m by blast
      then show "rbAt b < rbAt b'" using \<open>\<not> (rbAt b = rbAt b' \<and> c \<le> c')\<close> by (simp add: no_later_def)
    qed
  qed
qed

definition ex_changes :: "(string \<times> regressionBaselineRec option \<times> regressionBaselineRec option) list" where
  "ex_changes = [(''b'', Some ex_base, None), (''a'', Some ex_base, None)]"

lemma milestoneRegressionBaseline_earliest_witness:
  "case milestoneRegressionBaseline ex_changes ''go test'' of Some (c, b) \<Rightarrow> c \<le> ''b'' | None \<Rightarrow> False"
proof -
  have "milestoneRegressionBaseline ex_changes ''go test'' = Some (''a'', ex_base)"
    by (simp add: milestoneRegressionBaseline_def ex_changes_def ex_base_def earlier_def opt_list_def less_char_def)
  with milestoneRegressionBaseline_earliest[OF this] show ?thesis by (auto simp: ex_changes_def ex_base_def)
qed

end
