(* ===== verification/ChangeState.thy ===== *)
theory ChangeState
  imports Regression
begin

text \<open>
  \<open>internal/apexv1/state.go\<close>, \<open>attempts.go\<close> and the caps of \<open>limits.go\<close>: a change's recorded state,
  its red-verify counters and the loop limits. What only a report reads (durations, log paths,
  tails, advise records) is left out of the records; every field a command decides by is kept.
\<close>

section \<open>Statuses\<close>

datatype status = Draft | InProgress | Verified | Reviewed | Blocked | Archived | Abandoned | Answered

section \<open>Records\<close>

record baseline =
  blTask :: string
  blExit :: int
  blCmd :: string
  blSHA :: string

record replan =
  rpAt :: string
  rpSHA :: string
  rpFrom :: string
  rpTo :: string

record rebase =
  rbsAt :: string
  rbsFrom :: string
  rbsTo :: string
  rbsHead :: string
  rbsRebased :: bool
  rbsOldTipRef :: string
  rbsConflicts :: "string list"

record greenAtBaselineRec =
  gabTask :: string
  gabKind :: string
  gabCmd :: string
  gabSHA :: string
  gabAtReplan :: bool
  gabRegression :: bool

record verifyRec =
  vSHA :: string
  vAt :: string
  vResults :: "checkResult list"
  vPendingHuman :: "string list"
  vGreen :: bool
  vGreenAtBaseline :: "greenAtBaselineRec list"
  vStale :: bool
  vStaleReason :: string
  vRegression :: "regressionVerdict option"
  vFullSkipped :: nat

record reviewRec =
  rwVerdict :: string
  rwAt :: string
  rwSHA :: string
  rwFindings :: string

record reviewVoid =
  rvdAt :: string
  rvdRun :: string
  rvdVerdict :: string
  rvdViolations :: "string list"

record delegateReturn =
  dtRun :: string
  dtReason :: string
  dtDefects :: "string list"
  dtAt :: string

record answerRec =
  anBy :: string
  anAt :: string
  anText :: string
  anReplansBefore :: nat

record acceptRec =
  acTask :: string
  acBy :: string
  acAt :: string
  acRun :: string

record approvalRec =
  apBy :: string
  apAt :: string
  apPlanDigest :: string

record state =
  stID :: string
  stStatus :: status
  stBaseBranch :: string
  stBaseSHA :: string
  stStartedAt :: string
  stBaseline :: "baseline list"
  stPlanDigest :: string
  stBaseFingerprints :: "(string \<times> string) list"
  stReplans :: "replan list"
  stRebases :: "rebase list"
  stApproved :: "approvalRec option"
  stRegression :: "regressionBaselineRec option"
  stMilestoneRegression :: "regressionBaselineRec option"
  stVerify :: "verifyRec option"
  stReview :: "reviewRec option"
  stReviewVoided :: "reviewVoid list"
  stAccepted :: "acceptRec list"
  stBlockedReason :: "string option"
  stAllowPendingHuman :: bool
  stAnswer :: "answerRec option"
  stAbandonedReason :: string
  stArchivedAt :: string
  stArchivedTo :: string
  stBranchTip :: string
  stTipRef :: string
  stDelegateReturns :: "string \<Rightarrow> delegateReturn list"

definition new_state :: "string \<Rightarrow> state" where
  "new_state cid = \<lparr>stID = cid, stStatus = Draft, stBaseBranch = [], stBaseSHA = [], stStartedAt = [], stBaseline = [],
     stPlanDigest = [], stBaseFingerprints = [], stReplans = [], stRebases = [], stApproved = None, stRegression = None,
     stMilestoneRegression = None, stVerify = None, stReview = None, stReviewVoided = [], stAccepted = [], stBlockedReason = None,
     stAllowPendingHuman = False, stAnswer = None, stAbandonedReason = [], stArchivedAt = [], stArchivedTo = [], stBranchTip = [],
     stTipRef = [], stDelegateReturns = (\<lambda>_. [])\<rparr>"

definition Active :: "state \<Rightarrow> bool" where
  "Active s \<longleftrightarrow> stStatus s \<in> {InProgress, Verified, Reviewed}"

definition PendingHuman :: "state \<Rightarrow> string list \<Rightarrow> string list" where
  "PendingHuman s humanTasks = filter (\<lambda>t. t \<notin> acTask ` set (stAccepted s)) humanTasks"

text \<open>\<open>human.go\<close>: recording an acceptance, and the pending list of the last verify.\<close>

definition refreshPending :: "state \<Rightarrow> change \<Rightarrow> state" where
  "refreshPending s c = (case stVerify s of
      None \<Rightarrow> s
    | Some v \<Rightarrow> s\<lparr>stVerify := Some (v\<lparr>vPendingHuman := PendingHuman s (HumanTasks c)\<rparr>)\<rparr>)"

definition withAcceptance :: "state \<Rightarrow> change \<Rightarrow> acceptRec \<Rightarrow> state" where
  "withAcceptance s c rec =
     refreshPending (s\<lparr>stAccepted := filter (\<lambda>a. acTask a \<noteq> acTask rec) (stAccepted s) @ [rec]\<rparr>) c"

text \<open>
  \<open>baseaccept.go\<close>: the acceptances the base branch records, folded into a change's own. The
  scan for a task keeps the last position it finds.
\<close>

definition last_of_task :: "string \<Rightarrow> acceptRec list \<Rightarrow> nat option" where
  "last_of_task t out = (let js = filter (\<lambda>j. acTask (out ! j) = t) [0..<length out]
     in if js = [] then None else Some (last js))"

definition merge_one :: "acceptRec list \<Rightarrow> acceptRec \<Rightarrow> acceptRec list" where
  "merge_one out e = (case last_of_task (acTask e) out of
      None \<Rightarrow> out @ [e]
    | Some i \<Rightarrow> if acAt (out ! i) \<le> acAt e then out[i := e] else out)"

definition mergeAccepted :: "acceptRec list \<Rightarrow> acceptRec list \<Rightarrow> acceptRec list" where
  "mergeAccepted own extra = foldl merge_one own extra"

definition withBaseAccepted :: "bool \<Rightarrow> acceptRec list \<Rightarrow> state \<Rightarrow> state" where
  "withBaseAccepted worktree extra s =
     (if stBaseBranch s = [] \<or> \<not> worktree \<or> extra = [] then s
      else s\<lparr>stAccepted := mergeAccepted (stAccepted s) extra\<rparr>)"

section \<open>Attempts\<close>

record attempts =
  atSince :: nat
  atTotal :: nat
  atAtAnswer :: nat

definition zero_attempts :: attempts where
  "zero_attempts = \<lparr>atSince = 0, atTotal = 0, atAtAnswer = 0\<rparr>"

definition count_red :: "attempts \<Rightarrow> attempts" where
  "count_red a = a\<lparr>atSince := atSince a + 1, atTotal := atTotal a + 1\<rparr>"

section \<open>Limits\<close>

record limits =
  lmAttempts :: "int option"
  lmAttemptsTotal :: "int option"
  lmReplans :: "int option"
  lmConsecutiveBlocks :: "int option"
  lmRelays :: "int option"
  lmBudget :: string

datatype limit_error = BadBudget | NotPositiveWhole string | NotWhole string

text \<open>
  \<open>UnmarshalYAML\<close> of \<open>limits:\<close> on the decoded values, its whole-number and budget checks: the first
  failing value in the order the code reads them (the order among the three positive caps, which
  range over a map, is one of the possible ones).
\<close>

definition bad_below :: "int \<Rightarrow> int option \<Rightarrow> bool" where
  "bad_below k v \<longleftrightarrow> (case v of None \<Rightarrow> False | Some x \<Rightarrow> x < k)"

definition limits_unmarshal :: "limits \<Rightarrow> limit_error + limits" where
  "limits_unmarshal p =
     (let b = TrimSpace (lmBudget p) in
      if b \<noteq> [] \<and> b \<noteq> ''off'' \<and> b \<noteq> ''enforce'' then Inl BadBudget
      else if bad_below 1 (lmAttempts p) then Inl (NotPositiveWhole ''attempts'')
      else if bad_below 1 (lmAttemptsTotal p) then Inl (NotPositiveWhole ''attempts_total'')
      else if bad_below 1 (lmConsecutiveBlocks p) then Inl (NotPositiveWhole ''consecutive_blocks'')
      else if bad_below 0 (lmReplans p) then Inl (NotWhole ''replans'')
      else if bad_below 0 (lmRelays p) then Inl (NotWhole ''relays'')
      else Inr (p\<lparr>lmBudget := b\<rparr>))"

definition intOr :: "int option \<Rightarrow> int \<Rightarrow> int" where
  "intOr v def = (case v of Some x \<Rightarrow> x | None \<Rightarrow> def)"

definition AttemptsCap :: "limits \<Rightarrow> int" where "AttemptsCap l = intOr (lmAttempts l) 5"
definition AttemptsTotalCap :: "limits \<Rightarrow> int" where "AttemptsTotalCap l = intOr (lmAttemptsTotal l) 15"
definition ReplansCap :: "limits \<Rightarrow> int" where "ReplansCap l = intOr (lmReplans l) 3"
definition ConsecutiveBlocksCap :: "limits \<Rightarrow> int" where "ConsecutiveBlocksCap l = intOr (lmConsecutiveBlocks l) 2"
definition RelaysCap :: "limits \<Rightarrow> int" where "RelaysCap l = intOr (lmRelays l) 5"
definition BudgetEnforced :: "limits \<Rightarrow> bool" where "BudgetEnforced l \<longleftrightarrow> lmBudget l = ''enforce''"

text \<open>What a config that parsed guarantees of its caps.\<close>

definition wf_limits :: "limits \<Rightarrow> bool" where
  "wf_limits l \<longleftrightarrow> 1 \<le> AttemptsCap l \<and> 1 \<le> AttemptsTotalCap l \<and> 0 \<le> ReplansCap l \<and> 1 \<le> ConsecutiveBlocksCap l
     \<and> 0 \<le> RelaysCap l"

lemma intOr_bound: "\<not> bad_below k v \<Longrightarrow> k \<le> d \<Longrightarrow> k \<le> intOr v d"
  by (cases v) (simp_all add: bad_below_def intOr_def)

lemma limits_unmarshal_Inr:
  assumes "limits_unmarshal p = Inr l"
  shows "l = p\<lparr>lmBudget := TrimSpace (lmBudget p)\<rparr>" and "\<not> bad_below 1 (lmAttempts p)" and "\<not> bad_below 1 (lmAttemptsTotal p)"
    and "\<not> bad_below 1 (lmConsecutiveBlocks p)" and "\<not> bad_below 0 (lmReplans p)" and "\<not> bad_below 0 (lmRelays p)"
  using assms unfolding limits_unmarshal_def Let_def by (simp_all split: if_splits)

lemma wf_limits_parsed: "limits_unmarshal p = Inr l \<Longrightarrow> wf_limits l"
  using limits_unmarshal_Inr[of p l]
  by (simp add: wf_limits_def AttemptsCap_def AttemptsTotalCap_def ReplansCap_def ConsecutiveBlocksCap_def RelaysCap_def
      intOr_bound)

end
