(* ===== verification/Caps.thy ===== *)
theory Caps
  imports ChangeFacts
begin

text \<open>
  \<open>internal/apexv1/caps.go\<close>: the size caps of a project, their defaults and ceilings, the reading
  of a size and the caps in force. A cap is an \<^typ>\<open>int\<close>, zero or less meaning unset, as in the
  code. The YAML package is the argument of \<open>caps_unmarshal\<close>: the block's keys and its values as
  strings, or their failure to decode.
\<close>

section \<open>Data\<close>

record caps =
  capProjectMD :: int
  capAgentsMD :: int
  capChangeMD :: int
  capDesignMD :: int
  capSpec :: int
  capEvidenceLog :: int
  capArchitectureMD :: int
  capAdvise :: int
  capAdviseSession :: int

definition zero_caps :: caps where
  "zero_caps = \<lparr>capProjectMD = 0, capAgentsMD = 0, capChangeMD = 0, capDesignMD = 0, capSpec = 0, capEvidenceLog = 0,
     capArchitectureMD = 0, capAdvise = 0, capAdviseSession = 0\<rparr>"

text \<open>\<open>field\<close> of a \<open>capDef\<close> is a pointer into \<open>Caps\<close>: here the reading and the writing through it.\<close>

record capDef =
  cdKey :: string
  cdDef :: int
  cdCeiling :: int
  cdGet :: "caps \<Rightarrow> int"
  cdSet :: "int \<Rightarrow> caps \<Rightarrow> caps"

definition cap_def :: "string \<Rightarrow> int \<Rightarrow> int \<Rightarrow> (caps \<Rightarrow> int) \<Rightarrow> ((int \<Rightarrow> int) \<Rightarrow> caps \<Rightarrow> caps) \<Rightarrow> capDef" where
  "cap_def k d c get upd = \<lparr>cdKey = k, cdDef = d, cdCeiling = c, cdGet = get, cdSet = (\<lambda>v. upd (\<lambda>_. v))\<rparr>"

definition KiB :: int where "KiB = 1024"
definition MiB :: int where "MiB = 1048576"

definition capDefs :: "capDef list" where
  "capDefs =
    [cap_def ''project_md'' (16 * KiB) (48 * KiB) capProjectMD capProjectMD_update,
     cap_def ''agents_md'' (16 * KiB) (48 * KiB) capAgentsMD capAgentsMD_update,
     cap_def ''change_md'' (16 * KiB) (48 * KiB) capChangeMD capChangeMD_update,
     cap_def ''design_md'' (16 * KiB) (48 * KiB) capDesignMD capDesignMD_update,
     cap_def ''spec'' (24 * KiB) (64 * KiB) capSpec capSpec_update,
     cap_def ''evidence_log'' MiB (16 * MiB) capEvidenceLog capEvidenceLog_update,
     cap_def ''architecture_md'' (16 * KiB) (48 * KiB) capArchitectureMD capArchitectureMD_update,
     cap_def ''advise'' (8 * KiB) (16 * KiB) capAdvise capAdvise_update,
     cap_def ''advise_session'' (16 * KiB) (32 * KiB) capAdviseSession capAdviseSession_update]"

section \<open>Reading a size\<close>

definition maxCapBytes :: nat where "maxCapBytes = 2 ^ 40"

datatype size_error = NotASize | NotPositive | BadUnit | TooLarge

definition is_alpha :: "char \<Rightarrow> bool" where
  "is_alpha c \<longleftrightarrow> is_lower c \<or> is_upper c"

text \<open>\<open>byteSizeRe\<close>: digits, white space, letters.\<close>

definition match_byte_size :: "string \<Rightarrow> (string \<times> string) option" where
  "match_byte_size s =
     (let ds = takeWhile is_digit s; r = dropWhile re_space (dropWhile is_digit s)
      in if ds = [] \<or> \<not> list_all is_alpha r then None else Some (ds, r))"

definition unit_of :: "string \<Rightarrow> nat option" where
  "unit_of u =
     (let l = to_lower_ascii u in
      if l = [] \<or> l = ''b'' then Some 1
      else if l = ''kb'' \<or> l = ''kib'' then Some (2 ^ 10)
      else if l = ''mb'' \<or> l = ''mib'' then Some (2 ^ 20) else None)"

definition ParseByteSize :: "string \<Rightarrow> size_error + nat" where
  "ParseByteSize s = (case match_byte_size (TrimSpace s) of
      None \<Rightarrow> Inl NotASize
    | Some (ds, u) \<Rightarrow>
        (case Atoi_digits ds of
           None \<Rightarrow> Inl NotPositive
         | Some n \<Rightarrow>
             if n = 0 then Inl NotPositive
             else (case unit_of u of
                     None \<Rightarrow> Inl BadUnit
                   | Some unit \<Rightarrow> if n > maxCapBytes div unit then Inl TooLarge else Inr (n * unit))))"

datatype caps_error = NotMapping | UnknownKey | NotStrings | BadSize string size_error

text \<open>
  \<open>UnmarshalYAML\<close> with its \<open>checkKeys\<close>: the keys of the block (\<open>None\<close> when it is no mapping; a null
  block has none), and its values when they decode as strings; the loop stops at the first size it cannot read.
\<close>

fun caps_fields :: "(string \<Rightarrow> string option) \<Rightarrow> capDef list \<Rightarrow> caps \<Rightarrow> caps_error + caps" where
  "caps_fields raw [] c = Inr c"
| "caps_fields raw (d # ds) c = (case raw (cdKey d) of
      None \<Rightarrow> caps_fields raw ds c
    | Some v \<Rightarrow> (case ParseByteSize v of
          Inl e \<Rightarrow> Inl (BadSize (cdKey d) e)
        | Inr b \<Rightarrow> caps_fields raw ds (cdSet d (int b) c)))"

definition caps_unmarshal :: "string list option \<Rightarrow> (string \<Rightarrow> string option) option \<Rightarrow> caps \<Rightarrow> caps_error + caps" where
  "caps_unmarshal keys decoded c = (case keys of
      None \<Rightarrow> Inl NotMapping
    | Some ks \<Rightarrow>
        if \<not> set ks \<subseteq> set (map cdKey capDefs) then Inl UnknownKey
        else (case decoded of None \<Rightarrow> Inl NotStrings | Some raw \<Rightarrow> caps_fields raw capDefs c))"

section \<open>The caps in force\<close>

definition limit_value :: "int \<Rightarrow> int \<Rightarrow> int \<Rightarrow> int" where
  "limit_value def ceiling v = (if v \<le> 0 then def else min v ceiling)"

definition limit_field :: "caps \<Rightarrow> capDef \<Rightarrow> caps" where
  "limit_field c d = cdSet d (limit_value (cdDef d) (cdCeiling d) (cdGet d c)) c"

definition Limits :: "caps \<Rightarrow> caps" where
  "Limits c = foldl limit_field c capDefs"

definition DefaultCaps :: caps where "DefaultCaps = Limits zero_caps"

definition configYAML :: string where "configYAML = ''_apex/config.yaml''"

definition OverCeiling :: "caps \<Rightarrow> finding list" where
  "OverCeiling c = List.map_filter (\<lambda>d. if cdGet d c > cdCeiling d
      then Some (mk_finding configYAML 0 (CapOverCeiling (cdKey d) (nat (cdGet d c)) (nat (cdCeiling d)) (nat (cdDef d))))
      else None) capDefs"

definition capSize :: "nat \<Rightarrow> string" where
  "capSize n = (if n \<ge> 2 ^ 20 \<and> n mod 2 ^ 20 = 0 then Itoa (n div 2 ^ 20) @ '' MiB''
     else if n mod 2 ^ 10 = 0 then Itoa (n div 2 ^ 10) @ '' KB'' else Itoa n @ '' bytes'')"

definition capCeiling :: "string \<Rightarrow> int option" where
  "capCeiling k = map_option cdCeiling (find (\<lambda>d. cdKey d = k) capDefs)"

definition changeMDCeiling :: int where
  "changeMDCeiling = the (capCeiling ''change_md'')"

definition requireCaps :: "caps \<Rightarrow> apex_error option" where
  "requireCaps c = (if OverCeiling c \<noteq> [] then Some (FailError ''caps.over-ceiling'' (OverCeiling c)) else None)"

definition requireChangeFits :: "caps \<Rightarrow> change option \<Rightarrow> apex_error option" where
  "requireChangeFits cfg ci = (case requireCaps cfg of
      Some e \<Rightarrow> Some e
    | None \<Rightarrow>
        (case ci of
           None \<Rightarrow> None
         | Some doc \<Rightarrow>
             if int (PlanBytes doc) > capChangeMD (Limits cfg) then Some (FailError ''change.too-big'' [])
             else if int (length (cRaw doc)) > changeMDCeiling then Some (FailError ''change.over-ceiling'' []) else None))"

section \<open>Facts\<close>

lemmas cap_table [code_eval] = capDefs_def cap_def_def KiB_def MiB_def

lemma Limits_eq: "d \<in> set capDefs \<Longrightarrow> cdGet d (Limits c) = limit_value (cdDef d) (cdCeiling d) (cdGet d c)"
  by (simp add: Limits_def limit_field_def cap_table) (elim disjE; simp)

lemma capDefs_ranges: "d \<in> set capDefs \<Longrightarrow> 0 < cdDef d \<and> cdDef d \<le> cdCeiling d \<and> cdCeiling d \<le> 16777216"
  by (simp add: cap_table) (elim disjE; simp)

lemma caps_ext: "(\<forall>d\<in>set capDefs. cdGet d (a :: caps) = cdGet d b) \<Longrightarrow> a = b"
  by (cases a; cases b) (simp add: cap_table)

lemma OverCeiling_empty_iff: "OverCeiling c = [] \<longleftrightarrow> (\<forall>d\<in>set capDefs. cdGet d c \<le> cdCeiling d)"
  by (auto simp: OverCeiling_def List.map_filter_def filter_empty_conv)

lemma ParseByteSize_bounds:
  assumes "ParseByteSize s = Inr n"
  shows "0 < n" and "n \<le> maxCapBytes"
proof -
  obtain m u v where mu: "n = m * u" "m \<noteq> 0" "m \<le> maxCapBytes div u" "unit_of v = Some u"
    using assms by (auto simp: ParseByteSize_def not_less split: option.splits prod.splits if_splits)
  have u: "0 < u" using mu(4) by (auto simp: unit_of_def Let_def split: if_splits)
  show "0 < n" using mu(1,2) u by simp
  have "m * u \<le> maxCapBytes div u * u" using mu(3) by simp
  also have "\<dots> \<le> maxCapBytes" by simp
  finally show "n \<le> maxCapBytes" using mu(1) by simp
qed

lemma TrimSpace_word:
  assumes "s \<noteq> []" and "is_word_char (hd s)" and "is_word_char (last s)"
  shows "TrimSpace s = s"
proof -
  have ends: "u \<noteq> [] \<and> \<not> is_word_char (hd u) \<and> \<not> is_word_char (last u)" if "u \<in> set space_runes" for u
    using that by (auto simp: space_runes_def is_word_char_def is_lower_def is_upper_def is_digit_def)
  have "lead_len space_runes s = 0"
    unfolding lead_len_0_iff using ends assms(1,2) by (auto simp: HasPrefix_iff)
  moreover have "lead_len (map rev space_runes) (rev s) = 0"
    unfolding lead_len_0_iff using ends assms(1,3)
    by (auto simp: HasPrefix_iff) (metis hd_append hd_rev rev_is_Nil_conv)
  ultimately show ?thesis by (simp add: TrimSpace_def strip.simps)
qed

lemma digit_word: "is_digit c \<Longrightarrow> is_word_char c"
  by (simp add: is_word_char_def)

lemma ParseByteSize_printed:
  assumes "0 < m" and "m * u \<le> 2 ^ 40" and "unit_of w = Some u" and "w \<noteq> []" and "list_all is_alpha w"
  shows "ParseByteSize (Itoa m @ CHR '' '' # w) = Inr (m * u)"
proof -
  have d: "list_all is_digit (Itoa m)" "Itoa m \<noteq> []" by (rule Itoa_digits)+
  have u: "0 < u" using assms(3) by (auto simp: unit_of_def Let_def split: if_splits)
  have "is_word_char (hd (Itoa m @ CHR '' '' # w))" "is_word_char (last (Itoa m @ CHR '' '' # w))"
    using d assms(4,5) by (auto simp: list_all_iff digit_word is_word_char_def is_alpha_def)
  then have t: "TrimSpace (Itoa m @ CHR '' '' # w) = Itoa m @ CHR '' '' # w" by (intro TrimSpace_word) simp_all
  have "\<not> is_digit (CHR '' '')" "re_space (CHR '' '')" by (simp_all add: is_digit_def re_space_def)
  then have "takeWhile is_digit (Itoa m @ CHR '' '' # w) = Itoa m" "dropWhile is_digit (Itoa m @ CHR '' '' # w) = CHR '' '' # w"
    using d(1) by (simp_all add: takeWhile_append2 dropWhile_append2 list_all_iff)
  moreover have "dropWhile re_space w = w"
    using assms(4,5) by (cases w) (auto simp: is_alpha_def re_space_def is_lower_def is_upper_def)
  ultimately have m: "match_byte_size (Itoa m @ CHR '' '' # w) = Some (Itoa m, w)"
    using d(2) assms(5) \<open>re_space (CHR '' '')\<close> by (simp add: match_byte_size_def)
  have "m \<le> m * u" using u by simp
  also have "\<dots> < 2 ^ 63" using assms(2) by (rule le_less_trans) simp
  finally have a: "Atoi_digits (Itoa m) = Some m" by (rule Atoi_Itoa)
  have "m \<le> maxCapBytes div u" using assms(2) u by (simp add: maxCapBytes_def less_eq_div_iff_mult_less_eq)
  then show ?thesis using assms(1,3) a by (simp add: ParseByteSize_def t m)
qed

lemma to_lower_units: "to_lower_ascii ''KB'' = ''kb''" "to_lower_ascii ''MiB'' = ''mib''"
  by code_simp+

lemma cap_units:
  "unit_of ''KB'' = Some (2 ^ 10)" "unit_of ''MiB'' = Some (2 ^ 20)"
  by (simp_all add: unit_of_def to_lower_units)

lemma cap_unit_words: "list_all is_alpha ''KB''" "list_all is_alpha ''MiB''" "Itoa 16 @ '' KB'' = ''16 KB''"
  by code_simp+

text \<open>C35: a size never overflows. Every size \<open>ParseByteSize\<close> accepts is a positive number of bytes
  of at most 1 TiB, the product of a number below 2^63 and a unit, computed within 64 bits.\<close>

theorem ParseByteSize_no_overflow:
  assumes "ParseByteSize s = Inr n"
  shows "0 < n \<and> n \<le> 2 ^ 40 \<and> int n < 2 ^ 63"
  using ParseByteSize_bounds[OF assms] by (simp add: maxCapBytes_def)

theorem ParseByteSize_no_overflow_witness:
  "ParseByteSize ''16 KB'' = Inr 16384 \<and> (16384 :: nat) \<le> 2 ^ 40"
proof -
  have "ParseByteSize ''16 KB'' = Inr 16384"
    using ParseByteSize_printed[of 16 "2 ^ 10" "''KB''"] cap_units cap_unit_words by simp
  with ParseByteSize_no_overflow[OF this] show ?thesis by simp
qed

text \<open>The caps in force are sound. \<open>Limits\<close> gives every cap a positive value of at most its
  ceiling, changes nothing when applied again, and, when \<open>OverCeiling\<close> has no finding, leaves every
  configured cap as it was configured and every unset one at its default.\<close>

lemma Limits_sound:
  "(\<forall>d\<in>set capDefs. 0 < cdGet d (Limits c) \<and> cdGet d (Limits c) \<le> cdCeiling d) \<and>
   Limits (Limits c) = Limits c \<and>
   (OverCeiling c = [] \<longrightarrow> (\<forall>d\<in>set capDefs. cdGet d (Limits c) = (if cdGet d c \<le> 0 then cdDef d else cdGet d c)))"
proof -
  have r: "0 < cdGet d (Limits c) \<and> cdGet d (Limits c) \<le> cdCeiling d" if "d \<in> set capDefs" for d
    using capDefs_ranges[OF that] by (auto simp: Limits_eq[OF that] limit_value_def)
  have "cdGet d (Limits (Limits c)) = cdGet d (Limits c)" if "d \<in> set capDefs" for d
    using r[OF that] by (simp add: Limits_eq[OF that, of "Limits c"] limit_value_def min_def)
  then have "Limits (Limits c) = Limits c" by (intro caps_ext) blast
  then show ?thesis using r by (auto simp: OverCeiling_empty_iff Limits_eq limit_value_def)
qed

lemma Limits_sound_witness: "Limits (zero_caps\<lparr>capSpec := 1000\<rparr>) = DefaultCaps\<lparr>capSpec := 1000\<rparr>"
proof (rule caps_ext, rule ballI)
  fix d assume d: "d \<in> set capDefs"
  have "OverCeiling (zero_caps\<lparr>capSpec := 1000\<rparr>) = []" by code_simp
  with Limits_sound[of "zero_caps\<lparr>capSpec := 1000\<rparr>"] d
  have "cdGet d (Limits (zero_caps\<lparr>capSpec := 1000\<rparr>)) =
      (if cdGet d (zero_caps\<lparr>capSpec := 1000\<rparr>) \<le> 0 then cdDef d else cdGet d (zero_caps\<lparr>capSpec := 1000\<rparr>))" by blast
  also have "\<dots> = cdGet d (DefaultCaps\<lparr>capSpec := 1000\<rparr>)"
    using d by (simp add: DefaultCaps_def Limits_def limit_field_def limit_value_def zero_caps_def cap_table) (elim disjE; simp)
  finally show "cdGet d (Limits (zero_caps\<lparr>capSpec := 1000\<rparr>)) = cdGet d (DefaultCaps\<lparr>capSpec := 1000\<rparr>)" .
qed

text \<open>Sizes print and parse back: what \<open>capSize\<close> prints of a whole number of KB up to 1 TiB,
  \<open>ParseByteSize\<close> reads back as the same number of bytes.\<close>

lemma capSize_roundtrip:
  assumes "n mod 1024 = 0" and "0 < n" and "n \<le> 2 ^ 40"
  shows "ParseByteSize (capSize n) = Inr n"
proof (cases "n \<ge> 2 ^ 20 \<and> n mod 2 ^ 20 = 0")
  case True
  then have e: "n div 2 ^ 20 * 2 ^ 20 = n" by (simp add: dvd_div_mult_self mod_eq_0_iff_dvd)
  with True assms(2,3) have "ParseByteSize (Itoa (n div 2 ^ 20) @ CHR '' '' # ''MiB'') = Inr (n div 2 ^ 20 * 2 ^ 20)"
    by (intro ParseByteSize_printed cap_units cap_unit_words) (auto simp: div_greater_zero_iff)
  with True e show ?thesis by (simp add: capSize_def)
next
  case False
  have e: "n div 2 ^ 10 * 2 ^ 10 = n" using assms(1) by (simp add: dvd_div_mult_self mod_eq_0_iff_dvd)
  have "0 < n div 2 ^ 10" using assms(1,2) by (auto simp: div_greater_zero_iff intro: dvd_imp_le)
  with assms(3) e have "ParseByteSize (Itoa (n div 2 ^ 10) @ CHR '' '' # ''KB'') = Inr (n div 2 ^ 10 * 2 ^ 10)"
    by (intro ParseByteSize_printed cap_units cap_unit_words) auto
  moreover have "capSize n = Itoa (n div 2 ^ 10) @ CHR '' '' # ''KB''" using False assms(1) by (simp add: capSize_def)
  ultimately show ?thesis using e by simp
qed


end
