(* ===== verification/ChangePlan.thy ===== *)
theory ChangePlan
  imports ChangeState Caps
begin

text \<open>
  The parts of \<open>internal/apexv1/lifecycle.go\<close>, \<open>archive.go\<close>, \<open>tweak.go\<close>, \<open>catchup.go\<close> and
  \<open>blocks.go\<close> that judge a change or compute its next recorded state without writing anything:
  requirement conflicts, fingerprints of the blocks a delta replaces, baselines, the vacuous-check
  rule, plan drift, approvals, and one state transformer per event of a change's life. SHA-256 is
  an argument; the results of running checks and the failing tests a log names are arguments too.
\<close>

section \<open>Refusals\<close>

text \<open>An ordered list of refusals: the first that applies is returned.\<close>

fun first_err :: "apex_error option list \<Rightarrow> apex_error option" where
  "first_err [] = None"
| "first_err (None # gs) = first_err gs"
| "first_err (Some e # gs) = Some e"

definition when_err :: "bool \<Rightarrow> apex_error \<Rightarrow> apex_error option" where
  "when_err b e = (if b then Some e else None)"

definition fail :: "string \<Rightarrow> apex_error" where
  "fail code = FailError code []"

lemma first_err_None [simp]: "first_err gs = None \<longleftrightarrow> (\<forall>g\<in>set gs. g = None)"
  by (induction gs rule: first_err.induct) auto

lemma when_err_None [simp]: "when_err b e = None \<longleftrightarrow> \<not> b"
  by (simp add: when_err_def)

lemma when_err_iff [simp]: "when_err b e = Some e' \<longleftrightarrow> b \<and> e' = e"
  by (auto simp: when_err_def)

lemma first_err_Some_in: "first_err gs = Some e \<Longrightarrow> Some e \<in> set gs"
  by (induction gs rule: first_err.induct) auto

definition IsTweak :: "change \<Rightarrow> bool" where
  "IsTweak c \<longleftrightarrow> mMilestone (cMeta c) = ''none''"

section \<open>Conflicts between changes\<close>

definition requirementConflicts :: "change \<Rightarrow> change \<Rightarrow> (delta \<times> delta) list" where
  "requirementConflicts a b =
     concat (map (\<lambda>da. map (Pair da) (filter (\<lambda>db. key da = key db) (cDeltas b))) (cDeltas a))"

section \<open>Fingerprints\<close>

definition requirementFingerprint :: "(string \<Rightarrow> string) \<Rightarrow> requirement \<Rightarrow> string" where
  "requirementFingerprint sha256_hex r =
     sha256_hex (TrimRight (Join (map (\<lambda>l. TrimRight l (CHR '' '' # [CHR 0x09])) (split_char LF (rqText r))) [LF]) [LF])"

text \<open>A Go map as an association list: an assignment replaces the key's entry; no order is read off it.\<close>

definition put :: "('k \<times> 'v) list \<Rightarrow> 'k \<times> 'v \<Rightarrow> ('k \<times> 'v) list" where
  "put m kv = filter (\<lambda>e. fst e \<noteq> fst kv) m @ [kv]"

definition base_fingerprint :: "(string \<Rightarrow> string) \<Rightarrow> project \<Rightarrow> delta \<Rightarrow> (string \<times> string) option" where
  "base_fingerprint sha256_hex p d =
     (if dOp d = OpAdded then None
      else case LoadSpec p (dCapability d) of
             None \<Rightarrow> None
           | Some (spec, _) \<Rightarrow> map_option (\<lambda>r. (dCapability d @ ''/'' @ dName d, requirementFingerprint sha256_hex r))
                                 (Find spec (dName d)))"

definition baseFingerprints :: "(string \<Rightarrow> string) \<Rightarrow> project \<Rightarrow> change \<Rightarrow> (string \<times> string) list" where
  "baseFingerprints sha256_hex p c = foldl put [] (List.map_filter (base_fingerprint sha256_hex p) (cDeltas c))"

definition replace_slash :: "string \<Rightarrow> string" where
  "replace_slash k = takeWhile (\<lambda>ch. ch \<noteq> CHR ''/'') k @
     (case dropWhile (\<lambda>ch. ch \<noteq> CHR ''/'') k of [] \<Rightarrow> [] | _ # r \<Rightarrow> ''] '' @ r)"

definition fingerprintConflicts :: "(string \<Rightarrow> string) \<Rightarrow> project \<Rightarrow> (string \<times> string) list \<Rightarrow> change \<Rightarrow> string list" where
  "fingerprintConflicts sha256_hex p recorded c =
     (if recorded = [] then []
      else let live = map_of (baseFingerprints sha256_hex p c)
           in sort (map (\<lambda>e. ''['' @ replace_slash (fst e) @ '' changed in the spec since this change started'')
                (filter (\<lambda>e. case live (fst e) of None \<Rightarrow> False | Some now \<Rightarrow> now \<noteq> snd e) recorded)))"

section \<open>Baselines\<close>

definition baseline_map :: "baseline list \<Rightarrow> string \<Rightarrow> baseline option" where
  "baseline_map bs = assoc_last (map (\<lambda>b. (blTask b, b)) bs)"

definition baseline_kept :: "baseline list \<Rightarrow> plannedCheck \<Rightarrow> baseline option" where
  "baseline_kept bs pc = (case baseline_map bs (pcRef pc) of
      Some b \<Rightarrow> if blCmd b = pcCmd pc then Some b else None
    | None \<Rightarrow> None)"

definition rebaseline_todo :: "baseline list \<Rightarrow> plannedCheck list \<Rightarrow> plannedCheck list" where
  "rebaseline_todo bs planned = filter (\<lambda>pc. baseline_kept bs pc = None) planned"

definition result_baseline :: "string \<Rightarrow> checkResult \<Rightarrow> baseline" where
  "result_baseline sha r = \<lparr>blTask = crTask r, blExit = crExit r, blCmd = crCmd r, blSHA = sha\<rparr>"

text \<open>\<open>rebaseline\<close>: what is kept, then what was run; \<open>out\<close> are the results of \<open>rebaseline_todo\<close>.\<close>

definition rebaseline :: "baseline list \<Rightarrow> plannedCheck list \<Rightarrow> string \<Rightarrow> checkResult list \<Rightarrow> baseline list" where
  "rebaseline bs planned head out = List.map_filter (baseline_kept bs) planned @ map (result_baseline head) out"

definition vacuous_green :: "change \<Rightarrow> checkResult \<Rightarrow> bool" where
  "vacuous_green c r \<longleftrightarrow> crKind r = KindTask \<and> crExit r = 0 \<and>
     (case Task c (crTask r) of None \<Rightarrow> False | Some t \<Rightarrow> \<not> tRegression t)"

text \<open>\<open>moved\<close> is \<open>codeMovedSince base_sha\<close>: \<open>None\<close> when git failed.\<close>

definition refuseVacuousChecks :: "change \<Rightarrow> checkResult list \<Rightarrow> bool option \<Rightarrow> apex_error option" where
  "refuseVacuousChecks c baselined moved =
     when_err (list_ex (\<lambda>d. dOp d \<noteq> OpRemoved) (cDeltas c) \<and> list_ex (vacuous_green c) baselined \<and> moved \<noteq> Some True)
       (fail ''change.vacuous-check'')"

definition gab_of :: "change \<Rightarrow> state \<Rightarrow> plannedCheck \<Rightarrow> greenAtBaselineRec option" where
  "gab_of c s pc =
     (if pcKind pc = KindScenario \<and> \<not> pcDelta pc then None
      else case baseline_map (stBaseline s) (pcRef pc) of
             None \<Rightarrow> None
           | Some b \<Rightarrow>
               if blExit b \<noteq> 0 \<or> (blCmd b \<noteq> [] \<and> blCmd b \<noteq> pcCmd pc) then None
               else Some \<lparr>gabTask = pcRef pc, gabKind = pcKind pc, gabCmd = pcCmd pc, gabSHA = blSHA b,
                          gabAtReplan = (blSHA b \<noteq> [] \<and> stBaseSHA s \<noteq> [] \<and> blSHA b \<noteq> stBaseSHA s),
                          gabRegression = (pcKind pc = KindTask \<and> (case Task c (pcRef pc) of None \<Rightarrow> False | Some t \<Rightarrow> tRegression t))\<rparr>)"

definition greenAtBaseline :: "project \<Rightarrow> string set \<Rightarrow> change \<Rightarrow> state \<Rightarrow> greenAtBaselineRec list" where
  "greenAtBaseline p redAtGate c s = List.map_filter (gab_of c s) (ChangeChecks p redAtGate c)"

definition Failing :: "checkResult list \<Rightarrow> checkResult list" where
  "Failing results = filter crRed results"

definition limit :: "string list \<Rightarrow> nat \<Rightarrow> string list" where
  "limit xs n = (if length xs \<le> n then xs
     else take n xs @ [[CHR 0xE2, CHR 0x80, CHR 0xA6] @ '' '' @ Itoa (length xs - n) @ '' more''])"

section \<open>Gates\<close>

definition checkPlanFrozen :: "(string \<Rightarrow> string) \<Rightarrow> state \<Rightarrow> change \<Rightarrow> apex_error option" where
  "checkPlanFrozen sha256_hex s c =
     when_err (\<not> (stPlanDigest s = [] \<or> stPlanDigest s = PlanDigest sha256_hex c)) (fail ''change.plan-drift'')"

definition replansSinceAnswer :: "state \<Rightarrow> nat" where
  "replansSinceAnswer s = (case stAnswer s of
      None \<Rightarrow> length (stReplans s)
    | Some a \<Rightarrow> if anReplansBefore a > length (stReplans s) then length (stReplans s)
                else length (stReplans s) - anReplansBefore a)"

definition requireTweakApproved :: "(string \<Rightarrow> string) \<Rightarrow> state \<Rightarrow> change \<Rightarrow> apex_error option" where
  "requireTweakApproved sha256_hex s c = (case stApproved s of
      None \<Rightarrow> Some (fail ''change.not-approved'')
    | Some a \<Rightarrow> when_err (apPlanDigest a \<noteq> [] \<and> apPlanDigest a \<noteq> PlanDigest sha256_hex c \<and> stPlanDigest s = [])
                  (fail ''change.not-approved''))"

text \<open>\<open>milestone\<close> says what the roadmap and the approval record refuse of a milestone, if anything.\<close>

definition requireApproved ::
  "(string \<Rightarrow> string) \<Rightarrow> (string \<Rightarrow> apex_error option) \<Rightarrow> state \<Rightarrow> change \<Rightarrow> apex_error option" where
  "requireApproved sha256_hex milestone s c =
     (if IsTweak c then requireTweakApproved sha256_hex s c else milestone (mMilestone (cMeta c)))"

definition regressionStale :: "string \<Rightarrow> state \<Rightarrow> bool" where
  "regressionStale cmd s \<longleftrightarrow> cmd \<noteq> [] \<and> (case stRegression s of None \<Rightarrow> True | Some b \<Rightarrow> rbCmd b \<noteq> cmd)"

definition humanTask :: "change \<Rightarrow> string \<Rightarrow> apex_error option" where
  "humanTask c t = (case Task c t of
      None \<Rightarrow> Some (UsageError ''usage.no-such-task'')
    | Some tk \<Rightarrow> when_err (\<not> Human tk) (fail ''accept.not-human-review''))"

section \<open>State transformers\<close>

definition block_state :: "string \<Rightarrow> state \<Rightarrow> state" where
  "block_state reason s = s\<lparr>stStatus := Blocked, stBlockedReason := Some reason\<rparr>"

definition red_verify :: "verifyRec \<Rightarrow> state \<Rightarrow> state" where
  "red_verify v s = (if stStatus s \<noteq> InProgress then s\<lparr>stVerify := Some v\<rparr> else s)"

definition back_to_progress :: "verifyRec \<Rightarrow> state \<Rightarrow> state" where
  "back_to_progress v s = (if stStatus s \<noteq> InProgress then s\<lparr>stVerify := Some v, stStatus := InProgress\<rparr> else s)"

definition review_passed :: "state \<Rightarrow> bool" where
  "review_passed s \<longleftrightarrow> (case stReview s of None \<Rightarrow> False | Some r \<Rightarrow> rwVerdict r = ''pass'')"

text \<open>\<open>moved\<close>: the code moved since the review, which archive's re-verify (\<open>keepReview\<close>) ignores.\<close>

definition green_verify :: "verifyRec \<Rightarrow> bool \<Rightarrow> bool \<Rightarrow> state \<Rightarrow> state" where
  "green_verify v moved keepReview s =
     (let s' = s\<lparr>stVerify := Some v\<rparr> in
      if stStatus s = Reviewed \<and> review_passed s
      then (if moved \<and> \<not> keepReview then s'\<lparr>stStatus := Verified\<rparr> else s')
      else s'\<lparr>stStatus := Verified\<rparr>)"

definition review_state :: "reviewRec \<Rightarrow> state \<Rightarrow> state" where
  "review_state r s = s\<lparr>stReview := Some r, stStatus := (if rwVerdict r = ''pass'' then Reviewed else InProgress)\<rparr>"

definition answer_state :: "string \<Rightarrow> string \<Rightarrow> string \<Rightarrow> state \<Rightarrow> state" where
  "answer_state by at txt s = s\<lparr>stStatus := Answered,
     stAnswer := Some \<lparr>anBy = by, anAt = at, anText = txt, anReplansBefore = length (stReplans s)\<rparr>\<rparr>"

text \<open>A review verdict voided (\<open>SettleReviewRun\<close>); \<open>moved\<close>: the code moved since the recorded verify.\<close>

definition void_review :: "reviewVoid \<Rightarrow> bool \<Rightarrow> state \<Rightarrow> state" where
  "void_review void moved s = s\<lparr>stReviewVoided := stReviewVoided s @ [void], stReview := None,
     stStatus := (case stVerify s of None \<Rightarrow> InProgress | Some v \<Rightarrow> if \<not> vGreen v \<or> moved then InProgress else Verified)\<rparr>"

text \<open>A delegate's fail sent back to the change (\<open>settleDelegateFail\<close>).\<close>

definition returned_state :: "string \<Rightarrow> delegateReturn \<Rightarrow> state \<Rightarrow> state" where
  "returned_state task ret s = s\<lparr>stStatus := InProgress, stReview := None,
     stDelegateReturns := (stDelegateReturns s)(task := stDelegateReturns s task @ [ret])\<rparr>"

record catchUpRec =
  cuBaseBranch :: string
  cuFrom :: string
  cuTo :: string
  cuRebased :: bool
  cuBaseline :: "checkResult list"
  cuRegression :: "checkResult option"
  cuOldTipRef :: string
  cuConflicts :: "string list"

definition short :: "string \<Rightarrow> string" where
  "short sha = (if length sha > 7 then take 7 sha else if sha = [] then ''no sha'' else sha)"

definition stale_verify :: "catchUpRec \<Rightarrow> verifyRec \<Rightarrow> verifyRec" where
  "stale_verify cu v = v\<lparr>vStale := True, vStaleReason := ''base moved: '' @ cuBaseBranch cu @ '' '' @ short (cuFrom cu) @ ''..''
     @ short (cuTo cu) @ ''; the change was rebased onto it''\<rparr>"

definition catch_up_status :: "bool \<Rightarrow> status \<Rightarrow> status" where
  "catch_up_status inArchive st = (if \<not> inArchive \<and> (st = Verified \<or> st = Reviewed) then InProgress else st)"

text \<open>\<open>recordCatchUp\<close> up to its save; \<open>names\<close> are the failing tests the regression run's log names.\<close>

definition recordCatchUp :: "catchUpRec \<Rightarrow> string \<Rightarrow> string \<Rightarrow> string list \<Rightarrow> bool \<Rightarrow> state \<Rightarrow> state" where
  "recordCatchUp cu head at names inArchive s =
     s\<lparr>stRebases := stRebases s @ [\<lparr>rbsAt = at, rbsFrom = stBaseSHA s, rbsTo = cuTo cu, rbsHead = head,
                       rbsRebased = cuRebased cu, rbsOldTipRef = cuOldTipRef cu, rbsConflicts = cuConflicts cu\<rparr>],
       stBaseSHA := cuTo cu,
       stBaseline := map (result_baseline (cuTo cu)) (cuBaseline cu),
       stRegression := (case cuRegression cu of None \<Rightarrow> stRegression s | Some r \<Rightarrow> Some (regressionBaseline r (cuTo cu) at names)),
       stVerify := map_option (stale_verify cu) (stVerify s),
       stStatus := (if cuConflicts cu \<noteq> [] then InProgress else catch_up_status inArchive (stStatus s)),
       stBlockedReason := (if cuConflicts cu \<noteq> [] then None else stBlockedReason s)\<rparr>"

text \<open>The last rebase record, rewritten once the files left to resolve are known.\<close>

definition set_last_conflicts :: "string list \<Rightarrow> state \<Rightarrow> state" where
  "set_last_conflicts fs s = s\<lparr>stRebases := butlast (stRebases s) @ [(last (stRebases s))\<lparr>rbsConflicts := fs\<rparr>]\<rparr>"

text \<open>\<open>commitAppliedNetDiff\<close>: the net diff applied after all, the status from before restored.\<close>

definition applied_net_diff :: "string \<Rightarrow> status \<Rightarrow> string option \<Rightarrow> bool \<Rightarrow> state \<Rightarrow> state" where
  "applied_net_diff head st blocked inArchive s =
     s\<lparr>stRebases := butlast (stRebases s) @ [(last (stRebases s))\<lparr>rbsConflicts := [], rbsHead := head\<rparr>],
       stStatus := catch_up_status inArchive st, stBlockedReason := blocked\<rparr>"

end
