(* ===== verification/Lifecycle.thy ===== *)
theory Lifecycle
  imports ChangePlan
begin

text \<open>
  The commands that move a change: \<open>start\<close>, \<open>verify\<close>, \<open>review\<close>, \<open>accept\<close>, \<open>block\<close>
  (\<open>lifecycle.go\<close>), \<open>answer\<close> (\<open>answer.go\<close>), the catch-up with a moved base (\<open>catchup.go\<close>), the
  approval of a tweak (\<open>tweak.go\<close>), \<open>archive\<close> and \<open>abandon\<close> (\<open>archive.go\<close>) and the milestone's
  count of blocks (\<open>blocks.go\<close>), each a function from the recorded world to a result and the world
  after it.

  \<open>world\<close> is what ape records and reads back: per change its \<open>change.md\<close> and \<open>state.json\<close>, the
  attempts file, the counts of consecutive blocks, the archive, the acceptances on the base branch,
  the specs and the configuration. A change's records are one entry whichever branch holds them.
  \<open>env\<close> is what one command learns from outside its records: git, the file system, the runs of
  checks, the clock, the person at the terminal. Its fields are read where the code asks git or
  the disk; an \<open>apex_error option\<close> among them is a refusal or failure of that step.
\<close>

section \<open>The recorded world\<close>

record world =
  wGit :: bool
  wIDs :: "string list"
  wDocs :: "string \<Rightarrow> change option"
  wStates :: "string \<Rightarrow> state option"
  wArchived :: "(string \<times> change option \<times> state) list"
  wAttempts :: "string \<Rightarrow> attempts"
  wBlocks :: "string \<Rightarrow> nat"
  wMilestone :: "string \<Rightarrow> apex_error option"
  wBaseAccepted :: "string \<Rightarrow> acceptRec list"
  wSpecs :: project
  wLimits :: limits
  wCaps :: caps
  wRegressionCmd :: string
  wMilestoneRegressionCmd :: string
  wRedAtGate :: "string set"

text \<open>A write of \<open>state.json\<close>: done, not written, or written with its commit failing.\<close>

datatype save_case = Saved | NotWritten apex_error | NotCommitted apex_error

text \<open>Where HEAD is when \<open>start\<close> runs in a work tree.\<close>

datatype branch_case = OwnBranch | OtherChangeBranch | DetachedHead | BranchExists | Fresh string

text \<open>
  The base branch of a change, as \<open>catchUp\<close> finds it: not moved (or HEAD is elsewhere, or only
  ape's records moved), or moved, with the tip, whether a rebase is needed, the files it stopped on,
  the specs at the tip and on the branch afterwards, the regression command and the commands red at the
  gate as the checked-out tip has them, what the net diff left unmerged, and the failures of the steps in
  their order.
\<close>

record moved_base =
  mvTip :: string
  mvNeedRebase :: bool
  mvConflicts :: "string list"
  mvTipSpecs :: project
  mvSpecs :: project
  mvRegressionCmd :: string
  mvRedAtGate :: "string set"
  mvUnmerged :: "string list"
  mvOldTipRef :: string
  mvHead :: string
  mvBehind :: "apex_error option"
  mvDirty :: "apex_error option"
  mvRebase :: "apex_error option"
  mvBaseline :: "apex_error option"
  mvInterrupted :: "apex_error option"
  mvLayOut :: "apex_error option"
  mvPick :: "apex_error option"
  mvCommit :: "apex_error option"

record env =
  eStamp :: string
  eHead :: string
  ePerson :: "apex_error option"
  eRecover :: "apex_error option"
  eBranch :: branch_case
  eSwitch :: "apex_error option"
  eReset :: bool
  eBehind :: "apex_error option"
  eEnter :: "apex_error option"
  eOnBranch :: "apex_error option"
  eWritable :: "apex_error option"
  eCheckFindings :: "finding list"
  eDirty :: "apex_error option"
  eGateTouch :: "apex_error option"
  eUnresolved :: "string list"
  eCodeMoved :: "string \<Rightarrow> bool option"
  eExec :: "nat \<Rightarrow> nat \<Rightarrow> plannedCheck \<Rightarrow> checkResult"
  eCtxErr :: "nat \<Rightarrow> nat \<Rightarrow> bool"
  eInterrupted :: "nat \<Rightarrow> apex_error option"
  eFailing :: "checkResult \<Rightarrow> string list"
  eDetail :: "checkResult \<Rightarrow> string"
  eDocsOnly :: "bool \<times> string list \<times> string"
  eSave :: "nat \<Rightarrow> save_case"
  eAttemptsErr :: "apex_error option"
  eNoteErr :: "apex_error option"
  eBase :: "moved_base option"
  eFindingsFile :: "string option"
  eOffBranch :: bool
  eHeadElsewhere :: bool
  eBranchThere :: bool
  eBaseThere :: bool
  eBranchFree :: "apex_error option"
  eJournal :: "apex_error option"
  eSubject :: "apex_error option"
  eDest :: string
  eTip :: string
  eDestThere :: bool
  eSquash :: "apex_error option"
  ePost :: "apex_error option"

record pure_lib =
  plSha256 :: "string \<Rightarrow> string"
  plLower :: "string \<Rightarrow> string"

text \<open>The runs of checks of one command, by number.\<close>

definition run_baseline :: nat where "run_baseline = 0"
definition run_regression :: nat where "run_regression = 1"
definition run_milestone :: nat where "run_milestone = 2"
definition run_verify :: nat where "run_verify = 3"
definition run_catchup :: nat where "run_catchup = 4"
definition run_catchup_regression :: nat where "run_catchup_regression = 5"

definition Run :: "env \<Rightarrow> nat \<Rightarrow> plannedCheck list \<Rightarrow> checkResult list" where
  "Run e k pcs = RunChecks (eExec e k) (eCtxErr e k) pcs"

definition runRegression :: "env \<Rightarrow> nat \<Rightarrow> string \<Rightarrow> checkResult" where
  "runRegression e k cmd = hd (Run e k [regression_check cmd])"

text \<open>\<open>codeMovedSince\<close> with its error dropped: an error counts as moved.\<close>

definition code_moved :: "env \<Rightarrow> string \<Rightarrow> bool" where
  "code_moved e sha = (case eCodeMoved e sha of None \<Rightarrow> True | Some b \<Rightarrow> b)"

section \<open>Reading and writing records\<close>

definition requireChange :: "world \<Rightarrow> string \<Rightarrow> apex_error + (change \<times> state)" where
  "requireChange w cid =
     (if cid \<notin> set (wIDs w)
      then Inl (fail (if cid \<in> fst ` set (wArchived w) then ''change.archived'' else ''change.not-found''))
      else case wStates w cid of
             None \<Rightarrow> Inl (fail ''change.no-state'')
           | Some s \<Rightarrow> (case wDocs w cid of None \<Rightarrow> Inl (fail ''change.no-change-md'') | Some c \<Rightarrow> Inr (c, s)))"

definition ActiveChanges :: "world \<Rightarrow> string list" where
  "ActiveChanges w = filter (\<lambda>i. case wStates w i of None \<Rightarrow> False | Some s \<Rightarrow> Active s) (wIDs w)"

definition put_state :: "string \<Rightarrow> state \<Rightarrow> world \<Rightarrow> world" where
  "put_state cid s w = w\<lparr>wStates := (wStates w)(cid := Some s)\<rparr>"

definition saveAndCommit :: "save_case \<Rightarrow> string \<Rightarrow> state \<Rightarrow> world \<Rightarrow> apex_error option \<times> world" where
  "saveAndCommit sc cid s w = (case sc of
      Saved \<Rightarrow> (None, put_state cid s w)
    | NotWritten er \<Rightarrow> (Some er, w)
    | NotCommitted er \<Rightarrow> (if wGit w then Some er else None, put_state cid s w))"

definition put_attempts :: "string \<Rightarrow> attempts \<Rightarrow> world \<Rightarrow> world" where
  "put_attempts cid a w = w\<lparr>wAttempts := (wAttempts w)(cid := a)\<rparr>"

text \<open>\<open>updateAttempts\<close>: a failure to write leaves the file as it was.\<close>

definition updateAttempts :: "env \<Rightarrow> string \<Rightarrow> (attempts \<Rightarrow> attempts) \<Rightarrow> world \<Rightarrow> apex_error option \<times> world" where
  "updateAttempts e cid f w = (case eAttemptsErr e of
      Some er \<Rightarrow> (Some er, w)
    | None \<Rightarrow> (None, put_attempts cid (f (wAttempts w cid)) w))"

section \<open>Blocks\<close>

definition counts_blocks :: "world \<Rightarrow> change \<Rightarrow> bool" where
  "counts_blocks w c \<longleftrightarrow> \<not> IsTweak c \<and> mMilestone (cMeta c) \<noteq> [] \<and> wGit w"

definition noteBlocked :: "env \<Rightarrow> change \<Rightarrow> world \<Rightarrow> apex_error option \<times> world" where
  "noteBlocked e c w =
     (if \<not> counts_blocks w c then (None, w)
      else case eNoteErr e of
             Some er \<Rightarrow> (Some er, w)
           | None \<Rightarrow> (None, w\<lparr>wBlocks := (wBlocks w)(mMilestone (cMeta c) := wBlocks w (mMilestone (cMeta c)) + 1)\<rparr>))"

text \<open>\<open>blockAndCount\<close>: \<open>s\<close> is the state in memory.\<close>

definition blockAndCount :: "env \<Rightarrow> nat \<Rightarrow> string \<Rightarrow> change \<Rightarrow> state \<Rightarrow> string \<Rightarrow> world \<Rightarrow> apex_error option \<times> world" where
  "blockAndCount e k cid c s reason w =
     (case saveAndCommit (eSave e k) cid (block_state reason s) w of
        (Some er, w') \<Rightarrow> (Some er, w')
      | (None, w') \<Rightarrow> noteBlocked e c w')"

definition resetBlocks :: "change \<Rightarrow> world \<Rightarrow> world" where
  "resetBlocks c w = (if IsTweak c then w else w\<lparr>wBlocks := (wBlocks w)(mMilestone (cMeta c) := 0)\<rparr>)"

definition blocksExceeded :: "world \<Rightarrow> string \<Rightarrow> apex_error option" where
  "blocksExceeded w m = when_err (m \<noteq> [] \<and> m \<noteq> ''none'' \<and> \<not> int (wBlocks w m) < ConsecutiveBlocksCap (wLimits w))
     (fail ''milestone.blocks-exceeded'')"

section \<open>Catching up with a moved base\<close>

text \<open>\<open>runBaselineAt\<close>: the baseline runs with the tip checked out, so with the tip's specs and configuration.\<close>

definition caught_up_checks :: "env \<Rightarrow> moved_base \<Rightarrow> change \<Rightarrow> state \<Rightarrow> catchUpRec" where
  "caught_up_checks e mv c s =
     \<lparr>cuBaseBranch = stBaseBranch s, cuFrom = stBaseSHA s, cuTo = mvTip mv, cuRebased = mvNeedRebase mv,
      cuBaseline = map (\<lambda>r. r\<lparr>crStrayFiles := []\<rparr>) (Run e run_catchup (ChangeChecks (mvTipSpecs mv) (mvRedAtGate mv) c)),
      cuRegression = (if mvRegressionCmd mv = [] then None
                      else Some ((runRegression e run_catchup_regression (mvRegressionCmd mv))\<lparr>crStrayFiles := []\<rparr>)),
      cuOldTipRef = [], cuConflicts = []\<rparr>"

definition cu_names :: "env \<Rightarrow> catchUpRec \<Rightarrow> string list" where
  "cu_names e cu = (case cuRegression cu of None \<Rightarrow> [] | Some r \<Rightarrow> eFailing e r)"

definition commitAppliedNetDiff ::
  "env \<Rightarrow> moved_base \<Rightarrow> string \<Rightarrow> status \<Rightarrow> string option \<Rightarrow> bool \<Rightarrow> state \<Rightarrow> world \<Rightarrow> apex_error option \<times> world" where
  "commitAppliedNetDiff e mv cid st blocked inArchive s w = (case mvCommit mv of
      Some er \<Rightarrow> (Some er, w)
    | None \<Rightarrow> saveAndCommit (eSave e 1) cid (applied_net_diff (mvHead mv) st blocked inArchive s) w)"

definition layOutConflict ::
  "env \<Rightarrow> moved_base \<Rightarrow> bool \<Rightarrow> string \<Rightarrow> catchUpRec \<Rightarrow> state \<Rightarrow> world \<Rightarrow> apex_error option \<times> world" where
  "layOutConflict e mv inArchive cid cu s w = (case mvLayOut mv of
      Some er \<Rightarrow> (Some er, w)
    | None \<Rightarrow>
        let s1 = recordCatchUp (cu\<lparr>cuOldTipRef := mvOldTipRef mv, cuConflicts := mvConflicts mv\<rparr>) (mvTip mv) (eStamp e)
                   (cu_names e cu) inArchive s
        in (case saveAndCommit (eSave e 0) cid s1 w of
              (Some er, w2) \<Rightarrow> (Some er, w2)
            | (None, w2) \<Rightarrow>
                (case mvPick mv of
                   Some er \<Rightarrow> (Some er, w2)
                 | None \<Rightarrow>
                     if mvUnmerged mv = []
                     then commitAppliedNetDiff e mv cid (stStatus s) (stBlockedReason s) inArchive s1 w2
                     else (case saveAndCommit (eSave e 1) cid (set_last_conflicts (mvUnmerged mv) s1) w2 of
                             (er, w3) \<Rightarrow> (Some (case er of Some x \<Rightarrow> x | None \<Rightarrow> ConflictError ''change.conflicted'' (mvUnmerged mv)), w3)))))"

text \<open>\<open>catchUp\<close>: an error, whether there was a catch-up, and the world after it.\<close>

definition catchUp ::
  "env \<Rightarrow> bool \<Rightarrow> bool \<Rightarrow> string \<Rightarrow> change \<Rightarrow> state \<Rightarrow> world \<Rightarrow> apex_error option \<times> bool \<times> world" where
  "catchUp e isStart inArchive cid c s w = (case (if wGit w \<and> stBaseBranch s \<noteq> [] then eBase e else None) of
      None \<Rightarrow> (None, False, w)
    | Some mv \<Rightarrow>
        (case first_err [if isStart then mvBehind mv else None, mvDirty mv, if mvNeedRebase mv then mvRebase mv else None] of
           Some er \<Rightarrow> (Some er, False, w)
         | None \<Rightarrow>
             let w1 = w\<lparr>wSpecs := mvSpecs mv\<rparr>; cu = caught_up_checks e mv c s in
             (case first_err [mvBaseline mv, mvInterrupted mv] of
                Some er \<Rightarrow> (Some er, False, w1)
              | None \<Rightarrow>
                  if mvNeedRebase mv \<and> mvConflicts mv \<noteq> []
                  then (case layOutConflict e mv inArchive cid cu s w1 of (er, w2) \<Rightarrow> (er, True, w2))
                  else (case saveAndCommit (eSave e 0) cid
                               (recordCatchUp cu (mvHead mv) (eStamp e) (cu_names e cu) inArchive s) w1 of
                          (er, w2) \<Rightarrow> (er, True, w2)))))"

section \<open>Start\<close>

definition nothing_to_rebaseline :: apex_error where
  "nothing_to_rebaseline = fail ''change.nothing-to-rebaseline''"

text \<open>The switch on the status: whether this start re-plans, and whether it re-baselines a started change.\<close>

definition start_kind :: "pure_lib \<Rightarrow> world \<Rightarrow> change \<Rightarrow> state \<Rightarrow> apex_error + (bool \<times> bool)" where
  "start_kind L w c s =
     (let planChanged = stPlanDigest s \<noteq> [] \<and> stPlanDigest s \<noteq> PlanDigest (plSha256 L) c;
          specChanged = fingerprintConflicts (plSha256 L) (wSpecs w) (stBaseFingerprints s) c \<noteq> []
      in if stStatus s \<in> {Draft, Blocked, Answered} then Inr (planChanged, False)
         else if stStatus s \<in> {InProgress, Verified, Reviewed}
         then (if \<not> planChanged \<and> \<not> specChanged \<and> \<not> regressionStale (wRegressionCmd w) s then Inl nothing_to_rebaseline
               else Inr (planChanged \<or> specChanged, True))
         else Inl (fail ''change.wrong-status''))"

text \<open>The other active change of each claimed requirement two changes share.\<close>

definition start_conflicts :: "world \<Rightarrow> string \<Rightarrow> change \<Rightarrow> string list" where
  "start_conflicts w cid c = concat (map (\<lambda>i. case wDocs w i of
       None \<Rightarrow> [] | Some d \<Rightarrow> map (\<lambda>_. i) (requirementConflicts c d)) (filter (\<lambda>i. i \<noteq> cid) (ActiveChanges w)))"

definition start_refusal :: "pure_lib \<Rightarrow> env \<Rightarrow> world \<Rightarrow> string \<Rightarrow> change \<Rightarrow> state \<Rightarrow> apex_error option" where
  "start_refusal L e w cid c s = first_err
     [when_err (eCheckFindings e \<noteq> []) (FailError ''change.check-failed'' (eCheckFindings e)),
      requireApproved (plSha256 L) (wMilestone w) s c,
      when_err (start_conflicts w cid c \<noteq> []) (ConflictError ''change.requirement-conflict'' (start_conflicts w cid c))]"

definition rebaselineRegression :: "env \<Rightarrow> world \<Rightarrow> state \<Rightarrow> state" where
  "rebaselineRegression e w s =
     (if wRegressionCmd w = [] \<or> (case stRegression s of None \<Rightarrow> False | Some b \<Rightarrow> rbCmd b = wRegressionCmd w) then s
      else let r = runRegression e run_regression (wRegressionCmd w)
           in s\<lparr>stRegression := Some (regressionBaseline r (eHead e) (eStamp e) (eFailing e r))\<rparr>)"

text \<open>The baselines any change of the milestone has, active ones first, as \<open>milestoneRegressionBaseline\<close> reads them.\<close>

definition milestone_candidates ::
  "world \<Rightarrow> string \<Rightarrow> (string \<times> regressionBaselineRec option \<times> regressionBaselineRec option) list" where
  "milestone_candidates w m =
     List.map_filter (\<lambda>i. case (wDocs w i, wStates w i) of
         (Some d, Some s) \<Rightarrow> if mMilestone (cMeta d) = m then Some (i, stRegression s, stMilestoneRegression s) else None
       | _ \<Rightarrow> None) (wIDs w)
     @ List.map_filter (\<lambda>(i, d, s). case d of
         Some c \<Rightarrow> if mMilestone (cMeta c) = m then Some (i, stRegression s, stMilestoneRegression s) else None
       | None \<Rightarrow> None) (wArchived w)"

definition rebaselineMilestoneRegression :: "env \<Rightarrow> world \<Rightarrow> string \<Rightarrow> change \<Rightarrow> state \<Rightarrow> state" where
  "rebaselineMilestoneRegression e w cid c s =
     (let cmd = wMilestoneRegressionCmd w in
      if IsTweak c \<or> cmd = [] \<or> cmd = wRegressionCmd w
         \<or> (case stMilestoneRegression s of None \<Rightarrow> False | Some b \<Rightarrow> rbCmd b = cmd) then s
      else if (case milestoneRegressionBaseline (milestone_candidates w (mMilestone (cMeta c))) cmd of
                 None \<Rightarrow> False | Some (other, _) \<Rightarrow> other \<noteq> cid) then s
      else let r = runRegression e run_milestone cmd
           in s\<lparr>stMilestoneRegression := Some (regressionBaseline r (eHead e) (eStamp e) (eFailing e r))\<rparr>)"

text \<open>The state between entering the branch and the baseline run.\<close>

definition start_base :: "pure_lib \<Rightarrow> env \<Rightarrow> change \<Rightarrow> bool \<Rightarrow> bool \<Rightarrow> string option \<Rightarrow> state \<Rightarrow> state" where
  "start_base L e c replan rebase enter s =
     (let s1 = (case enter of None \<Rightarrow> s | Some cur \<Rightarrow> s\<lparr>stBaseBranch := cur\<rparr>);
          s2 = (if stBaseSHA s1 = [] \<or> (stStatus s1 = Draft \<and> \<not> replan) then s1\<lparr>stBaseSHA := eHead e, stStartedAt := eStamp e\<rparr> else s1);
          s3 = (if replan then s2\<lparr>stReplans := stReplans s2 @ [\<lparr>rpAt = eStamp e, rpSHA = eHead e, rpFrom = stPlanDigest s2,
                                                 rpTo = PlanDigest (plSha256 L) c\<rparr>]\<rparr> else s2)
      in if replan \<or> rebase then s3\<lparr>stVerify := None, stReview := None\<rparr> else s3)"

definition start_todo :: "world \<Rightarrow> change \<Rightarrow> state \<Rightarrow> plannedCheck list" where
  "start_todo w c s = rebaseline_todo (stBaseline s) (ChangeChecks (wSpecs w) (wRedAtGate w) c)"

text \<open>The state a successful start records, from the state of \<open>start_base\<close>.\<close>

definition start_record :: "pure_lib \<Rightarrow> env \<Rightarrow> world \<Rightarrow> string \<Rightarrow> change \<Rightarrow> state \<Rightarrow> state" where
  "start_record L e w cid c s =
     (let out = Run e run_baseline (start_todo w c s);
          s1 = s\<lparr>stBaseline := rebaseline (stBaseline s) (ChangeChecks (wSpecs w) (wRedAtGate w) c) (eHead e) out\<rparr>;
          s2 = rebaselineMilestoneRegression e w cid c (rebaselineRegression e w s1)
      in s2\<lparr>stPlanDigest := PlanDigest (plSha256 L) c, stBaseFingerprints := baseFingerprints (plSha256 L) (wSpecs w) c,
            stStatus := InProgress, stBlockedReason := None\<rparr>)"

text \<open>Once every refusal passed: the runs, the vacuous-check rule, the counters and the save.\<close>

definition start_write ::
  "pure_lib \<Rightarrow> env \<Rightarrow> string \<Rightarrow> change \<Rightarrow> state \<Rightarrow> world \<Rightarrow> apex_error option \<times> world" where
  "start_write L e cid c s w =
     (case first_err [eInterrupted e 0,
                      refuseVacuousChecks c (Run e run_baseline (start_todo w c s)) (eCodeMoved e (stBaseSHA s)),
                      eInterrupted e 1, eInterrupted e 2] of
        Some er \<Rightarrow> (Some er, w)
      | None \<Rightarrow>
          (case updateAttempts e cid (\<lambda>a. a\<lparr>atSince := 0\<rparr>) w of
             (Some er, w1) \<Rightarrow> (Some er, w1)
           | (None, w1) \<Rightarrow> saveAndCommit (eSave e 2) cid (start_record L e w cid c s) w1))"

text \<open>
  \<open>start\<close> in the checked-out tree: the error (\<open>None\<close> for a started change), whether the change's
  branch was entered, and the world. \<open>enter\<close> is the branch a fresh change's branch is created from.
\<close>

definition start :: "pure_lib \<Rightarrow> env \<Rightarrow> string option \<Rightarrow> string \<Rightarrow> world \<Rightarrow> apex_error option \<times> bool \<times> world" where
  "start L e enter cid w = (case requireChange w cid of
      Inl er \<Rightarrow> (Some er, False, w)
    | Inr (c, s) \<Rightarrow>
        (case start_kind L w c s of
           Inl er \<Rightarrow> (Some er, False, w)
         | Inr (replan, rebase) \<Rightarrow>
             (case start_refusal L e w cid c s of
                Some er \<Rightarrow> (Some er, False, w)
              | None \<Rightarrow>
                  if replan \<and> int (replansSinceAnswer s + 1) > ReplansCap (wLimits w)
                  then (case blockAndCount e 3 cid c s (''replans exceeded: re-plan '' @ Itoa (replansSinceAnswer s + 1)
                                @ '' of at most '' @ Itoa (nat (ReplansCap (wLimits w)))) w of
                          (Some er, w1) \<Rightarrow> (Some er, False, w1)
                        | (None, w1) \<Rightarrow> (Some (fail ''change.replans-exceeded''), False, w1))
                  else (case (if enter = None then None else eEnter e) of
                          Some er \<Rightarrow> (Some er, False, w)
                        | None \<Rightarrow>
                            (case start_write L e cid c (start_base L e c replan rebase enter s) w of
                               (er, w1) \<Rightarrow> (er, enter \<noteq> None, w1))))))"

text \<open>\<open>reenter\<close>: \<open>Inr True\<close> is a resume that re-baselined nothing.\<close>

definition reenter :: "pure_lib \<Rightarrow> env \<Rightarrow> bool \<Rightarrow> string \<Rightarrow> world \<Rightarrow> (apex_error + bool) \<times> world" where
  "reenter L e switched cid w = (case requireChange w cid of
      Inl er \<Rightarrow> (Inl er, w)
    | Inr (c, s) \<Rightarrow>
        (case catchUp e True False cid c s w of
           (Some er, _, w1) \<Rightarrow> (Inl er, w1)
         | (None, cu, w1) \<Rightarrow>
             (case start L e None cid w1 of
                (None, _, w2) \<Rightarrow> (Inr False, w2)
              | (Some er, _, w2) \<Rightarrow>
                  if er = nothing_to_rebaseline \<and> (switched \<or> cu) then (Inr True, w2) else (Inl er, w2))))"

text \<open>
  A refused start on a fresh branch puts back what git tracks (\<open>git reset --hard\<close>, then back to the
  branch it came from); the attempts file is not tracked. The errors of the three commands are dropped:
  with \<open>eReset\<close> false the reset failed and what the start wrote stays.
\<close>

definition rollback :: "env \<Rightarrow> world \<Rightarrow> world \<Rightarrow> world" where
  "rollback e w w' = (if eReset e then w\<lparr>wAttempts := wAttempts w'\<rparr> else w')"

definition lift_err :: "apex_error option \<Rightarrow> 'a \<Rightarrow> apex_error + 'a" where
  "lift_err er x = (case er of Some y \<Rightarrow> Inl y | None \<Rightarrow> Inr x)"

definition Start :: "pure_lib \<Rightarrow> env \<Rightarrow> string \<Rightarrow> world \<Rightarrow> (apex_error + bool) \<times> world" where
  "Start L e cid w =
     (case first_err [eRecover e,
                      (case requireChange w cid of
                         Inl _ \<Rightarrow> None
                       | Inr (c, _) \<Rightarrow> if IsTweak c then None else blocksExceeded w (mMilestone (cMeta c)))] of
        Some er \<Rightarrow> (Inl er, w)
      | None \<Rightarrow>
          if \<not> wGit w then (case start L e None cid w of (er, _, w1) \<Rightarrow> (lift_err er False, w1))
          else (case eBranch e of
                  OwnBranch \<Rightarrow> reenter L e False cid w
                | OtherChangeBranch \<Rightarrow> (Inl (fail ''change.wrong-branch''), w)
                | DetachedHead \<Rightarrow> (Inl (fail ''branch.detached''), w)
                | BranchExists \<Rightarrow> (case eSwitch e of Some er \<Rightarrow> (Inl er, w) | None \<Rightarrow> reenter L e True cid w)
                | Fresh cur \<Rightarrow>
                    (case eBehind e of
                       Some er \<Rightarrow> (Inl er, w)
                     | None \<Rightarrow>
                         (case start L e (Some cur) cid w of
                            (er, entered, w1) \<Rightarrow>
                              (lift_err er False, if er \<noteq> None \<and> entered then rollback e w w1 else w1)))))"

section \<open>Verify\<close>

record verifyResult =
  vrStatus :: status
  vrSHA :: string
  vrGreen :: bool
  vrResults :: "checkResult list"
  vrPendingHuman :: "string list"
  vrGreenAtBaseline :: "greenAtBaselineRec list"
  vrRegression :: "regressionVerdict option"
  vrFullSkipped :: nat
  vrAttempts :: nat
  vrAttemptsTotal :: nat
  vrAttemptsCap :: int

text \<open>What a verify runs: the checks, the verdict of a skipped regression command, the full checks left out.\<close>

definition verify_plan :: "env \<Rightarrow> world \<Rightarrow> change \<Rightarrow> state \<Rightarrow> plannedCheck list \<times> regressionVerdict option \<times> nat" where
  "verify_plan e w c s =
     (let (checks, fullSkipped) = changeChecks (wSpecs w) (wRedAtGate w) c; cmd = wRegressionCmd w;
          (skip, paths, why) = eDocsOnly e
      in if cmd = [] then (checks, None, fullSkipped)
         else if skip then (checks, Some (skippedRegression cmd (stRegression s) paths), fullSkipped)
         else (checks @ [regression_check cmd], None, fullSkipped))"

text \<open>The results with the regression command judged against its baseline, and its verdict.\<close>

definition verify_results ::
  "env \<Rightarrow> world \<Rightarrow> change \<Rightarrow> state \<Rightarrow> checkResult list \<times> regressionVerdict option" where
  "verify_results e w c s =
     (let (checks, skipped, _) = verify_plan e w c s; results = Run e run_verify checks in
      if wRegressionCmd w \<noteq> [] \<and> skipped = None
      then let (r, v) = judgeRegression (last results) (stRegression s) (eFailing e (last results))
           in (butlast results @ [r], Some (v\<lparr>rvNotSkipped := snd (snd (eDocsOnly e))\<rparr>))
      else (results, skipped))"

definition all_green :: "checkResult list \<Rightarrow> bool" where
  "all_green results \<longleftrightarrow> list_all (\<lambda>r. \<not> crRed r) results"

definition verify_result :: "env \<Rightarrow> world \<Rightarrow> string \<Rightarrow> change \<Rightarrow> state \<Rightarrow> verifyResult" where
  "verify_result e w cid c s =
     (let (results, regression) = verify_results e w c s in
      \<lparr>vrStatus = stStatus s, vrSHA = eHead e, vrGreen = all_green results, vrResults = results,
       vrPendingHuman = PendingHuman (withBaseAccepted (wGit w) (wBaseAccepted w cid) s) (HumanTasks c),
       vrGreenAtBaseline = greenAtBaseline (wSpecs w) (wRedAtGate w) c s, vrRegression = regression,
       vrFullSkipped = snd (snd (verify_plan e w c s)), vrAttempts = 0, vrAttemptsTotal = 0, vrAttemptsCap = 0\<rparr>)"

definition verify_record :: "env \<Rightarrow> verifyResult \<Rightarrow> bool \<Rightarrow> nat \<Rightarrow> verifyRec" where
  "verify_record e r green fullSkipped =
     \<lparr>vSHA = vrSHA r, vAt = eStamp e, vResults = vrResults r, vPendingHuman = vrPendingHuman r, vGreen = green,
      vGreenAtBaseline = vrGreenAtBaseline r, vStale = False, vStaleReason = [],
      vRegression = skip_verdict (vrRegression r), vFullSkipped = fullSkipped\<rparr>"

definition Outcome :: "env \<Rightarrow> checkResult \<Rightarrow> string" where
  "Outcome e r = (if crReason r \<noteq> [] then crReason r @ '': '' @ eDetail e r
     else ''exit '' @ (if crExit r < 0 then ''-'' @ Itoa (nat (- crExit r)) else Itoa (nat (crExit r))))"

definition failing_reason :: "env \<Rightarrow> verifyResult \<Rightarrow> string" where
  "failing_reason e r =
     Join (limit (map (\<lambda>x. crTask x @ '' ('' @ Outcome e x @ '')'') (Failing (vrResults r))) 5) '', ''"

definition redBlock ::
  "env \<Rightarrow> string \<Rightarrow> change \<Rightarrow> state \<Rightarrow> verifyResult \<Rightarrow> string \<Rightarrow> apex_error \<Rightarrow> world
     \<Rightarrow> verifyResult option \<times> apex_error option \<times> world" where
  "redBlock e cid c s r what fe w =
     (case blockAndCount e 4 cid c (red_verify (verify_record e r False 0) s)
             (what @ '' '' @ em_dash @ '' '' @ failing_reason e r) w of
        (Some er, w1) \<Rightarrow> (None, Some er, w1)
      | (None, w1) \<Rightarrow> (Some (r\<lparr>vrStatus := Blocked\<rparr>), Some fe, w1))"

definition redAttempt ::
  "env \<Rightarrow> string \<Rightarrow> change \<Rightarrow> state \<Rightarrow> verifyResult \<Rightarrow> world \<Rightarrow> verifyResult option \<times> apex_error option \<times> world" where
  "redAttempt e cid c s r w = (case updateAttempts e cid count_red w of
      (Some er, w1) \<Rightarrow> (None, Some er, w1)
    | (None, w1) \<Rightarrow>
        let a = wAttempts w1 cid; capN = AttemptsCap (wLimits w); total = int (atTotal a) - int (atAtAnswer a);
            r' = r\<lparr>vrAttempts := atSince a, vrAttemptsTotal := atTotal a, vrAttemptsCap := capN\<rparr>
        in if total \<ge> AttemptsTotalCap (wLimits w)
           then redBlock e cid c s r' (''attempts_total exceeded: '' @ Itoa (nat total) @ '' red verifies across its starts'')
                  (fail ''change.attempts-total-exceeded'') w1
           else if int (atSince a) < capN
           then (if stStatus s = InProgress then (Some r', None, w1)
                 else (case saveAndCommit (eSave e 4) cid (back_to_progress (verify_record e r' False 0) s) w1 of
                         (Some er, w2) \<Rightarrow> (None, Some er, w2)
                       | (None, w2) \<Rightarrow> (Some (r'\<lparr>vrStatus := InProgress\<rparr>), None, w2)))
           else redBlock e cid c s r' (''attempts exceeded: '' @ Itoa (atSince a) @ '' red verifies'')
                  (fail ''change.attempts-exceeded'') w1)"

text \<open>\<open>verify\<close>: \<open>keepReview\<close> is archive's re-verify.\<close>

definition verify ::
  "env \<Rightarrow> bool \<Rightarrow> string \<Rightarrow> change \<Rightarrow> state \<Rightarrow> world \<Rightarrow> verifyResult option \<times> apex_error option \<times> world" where
  "verify e keepReview cid c s w = (case first_err [eDirty e, eGateTouch e, eInterrupted e 3] of
      Some er \<Rightarrow> (None, Some er, w)
    | None \<Rightarrow>
        let r = verify_result e w cid c s in
        if \<not> vrGreen r then redAttempt e cid c s r w
        else let moved = (case stReview s of None \<Rightarrow> False | Some rv \<Rightarrow> code_moved e (rwSHA rv));
                 s' = green_verify (verify_record e r True (vrFullSkipped r)) moved keepReview s
             in (case saveAndCommit (eSave e 4) cid s' w of
                   (Some er, w1) \<Rightarrow> (None, Some er, w1)
                 | (None, w1) \<Rightarrow>
                     (Some (r\<lparr>vrStatus := stStatus s', vrAttempts := atSince (wAttempts w cid),
                              vrAttemptsTotal := atTotal (wAttempts w cid), vrAttemptsCap := AttemptsCap (wLimits w)\<rparr>), None, w1)))"

definition verify_refusal :: "pure_lib \<Rightarrow> env \<Rightarrow> change \<Rightarrow> state \<Rightarrow> apex_error option" where
  "verify_refusal L e c s = first_err
     [when_err (stStatus s \<notin> {InProgress, Verified, Reviewed}) (fail ''change.wrong-status''),
      eOnBranch e,
      when_err (eUnresolved e \<noteq> []) (fail ''change.unresolved-conflict''),
      checkPlanFrozen (plSha256 L) s c]"

definition Verify :: "pure_lib \<Rightarrow> env \<Rightarrow> string \<Rightarrow> world \<Rightarrow> verifyResult option \<times> apex_error option \<times> world" where
  "Verify L e cid w = (case eRecover e of
      Some er \<Rightarrow> (None, Some er, w)
    | None \<Rightarrow>
       (case requireChange w cid of
          Inl er \<Rightarrow> (None, Some er, w)
        | Inr (c, s) \<Rightarrow>
            (case verify_refusal L e c s of
               Some er \<Rightarrow> (None, Some er, w)
             | None \<Rightarrow>
                 (case catchUp e False False cid c s w of
                    (Some er, _, w1) \<Rightarrow> (None, Some er, w1)
                  | (None, _, w1) \<Rightarrow>
                      (case requireChange w1 cid of
                         Inl er \<Rightarrow> (None, Some er, w1)
                       | Inr (c1, s1) \<Rightarrow> verify e False cid c1 s1 w1)))))"

section \<open>Review, accept, block, answer\<close>

definition review_refusal :: "env \<Rightarrow> string \<Rightarrow> state \<Rightarrow> apex_error option" where
  "review_refusal e verdict s = first_err
     [when_err (stStatus s \<notin> {Verified, Reviewed}) (fail ''change.wrong-status''),
      eOnBranch e,
      when_err (eFindingsFile e = None) (UsageError ''usage.findings-missing''),
      (if verdict = ''pass''
       then (case stVerify s of
               None \<Rightarrow> Some (fail ''verify.missing'')
             | Some v \<Rightarrow> if \<not> vGreen v then Some (fail ''verify.missing'')
                         else when_err (code_moved e (vSHA v)) (fail ''verify.stale''))
       else None)]"

definition Review :: "env \<Rightarrow> string \<Rightarrow> string \<Rightarrow> world \<Rightarrow> (apex_error + state) \<times> world" where
  "Review e cid verdict w =
     (case first_err [eRecover e, when_err (verdict \<noteq> ''pass'' \<and> verdict \<noteq> ''block'') (UsageError ''usage.verdict'')] of
        Some er \<Rightarrow> (Inl er, w)
      | None \<Rightarrow>
          (case requireChange w cid of
             Inl er \<Rightarrow> (Inl er, w)
           | Inr (c, s) \<Rightarrow>
               (case review_refusal e verdict s of
                  Some er \<Rightarrow> (Inl er, w)
                | None \<Rightarrow>
                    let s' = review_state \<lparr>rwVerdict = verdict, rwAt = eStamp e, rwSHA = eHead e,
                                          rwFindings = the (eFindingsFile e)\<rparr> s
                    in (case saveAndCommit (eSave e 5) cid s' w of (er, w1) \<Rightarrow> (lift_err er s', w1)))))"

definition Block :: "env \<Rightarrow> string \<Rightarrow> string \<Rightarrow> world \<Rightarrow> apex_error option \<times> world" where
  "Block e cid reason w =
     (case first_err [eRecover e, when_err (TrimSpace reason = []) (UsageError ''usage.reason'')] of
        Some er \<Rightarrow> (Some er, w)
      | None \<Rightarrow>
          (case requireChange w cid of
             Inl er \<Rightarrow> (Some er, w)
           | Inr (c, s) \<Rightarrow>
               (case (if eOffBranch e then None else eWritable e) of
                  Some er \<Rightarrow> (Some er, w)
                | None \<Rightarrow>
                    if stStatus s = Blocked
                    then saveAndCommit (eSave e 5) cid (s\<lparr>stBlockedReason := Some (TrimSpace reason)\<rparr>) w
                    else blockAndCount e 5 cid c s (TrimSpace reason) w)))"

text \<open>
  \<open>AnswerChange\<close>: in a work tree the branch's state is read again and edited there; outside one
  the file is written and the attempts file is left alone.
\<close>

definition AnswerChange :: "env \<Rightarrow> string \<Rightarrow> string \<Rightarrow> string \<Rightarrow> world \<Rightarrow> apex_error option \<times> world" where
  "AnswerChange e cid txt by w =
     (case first_err [ePerson e, when_err (TrimSpace by = []) (UsageError ''usage.by''),
                      when_err (TrimSpace txt = []) (UsageError ''usage.text'')] of
        Some er \<Rightarrow> (Some er, w)
      | None \<Rightarrow>
          (case requireChange w cid of
             Inl er \<Rightarrow> (Some er, w)
           | Inr (c, s) \<Rightarrow>
               if stStatus s \<noteq> Blocked then (Some (fail ''change.wrong-status''), w)
               else (case saveAndCommit (eSave e 5) cid (answer_state (TrimSpace by) (eStamp e) (TrimSpace txt) s) w of
                       (Some er, w1) \<Rightarrow> (Some er, w1)
                     | (None, w1) \<Rightarrow>
                         if wGit w then updateAttempts e cid (\<lambda>a. a\<lparr>atAtAnswer := atTotal a\<rparr>) w1 else (None, w1))))"

text \<open>
  Accepting a human-review task: in the archived state of an archived change, else on the change's
  branch, or on the base branch (\<open>acceptOnBase\<close>) for a reviewed change read from elsewhere. What
  resolves the evidence and finds the branch may refuse (\<open>eWritable\<close>).
\<close>

fun set_entry :: "string \<Rightarrow> state \<Rightarrow> (string \<times> change option \<times> state) list \<Rightarrow> (string \<times> change option \<times> state) list" where
  "set_entry cid s [] = []"
| "set_entry cid s ((i, d, s0) # r) = (if i = cid then (i, d, s) # r else (i, d, s0) # set_entry cid s r)"

definition set_archived :: "string \<Rightarrow> state \<Rightarrow> world \<Rightarrow> world" where
  "set_archived cid s w = w\<lparr>wArchived := set_entry cid s (wArchived w)\<rparr>"

definition acceptArchived :: "env \<Rightarrow> string \<Rightarrow> acceptRec \<Rightarrow> world \<Rightarrow> apex_error option \<times> world" where
  "acceptArchived e cid rec w = (case eWritable e of
      Some er \<Rightarrow> (Some er, w)
    | None \<Rightarrow>
        (case map_of (wArchived w) cid of
           None \<Rightarrow> (Some (fail ''change.not-found''), w)
         | Some (None, s) \<Rightarrow> (Some (fail ''change.no-state''), w)
         | Some (Some c, s) \<Rightarrow>
             (case first_err [when_err (stStatus s \<noteq> Archived) (fail ''change.wrong-status''), humanTask c (acTask rec)] of
                Some er \<Rightarrow> (Some er, w)
              | None \<Rightarrow> (case eSave e 5 of Saved \<Rightarrow> (None, set_archived cid (withAcceptance s c rec) w)
                         | NotWritten er \<Rightarrow> (Some er, w) | NotCommitted er \<Rightarrow> (Some er, w)))))"

definition acceptOnBase :: "env \<Rightarrow> string \<Rightarrow> state \<Rightarrow> acceptRec \<Rightarrow> world \<Rightarrow> apex_error option \<times> world" where
  "acceptOnBase e cid s rec w =
     (if stBaseBranch s = [] \<or> \<not> eBaseThere e then (Some (fail ''git.branch-failed''), w)
      else case eWritable e of
             Some er \<Rightarrow> (Some er, w)
           | None \<Rightarrow> (None, w\<lparr>wBaseAccepted := (wBaseAccepted w)(cid := mergeAccepted (wBaseAccepted w cid) [rec])\<rparr>))"

definition accept :: "env \<Rightarrow> string \<Rightarrow> acceptRec \<Rightarrow> world \<Rightarrow> apex_error option \<times> world" where
  "accept e cid a w =
     (case first_err [eRecover e, when_err (TrimSpace (acBy a) = []) (UsageError ''usage.by'')] of
        Some er \<Rightarrow> (Some er, w)
      | None \<Rightarrow>
          let rec = a\<lparr>acBy := TrimSpace (acBy a), acAt := eStamp e\<rparr> in
          (case requireChange w cid of
             Inl er \<Rightarrow>
               if wGit w \<and> (er = fail ''change.archived'' \<or> er = fail ''change.not-found'')
               then acceptArchived e cid rec w else (Some er, w)
           | Inr (c, s) \<Rightarrow>
               (case humanTask c (acTask a) of
                  Some er \<Rightarrow> (Some er, w)
                | None \<Rightarrow>
                    if eOffBranch e \<and> stStatus s = Reviewed then acceptOnBase e cid s rec w
                    else (case first_err [if eOffBranch e then None else eOnBranch e, eWritable e] of
                            Some er \<Rightarrow> (Some er, w)
                          | None \<Rightarrow> saveAndCommit (eSave e 5) cid (withAcceptance s c rec) w))))"

definition ApproveTweak :: "pure_lib \<Rightarrow> env \<Rightarrow> string \<Rightarrow> string \<Rightarrow> world \<Rightarrow> apex_error option \<times> world" where
  "ApproveTweak L e cid by w =
     (case first_err [ePerson e, eRecover e, when_err (TrimSpace by = []) (UsageError ''usage.by'')] of
        Some er \<Rightarrow> (Some er, w)
      | None \<Rightarrow>
          (case requireChange w cid of
             Inl er \<Rightarrow> (Some er, w)
           | Inr (c, s) \<Rightarrow>
               (case first_err
                  [when_err (\<not> IsTweak c) (fail ''change.approve-milestone''),
                   when_err (stStatus s \<notin> {Draft, Blocked, Answered} \<or> stBaseSHA s \<noteq> [] \<or> (wGit w \<and> eBranchThere e))
                     (fail ''change.wrong-status''),
                   when_err (eCheckFindings e \<noteq> []) (FailError ''change.check-failed'' (eCheckFindings e))] of
                  Some er \<Rightarrow> (Some er, w)
                | None \<Rightarrow>
                    let digest = PlanDigest (plSha256 L) c in
                    if (case stApproved s of None \<Rightarrow> False | Some a \<Rightarrow> apPlanDigest a = digest) then (None, w)
                    else saveAndCommit (eSave e 5) cid
                           (s\<lparr>stApproved := Some \<lparr>apBy = TrimSpace by, apAt = eStamp e, apPlanDigest = digest\<rparr>\<rparr>) w)))"

section \<open>Archive and abandon\<close>

text \<open>\<open>archivable\<close>: the refusals before git is touched; the pending tasks are the second result.\<close>

definition pending_tasks :: "world \<Rightarrow> string \<Rightarrow> change \<Rightarrow> state \<Rightarrow> string list" where
  "pending_tasks w cid c s = PendingHuman (withBaseAccepted (wGit w) (wBaseAccepted w cid) s) (HumanTasks c)"

definition archivable :: "pure_lib \<Rightarrow> env \<Rightarrow> world \<Rightarrow> bool \<Rightarrow> string \<Rightarrow> change \<Rightarrow> state \<Rightarrow> apex_error option" where
  "archivable L e w allowPendingHuman cid c s = first_err
     [when_err (stStatus s \<noteq> Reviewed \<or> \<not> review_passed s) (fail ''change.wrong-status''),
      when_err (\<not> wGit w) (fail ''git.not-a-repo''),
      checkPlanFrozen (plSha256 L) s c,
      requireChangeFits (wCaps w) (Some c),
      when_err (pending_tasks w cid c s \<noteq> [] \<and> \<not> allowPendingHuman) (fail ''archive.pending-human''),
      when_err (\<not> eBranchThere e \<or> stBaseBranch s = []) (fail ''change.no-branch''),
      when_err (\<not> eBaseThere e) (fail ''git.branch-failed'')]"

definition reviewStale :: "env \<Rightarrow> state \<Rightarrow> bool" where
  "reviewStale e s = (case stReview s of None \<Rightarrow> True | Some r \<Rightarrow> code_moved e (rwSHA r))"

text \<open>\<open>archiveFresh\<close>: a re-verify when the recorded one does not speak of this code.\<close>

definition verify_fresh :: "env \<Rightarrow> state \<Rightarrow> bool" where
  "verify_fresh e s = (case stVerify s of None \<Rightarrow> False | Some v \<Rightarrow> \<not> vStale v \<and> \<not> code_moved e (vSHA v))"

definition archiveFresh :: "env \<Rightarrow> string \<Rightarrow> change \<Rightarrow> state \<Rightarrow> world \<Rightarrow> apex_error option \<times> world" where
  "archiveFresh e cid c s w =
     (if verify_fresh e s then (None, w)
      else case verify e True cid c s w of
             (_, Some er, w1) \<Rightarrow> (Some er, w1)
           | (Some r, None, w1) \<Rightarrow> (when_err (\<not> vrGreen r) (fail ''verify.red''), w1)
           | (None, None, w1) \<Rightarrow> (Some (OtherError ''no result''), w1))"

text \<open>The findings of the first spec written that does not validate.\<close>

fun invalid_specs :: "world \<Rightarrow> specUpdate list \<Rightarrow> finding list" where
  "invalid_specs w [] = []"
| "invalid_specs w (u # us) =
     (let fs = (if suRetired u then [] else ValidateSpec (suPath u) (suContent u) (nat (capSpec (Limits (wCaps w)))))
      in if fs \<noteq> [] then fs else invalid_specs w us)"

definition planArchive :: "pure_lib \<Rightarrow> env \<Rightarrow> world \<Rightarrow> change \<Rightarrow> state \<Rightarrow> apex_error option \<times> specUpdate list" where
  "planArchive L e w c s =
     (let fc = fingerprintConflicts (plSha256 L) (wSpecs w) (stBaseFingerprints s) c;
          (updates, conflicts) = MergeDelta (plLower L) (wSpecs w) c
      in (first_err
            [when_err (fc \<noteq> []) (ConflictError ''archive.base-changed'' fc),
             eSubject e,
             when_err (conflicts \<noteq> []) (ConflictError ''archive.delta-conflict'' []),
             when_err (eDestThere e) (ConflictError ''archive.folder-exists'' []),
             when_err (invalid_specs w updates \<noteq> []) (FailError ''archive.spec-invalid'' (invalid_specs w updates))],
          updates))"

text \<open>The specs after the updates: a retired capability's folder is gone, another's file is written.\<close>

definition write_spec :: "project \<Rightarrow> specUpdate \<Rightarrow> project" where
  "write_spec p u =
     (if suRetired u
      then p\<lparr>pSpecDirs := removeAll (suCapability u) (pSpecDirs p), pSpecFile := (pSpecFile p)(suCapability u := None)\<rparr>
      else p\<lparr>pSpecDirs := (if suCapability u \<in> set (pSpecDirs p) then pSpecDirs p else pSpecDirs p @ [suCapability u]),
             pSpecFile := (pSpecFile p)(suCapability u := Some (suContent u))\<rparr>)"

definition accepted_state :: "world \<Rightarrow> string \<Rightarrow> change \<Rightarrow> state \<Rightarrow> state" where
  "accepted_state w cid c s =
     (if stBaseBranch s = [] \<or> \<not> wGit w \<or> wBaseAccepted w cid = [] then s
      else refreshPending (withBaseAccepted (wGit w) (wBaseAccepted w cid) s) c)"

definition archived_state :: "env \<Rightarrow> string \<Rightarrow> string list \<Rightarrow> state \<Rightarrow> state" where
  "archived_state e cid pending s =
     s\<lparr>stStatus := Archived, stArchivedAt := eStamp e, stArchivedTo := eDest e, stBranchTip := eTip e,
       stTipRef := ''refs/apex/archive/'' @ cid, stAllowPendingHuman := (pending \<noteq> [] \<or> stAllowPendingHuman s)\<rparr>"

text \<open>Moving a change's folder to the archive: its records leave the active ones.\<close>

definition move_to_archive :: "string \<Rightarrow> change \<Rightarrow> state \<Rightarrow> world \<Rightarrow> world" where
  "move_to_archive cid c s w =
     w\<lparr>wIDs := removeAll cid (wIDs w), wDocs := (wDocs w)(cid := None), wStates := (wStates w)(cid := None),
       wArchived := wArchived w @ [(cid, Some c, s)], wBaseAccepted := (wBaseAccepted w)(cid := [])\<rparr>"

definition squashOntoBase :: "env \<Rightarrow> string \<Rightarrow> change \<Rightarrow> state \<Rightarrow> specUpdate list \<Rightarrow> string list \<Rightarrow> world
    \<Rightarrow> apex_error option \<times> world" where
  "squashOntoBase e cid c s updates pending w = (case eSquash e of
      Some er \<Rightarrow> (Some er, w)
    | None \<Rightarrow>
        (ePost e,
         resetBlocks c (move_to_archive cid c (archived_state e cid pending (accepted_state w cid c s))
           (w\<lparr>wSpecs := foldl write_spec (wSpecs w) updates\<rparr>))))"

text \<open>The part of \<open>Archive\<close> on the change's branch, from the stale-review test on.\<close>

definition archive_on_branch :: "pure_lib \<Rightarrow> env \<Rightarrow> string list \<Rightarrow> string \<Rightarrow> change \<Rightarrow> state \<Rightarrow> world \<Rightarrow> apex_error option \<times> world" where
  "archive_on_branch L e pending cid c s w =
     (if reviewStale e s then (Some (fail ''review.stale''), w)
      else case catchUp e False True cid c s w of
             (Some er, _, w1) \<Rightarrow> (Some er, w1)
           | (None, _, w1) \<Rightarrow>
               (case requireChange w1 cid of
                  Inl er \<Rightarrow> (Some er, w1)
                | Inr (c1, s1) \<Rightarrow>
                    (case archiveFresh e cid c1 s1 w1 of
                       (Some er, w2) \<Rightarrow> (Some er, w2)
                     | (None, w2) \<Rightarrow>
                         (case requireChange w2 cid of
                            Inl er \<Rightarrow> (Some er, w2)
                          | Inr (c2, s2) \<Rightarrow>
                              (case planArchive L e w2 c2 s2 of
                                 (Some er, _) \<Rightarrow> (Some er, w2)
                               | (None, updates) \<Rightarrow> squashOntoBase e cid c2 s2 updates pending w2)))))"

definition Archive :: "pure_lib \<Rightarrow> env \<Rightarrow> string \<Rightarrow> bool \<Rightarrow> world \<Rightarrow> apex_error option \<times> world" where
  "Archive L e cid allowPendingHuman w =
     (case first_err [if allowPendingHuman then ePerson e else None, eRecover e] of
        Some er \<Rightarrow> (Some er, w)
      | None \<Rightarrow>
          (case requireChange w cid of
             Inl er \<Rightarrow> (Some er, w)
           | Inr (c, s) \<Rightarrow>
               (case first_err [archivable L e w allowPendingHuman cid c s, eBranchFree e, eBehind e, eSwitch e,
                                eGateTouch e, eJournal e] of
                  Some er \<Rightarrow> (Some er, w)
                | None \<Rightarrow> archive_on_branch L e (pending_tasks w cid c s) cid c s w)))"

definition abandoned_state :: "env \<Rightarrow> string \<Rightarrow> string \<Rightarrow> state \<Rightarrow> state" where
  "abandoned_state e cid reason s =
     s\<lparr>stStatus := Abandoned, stAbandonedReason := reason, stArchivedAt := eStamp e, stArchivedTo := eDest e,
       stBranchTip := eTip e, stTipRef := (if eTip e \<noteq> [] then ''refs/apex/abandoned/'' @ cid else stTipRef s)\<rparr>"

text \<open>
  \<open>abandonElsewhere\<close>, with HEAD on another change's branch: one commit on the base branch without a checkout,
  written whole or not at all (\<open>eWritable\<close>).
\<close>

definition abandonElsewhere :: "env \<Rightarrow> string \<Rightarrow> string \<Rightarrow> change \<Rightarrow> state \<Rightarrow> world \<Rightarrow> apex_error option \<times> world" where
  "abandonElsewhere e cid reason c s w =
     (case first_err [eSwitch e, eBranchFree e, when_err (eDestThere e) (ConflictError ''archive.folder-exists'' []), eWritable e] of
        Some er \<Rightarrow> (Some er, w)
      | None \<Rightarrow> (ePost e, move_to_archive cid c (abandoned_state e cid reason s) w))"

text \<open>The folder is renamed before the state is written: a failed write leaves it in the archive with the old state.\<close>

definition Abandon :: "env \<Rightarrow> string \<Rightarrow> string \<Rightarrow> world \<Rightarrow> apex_error option \<times> world" where
  "Abandon e cid reason w =
     (case first_err [eRecover e, when_err (TrimSpace reason = []) (UsageError ''usage.reason'')] of
        Some er \<Rightarrow> (Some er, w)
      | None \<Rightarrow>
          (case requireChange w cid of
             Inl er \<Rightarrow> (Some er, w)
           | Inr (c, s) \<Rightarrow>
               if wGit w \<and> eHeadElsewhere e then abandonElsewhere e cid (TrimSpace reason) c s w else
               (case first_err [when_err (eDestThere e) (ConflictError ''archive.folder-exists'' []),
                                if wGit w then eSwitch e else None, eWritable e] of
                  Some er \<Rightarrow> (Some er, w)
                | None \<Rightarrow>
                    let w1 = move_to_archive cid c (abandoned_state e cid (TrimSpace reason) s) w in
                    (case eSave e 5 of
                       NotWritten er \<Rightarrow> (Some er, move_to_archive cid c s w)
                     | NotCommitted er \<Rightarrow> (if wGit w then Some er else None, w1)
                     | Saved \<Rightarrow> (if wGit w then ePost e else None, w1)))))"

end
