(* ===== verification/ReviewRun.thy ===== *)
theory ReviewRun
  imports Lifecycle
begin

text \<open>
  Settling a session ape started: a review session (\<open>review_run.go\<close>), whose verdict is voided when
  it left more than its \<open>review.md\<close>, and a delegate session's fail (\<open>delegate.go\<close>), which goes
  back to the change once and to a person after that. What git says of the session's traces is an input; a
  review that is stale is verified again before a new session.
\<close>

section \<open>A review session\<close>

record reviewRun =
  rrDetachedID :: string
  rrStartedAt :: string
  rrHeadSHA :: string

text \<open>
  What git says when a session is settled: the branch HEAD is on, the files the commits since the
  session's start touched, the lines of \<open>git status\<close>; the development and state folders' relative paths, and
  \<open>time.Parse\<close> of a stamp as an instant (the zero time is 0).
\<close>

record trace =
  trBranch :: string
  trCommitted :: "apex_error + string list"
  trStatus :: "apex_error + string list"
  trDevRel :: string
  trStateRel :: string
  trArchiveRel :: string
  trTime :: "string \<Rightarrow> nat option"

record reviewOutcome =
  roVerdict :: string
  roFindings :: string
  roViolations :: "string list"
  roVoided :: bool
  roStatus :: status

definition ChangeBranch :: "string \<Rightarrow> string" where
  "ChangeBranch cid = ''change/'' @ cid"

definition branchName :: "string \<Rightarrow> string" where
  "branchName b = (if b = [] then ''a detached HEAD'' else b)"

definition reviewMayTouch :: "trace \<Rightarrow> string \<Rightarrow> string \<Rightarrow> bool" where
  "reviewMayTouch tr cid path =
     (let rel = TrimPrefix path ''./''; dir = trDevRel tr @ ''/changes/'' @ cid @ ''/''; reports = dir @ ''assets/review-'';
          report = TrimPrefix rel reports
      in (HasPrefix rel reports \<and> HasSuffix report ''.md'' \<and> \<not> Contains report ''/'')
         \<or> rel = dir @ ''review.md'' \<or> rel = dir @ ''state.json'' \<or> HasPrefix rel (trStateRel tr @ ''/''))"

text \<open>The path a line of \<open>git status --porcelain\<close> names: after the two letters, the new name of a rename.\<close>

definition status_path :: "string \<Rightarrow> string" where
  "status_path line = (let path = Trim (drop 3 line) [char_of (34 :: nat)] in
     case Index path '' -> '' of None \<Rightarrow> path | Some i \<Rightarrow> drop (i + 4) path)"

definition committed_violations :: "trace \<Rightarrow> string \<Rightarrow> string list \<Rightarrow> string list" where
  "committed_violations tr cid files = map ((@) ''committed '') (filter (\<lambda>f. f \<noteq> [] \<and> \<not> reviewMayTouch tr cid f) files)"

definition left_violations :: "trace \<Rightarrow> string \<Rightarrow> string list \<Rightarrow> string list" where
  "left_violations tr cid lines =
     map ((@) ''left '') (filter (\<lambda>p. \<not> reviewMayTouch tr cid p) (map status_path (filter (\<lambda>l. 3 < length l) lines)))"

text \<open>The traces of the session that are not a review's: \<open>e\<close> says whether HEAD can be put back on the change's branch.\<close>

definition review_violations :: "env \<Rightarrow> trace \<Rightarrow> string \<Rightarrow> reviewRun \<Rightarrow> world \<Rightarrow> apex_error + string list" where
  "review_violations e tr cid run w =
     (let away = wGit w \<and> trBranch tr \<noteq> ChangeBranch cid;
          v1 = (if away then [''switched HEAD to '' @ branchName (trBranch tr)] else [])
      in case (if away then eSwitch e else None) of
           Some er \<Rightarrow> Inl er
         | None \<Rightarrow>
             (case (if rrHeadSHA run = [] then Inr [] else trCommitted tr) of
                Inl er \<Rightarrow> Inl er
              | Inr files \<Rightarrow>
                  (case trStatus tr of
                     Inl er \<Rightarrow> Inl er
                   | Inr lines \<Rightarrow> Inr (v1 @ committed_violations tr cid files @ left_violations tr cid lines))))"

text \<open>The verdict the session recorded: a review not older than the session.\<close>

definition session_review :: "trace \<Rightarrow> reviewRun \<Rightarrow> state \<Rightarrow> reviewRec option" where
  "session_review tr run s = (case stReview s of
      None \<Rightarrow> None
    | Some r \<Rightarrow> (case trTime tr (rwAt r) of
         None \<Rightarrow> None
       | Some at \<Rightarrow> if at < (case trTime tr (rrStartedAt run) of None \<Rightarrow> 0 | Some t \<Rightarrow> t) then None else Some r))"

definition SettleReviewRun :: "env \<Rightarrow> trace \<Rightarrow> string \<Rightarrow> reviewRun \<Rightarrow> world \<Rightarrow> (apex_error + reviewOutcome) \<times> world" where
  "SettleReviewRun e tr cid run w = (case review_violations e tr cid run w of
      Inl er \<Rightarrow> (Inl er, w)
    | Inr violations \<Rightarrow>
        (case requireChange w cid of
           Inl er \<Rightarrow> (Inl er, w)
         | Inr (c, s) \<Rightarrow>
             let rec = session_review tr run s;
                 verdict = (case rec of None \<Rightarrow> [] | Some r \<Rightarrow> rwVerdict r);
                 out = \<lparr>roVerdict = verdict, roFindings = (case rec of None \<Rightarrow> [] | Some r \<Rightarrow> rwFindings r),
                        roViolations = violations, roVoided = False, roStatus = stStatus s\<rparr>
             in if violations = [] then (Inr out, w)
                else let moved = (case stVerify s of None \<Rightarrow> False | Some v \<Rightarrow> code_moved e (vSHA v));
                         s' = void_review \<lparr>rvdAt = eStamp e, rvdRun = rrDetachedID run, rvdVerdict = verdict,
                                           rvdViolations = violations\<rparr> moved s
                     in (case saveAndCommit (eSave e 5) cid s' w of
                           (Some er, w1) \<Rightarrow> (Inl er, w1)
                         | (None, w1) \<Rightarrow> (Inr (out\<lparr>roVoided := True, roStatus := stStatus s'\<rparr>), w1))))"

text \<open>\<open>ReverifyStaleReview\<close>: the verify before a stale review is made again; \<open>None\<close> where there is nothing to do.\<close>

definition ReverifyStaleReview :: "pure_lib \<Rightarrow> env \<Rightarrow> string \<Rightarrow> world \<Rightarrow> verifyResult option \<times> apex_error option \<times> world" where
  "ReverifyStaleReview L e cid w = (case requireChange w cid of
      Inl er \<Rightarrow> (None, Some er, w)
    | Inr (c, s) \<Rightarrow>
        if stStatus s \<noteq> Reviewed \<or> \<not> reviewStale e s then (None, None, w)
        else (case Verify L e cid w of
                (Some r, None, w1) \<Rightarrow> (Some r, when_err (\<not> vrGreen r) (fail ''verify.red''), w1)
              | x \<Rightarrow> x))"

text \<open>\<open>PrepareReviewRun\<close>: what refuses a review session; \<open>nested\<close> is a session that is itself a review.\<close>

definition PrepareReviewRun :: "pure_lib \<Rightarrow> env \<Rightarrow> bool \<Rightarrow> string \<Rightarrow> world \<Rightarrow> apex_error + (change \<times> state)" where
  "PrepareReviewRun L e nested cid w =
     (if nested then Inl (UsageError ''review.nested'')
      else case requireChange w cid of
             Inl er \<Rightarrow> Inl er
           | Inr (c, s) \<Rightarrow>
               (case first_err
                  [when_err (stStatus s \<noteq> Verified) (fail ''change.wrong-status''), eOnBranch e, checkPlanFrozen (plSha256 L) s c,
                   (case stVerify s of
                      None \<Rightarrow> Some (fail ''verify.missing'')
                    | Some v \<Rightarrow> if \<not> vGreen v then Some (fail ''verify.missing'')
                                else when_err (code_moved e (vSHA v)) (fail ''verify.stale''))] of
                  Some er \<Rightarrow> Inl er
                | None \<Rightarrow> Inr (c, s)))"

section \<open>A delegate's fail\<close>

record delegateRun =
  drTask :: string
  drFolder :: string

record delegateVerdict =
  dvRun :: string
  dvReason :: string
  dvDefects :: "string list"

datatype to_person = ToPersonNoDefect | ToPersonSecondFail | ToPersonArchived | ToPersonNotReviewed

record delegateOutcome =
  doDefects :: "string list"
  doDefectsOutside :: "string list"
  doReturned :: "delegateReturn option"
  doToPerson :: "to_person option"
  doReturns :: "delegateReturn list"

definition no_outcome :: delegateOutcome where
  "no_outcome = \<lparr>doDefects = [], doDefectsOutside = [], doReturned = None, doToPerson = None, doReturns = []\<rparr>"

text \<open>The last stamp a person answered the change or accepted the task at; empty when there is none.\<close>

definition last_reset :: "state \<Rightarrow> string \<Rightarrow> string" where
  "last_reset s task =
     foldl (\<lambda>reset a. if acTask a = task \<and> \<not> HasPrefix (acBy a) ''delegate:'' \<and> reset < acAt a then acAt a else reset)
       (case stAnswer s of None \<Rightarrow> [] | Some a \<Rightarrow> anAt a) (stAccepted s)"

definition returnsSinceReset :: "state \<Rightarrow> string \<Rightarrow> delegateReturn list" where
  "returnsSinceReset s task =
     filter (\<lambda>r. last_reset s task = [] \<or> last_reset s task < dtAt r) (stDelegateReturns s task)"

text \<open>\<open>touched\<close> is \<open>changeTouched\<close>: the files of the change's own diff, or its error.\<close>

definition settleDelegateFail ::
  "env \<Rightarrow> trace \<Rightarrow> string \<Rightarrow> (apex_error + string list) \<Rightarrow> delegateRun \<Rightarrow> delegateVerdict \<Rightarrow> world
     \<Rightarrow> (apex_error + delegateOutcome) \<times> world" where
  "settleDelegateFail e tr cid touched run v w =
     (if HasPrefix (drFolder run) (trArchiveRel tr @ ''/'') then (Inr (no_outcome\<lparr>doToPerson := Some ToPersonArchived\<rparr>), w)
      else case eRecover e of
             Some er \<Rightarrow> (Inl er, w)
           | None \<Rightarrow>
               (case requireChange w cid of
                  Inl er \<Rightarrow> (if er = fail ''change.archived'' then Inr (no_outcome\<lparr>doToPerson := Some ToPersonArchived\<rparr>) else Inl er, w)
                | Inr (c, s) \<Rightarrow>
                    (case (if dvDefects v = [] then Inr [] else touched) of
                       Inl er \<Rightarrow> (Inl er, w)
                     | Inr files \<Rightarrow>
                         let out = no_outcome\<lparr>doDefects := filter (\<lambda>d. d \<in> set files) (dvDefects v),
                                              doDefectsOutside := filter (\<lambda>d. d \<notin> set files) (dvDefects v)\<rparr>;
                             prior = returnsSinceReset (withBaseAccepted (wGit w) (wBaseAccepted w cid) s) (drTask run)
                         in if prior \<noteq> [] then (Inr (out\<lparr>doToPerson := Some ToPersonSecondFail, doReturns := prior\<rparr>), w)
                            else if doDefects out = [] then (Inr (out\<lparr>doToPerson := Some ToPersonNoDefect\<rparr>), w)
                            else if stStatus s \<noteq> Reviewed then (Inr (out\<lparr>doToPerson := Some ToPersonNotReviewed\<rparr>), w)
                            else let ret = \<lparr>dtRun = dvRun v, dtReason = dvReason v, dtDefects = doDefects out, dtAt = eStamp e\<rparr>
                                 in (case saveAndCommit (eSave e 5) cid (returned_state (drTask run) ret s) w of
                                       (Some er, w1) \<Rightarrow> (Inl er, w1)
                                     | (None, w1) \<Rightarrow> (Inr (out\<lparr>doReturned := Some ret\<rparr>), w1)))))"

end
