(* ===== verification/LifecycleInv.thy ===== *)
theory LifecycleInv
  imports ReviewRun
begin

text \<open>
  Invariants of the recorded states. The locale \<open>state_invariant\<close> is the contract between a
  predicate on one change's state and the commands: one law per state transformer of
  \<open>ChangePlan\<close>, under the conditions the commands establish before they apply it. Inside it, every
  command is shown to keep the predicate for every change; the interpretations give the evidence
  behind a status, the bound on re-plans and the frozen plan.
\<close>

section \<open>Records read and written\<close>

lemma requireChange_Inr:
  assumes "requireChange w cid = Inr (c, s)"
  shows "cid \<in> set (wIDs w)" "wStates w cid = Some s" "wDocs w cid = Some c"
  using assms by (auto simp: requireChange_def split: if_splits option.splits)

lemma put_state_sel [simp]:
  "wStates (put_state cid s w) = (wStates w)(cid := Some s)" "wLimits (put_state cid s w) = wLimits w"
  "wDocs (put_state cid s w) = wDocs w" "wIDs (put_state cid s w) = wIDs w" "wArchived (put_state cid s w) = wArchived w"
  "wAttempts (put_state cid s w) = wAttempts w" "wBlocks (put_state cid s w) = wBlocks w" "wGit (put_state cid s w) = wGit w"
  "wSpecs (put_state cid s w) = wSpecs w" "wBaseAccepted (put_state cid s w) = wBaseAccepted w"
  by (simp_all add: put_state_def)

datatype command = CStart | CVerify | CReview string | CBlock string | CAnswer string string | CAccept acceptRec
  | CApprove string | CArchive bool | CAbandon string | CReverify | CSettleReview trace reviewRun
  | CDelegateFail trace "apex_error + string list" delegateRun delegateVerdict

text \<open>The world after a command, whatever it returned.\<close>

fun exec :: "pure_lib \<Rightarrow> command \<Rightarrow> env \<Rightarrow> string \<Rightarrow> world \<Rightarrow> world" where
  "exec L CStart e cid w = snd (Start L e cid w)"
| "exec L CVerify e cid w = snd (snd (Verify L e cid w))"
| "exec L (CReview verdict) e cid w = snd (Review e cid verdict w)"
| "exec L (CBlock reason) e cid w = snd (Block e cid reason w)"
| "exec L (CAnswer txt by) e cid w = snd (AnswerChange e cid txt by w)"
| "exec L (CAccept a) e cid w = snd (accept e cid a w)"
| "exec L (CApprove by) e cid w = snd (ApproveTweak L e cid by w)"
| "exec L (CArchive allow) e cid w = snd (Archive L e cid allow w)"
| "exec L (CAbandon reason) e cid w = snd (Abandon e cid reason w)"
| "exec L CReverify e cid w = snd (snd (ReverifyStaleReview L e cid w))"
| "exec L (CSettleReview tr run) e cid w = snd (SettleReviewRun e tr cid run w)"
| "exec L (CDelegateFail tr touched run v) e cid w = snd (settleDelegateFail e tr cid touched run v w)"

definition has_green :: "state \<Rightarrow> bool" where
  "has_green s \<longleftrightarrow> (\<exists>v. stVerify s = Some v \<and> vGreen v \<and> all_green (vResults v))"

text \<open>A recorded verify says what its results say.\<close>

definition honest_verify :: "state \<Rightarrow> bool" where
  "honest_verify s \<longleftrightarrow> (\<forall>v. stVerify s = Some v \<longrightarrow> vGreen v = all_green (vResults v))"

section \<open>What a catch-up leaves\<close>

lemma saveAndCommit_None:
  assumes "saveAndCommit sc cid s w = (None, w')"
  shows "w' = put_state cid s w"
  using assms by (cases sc) (auto simp: saveAndCommit_def split: if_splits)

lemma catch_up_status_active: "st \<in> {InProgress, Verified, Reviewed} \<Longrightarrow> catch_up_status a st \<in> {InProgress, Verified, Reviewed}"
  by (auto simp: catch_up_status_def)

lemma put_put [simp]: "put_state cid s' (put_state cid s w) = put_state cid s' w"
  by (simp add: put_state_def)

text \<open>What a catch-up that succeeds does to the state: the evidence is marked stale, all else a command decides by is kept.\<close>

definition caught :: "bool \<Rightarrow> state \<Rightarrow> state \<Rightarrow> bool" where
  "caught inArchive s s' \<longleftrightarrow> stStatus s' = catch_up_status inArchive (stStatus s) \<and> stReview s' = stReview s
     \<and> stAccepted s' = stAccepted s \<and> stBaseBranch s' = stBaseBranch s \<and> stPlanDigest s' = stPlanDigest s
     \<and> stBaseFingerprints s' = stBaseFingerprints s \<and> stReplans s' = stReplans s \<and> stAnswer s' = stAnswer s
     \<and> stApproved s' = stApproved s \<and> (\<forall>v. stVerify s' = Some v \<longrightarrow> vStale v)"

lemma caught_record: "cuConflicts cu = [] \<Longrightarrow> caught inArchive s (recordCatchUp cu head at names inArchive s)"
  by (auto simp: caught_def recordCatchUp_def stale_verify_def)

lemma caught_net_diff:
  "caught inArchive s (applied_net_diff head' (stStatus s) b inArchive (recordCatchUp cu head at names inArchive s))"
  by (auto simp: caught_def recordCatchUp_def stale_verify_def applied_net_diff_def)

lemma layOut_None:
  assumes "layOutConflict e mv inArchive cid cu s w = (None, w')"
  shows "\<exists>s'. w' = put_state cid s' w \<and> caught inArchive s s'"
  using assms
  by (auto simp: layOutConflict_def commitAppliedNetDiff_def Let_def caught_net_diff
      dest!: saveAndCommit_None split: option.splits if_splits prod.splits)

text \<open>The specs a change's branch has once it caught up with its base: those of the branch, or those left by the rebase.\<close>

definition branch_specs :: "env \<Rightarrow> state \<Rightarrow> world \<Rightarrow> project" where
  "branch_specs e s w = (case (if wGit w \<and> stBaseBranch s \<noteq> [] then eBase e else None) of None \<Rightarrow> wSpecs w | Some mv \<Rightarrow> mvSpecs mv)"

lemma catchUp_None:
  assumes "catchUp e isStart inArchive cid c s w = (None, cu, w')"
  shows "(w' = w \<and> branch_specs e s w = wSpecs w) \<or> (\<exists>s'. w' = put_state cid s' (w\<lparr>wSpecs := branch_specs e s w\<rparr>) \<and> caught inArchive s s')"
proof (cases "if wGit w \<and> stBaseBranch s \<noteq> [] then eBase e else None")
  case None
  then show ?thesis using assms unfolding catchUp_def by (simp add: branch_specs_def)
next
  case (Some mv)
  have "caught inArchive s (recordCatchUp (caught_up_checks e mv c s) head at names inArchive s)" for head at names
    by (rule caught_record) (simp add: caught_up_checks_def)
  then show ?thesis
    using assms unfolding catchUp_def Let_def Some branch_specs_def
    by (auto dest!: saveAndCommit_None layOut_None split: option.splits if_splits prod.splits)
qed

lemma catchUp_split:
  "fst (catchUp e isStart inArchive cid c s w) = er \<Longrightarrow> catchUp e isStart inArchive cid c s w =
     (er, fst (snd (catchUp e isStart inArchive cid c s w)), snd (snd (catchUp e isStart inArchive cid c s w)))"
  by (simp add: prod_eq_iff)

lemma catchUp_change:
  assumes "catchUp e isStart inArchive cid c s w = (None, cu, w')" "requireChange w cid = Inr (c, s)"
  shows "\<exists>s'. requireChange w' cid = Inr (c, s') \<and> (s' = s \<or> caught inArchive s s')"
  using catchUp_None[OF assms(1)] requireChange_Inr[OF assms(2)] assms(2)
  by (auto simp: requireChange_def split: if_splits)

lemma caught_active: "caught inArchive s s' \<Longrightarrow> Active s \<Longrightarrow> Active s'"
  by (auto simp: caught_def Active_def catch_up_status_def)

section \<open>What verify and archive leave\<close>

lemma verify_result_green: "vrGreen (verify_result e w cid c s) = all_green (vrResults (verify_result e w cid c s))"
  by (simp add: verify_result_def split_beta)

lemma redAttempt_not_green: "redAttempt e cid c s r w = (Some r', er, w') \<Longrightarrow> vrGreen r' = vrGreen r"
  by (auto simp: redAttempt_def redBlock_def Let_def split: option.splits prod.splits if_splits)

text \<open>A verify that reports green and no error recorded exactly one state, with this green verify.\<close>

lemma verify_green:
  assumes "verify e keep cid c s w = (Some r, None, w')" "vrGreen r"
  shows "\<exists>moved n. w' = put_state cid (green_verify (verify_record e (verify_result e w cid c s) True n) moved keep s) w
    \<and> all_green (vrResults (verify_result e w cid c s))"
proof -
  have "vrGreen (verify_result e w cid c s)"
    using assms redAttempt_not_green by (fastforce simp: verify_def Let_def split: option.splits if_splits)
  then show ?thesis
    using assms(1) verify_result_green[of e w cid c s]
    by (auto simp: verify_def Let_def dest!: saveAndCommit_None split: option.splits prod.splits)
qed

definition fresh_verify :: "state \<Rightarrow> bool" where
  "fresh_verify s \<longleftrightarrow> (\<exists>v. stVerify s = Some v \<and> \<not> vStale v)"

text \<open>What archive carries from its first tests to the squash.\<close>

definition same_review :: "state \<Rightarrow> state \<Rightarrow> bool" where
  "same_review s s' \<longleftrightarrow> stStatus s' = stStatus s \<and> stReview s' = stReview s \<and> stAccepted s' = stAccepted s
     \<and> stBaseBranch s' = stBaseBranch s \<and> stPlanDigest s' = stPlanDigest s \<and> stBaseFingerprints s' = stBaseFingerprints s"

lemma archiveFresh_None:
  assumes "archiveFresh e cid c s w = (None, w')" "stStatus s = Reviewed" "review_passed s" "wStates w cid = Some s"
  shows "\<exists>s'. w' = put_state cid s' w \<and> same_review s s' \<and> fresh_verify s'"
proof (cases "verify_fresh e s")
  case True
  then have "w' = put_state cid s w" using assms(1,4) by (simp add: archiveFresh_def put_state_def fun_upd_idem)
  moreover have "fresh_verify s" using True by (auto simp: verify_fresh_def fresh_verify_def split: option.splits)
  ultimately show ?thesis by (auto simp: same_review_def)
next
  case False
  then obtain r where "verify e True cid c s w = (Some r, None, w')" "vrGreen r"
    using assms(1) by (auto simp: archiveFresh_def when_err_def split: prod.splits option.splits if_splits)
  from verify_green[OF this] show ?thesis
    using assms(2,3) by (fastforce simp: green_verify_def verify_record_def same_review_def fresh_verify_def)
qed

lemma caught_same_review: "caught True s s' \<Longrightarrow> same_review s s'"
  by (auto simp: caught_def same_review_def catch_up_status_def)

lemma pending_same:
  "same_review s s' \<Longrightarrow> wGit w' = wGit w \<Longrightarrow> wBaseAccepted w' = wBaseAccepted w
     \<Longrightarrow> pending_tasks w' cid c s' = pending_tasks w cid c s"
  by (auto simp: pending_tasks_def PendingHuman_def withBaseAccepted_def same_review_def)

lemma set_entry_in:
  "(i, d, s') \<in> set (set_entry cid s xs) \<Longrightarrow> (i, d, s') \<in> set xs \<or> (i = cid \<and> s' = s \<and> (\<exists>s0. map_of xs cid = Some (d, s0)))"
  by (induction cid s xs rule: set_entry.induct) (auto split: if_splits)

text \<open>The record a squash moves to the archive.\<close>

definition squashed :: "env \<Rightarrow> world \<Rightarrow> string \<Rightarrow> change \<Rightarrow> state \<Rightarrow> state" where
  "squashed e w cid c s = archived_state e cid (pending_tasks w cid c s) (accepted_state w cid c s)"

section \<open>The contract\<close>

definition states_ok :: "limits \<Rightarrow> (string \<Rightarrow> state \<Rightarrow> bool) \<Rightarrow> (string \<Rightarrow> change option \<Rightarrow> state \<Rightarrow> bool) \<Rightarrow> world \<Rightarrow> bool" where
  "states_ok lim P Q w \<longleftrightarrow> wLimits w = lim \<and> (\<forall>i s. wStates w i = Some s \<longrightarrow> P i s)
     \<and> (\<forall>(i, d, s)\<in>set (wArchived w). Q i d s)"

text \<open>
  The worlds a project goes through: a command runs, whatever it returns; a change is created; and what
  commands do not write happens between them (a document is edited, a branch switched, a milestone
  approved, the configuration changed, the untracked attempts file lost). The loop limits are fixed.
\<close>

text \<open>\<open>N\<close> holds the changes that may be created, \<open>S\<close> those that may be started; a project's life is the case of all of them.\<close>

inductive step :: "pure_lib \<Rightarrow> string set \<Rightarrow> string set \<Rightarrow> world \<Rightarrow> world \<Rightarrow> bool" for L N S where
  command: "(cmd = CStart \<Longrightarrow> cid \<in> S) \<Longrightarrow> step L N S w (exec L cmd e cid w)"
| new_change: "cid \<in> N \<Longrightarrow> cid \<notin> set (wIDs w) \<Longrightarrow> step L N S w (w\<lparr>wIDs := wIDs w @ [cid], wDocs := (wDocs w)(cid := Some d),
     wStates := (wStates w)(cid := Some (new_state cid))\<rparr>)"
| edit_doc: "step L N S w (w\<lparr>wDocs := (wDocs w)(cid := Some d)\<rparr>)"
| edit_specs: "step L N S w (w\<lparr>wSpecs := p\<rparr>)"
| milestones: "step L N S w (w\<lparr>wMilestone := m, wBlocks := b\<rparr>)"
| config: "step L N S w (w\<lparr>wCaps := k, wRegressionCmd := r, wMilestoneRegressionCmd := r', wRedAtGate := g\<rparr>)"
| lose_attempts: "step L N S w (w\<lparr>wAttempts := a\<rparr>)"

inductive steps :: "pure_lib \<Rightarrow> string set \<Rightarrow> string set \<Rightarrow> world \<Rightarrow> world \<Rightarrow> bool" for L N S w where
  none: "steps L N S w w"
| more: "steps L N S w w' \<Longrightarrow> step L N S w' w'' \<Longrightarrow> steps L N S w w''"

inductive reachable :: "pure_lib \<Rightarrow> limits \<Rightarrow> world \<Rightarrow> bool" for L lim where
  init: "wStates w = (\<lambda>_. None) \<Longrightarrow> wArchived w = [] \<Longrightarrow> wLimits w = lim \<Longrightarrow> reachable L lim w"
| more: "reachable L lim w \<Longrightarrow> step L UNIV UNIV w w' \<Longrightarrow> reachable L lim w'"

locale state_invariant =
  fixes L :: pure_lib and lim :: limits and N S :: "string set" and P :: "string \<Rightarrow> state \<Rightarrow> bool"
    and Q :: "string \<Rightarrow> change option \<Rightarrow> state \<Rightarrow> bool"
  assumes fresh: "i \<in> N \<Longrightarrow> P i (new_state i)"
    and block: "P i s \<Longrightarrow> P i (block_state reason s)"
    and reblock: "P i s \<Longrightarrow> stStatus s = Blocked \<Longrightarrow> P i (s\<lparr>stBlockedReason := Some reason\<rparr>)"
    and red: "P i s \<Longrightarrow> Active s \<Longrightarrow> \<not> vGreen v \<Longrightarrow> \<not> all_green (vResults v) \<Longrightarrow>
        P i (back_to_progress v s) \<and> P i (block_state reason (red_verify v s))"
    and green: "P i s \<Longrightarrow> Active s \<Longrightarrow> vGreen v \<Longrightarrow> all_green (vResults v) \<Longrightarrow> \<not> vStale v \<Longrightarrow> P i (green_verify v moved keep s)"
    and review: "P i s \<Longrightarrow> stStatus s \<in> {Verified, Reviewed} \<Longrightarrow> (rwVerdict r = ''pass'' \<Longrightarrow> \<exists>v. stVerify s = Some v \<and> vGreen v)
        \<Longrightarrow> P i (review_state r s)"
    and void: "P i s \<Longrightarrow> P i (void_review vd moved s)"
    and return: "P i s \<Longrightarrow> stStatus s = Reviewed \<Longrightarrow> P i (returned_state task ret s)"
    and answer: "P i s \<Longrightarrow> stStatus s = Blocked \<Longrightarrow> P i (answer_state by at txt s)"
    and acceptance: "P i s \<Longrightarrow> P i (withAcceptance s c rec)"
    and approve: "P i s \<Longrightarrow> P i (s\<lparr>stApproved := a\<rparr>)"
    and catch_up: "P i s \<Longrightarrow> stBaseBranch s \<noteq> [] \<Longrightarrow> (inArchive \<Longrightarrow> stStatus s = Reviewed) \<Longrightarrow>
        P i (recordCatchUp cu head at names inArchive s)"
    and conflicts: "P i s \<Longrightarrow> P i (set_last_conflicts fs s)"
    and net_diff: "P i s \<Longrightarrow> stBaseBranch s \<noteq> [] \<Longrightarrow> (inArchive \<Longrightarrow> stStatus s = Reviewed) \<Longrightarrow>
        P i (applied_net_diff head' (stStatus s) (stBlockedReason s) inArchive (recordCatchUp cu head at names inArchive s))"
    and start: "i \<in> S \<Longrightarrow> P i s \<Longrightarrow> wLimits w = lim \<Longrightarrow> start_kind L w c s = Inr (replan, rebase) \<Longrightarrow>
        (replan \<Longrightarrow> int (replansSinceAnswer s + 1) \<le> ReplansCap lim) \<Longrightarrow>
        P i (start_record L e w i c (start_base L e c replan rebase enter s))"
    and squash: "P i s \<Longrightarrow> stStatus s = Reviewed \<Longrightarrow> review_passed s \<Longrightarrow> fresh_verify s \<Longrightarrow> checkPlanFrozen (plSha256 L) s c = None
        \<Longrightarrow> Q i (Some c) (squashed e w i c s)"
    and abandon: "P i s \<Longrightarrow> Q i (Some c) (abandoned_state e i reason s)"
    and moved: "P i s \<Longrightarrow> Q i (Some c) s"
    and accept_archived: "Q i (Some c) s \<Longrightarrow> stStatus s = Archived \<Longrightarrow> Q i (Some c) (withAcceptance s c rec)"
begin

abbreviation ok :: "world \<Rightarrow> bool" where
  "ok \<equiv> states_ok lim P Q"

lemmas ok_def = states_ok_def

lemma ok_state: "ok w \<Longrightarrow> wStates w cid = Some s \<Longrightarrow> P cid s"
  by (simp add: ok_def)

lemma ok_change: "ok w \<Longrightarrow> requireChange w cid = Inr (c, s) \<Longrightarrow> P cid s"
  by (auto simp: ok_def dest: requireChange_Inr)

lemma ok_put: "ok w \<Longrightarrow> P cid s \<Longrightarrow> ok (put_state cid s w)"
  by (simp add: ok_def)

lemma ok_specs [simp]: "ok (w\<lparr>wSpecs := p\<rparr>) = ok w"
  by (simp add: ok_def)

lemma ok_save: "ok w \<Longrightarrow> P cid s \<Longrightarrow> ok (snd (saveAndCommit sc cid s w))"
  by (cases sc) (simp_all add: saveAndCommit_def ok_put)

lemma ok_attempts: "ok w \<Longrightarrow> ok (snd (updateAttempts e cid f w))"
  by (simp add: updateAttempts_def put_attempts_def ok_def split: option.split)

lemma ok_note: "ok w \<Longrightarrow> ok (snd (noteBlocked e c w))"
  by (simp add: noteBlocked_def ok_def split: option.split)

lemma ok_block: "ok w \<Longrightarrow> P cid s \<Longrightarrow> ok (snd (blockAndCount e k cid c s reason w))"
  by (simp add: blockAndCount_def split_beta ok_save ok_note block split: option.split)

lemma ok_layOut:
  assumes "ok w" "P cid s" "stBaseBranch s \<noteq> []" "inArchive \<Longrightarrow> stStatus s = Reviewed"
  shows "ok (snd (layOutConflict e mv inArchive cid cu s w))"
  using assms
  by (simp add: layOutConflict_def commitAppliedNetDiff_def Let_def split_beta ok_save catch_up conflicts net_diff split: option.split)

lemma ok_catchUp:
  assumes "ok w" "P cid s" "inArchive \<Longrightarrow> stStatus s = Reviewed"
  shows "ok (snd (snd (catchUp e isStart inArchive cid c s w)))"
  using assms by (simp add: catchUp_def Let_def split_beta ok_save ok_layOut catch_up split: option.split)

lemma ok_start_write:
  assumes "ok w" "P cid (start_record L e w cid c s)"
  shows "ok (snd (start_write L e cid c s w))"
  using assms by (simp add: start_write_def split_beta ok_save ok_attempts split: option.split)

lemma ok_start:
  assumes "ok w" "cid \<in> S"
  shows "ok (snd (snd (start L e enter cid w)))"
proof -
  have lim: "wLimits w = lim" using assms by (simp add: ok_def)
  have "ok (snd (start_write L e cid c (start_base L e c replan rebase enter s) w))"
    if "requireChange w cid = Inr (c, s)" "start_kind L w c s = Inr (replan, rebase)"
      "\<not> (replan \<and> int (replansSinceAnswer s + 1) > ReplansCap (wLimits w))" for c s replan rebase
    using that lim assms(2) ok_change[OF assms(1) that(1)] by (intro ok_start_write[OF assms(1)] start) auto
  then show ?thesis
    using assms by (auto simp: start_def split_beta ok_block ok_change split: option.split sum.split prod.split)
qed

lemma ok_reenter:
  assumes "ok w" "cid \<in> S"
  shows "ok (snd (reenter L e switched cid w))"
proof -
  have "ok (snd (snd (catchUp e True False cid c s w)))" if "requireChange w cid = Inr (c, s)" for c s
    using assms(1) ok_change[OF assms(1) that] by (intro ok_catchUp) auto
  then show ?thesis
    using assms by (auto simp: reenter_def split_beta ok_start split: option.split sum.split)
qed

lemma ok_rollback: "ok w \<Longrightarrow> ok w' \<Longrightarrow> ok (rollback e w w')"
  by (simp add: ok_def rollback_def)

lemma ok_Start:
  assumes "ok w" "cid \<in> S"
  shows "ok (snd (Start L e cid w))"
  using assms by (simp add: Start_def split_beta ok_start ok_reenter ok_rollback split: option.split branch_case.split)

lemma red_record: "\<not> vrGreen r \<Longrightarrow> vrGreen r = all_green (vrResults r) \<Longrightarrow>
    \<not> vGreen (verify_record e r False n) \<and> \<not> all_green (vResults (verify_record e r False n))"
  by (simp add: verify_record_def)

lemma ok_redBlock:
  assumes "ok w" "P cid s" "Active s" "\<not> vrGreen r" "vrGreen r = all_green (vrResults r)"
  shows "ok (snd (snd (redBlock e cid c s r what fe w)))"
proof -
  have "P cid (block_state reason (red_verify (verify_record e r False 0) s))" for reason
    using red[OF assms(2,3)] red_record[OF assms(4,5)] by blast
  then show ?thesis
    using assms(1) by (auto simp: redBlock_def blockAndCount_def split_beta ok_save ok_note split: option.split)
qed

lemma ok_redAttempt:
  assumes "ok w" "P cid s" "Active s" "\<not> vrGreen r" "vrGreen r = all_green (vrResults r)"
  shows "ok (snd (snd (redAttempt e cid c s r w)))"
proof -
  let ?r = "\<lambda>i j. r\<lparr>vrAttempts := i, vrAttemptsTotal := j, vrAttemptsCap := AttemptsCap (wLimits w)\<rparr>"
  have a: "ok (snd (updateAttempts e cid count_red w))" using assms(1) by (rule ok_attempts)
  have b: "P cid (back_to_progress (verify_record e (?r i j) False 0) s)" for i j
    using red[OF assms(2,3)] red_record[of "?r i j"] assms(4,5) by simp
  have c: "ok (snd (snd (redBlock e cid c s (?r i j) what fe w1)))" if "ok w1" for what fe w1 i j
    using ok_redBlock[OF that assms(2,3)] assms(4,5) by simp
  show ?thesis
    using ok_save[OF a b] c[OF a] a by (auto simp: redAttempt_def Let_def split_beta split: option.split)
qed

lemma ok_verify:
  assumes "ok w" "P cid s" "Active s"
  shows "ok (snd (snd (verify e keep cid c s w)))"
proof -
  let ?r = "verify_result e w cid c s"
  have "P cid (green_verify (verify_record e ?r True n) moved keep s)" if "vrGreen ?r" for moved n
    using green[OF assms(2,3)] that verify_result_green[of e w cid c s] by (simp add: verify_record_def)
  moreover have "ok (snd (snd (redAttempt e cid c s ?r w)))" if "\<not> vrGreen ?r"
    using ok_redAttempt[OF assms that verify_result_green] .
  ultimately show ?thesis
    using assms(1) by (auto simp: verify_def Let_def split_beta ok_save split: option.split)
qed

lemma ok_archiveFresh:
  assumes "ok w" "P cid s" "Active s"
  shows "ok (snd (archiveFresh e cid c s w))"
proof -
  have "ok (snd (snd (verify e True cid c s w)))" using assms by (rule ok_verify)
  then show ?thesis
    using assms(1) by (auto simp: archiveFresh_def split: prod.split option.split)
qed

lemma ok_Verify:
  assumes "ok w"
  shows "ok (snd (snd (Verify L e cid w)))"
proof -
  have a: "ok (snd (snd (catchUp e False False cid c s w)))" if "requireChange w cid = Inr (c, s)" for c s
    using assms ok_change[OF assms that] by (intro ok_catchUp) auto
  have b: "ok (snd (snd (verify e False cid c1 s1 (snd (snd (catchUp e False False cid c s w))))))"
    if "requireChange w cid = Inr (c, s)" "verify_refusal L e c s = None" "fst (catchUp e False False cid c s w) = None"
      "requireChange (snd (snd (catchUp e False False cid c s w))) cid = Inr (c1, s1)" for c s c1 s1
  proof (rule ok_verify)
    show "ok (snd (snd (catchUp e False False cid c s w)))" using a that(1) by blast
    then show "P cid s1" using that(4) by (rule ok_change)
    have "Active s" using that(2) by (simp add: verify_refusal_def Active_def)
    then show "Active s1"
      using catchUp_change[OF catchUp_split[OF that(3)] that(1)] that(4) caught_active by auto
  qed
  show ?thesis
    using assms a b by (auto simp: Verify_def split_beta split: option.split sum.split)
qed

lemma ok_Review:
  assumes "ok w"
  shows "ok (snd (Review e cid verdict w))"
proof -
  have "P cid (review_state r s)" if "requireChange w cid = Inr (c, s)" "review_refusal e verdict s = None" "rwVerdict r = verdict" for c s r
    using that ok_change[OF assms that(1)]
    by (intro review) (auto simp: review_refusal_def split: option.splits if_splits)
  then show ?thesis
    using assms by (auto simp: Review_def Let_def split_beta ok_save split: option.split sum.split)
qed

lemma ok_Block:
  assumes "ok w"
  shows "ok (snd (Block e cid reason w))"
proof -
  have "P cid s" if "requireChange w cid = Inr (c, s)" for c s using ok_change[OF assms that] .
  then show ?thesis
    using assms by (auto simp: Block_def ok_save ok_block reblock split: option.split sum.split)
qed

lemma ok_Answer:
  assumes "ok w"
  shows "ok (snd (AnswerChange e cid txt by w))"
proof -
  have "P cid s" if "requireChange w cid = Inr (c, s)" for c s using ok_change[OF assms that] .
  then show ?thesis
    using assms by (auto simp: AnswerChange_def split_beta ok_save ok_attempts answer split: option.split sum.split)
qed

lemma ok_archived: "ok w \<Longrightarrow> map_of (wArchived w) cid = Some (d, s) \<Longrightarrow> Q cid d s"
  by (auto simp: ok_def dest!: map_of_SomeD)

lemma ok_acceptArchived:
  assumes "ok w"
  shows "ok (snd (acceptArchived e cid rec w))"
proof -
  have "ok (set_archived cid (withAcceptance s c rec) w)"
    if "map_of (wArchived w) cid = Some (Some c, s)" "stStatus s = Archived" for c s
  proof -
    have "Q i d s'" if "(i, d, s') \<in> set (set_entry cid (withAcceptance s c rec) (wArchived w))" for i d s'
      using set_entry_in[OF that] \<open>map_of (wArchived w) cid = _\<close> accept_archived[OF ok_archived[OF assms]] assms that
        \<open>stStatus s = Archived\<close> by (auto simp: ok_def)
    then show ?thesis using assms by (auto simp: ok_def set_archived_def)
  qed
  then show ?thesis
    using assms by (auto simp: acceptArchived_def split: option.split save_case.split)
qed

lemma ok_accept:
  assumes "ok w"
  shows "ok (snd (accept e cid a w))"
proof -
  have "P cid s" if "requireChange w cid = Inr (c, s)" for c s using ok_change[OF assms that] .
  moreover have "ok (snd (acceptOnBase e cid s rec w))" for s rec
    using assms by (auto simp: acceptOnBase_def ok_def split: option.split)
  ultimately show ?thesis
    using assms by (auto simp: accept_def Let_def ok_save ok_acceptArchived acceptance split: option.split sum.split)
qed

lemma ok_Approve:
  assumes "ok w"
  shows "ok (snd (ApproveTweak L e cid by w))"
proof -
  have "P cid s" if "requireChange w cid = Inr (c, s)" for c s using ok_change[OF assms that] .
  then show ?thesis
    using assms by (auto simp: ApproveTweak_def Let_def ok_save approve split: option.split sum.split)
qed

lemma ok_move: "ok w \<Longrightarrow> Q cid (Some c) s \<Longrightarrow> ok (move_to_archive cid c s w)"
  by (auto simp: move_to_archive_def ok_def)

lemma ok_squash:
  assumes "ok w" "Q cid (Some c) (archived_state e cid pending (accepted_state w cid c s))"
  shows "ok (snd (squashOntoBase e cid c s us pending w))"
proof -
  have "ok (move_to_archive cid c (archived_state e cid pending (accepted_state w cid c s)) (w\<lparr>wSpecs := p\<rparr>))" for p
    using assms by (intro ok_move) simp_all
  moreover have "ok (resetBlocks c w') = ok w'" for w' by (simp add: resetBlocks_def ok_def)
  ultimately show ?thesis using assms(1) by (simp add: squashOntoBase_def split: option.split)
qed

lemma ok_archive_on_branch:
  assumes "ok w" "requireChange w cid = Inr (c, s)" "stStatus s = Reviewed" "review_passed s"
    "checkPlanFrozen (plSha256 L) s c = None"
  shows "ok (snd (archive_on_branch L e (pending_tasks w cid c s) cid c s w))"
proof -
  let ?w1 = "snd (snd (catchUp e False True cid c s w))"
  have w1: "ok ?w1" using assms(1,3) ok_change[OF assms(1,2)] by (intro ok_catchUp) auto
  have s1: "c1 = c \<and> (s1 = s \<or> caught True s s1)" "Active s1"
    if "fst (catchUp e False True cid c s w) = None" "requireChange ?w1 cid = Inr (c1, s1)" for c1 s1
    using catchUp_change[OF catchUp_split[OF that(1)] assms(2)] that(2) assms(3) caught_active by (auto simp: Active_def)
  have w2: "ok (snd (archiveFresh e cid c1 s1 ?w1))"
    if "fst (catchUp e False True cid c s w) = None" "requireChange ?w1 cid = Inr (c1, s1)" for c1 s1
    using ok_archiveFresh[OF w1 ok_change[OF w1 that(2)] s1(2)[OF that]] .
  have sq: "Q cid (Some c2) (archived_state e cid (pending_tasks w cid c s) (accepted_state w2 cid c2 s2))"
    if "fst (catchUp e False True cid c s w) = None" "requireChange ?w1 cid = Inr (c1, s1)"
      "archiveFresh e cid c1 s1 ?w1 = (None, w2)" "requireChange w2 cid = Inr (c2, s2)" for c1 s1 c2 s2 w2
  proof -
    have r1: "c1 = c" "same_review s s1"
      using s1(1)[OF that(1,2)] caught_same_review[of s s1] by (auto simp: same_review_def)
    have "wGit ?w1 = wGit w" "wBaseAccepted ?w1 = wBaseAccepted w"
      using catchUp_None[OF catchUp_split[OF that(1)]] by auto
    note 1 = r1 pending_same[OF r1(2) this]
    have "review_passed s1" "stStatus s1 = Reviewed"
      using 1(2) assms(3,4) by (simp_all add: same_review_def review_passed_def)
    from archiveFresh_None[OF that(3) this(2,1) requireChange_Inr(2)[OF that(2)]]
    have r2: "c2 = c" "same_review s1 s2" "fresh_verify s2" "wGit w2 = wGit ?w1" "wBaseAccepted w2 = wBaseAccepted ?w1"
      using that(4) 1(1) requireChange_Inr[OF that(2)] requireChange_Inr[OF that(4)] by auto
    note 2 = r2(1-3) pending_same[OF r2(2,4,5)]
    have "stStatus s2 = Reviewed" "review_passed s2"
      using 1(2) 2(2) assms(3,4) by (simp_all add: same_review_def review_passed_def)
    moreover have "P cid s2" using ok_change[of w2 cid c2 s2] w2[OF that(1,2)] that(3,4) by simp
    moreover have "checkPlanFrozen (plSha256 L) s2 c = None"
      using 1(2) 2(2) assms(5) by (simp add: checkPlanFrozen_def same_review_def)
    ultimately show ?thesis using squash[of cid s2 c2 e w2] 1 2 by (simp add: squashed_def)
  qed
  have sq': "ok (snd (squashOntoBase e cid c2 s2 us (pending_tasks w cid c s) w2))"
    if "fst (catchUp e False True cid c s w) = None" "requireChange ?w1 cid = Inr (c1, s1)"
      "archiveFresh e cid c1 s1 ?w1 = (None, w2)" "requireChange w2 cid = Inr (c2, s2)" for c1 s1 c2 s2 w2 us
    using ok_squash[OF _ sq[OF that]] w2[OF that(1,2)] that(3) by simp
  show ?thesis
    using assms(1) w1 w2 sq'
    by (auto simp: archive_on_branch_def split: option.split sum.split prod.split)
qed

lemma ok_Archive:
  assumes "ok w"
  shows "ok (snd (Archive L e cid allow w))"
proof -
  have "ok (snd (archive_on_branch L e (pending_tasks w cid c s) cid c s w))"
    if "requireChange w cid = Inr (c, s)" "archivable L e w allow cid c s = None" for c s
    using that by (intro ok_archive_on_branch[OF assms]) (auto simp: archivable_def)
  then show ?thesis
    using assms by (auto simp: Archive_def split: option.split sum.split)
qed

lemma ok_Abandon:
  assumes "ok w"
  shows "ok (snd (Abandon e cid reason w))"
proof -
  have a: "ok (move_to_archive cid c (abandoned_state e cid r s) w)" and m: "ok (move_to_archive cid c s w)"
    and el: "ok (snd (abandonElsewhere e cid r c s w))" if "requireChange w cid = Inr (c, s)" for c s r
  proof -
    note s = ok_change[OF assms that]
    show m: "ok (move_to_archive cid c s w)" using ok_move[OF assms moved[OF s]] .
    show a: "ok (move_to_archive cid c (abandoned_state e cid r s) w)" for r using ok_move[OF assms abandon[OF s]] .
    show "ok (snd (abandonElsewhere e cid r c s w))" for r
      using assms a by (simp add: abandonElsewhere_def split: option.split)
  qed
  show ?thesis
    unfolding Abandon_def Let_def
    by (auto simp: assms a m el split: option.split sum.split save_case.split simp del: first_err.simps)
qed

lemma ok_Reverify:
  assumes "ok w"
  shows "ok (snd (snd (ReverifyStaleReview L e cid w)))"
proof -
  obtain r er w1 where v: "Verify L e cid w = (r, er, w1)" by (rule prod_cases3)
  then have "ok w1" using ok_Verify[OF assms, of e cid] by simp
  then show ?thesis using assms by (simp add: ReverifyStaleReview_def v split: sum.split option.split)
qed

lemma ok_SettleReview:
  assumes "ok w"
  shows "ok (snd (SettleReviewRun e tr cid run w))"
proof -
  have "P cid (void_review vd moved s)" if "requireChange w cid = Inr (c, s)" for vd moved c s
    using ok_change[OF assms that] by (rule void)
  then show ?thesis
    using assms by (auto simp: SettleReviewRun_def Let_def split_beta ok_save split: option.split sum.split)
qed

lemma ok_DelegateFail:
  assumes "ok w"
  shows "ok (snd (settleDelegateFail e tr cid touched run v w))"
proof -
  have "P cid (returned_state task ret s)" if "requireChange w cid = Inr (c, s)" "stStatus s = Reviewed" for c s task ret
    using ok_change[OF assms that(1)] that(2) by (rule return)
  then show ?thesis
    using assms by (auto simp: settleDelegateFail_def Let_def split_beta ok_save split: option.split sum.split)
qed

theorem ok_exec: "ok w \<Longrightarrow> (cmd = CStart \<Longrightarrow> cid \<in> S) \<Longrightarrow> ok (exec L cmd e cid w)"
  by (cases cmd) (simp_all add: ok_Start ok_Verify ok_Review ok_Block ok_Answer ok_accept ok_Approve ok_Archive ok_Abandon
      ok_Reverify ok_SettleReview ok_DelegateFail)

lemma ok_step: "step L N S w w' \<Longrightarrow> ok w \<Longrightarrow> ok w'"
  by (induction rule: step.induct) (simp_all add: ok_exec, auto simp: ok_def fresh)

theorem ok_steps: "steps L N S w w' \<Longrightarrow> ok w \<Longrightarrow> ok w'"
  by (induction rule: steps.induct) (auto simp: ok_step)

theorem ok_reachable: "N = UNIV \<Longrightarrow> S = UNIV \<Longrightarrow> reachable L lim w \<Longrightarrow> ok w"
  by (rotate_tac 2, induction rule: reachable.induct) (auto simp: ok_step, simp add: ok_def)

corollary reachable_state: "N = UNIV \<Longrightarrow> S = UNIV \<Longrightarrow> reachable L lim w \<Longrightarrow> wStates w cid = Some s \<Longrightarrow> P cid s"
  by (rule ok_state[OF ok_reachable])

corollary reachable_archived: "N = UNIV \<Longrightarrow> S = UNIV \<Longrightarrow> reachable L lim w \<Longrightarrow> (cid, d, s) \<in> set (wArchived w) \<Longrightarrow> Q cid d s"
  by (drule (2) ok_reachable) (auto simp: ok_def)

end

end
