(* ===== verification/Scenario.thy ===== *)
theory Scenario
  imports LifecycleInv
begin

text \<open>
  A concrete run of the lifecycle: one change with one command task, started, verified, reviewed and
  archived. The worlds it goes through are reachable and are what the witnesses of the lifecycle's
  properties evaluate.
\<close>

section \<open>Inputs\<close>

definition demo_lib :: pure_lib where
  "demo_lib = \<lparr>plSha256 = (\<lambda>x. ''h'' @ x), plLower = (\<lambda>x. x)\<rparr>"

definition demo_limits :: limits where
  "demo_limits = \<lparr>lmAttempts = None, lmAttemptsTotal = None, lmReplans = None, lmConsecutiveBlocks = None, lmRelays = None, lmBudget = []\<rparr>"

definition demo_change :: change where
  "demo_change = \<lparr>cMeta = empty_meta\<lparr>mID := ''c1'', mMilestone := ''M1''\<rparr>, cMetaErr = None, cTitle = ''T'', cH2 = [], cDeltaNone = ''x'',
     cDeltas = [], cTasks = [\<lparr>tID = ''T1'', tWhat = ''w'', tCheck = ''go test'', tRegression = False, tTool = [], tFull = False,
     tLive = False, tLine = 1\<rparr>], cUnknownKeys = [], cBadDocs = None, cParse = [], cFile = ''change.md'', cRaw = ''plan''\<rparr>"

definition demo_world :: world where
  "demo_world = \<lparr>wGit = True, wIDs = [], wDocs = (\<lambda>_. None), wStates = (\<lambda>_. None), wArchived = [],
     wAttempts = (\<lambda>_. zero_attempts), wBlocks = (\<lambda>_. 0), wMilestone = (\<lambda>_. None), wBaseAccepted = (\<lambda>_. []),
     wSpecs = \<lparr>pSpecDirs = [], pSpecFile = (\<lambda>_. None), pSpecPath = (\<lambda>c. c)\<rparr>, wLimits = demo_limits, wCaps = zero_caps,
     wRegressionCmd = [], wMilestoneRegressionCmd = [], wRedAtGate = {}\<rparr>"

definition demo_env :: env where
  "demo_env = \<lparr>eStamp = ''2026-01-01T00:00:00Z'', eHead = ''abc'', ePerson = None, eRecover = None, eBranch = Fresh ''main'',
     eSwitch = None, eReset = True, eBehind = None, eEnter = None, eOnBranch = None, eWritable = None, eCheckFindings = [], eDirty = None,
     eGateTouch = None, eUnresolved = [], eCodeMoved = (\<lambda>_. Some False),
     eExec = (\<lambda>k i pc. blank_result (pcCmd pc) (if k = run_verify then 0 else 1)), eCtxErr = (\<lambda>_ _. False),
     eInterrupted = (\<lambda>_. None), eFailing = (\<lambda>_. []), eDetail = (\<lambda>_. []), eDocsOnly = (False, [], []),
     eSave = (\<lambda>_. Saved), eAttemptsErr = None, eNoteErr = None, eBase = None, eFindingsFile = Some ''review.md'',
     eOffBranch = False, eHeadElsewhere = False, eBranchThere = True, eBaseThere = True, eBranchFree = None, eJournal = None, eSubject = None,
     eDest = ''archive/c1'', eTip = ''abc'', eDestThere = False, eSquash = None, ePost = None\<rparr>"

definition demo_draft :: world where
  "demo_draft = demo_world\<lparr>wIDs := [''c1''], wDocs := (\<lambda>_. None)(''c1'' := Some demo_change),
     wStates := (\<lambda>_. None)(''c1'' := Some (new_state ''c1''))\<rparr>"

definition demo_started :: world where "demo_started = exec demo_lib CStart demo_env ''c1'' demo_draft"
definition demo_verified :: world where "demo_verified = exec demo_lib CVerify demo_env ''c1'' demo_started"
definition demo_reviewed :: world where "demo_reviewed = exec demo_lib (CReview ''pass'') demo_env ''c1'' demo_verified"
definition demo_archived :: world where "demo_archived = exec demo_lib (CArchive False) demo_env ''c1'' demo_reviewed"

lemma demo_reachable:
  "reachable demo_lib demo_limits demo_draft" "reachable demo_lib demo_limits demo_started"
  "reachable demo_lib demo_limits demo_verified" "reachable demo_lib demo_limits demo_reviewed"
  "reachable demo_lib demo_limits demo_archived"
proof -
  have "reachable demo_lib demo_limits demo_world"
    by (rule reachable.init) (simp_all add: demo_world_def)
  then show draft: "reachable demo_lib demo_limits demo_draft"
  proof (rule reachable.more)
    show "step demo_lib UNIV UNIV demo_world demo_draft"
      using step.new_change[of "''c1''" UNIV demo_world demo_lib UNIV demo_change] by (simp add: demo_draft_def) (simp add: demo_world_def)
  qed
  show s: "reachable demo_lib demo_limits demo_started" unfolding demo_started_def by (rule reachable.more[OF draft step.command]) simp
  show v: "reachable demo_lib demo_limits demo_verified" unfolding demo_verified_def by (rule reachable.more[OF s step.command]) simp
  show r: "reachable demo_lib demo_limits demo_reviewed" unfolding demo_reviewed_def by (rule reachable.more[OF v step.command]) simp
  show "reachable demo_lib demo_limits demo_archived" unfolding demo_archived_def by (rule reachable.more[OF r step.command]) simp
qed

lemma demo_statuses:
  "map_option stStatus (wStates demo_started ''c1'') = Some InProgress"
  "map_option stStatus (wStates demo_reviewed ''c1'') = Some Reviewed"
  by code_simp+

lemma demo_archived_status: "map (stStatus \<circ> snd \<circ> snd) (wArchived demo_archived) = [Archived]"
  by code_simp

end
