(* ===== verification/LifecycleFacts.thy ===== *)
theory LifecycleFacts
  imports Scenario
begin

text \<open>
  The invariants of a project's life. Three predicates on a recorded state (the evidence behind a
  status, the bound on re-plans, the recorded plan) satisfy the contract \<open>state_invariant\<close>, each by an
  interpretation on the commands' own transformers, and so hold in every reachable world.
\<close>

section \<open>Evidence\<close>

text \<open>A status is backed by what a change has on record.\<close>

definition backed :: "state \<Rightarrow> bool" where
  "backed s \<longleftrightarrow>
     stStatus s \<notin> {Archived, Abandoned} \<and>
     (stStatus s = Verified \<longrightarrow> (\<exists>v. stVerify s = Some v \<and> vGreen v \<and> (vStale v \<longrightarrow> stReviewVoided s \<noteq> []))) \<and>
     (stStatus s = Reviewed \<longrightarrow> review_passed s \<and> (\<exists>v. stVerify s = Some v \<and> vGreen v)) \<and>
     (stStatus s = Blocked \<longrightarrow> stBlockedReason s \<noteq> None) \<and>
     (\<forall>v. stVerify s = Some v \<longrightarrow> vGreen v = all_green (vResults v))"

definition archived_backed :: "change option \<Rightarrow> state \<Rightarrow> bool" where
  "archived_backed d s \<longleftrightarrow> (stStatus s = Archived \<longrightarrow> review_passed s
        \<and> (\<exists>v. stVerify s = Some v \<and> vGreen v \<and> \<not> vStale v \<and> all_green (vResults v))
        \<and> (\<forall>c. d = Some c \<longrightarrow> PendingHuman s (HumanTasks c) = [] \<or> stAllowPendingHuman s))"

lemmas transformers = block_state_def back_to_progress_def red_verify_def green_verify_def review_state_def answer_state_def
  withAcceptance_def refreshPending_def recordCatchUp_def set_last_conflicts_def applied_net_diff_def stale_verify_def
  catch_up_status_def review_passed_def void_review_def returned_state_def

lemma start_record_sel [simp]:
  "stStatus (start_record L e w cid c s) = InProgress" "stVerify (start_record L e w cid c s) = stVerify s"
  "stReplans (start_record L e w cid c s) = stReplans s" "stAnswer (start_record L e w cid c s) = stAnswer s"
  "stPlanDigest (start_record L e w cid c s) = PlanDigest (plSha256 L) c"
  "stBaseFingerprints (start_record L e w cid c s) = baseFingerprints (plSha256 L) (wSpecs w) c"
  "stBaseBranch (start_record L e w cid c s) = stBaseBranch s" "stApproved (start_record L e w cid c s) = stApproved s"
  by (simp_all add: start_record_def Let_def rebaselineMilestoneRegression_def rebaselineRegression_def)

lemma start_base_sel [simp]:
  "stAnswer (start_base L e c replan rebase enter s) = stAnswer s"
  "stApproved (start_base L e c replan rebase enter s) = stApproved s"
  "length (stReplans (start_base L e c replan rebase enter s)) = length (stReplans s) + (if replan then 1 else 0)"
  "stVerify (start_base L e c replan rebase enter s) = (if replan \<or> rebase then None else stVerify s)"
  by (simp_all add: start_base_def Let_def split: option.split)

lemma accepted_state_sel [simp]:
  "stStatus (accepted_state w cid c s) = stStatus s" "stReview (accepted_state w cid c s) = stReview s"
  "PendingHuman (accepted_state w cid c s) ts = PendingHuman (withBaseAccepted (wGit w) (wBaseAccepted w cid) s) ts"
  by (auto simp: accepted_state_def refreshPending_def withBaseAccepted_def PendingHuman_def split: option.split)

lemma accepted_state_verify:
  "stVerify s = Some v \<Longrightarrow> \<exists>p. stVerify (accepted_state w cid c s) = Some (v\<lparr>vPendingHuman := p\<rparr>)"
  by (auto simp: accepted_state_def refreshPending_def withBaseAccepted_def intro: exI[of _ "vPendingHuman v"])

lemma backed_new: "backed (new_state cid)"
  by (simp add: backed_def new_state_def)

lemma backed_block: "backed s \<Longrightarrow> backed (block_state reason s)"
  by (simp add: backed_def block_state_def)

lemma backed_reblock: "backed s \<Longrightarrow> stStatus s = Blocked \<Longrightarrow> backed (s\<lparr>stBlockedReason := Some reason\<rparr>)"
  by (simp add: backed_def)

lemma backed_red: "backed s \<Longrightarrow> \<not> vGreen v \<Longrightarrow> \<not> all_green (vResults v) \<Longrightarrow>
    backed (back_to_progress v s) \<and> backed (block_state reason (red_verify v s))"
  by (simp add: backed_def back_to_progress_def block_state_def red_verify_def)

lemma backed_green: "vGreen v \<Longrightarrow> all_green (vResults v) \<Longrightarrow> \<not> vStale v \<Longrightarrow> backed (green_verify v moved keep s)"
  by (simp add: backed_def green_verify_def Let_def review_passed_def)

lemma backed_void: "backed s \<Longrightarrow> backed (void_review vd moved s)"
  by (auto simp: backed_def void_review_def split: option.split)

lemma backed_return: "backed s \<Longrightarrow> backed (returned_state task ret s)"
  by (simp add: backed_def returned_state_def)

lemma backed_moved: "backed s \<Longrightarrow> archived_backed d s"
  by (simp add: backed_def archived_backed_def)

lemma backed_review: "backed s \<Longrightarrow> (rwVerdict r = ''pass'' \<Longrightarrow> \<exists>v. stVerify s = Some v \<and> vGreen v) \<Longrightarrow> backed (review_state r s)"
  by (auto simp: backed_def review_state_def review_passed_def)

lemma backed_answer: "backed s \<Longrightarrow> backed (answer_state by at txt s)"
  by (simp add: backed_def answer_state_def)

lemma backed_accept: "backed s \<Longrightarrow> backed (withAcceptance s c rec)"
  by (auto simp: backed_def withAcceptance_def refreshPending_def review_passed_def split: option.splits)

lemma backed_approve: "backed s \<Longrightarrow> backed (s\<lparr>stApproved := a\<rparr>)"
  by (simp add: backed_def review_passed_def)

lemma backed_catch_up:
  "backed s \<Longrightarrow> (inArchive \<Longrightarrow> stStatus s = Reviewed) \<Longrightarrow> backed (recordCatchUp cu head at names inArchive s)"
  by (auto simp: backed_def recordCatchUp_def catch_up_status_def stale_verify_def review_passed_def)

lemma backed_conflicts: "backed s \<Longrightarrow> backed (set_last_conflicts fs s)"
  by (simp add: backed_def set_last_conflicts_def review_passed_def)

lemma backed_net_diff:
  "backed s \<Longrightarrow> (inArchive \<Longrightarrow> stStatus s = Reviewed) \<Longrightarrow>
     backed (applied_net_diff head' (stStatus s) (stBlockedReason s) inArchive (recordCatchUp cu head at names inArchive s))"
  by (auto simp: backed_def applied_net_diff_def recordCatchUp_def catch_up_status_def stale_verify_def review_passed_def)

lemma backed_start: "backed s \<Longrightarrow> backed (start_record L e w cid c (start_base L e c replan rebase enter s))"
  by (simp add: backed_def)

lemma backed_squash:
  assumes "backed s" "stStatus s = Reviewed" "review_passed s" "fresh_verify s"
  shows "archived_backed (Some c) (squashed e w cid c s)"
proof -
  obtain v where v: "stVerify s = Some v" "vGreen v" "\<not> vStale v" "all_green (vResults v)"
    using assms by (auto simp: backed_def fresh_verify_def)
  obtain p where "stVerify (accepted_state w cid c s) = Some (v\<lparr>vPendingHuman := p\<rparr>)"
    using accepted_state_verify[OF v(1)] by blast
  then show ?thesis
    using v assms(3) accepted_state_sel(3)[of w cid c s "HumanTasks c"]
    by (auto simp: archived_backed_def squashed_def archived_state_def review_passed_def pending_tasks_def PendingHuman_def)
qed

lemma backed_abandon: "archived_backed (Some c) (abandoned_state e cid reason s)"
  by (simp add: archived_backed_def abandoned_state_def)

lemma PendingHuman_accept: "PendingHuman s ts = [] \<Longrightarrow> PendingHuman (withAcceptance s c rec) ts = []"
  by (auto simp: PendingHuman_def withAcceptance_def refreshPending_def filter_empty_conv split: option.splits)

lemma backed_accept_archived:
  "archived_backed (Some c) s \<Longrightarrow> archived_backed (Some c) (withAcceptance s c rec)"
  using PendingHuman_accept[of s "HumanTasks c" c rec]
  by (auto simp: archived_backed_def withAcceptance_def refreshPending_def review_passed_def split: option.splits)

interpretation ev: state_invariant L lim UNIV UNIV "\<lambda>_. backed" "\<lambda>_. archived_backed" for L lim
  by unfold_locales
    (simp_all add: backed_new backed_block backed_reblock backed_red backed_green backed_review backed_answer backed_accept
      backed_approve backed_catch_up backed_conflicts backed_net_diff backed_start backed_squash backed_abandon
      backed_accept_archived backed_void backed_return backed_moved)

section \<open>Re-plans\<close>

definition replans_bounded :: "limits \<Rightarrow> state \<Rightarrow> bool" where
  "replans_bounded lim s \<longleftrightarrow> int (replansSinceAnswer s) \<le> max 0 (ReplansCap lim)"

lemma keeps_plan [simp]:
  "stReplans (block_state r s) = stReplans s" "stAnswer (block_state r s) = stAnswer s" "stPlanDigest (block_state r s) = stPlanDigest s" "stBaseBranch (block_state r s) = stBaseBranch s"
  "stReplans (back_to_progress v s) = stReplans s" "stAnswer (back_to_progress v s) = stAnswer s" "stPlanDigest (back_to_progress v s) = stPlanDigest s" "stBaseBranch (back_to_progress v s) = stBaseBranch s"
  "stReplans (red_verify v s) = stReplans s" "stAnswer (red_verify v s) = stAnswer s" "stPlanDigest (red_verify v s) = stPlanDigest s" "stBaseBranch (red_verify v s) = stBaseBranch s"
  "stReplans (green_verify v moved keep s) = stReplans s" "stAnswer (green_verify v moved keep s) = stAnswer s" "stPlanDigest (green_verify v moved keep s) = stPlanDigest s" "stBaseBranch (green_verify v moved keep s) = stBaseBranch s"
  "stReplans (review_state rv s) = stReplans s" "stAnswer (review_state rv s) = stAnswer s" "stPlanDigest (review_state rv s) = stPlanDigest s" "stBaseBranch (review_state rv s) = stBaseBranch s"
  "stReplans (withAcceptance s c rec) = stReplans s" "stAnswer (withAcceptance s c rec) = stAnswer s" "stPlanDigest (withAcceptance s c rec) = stPlanDigest s" "stBaseBranch (withAcceptance s c rec) = stBaseBranch s"
  "stReplans (recordCatchUp cu head at names inArchive s) = stReplans s" "stAnswer (recordCatchUp cu head at names inArchive s) = stAnswer s" "stPlanDigest (recordCatchUp cu head at names inArchive s) = stPlanDigest s" "stBaseBranch (recordCatchUp cu head at names inArchive s) = stBaseBranch s"
  "stReplans (set_last_conflicts fs s) = stReplans s" "stAnswer (set_last_conflicts fs s) = stAnswer s" "stPlanDigest (set_last_conflicts fs s) = stPlanDigest s" "stBaseBranch (set_last_conflicts fs s) = stBaseBranch s"
  "stReplans (applied_net_diff head st b inArchive s) = stReplans s" "stAnswer (applied_net_diff head st b inArchive s) = stAnswer s" "stPlanDigest (applied_net_diff head st b inArchive s) = stPlanDigest s" "stBaseBranch (applied_net_diff head st b inArchive s) = stBaseBranch s"
  "stReplans (void_review vd mv s) = stReplans s" "stAnswer (void_review vd mv s) = stAnswer s" "stPlanDigest (void_review vd mv s) = stPlanDigest s" "stBaseBranch (void_review vd mv s) = stBaseBranch s"
  "stReplans (returned_state task ret s) = stReplans s" "stAnswer (returned_state task ret s) = stAnswer s" "stPlanDigest (returned_state task ret s) = stPlanDigest s" "stBaseBranch (returned_state task ret s) = stBaseBranch s"
  by (simp_all add: transformers Let_def split: option.split)

lemma replans_answer: "replans_bounded lim (answer_state by at txt s)"
  by (simp add: replans_bounded_def replansSinceAnswer_def answer_state_def)

lemma replans_start:
  assumes "replans_bounded lim s" "replan \<Longrightarrow> int (replansSinceAnswer s + 1) \<le> ReplansCap lim"
  shows "replans_bounded lim (start_record L e w cid c (start_base L e c replan rebase enter s))"
proof -
  have "replansSinceAnswer (start_record L e w cid c (start_base L e c replan rebase enter s))
      \<le> replansSinceAnswer s + (if replan then 1 else 0)"
    by (auto simp: replansSinceAnswer_def split: option.split)
  then show ?thesis using assms by (auto simp: replans_bounded_def split: if_splits)
qed

lemma withAcceptance_status [simp]: "stStatus (withAcceptance s c rec) = stStatus s"
  by (simp add: withAcceptance_def refreshPending_def split: option.split)

lemma answer_state_plan [simp]:
  "stPlanDigest (answer_state by at txt s) = stPlanDigest s" "stBaseBranch (answer_state by at txt s) = stBaseBranch s"
  by (simp_all add: answer_state_def)

interpretation rp: state_invariant L lim UNIV UNIV "\<lambda>_. replans_bounded lim" "\<lambda>_ _ _. True" for L lim
  by unfold_locales
    (simp_all add: replans_answer replans_start, simp_all add: replans_bounded_def replansSinceAnswer_def new_state_def cong: option.case_cong if_cong)

section \<open>The frozen plan\<close>

text \<open>
  From the moment a change is started until it is started again, its recorded digest stays; so what is archived under
  its id is the plan that was started.
\<close>

definition frozen :: "string \<Rightarrow> string \<Rightarrow> string \<Rightarrow> state \<Rightarrow> bool" where
  "frozen cid dg i s \<longleftrightarrow> stStatus s \<noteq> Archived \<and> (i = cid \<longrightarrow> stPlanDigest s = dg)"

definition archived_frozen :: "pure_lib \<Rightarrow> string \<Rightarrow> string \<Rightarrow> string \<Rightarrow> change option \<Rightarrow> state \<Rightarrow> bool" where
  "archived_frozen L cid dg i d s \<longleftrightarrow> (i = cid \<longrightarrow> stStatus s = Archived \<longrightarrow>
     (\<forall>c. d = Some c \<longrightarrow> dg = [] \<or> PlanDigest (plSha256 L) c = dg))"

interpretation fp: state_invariant L lim "- {cid}" "- {cid}" "frozen cid dg" "archived_frozen L cid dg" for L lim cid dg
  by unfold_locales
    (simp_all add: frozen_def archived_frozen_def, auto simp: transformers new_state_def Let_def squashed_def archived_state_def
      accepted_state_def withBaseAccepted_def abandoned_state_def checkPlanFrozen_def split: if_splits option.splits)

section \<open>Reachable worlds\<close>

text \<open>C2: in every reachable world a change's status is backed by its records: a verified change has a green verify, not
  stale unless a review of the change was once voided, a reviewed one a passing review and a green verify, a blocked
  one its reason, no active change is archived or abandoned, and a recorded verify is green exactly when none of its
  results is red.\<close>

theorem status_backed:
  assumes "reachable L lim w" and "wStates w cid = Some s"
  shows "stStatus s \<notin> {Archived, Abandoned} \<and>
         (stStatus s = Verified \<longrightarrow> (\<exists>v. stVerify s = Some v \<and> vGreen v \<and> (vStale v \<longrightarrow> stReviewVoided s \<noteq> []))) \<and>
         (stStatus s = Reviewed \<longrightarrow> review_passed s \<and> (\<exists>v. stVerify s = Some v \<and> vGreen v)) \<and>
         (stStatus s = Blocked \<longrightarrow> stBlockedReason s \<noteq> None) \<and>
         (\<forall>v. stVerify s = Some v \<longrightarrow> (vGreen v \<longleftrightarrow> list_all (\<lambda>r. \<not> crRed r) (vResults v)))"
  using ev.reachable_state[OF refl refl assms] by (simp add: backed_def all_green_def)

theorem status_backed_witness:
  "\<exists>s v. wStates demo_reviewed ''c1'' = Some s \<and> review_passed s \<and> stVerify s = Some v \<and> vGreen v"
proof -
  obtain s where s: "wStates demo_reviewed ''c1'' = Some s" "stStatus s = Reviewed"
    using demo_statuses(2) by auto
  then show ?thesis using status_backed[OF demo_reachable(4) s(1)] by auto
qed



text \<open>C30: no change is re-planned more often than \<open>limits.replans\<close> allows between two answers of a person.\<close>

theorem replans_within_limit:
  assumes "reachable L lim w" and "wf_limits lim" and "wStates w cid = Some s"
  shows "int (replansSinceAnswer s) \<le> ReplansCap lim"
  using rp.reachable_state[OF refl refl assms(1,3)] assms(2) by (simp add: replans_bounded_def wf_limits_def)

theorem replans_within_limit_witness:
  "\<exists>s. wStates demo_started ''c1'' = Some s \<and> int (replansSinceAnswer s) \<le> ReplansCap demo_limits"
proof -
  obtain s where s: "wStates demo_started ''c1'' = Some s" using demo_statuses(1) by auto
  have "wf_limits demo_limits" by code_simp
  then show ?thesis using replans_within_limit[OF demo_reachable(2) _ s] s by auto
qed

end
