(* ===== verification/CommandFacts.thy ===== *)
theory CommandFacts
  imports LifecycleFacts
begin

text \<open>
  What each command of the lifecycle guarantees when it succeeds, and what it leaves when it does not.
\<close>

section \<open>Start\<close>

lemma start_refusal_None:
  assumes "start_refusal L e w cid c s = None"
  shows "requireApproved (plSha256 L) (wMilestone w) s c = None" "eCheckFindings e = []"
    "i \<noteq> cid \<Longrightarrow> i \<in> set (ActiveChanges w) \<Longrightarrow> wDocs w i = Some d \<Longrightarrow> requirementConflicts c d = []"
  using assms by (auto simp: start_refusal_def start_conflicts_def)

lemma start_write_None:
  assumes "start_write L e cid c s w = (None, w')"
  shows "w' = put_state cid (start_record L e w cid c s) (put_attempts cid ((wAttempts w cid)\<lparr>atSince := 0\<rparr>) w)"
  using assms unfolding start_write_def updateAttempts_def
  by (auto dest!: saveAndCommit_None split: option.splits prod.splits)

lemma start_write_leaves:
  assumes "start_write L e cid c s w = (er, w')"
  shows "w' = w\<lparr>wAttempts := wAttempts w'\<rparr> \<or> (\<exists>s. w' = put_state cid s (w\<lparr>wAttempts := wAttempts w'\<rparr>))"
proof -
  have sv: "w2 = w1 \<or> w2 = put_state cid x w1" if "saveAndCommit sc cid x w1 = (er', w2)" for sc x w1 er' w2
    using that by (cases sc) (auto simp: saveAndCommit_def)
  show ?thesis
    using assms unfolding start_write_def updateAttempts_def put_attempts_def
    by (auto dest!: sv simp: put_state_def split: option.splits prod.splits)
qed

lemma start_None:
  assumes "start L e enter cid w = (None, entered, w')"
  obtains c s replan rebase where "requireChange w cid = Inr (c, s)" "start_kind L w c s = Inr (replan, rebase)"
    "start_refusal L e w cid c s = None" "replan \<Longrightarrow> int (replansSinceAnswer s + 1) \<le> ReplansCap (wLimits w)"
    "w' = put_state cid (start_record L e w cid c (start_base L e c replan rebase enter s))
            (put_attempts cid ((wAttempts w cid)\<lparr>atSince := 0\<rparr>) w)"
proof -
  have "\<exists>c s replan rebase. requireChange w cid = Inr (c, s) \<and> start_kind L w c s = Inr (replan, rebase)
     \<and> start_refusal L e w cid c s = None \<and> \<not> (replan \<and> int (replansSinceAnswer s + 1) > ReplansCap (wLimits w))
     \<and> start_write L e cid c (start_base L e c replan rebase enter s) w = (None, w')"
    using assms unfolding start_def by (auto split: sum.splits option.splits prod.splits if_splits)
  then show ?thesis using that start_write_None by (metis not_le)
qed

lemma put_attempts_sel [simp]:
  "wStates (put_attempts cid a w) = wStates w" "wDocs (put_attempts cid a w) = wDocs w" "wIDs (put_attempts cid a w) = wIDs w"
  "wAttempts (put_attempts cid a w) = (wAttempts w)(cid := a)" "wSpecs (put_attempts cid a w) = wSpecs w"
  "wMilestone (put_attempts cid a w) = wMilestone w" "wBlocks (put_attempts cid a w) = wBlocks w"
  "wLimits (put_attempts cid a w) = wLimits w" "wGit (put_attempts cid a w) = wGit w" "wArchived (put_attempts cid a w) = wArchived w"
  by (simp_all add: put_attempts_def)

lemma put_state_milestone [simp]: "wMilestone (put_state cid s w) = wMilestone w"
  by (simp add: put_state_def)

text \<open>What holds of a change a start has just recorded.\<close>

definition started_ok :: "pure_lib \<Rightarrow> string \<Rightarrow> world \<Rightarrow> bool" where
  "started_ok L cid w \<longleftrightarrow> (\<exists>c s. wDocs w cid = Some c \<and> wStates w cid = Some s \<and> stStatus s = InProgress
     \<and> stPlanDigest s = PlanDigest (plSha256 L) c \<and> stBaseFingerprints s = baseFingerprints (plSha256 L) (wSpecs w) c
     \<and> atSince (wAttempts w cid) = 0
     \<and> (if IsTweak c then stApproved s \<noteq> None else wMilestone w (mMilestone (cMeta c)) = None)
     \<and> (\<forall>i d. i \<noteq> cid \<longrightarrow> i \<in> set (ActiveChanges w) \<longrightarrow> wDocs w i = Some d \<longrightarrow> requirementConflicts c d = []))"

lemma ActiveChanges_put: "i \<noteq> cid \<Longrightarrow> i \<in> set (ActiveChanges (put_state cid s w)) \<longleftrightarrow> i \<in> set (ActiveChanges w)"
  by (auto simp: ActiveChanges_def)

lemma start_ok:
  assumes "start L e enter cid w = (None, entered, w')"
  shows "started_ok L cid w'"
proof -
  obtain c s replan rebase where r: "requireChange w cid = Inr (c, s)" "start_refusal L e w cid c s = None"
    and w': "w' = put_state cid (start_record L e w cid c (start_base L e c replan rebase enter s))
            (put_attempts cid ((wAttempts w cid)\<lparr>atSince := 0\<rparr>) w)"
    using start_None[OF assms] by metis
  have "i \<in> set (ActiveChanges w)" if "i \<noteq> cid" "i \<in> set (ActiveChanges w')" for i
    using that by (auto simp: w' ActiveChanges_def)
  moreover have "if IsTweak c then stApproved s \<noteq> None else wMilestone w (mMilestone (cMeta c)) = None"
    using start_refusal_None(1)[OF r(2)] by (auto simp: requireApproved_def requireTweakApproved_def split: if_splits option.splits)
  ultimately show ?thesis
    using requireChange_Inr[OF r(1)] start_refusal_None(3)[OF r(2)] unfolding started_ok_def by (auto simp: w')
qed

lemma reenter_started: "reenter L e switched cid w = (Inr False, w') \<Longrightarrow> started_ok L cid w'"
  by (auto simp: reenter_def dest: start_ok split: sum.splits prod.splits option.splits if_splits)

lemma Start_started: "Start L e cid w = (Inr False, w') \<Longrightarrow> started_ok L cid w'"
  unfolding Start_def lift_err_def
  by (auto dest: start_ok reenter_started split: option.splits branch_case.splits prod.splits if_splits)

text \<open>C6: a start that succeeds leaves the change in progress with the digest of its plan and the fingerprints of the blocks
  it replaces recorded as they now are, its attempts at zero, its milestone (or tweak) approved, and no requirement
  claimed by another change in flight.\<close>

theorem Start_sound:
  assumes "Start L e cid w = (Inr False, w')"
  shows "\<exists>c s. wDocs w' cid = Some c \<and> wStates w' cid = Some s \<and> stStatus s = InProgress
     \<and> stPlanDigest s = PlanDigest (plSha256 L) c \<and> stBaseFingerprints s = baseFingerprints (plSha256 L) (wSpecs w') c
     \<and> atSince (wAttempts w' cid) = 0
     \<and> (if IsTweak c then stApproved s \<noteq> None else wMilestone w' (mMilestone (cMeta c)) = None)
     \<and> (\<forall>i d. i \<noteq> cid \<longrightarrow> i \<in> set (ActiveChanges w') \<longrightarrow> wDocs w' i = Some d \<longrightarrow> requirementConflicts c d = [])"
  using Start_started[OF assms] by (simp add: started_ok_def)

theorem Start_sound_witness:
  "\<exists>w' s. Start demo_lib demo_env ''c1'' demo_draft = (Inr False, w') \<and> wStates w' ''c1'' = Some s \<and> stStatus s = InProgress"
proof -
  have "fst (Start demo_lib demo_env ''c1'' demo_draft) = Inr False" by code_simp
  then obtain w' where w': "Start demo_lib demo_env ''c1'' demo_draft = (Inr False, w')" by (metis prod.collapse)
  from Start_sound[OF this] show ?thesis using w' by auto
qed



section \<open>Verify\<close>

lemma run_checks_append:
  "\<exists>seen'. run_checks ex ce seen i (xs @ ys) = run_checks ex ce seen i xs @ run_checks ex ce seen' (i + length xs) ys"
proof (induction xs arbitrary: seen i)
  case Nil
  then show ?case by auto
next
  case (Cons x xs)
  show ?case
    using Cons.IH[of seen "i + 1"] Cons.IH[of "seen(pcCmd x \<mapsto> ex i x)" "i + 1"]
    by (auto simp: Let_def fun_upd_def split: option.split)
qed

lemma run_checks_covers: "pc \<in> set pcs \<Longrightarrow> \<exists>x\<in>set (run_checks ex ce seen i pcs). crTask x = pcRef pc \<and> crKind x = pcKind pc"
  by (induction ex ce seen i pcs rule: run_checks.induct) (auto simp: Let_def label_def split: option.split)

lemma run_checks_not_marked:
  assumes ex: "\<And>i pc. \<not> crPreExistingRed (ex i pc)"
  shows "(\<forall>k r. seen k = Some r \<longrightarrow> \<not> crPreExistingRed r) \<Longrightarrow> x \<in> set (run_checks ex ce seen i pcs) \<Longrightarrow> \<not> crPreExistingRed x"
proof (induction pcs arbitrary: seen i)
  case (Cons pc pcs)
  have "\<not> crPreExistingRed x" if "x \<in> set (run_checks ex ce (seen(pcCmd pc \<mapsto> ex i pc)) (i + 1) pcs)"
    by (rule Cons.IH[OF _ that]) (use Cons.prems(1) ex in simp)
  moreover have "\<not> crPreExistingRed x" if "x \<in> set (run_checks ex ce seen (i + 1) pcs)"
    by (rule Cons.IH[OF Cons.prems(1) that])
  ultimately show ?case
    using Cons.prems ex unfolding run_checks.simps Let_def
    by (auto simp: label_def blank_result_def simp del: fun_upd_apply split: option.splits if_splits)
qed simp

lemma length_run_checks [simp]: "length (run_checks ex ce seen i pcs) = length pcs"
  by (induction ex ce seen i pcs rule: run_checks.induct) (auto simp: Let_def fun_upd_def split: option.split)

text \<open>The results of a verify hold those of every check of the change, as its run gave them.\<close>

lemma verify_results_prefix:
  "set (Run e run_verify (ChangeChecks (wSpecs w) (wRedAtGate w) c)) \<subseteq> set (fst (verify_results e w c s))"
proof -
  let ?cs = "ChangeChecks (wSpecs w) (wRedAtGate w) c"
  obtain seen' where app: "Run e run_verify (?cs @ [regression_check (wRegressionCmd w)]) =
      Run e run_verify ?cs @ run_checks (eExec e run_verify) (eCtxErr e run_verify) seen' (length ?cs) [regression_check (wRegressionCmd w)]"
    using run_checks_append[of "eExec e run_verify" "eCtxErr e run_verify" Map.empty 0 ?cs "[regression_check (wRegressionCmd w)]"]
    unfolding Run_def RunChecks_def add_0 by blast
  obtain y where y: "run_checks (eExec e run_verify) (eCtxErr e run_verify) seen' (length ?cs) [regression_check (wRegressionCmd w)] = [y]"
    using length_run_checks[of "eExec e run_verify" "eCtxErr e run_verify" seen' "length ?cs" "[regression_check (wRegressionCmd w)]"]
    by (auto simp: length_Suc_conv)
  show ?thesis
    using app y by (auto simp: verify_results_def verify_plan_def ChangeChecks_def split_beta Let_def)
qed

text \<open>C4: when a verify reports green, every check the plan has for the change was run at that head and exited 0, and the
  record says so: its verify is this one, and the change is verified (or still reviewed).\<close>

theorem Verify_green_ran_all:
  assumes "Verify L e cid w = (Some r, None, w')" and "vrGreen r"
    and "\<And>i pc. \<not> crPreExistingRed (eExec e run_verify i pc)"
  shows "\<exists>c s v. wDocs w' cid = Some c \<and> wStates w' cid = Some s \<and> stStatus s \<in> {Verified, Reviewed}
    \<and> stVerify s = Some v \<and> vGreen v \<and> \<not> vStale v \<and> vSHA v = eHead e
    \<and> (\<forall>pc\<in>set (ChangeChecks (wSpecs w') (wRedAtGate w') c). \<exists>x\<in>set (vResults v). crTask x = pcRef pc \<and> crKind x = pcKind pc \<and> crExit x = 0)"
proof -
  obtain c s w1 where w1: "requireChange w1 cid = Inr (c, s)" "verify e False cid c s w1 = (Some r, None, w')"
    using assms(1) unfolding Verify_def by (auto split: option.splits sum.splits prod.splits)
  let ?r = "verify_result e w1 cid c s"
  obtain moved n where w': "w' = put_state cid (green_verify (verify_record e ?r True n) moved False s) w1" and g: "all_green (vrResults ?r)"
    using verify_green[OF w1(2) assms(2)] by blast
  have res: "vrResults ?r = fst (verify_results e w1 c s)" by (simp add: verify_result_def split_beta)
  have "\<exists>x\<in>set (vrResults ?r). crTask x = pcRef pc \<and> crKind x = pcKind pc \<and> crExit x = 0"
    if pc: "pc \<in> set (ChangeChecks (wSpecs w1) (wRedAtGate w1) c)" for pc
  proof -
    obtain x where x: "x \<in> set (Run e run_verify (ChangeChecks (wSpecs w1) (wRedAtGate w1) c))" "crTask x = pcRef pc" "crKind x = pcKind pc"
      using run_checks_covers[OF pc, of "eExec e run_verify" "eCtxErr e run_verify" Map.empty 0] by (auto simp: Run_def RunChecks_def)
    have in_r: "x \<in> set (vrResults ?r)" using subsetD[OF verify_results_prefix x(1)] res by simp
    have "\<not> crPreExistingRed x"
      using run_checks_not_marked[OF assms(3), of Map.empty x] x(1) by (simp add: Run_def RunChecks_def)
    moreover have "\<not> crRed x" using g in_r by (simp add: all_green_def list_all_iff)
    ultimately have "crExit x = 0" by (simp add: crRed_def)
    then show ?thesis using x in_r by blast
  qed
  moreover have "vSHA (verify_record e ?r True n) = eHead e" "vResults (verify_record e ?r True n) = vrResults ?r"
    by (simp_all add: verify_record_def verify_result_def split_beta)
  moreover have "wRedAtGate w' = wRedAtGate w1" by (simp add: w' put_state_def)
  ultimately show ?thesis
    using requireChange_Inr[OF w1(1)]
    by (auto simp: w' green_verify_def Let_def verify_record_def intro!: exI[of _ c])
qed

theorem Verify_green_ran_all_witness:
  "\<exists>r w' v. Verify demo_lib demo_env ''c1'' demo_started = (Some r, None, w') \<and> map_option stVerify (wStates w' ''c1'') = Some (Some v)
     \<and> vSHA v = ''abc'' \<and> (\<exists>x\<in>set (vResults v). crExit x = 0)"
proof -
  have ev: "map_option vrGreen (fst (Verify demo_lib demo_env ''c1'' demo_started)) = Some True"
      "fst (snd (Verify demo_lib demo_env ''c1'' demo_started)) = None"
    by code_simp+
  then obtain r w' where v: "Verify demo_lib demo_env ''c1'' demo_started = (Some r, None, w')" "vrGreen r"
    by (cases "Verify demo_lib demo_env ''c1'' demo_started") auto
  have cs: "(case Verify demo_lib demo_env ''c1'' demo_started of (_, _, w') \<Rightarrow>
      (case wDocs w' ''c1'' of None \<Rightarrow> False | Some c \<Rightarrow> ChangeChecks (wSpecs w') (wRedAtGate w') c \<noteq> []))" by code_simp
  have "\<not> crPreExistingRed (eExec demo_env run_verify i pc)" for i pc by (simp add: demo_env_def blank_result_def)
  from Verify_green_ran_all[OF v this] obtain c s vr where o: "wDocs w' ''c1'' = Some c" "wStates w' ''c1'' = Some s" "stVerify s = Some vr"
    "vSHA vr = eHead demo_env" "\<forall>pc\<in>set (ChangeChecks (wSpecs w') (wRedAtGate w') c). \<exists>x\<in>set (vResults vr). crTask x = pcRef pc \<and> crKind x = pcKind pc \<and> crExit x = 0"
    by blast
  have "ChangeChecks (wSpecs w') (wRedAtGate w') c \<noteq> []" using cs v(1) o(1) by simp
  then obtain pc where "pc \<in> set (ChangeChecks (wSpecs w') (wRedAtGate w') c)" by (cases "ChangeChecks (wSpecs w') (wRedAtGate w') c") auto
  then have "\<exists>x\<in>set (vResults vr). crExit x = 0" using o(5) by blast
  moreover have "vSHA vr = ''abc''" using o(4) by (simp add: demo_env_def)
  ultimately show ?thesis using v(1) o(2,3) by auto
qed

section \<open>Red verifies\<close>

text \<open>Whether the counters after a red verify reach a limit.\<close>

definition limit_reached :: "limits \<Rightarrow> attempts \<Rightarrow> bool" where
  "limit_reached lim a \<longleftrightarrow> int (atTotal a) - int (atAtAnswer a) \<ge> AttemptsTotalCap lim \<or> int (atSince a) \<ge> AttemptsCap lim"

lemma red_block_saved:
  assumes "eSave e k = Saved" "eNoteErr e = None"
  shows "blockAndCount e k cid c s reason w = (None, snd (noteBlocked e c (put_state cid (block_state reason s) w)))"
  using assms by (simp add: blockAndCount_def saveAndCommit_def noteBlocked_def)

lemma noteBlocked_sel [simp]:
  "wStates (snd (noteBlocked e c w)) = wStates w" "wAttempts (snd (noteBlocked e c w)) = wAttempts w"
  "wLimits (snd (noteBlocked e c w)) = wLimits w" "wDocs (snd (noteBlocked e c w)) = wDocs w"
  by (simp_all add: noteBlocked_def split: option.split)

lemma redBlock_saved:
  assumes "eSave e 4 = Saved" "eNoteErr e = None" "redBlock e cid c s r what fe w = (res, er, w')"
  shows "er = Some fe" "\<exists>s'. wStates w' cid = Some s' \<and> stStatus s' = Blocked" "wAttempts w' = wAttempts w"
  using assms(3) by (auto simp: redBlock_def red_block_saved[OF assms(1,2)] block_state_def)

lemma updateAttempts_None: "eAttemptsErr e = None \<Longrightarrow> updateAttempts e cid f w = (None, put_attempts cid (f (wAttempts w cid)) w)"
  by (simp add: updateAttempts_def)

text \<open>C13: a red verify whose writes succeed counts exactly once, and blocks the change exactly when the count reaches
  \<open>limits.attempts\<close> or \<open>limits.attempts_total\<close>; otherwise the change is in progress and the verify returns no error.\<close>

theorem red_verify_counts:
  assumes "verify e keep cid c s w = (res, er, w')" and "\<not> vrGreen (verify_result e w cid c s)"
    and "eDirty e = None" and "eGateTouch e = None" and "eInterrupted e 3 = None"
    and "eAttemptsErr e = None" and "eSave e 4 = Saved" and "eNoteErr e = None"
    and "wStates w cid = Some s" and "Active s"
  shows "wAttempts w' cid = count_red (wAttempts w cid)
    \<and> (\<exists>s'. wStates w' cid = Some s' \<and> stStatus s' = (if limit_reached (wLimits w) (count_red (wAttempts w cid)) then Blocked else InProgress))
    \<and> (er \<noteq> None \<longleftrightarrow> limit_reached (wLimits w) (count_red (wAttempts w cid)))"
proof -
  let ?a = "count_red (wAttempts w cid)" and ?w1 = "put_attempts cid (count_red (wAttempts w cid)) w"
  have red: "redAttempt e cid c s (verify_result e w cid c s) w = (res, er, w')"
    using assms(1-5) by (simp add: verify_def)
  note step = red[unfolded redAttempt_def updateAttempts_None[OF assms(6)] Let_def, simplified]
  show ?thesis
  proof (cases "limit_reached (wLimits w) ?a")
    case True
    then obtain r what fe where "redBlock e cid c s r what fe ?w1 = (res, er, w')"
      using step by (auto simp: limit_reached_def split: if_splits)
    from redBlock_saved[OF assms(7,8) this] show ?thesis using True by auto
  next
    case False
    then show ?thesis
      using step assms(7,9) by (auto simp: limit_reached_def saveAndCommit_def back_to_progress_def split: if_splits)
  qed
qed

definition demo_red :: env where
  "demo_red = demo_env\<lparr>eExec := (\<lambda>k i pc. blank_result (pcCmd pc) 1)\<rparr>"

theorem red_verify_counts_witness:
  "\<exists>c s res er w'. requireChange demo_started ''c1'' = Inr (c, s) \<and> verify demo_red False ''c1'' c s demo_started = (res, er, w')
     \<and> wAttempts w' ''c1'' = count_red zero_attempts \<and> er = None"
proof -
  have d: "case requireChange demo_started ''c1'' of Inl _ \<Rightarrow> False | Inr (c, s) \<Rightarrow> Active s
      \<and> \<not> vrGreen (verify_result demo_red demo_started ''c1'' c s)
      \<and> wAttempts demo_started ''c1'' = zero_attempts \<and> \<not> limit_reached (wLimits demo_started) (count_red (wAttempts demo_started ''c1''))"
    by code_simp
  then obtain c s where cs: "requireChange demo_started ''c1'' = Inr (c, s)" by (auto split: sum.splits)
  obtain res er w' where v: "verify demo_red False ''c1'' c s demo_started = (res, er, w')" by (rule prod_cases3)
  have "eDirty demo_red = None" "eGateTouch demo_red = None" "eInterrupted demo_red 3 = None" "eAttemptsErr demo_red = None"
    "eSave demo_red 4 = Saved" "eNoteErr demo_red = None" by (simp_all add: demo_red_def demo_env_def)
  from red_verify_counts[OF v _ this requireChange_Inr(2)[OF cs]] show ?thesis
    using d cs v by auto
qed

section \<open>The loop of red verifies ends\<close>

text \<open>\<open>n\<close> verifies of one change in a row, each red and none of them stopping the loop with an error.\<close>

inductive red_run :: "pure_lib \<Rightarrow> string \<Rightarrow> world \<Rightarrow> nat \<Rightarrow> world \<Rightarrow> bool" for L cid w where
  none: "red_run L cid w 0 w"
| again: "red_run L cid w n w1 \<Longrightarrow> Verify L e cid w1 = (Some r, None, w2) \<Longrightarrow> \<not> vrGreen r \<Longrightarrow> red_run L cid w (Suc n) w2"

inductive_cases red_run_SucE: "red_run L cid w (Suc n) w2"

lemma redAttempt_goes_on:
  assumes "redAttempt e cid c s r w = (Some r', None, w')"
  shows "wAttempts w' cid = count_red (wAttempts w cid)" "wLimits w' = wLimits w"
    "\<not> limit_reached (wLimits w) (count_red (wAttempts w cid))"
  using assms unfolding redAttempt_def updateAttempts_def redBlock_def
  by (auto simp: Let_def limit_reached_def dest!: saveAndCommit_None split: option.splits prod.splits if_splits)

lemma verify_goes_on:
  assumes "verify e keep cid c s w = (Some r, None, w')" "\<not> vrGreen r"
  shows "wAttempts w' cid = count_red (wAttempts w cid)" "wLimits w' = wLimits w"
    "\<not> limit_reached (wLimits w) (count_red (wAttempts w cid))"
proof -
  have "redAttempt e cid c s (verify_result e w cid c s) w = (Some r, None, w')"
    using assms unfolding verify_def Let_def by (auto split: option.splits prod.splits if_splits)
  from redAttempt_goes_on[OF this] show "wAttempts w' cid = count_red (wAttempts w cid)" "wLimits w' = wLimits w"
    "\<not> limit_reached (wLimits w) (count_red (wAttempts w cid))" by auto
qed

lemma Verify_goes_on:
  assumes "Verify L e cid w = (Some r, None, w')" "\<not> vrGreen r"
  shows "wAttempts w' cid = count_red (wAttempts w cid)" "wLimits w' = wLimits w"
    "\<not> limit_reached (wLimits w) (count_red (wAttempts w cid))"
proof -
  obtain c s c1 s1 b w1 where cu: "catchUp e False False cid c s w = (None, b, w1)" and v: "verify e False cid c1 s1 w1 = (Some r, None, w')"
    using assms(1) unfolding Verify_def by (auto split: option.splits sum.splits prod.splits)
  have "wAttempts w1 = wAttempts w" "wLimits w1 = wLimits w" using catchUp_None[OF cu] by auto
  then show "wAttempts w' cid = count_red (wAttempts w cid)" "wLimits w' = wLimits w"
    "\<not> limit_reached (wLimits w) (count_red (wAttempts w cid))" using verify_goes_on[OF v assms(2)] by auto
qed

lemma red_run_counts:
  assumes "red_run L cid w n w'"
  shows "wLimits w' = wLimits w \<and> atSince (wAttempts w' cid) = atSince (wAttempts w cid) + n
    \<and> (n > 0 \<longrightarrow> \<not> limit_reached (wLimits w) (wAttempts w' cid))"
  using assms
proof (induction rule: red_run.induct)
  case (again n w1 e r w2)
  from Verify_goes_on[OF again.hyps(2,3)] again.IH show ?case by (auto simp: count_red_def)
qed simp

text \<open>C8: the loop of red verifies ends: after a start, fewer than \<open>limits.attempts\<close> red verifies in a row can return without
  stopping it, whatever the checks, the base branch and the disk do in between.\<close>

theorem red_loop_bounded:
  assumes "red_run L cid w n w'" and "atSince (wAttempts w cid) = 0" and "wf_limits (wLimits w)"
  shows "int n < AttemptsCap (wLimits w)"
  using red_run_counts[OF assms(1)] assms(2,3) by (cases "n = 0") (auto simp: limit_reached_def wf_limits_def)

theorem red_loop_bounded_witness:
  "\<exists>w'. red_run demo_lib ''c1'' demo_started 1 w' \<and> int 1 < AttemptsCap (wLimits demo_started)"
proof -
  have "map_option vrGreen (fst (Verify demo_lib demo_red ''c1'' demo_started)) = Some False"
    "fst (snd (Verify demo_lib demo_red ''c1'' demo_started)) = None" by code_simp+
  then obtain r w' where v: "Verify demo_lib demo_red ''c1'' demo_started = (Some r, None, w')" "\<not> vrGreen r"
    by (cases "Verify demo_lib demo_red ''c1'' demo_started") auto
  have run: "red_run demo_lib ''c1'' demo_started (Suc 0) w'" by (rule red_run.again[OF red_run.none v])
  have "atSince (wAttempts demo_started ''c1'') = 0" "wf_limits (wLimits demo_started)" by code_simp+
  from red_loop_bounded[OF run this] show ?thesis using run by auto
qed

section \<open>Archive\<close>

lemma archivable_None:
  assumes "archivable L e w allow cid c s = None"
  shows "stStatus s = Reviewed" "review_passed s" "stPlanDigest s = [] \<or> stPlanDigest s = PlanDigest (plSha256 L) c"
    "pending_tasks w cid c s = [] \<or> allow" "wGit w"
  using assms by (auto simp: archivable_def checkPlanFrozen_def)

lemma invalid_specs_Nil:
  "invalid_specs w us = [] \<longleftrightarrow>
     (\<forall>u\<in>set us. \<not> suRetired u \<longrightarrow> ValidateSpec (suPath u) (suContent u) (nat (capSpec (Limits (wCaps w)))) = [])"
  by (induction us) (auto simp: Let_def)

lemma planArchive_None:
  assumes "planArchive L e w c s = (None, us)"
  shows "us = fst (MergeDelta (plLower L) (wSpecs w) c)" "snd (MergeDelta (plLower L) (wSpecs w) c) = []"
    "fingerprintConflicts (plSha256 L) (wSpecs w) (stBaseFingerprints s) c = []"
    "u \<in> set us \<Longrightarrow> \<not> suRetired u \<Longrightarrow> ValidateSpec (suPath u) (suContent u) (nat (capSpec (Limits (wCaps w)))) = []"
  using assms invalid_specs_Nil[of w us] by (auto simp: planArchive_def Let_def split_beta)

lemma archive_on_branch_None:
  assumes "archive_on_branch L e pending cid c s w = (None, w')" "requireChange w cid = Inr (c, s)"
    "stStatus s = Reviewed" "review_passed s"
  obtains w2 s2 us where "planArchive L e w2 c s2 = (None, us)" "same_review s s2" "fresh_verify s2" "wCaps w2 = wCaps w"
    "w' = resetBlocks c (move_to_archive cid c (archived_state e cid pending (accepted_state w2 cid c s2))
           (w2\<lparr>wSpecs := foldl write_spec (wSpecs w2) us\<rparr>))" "wDocs w2 = wDocs w" "code_moved e (rwSHA (the (stReview s))) = False"
    "wSpecs w2 = branch_specs e s w"
proof -
  obtain b w1 c1 s1 w2 c2 s2 us where 1: "\<not> reviewStale e s" "catchUp e False True cid c s w = (None, b, w1)"
      "requireChange w1 cid = Inr (c1, s1)" "archiveFresh e cid c1 s1 w1 = (None, w2)" "requireChange w2 cid = Inr (c2, s2)"
      "planArchive L e w2 c2 s2 = (None, us)" "squashOntoBase e cid c2 s2 us pending w2 = (None, w')"
    using assms(1) unfolding archive_on_branch_def by (auto split: if_splits prod.splits option.splits sum.splits)
  have s1: "c1 = c" "same_review s s1" "wCaps w1 = wCaps w" "wDocs w1 = wDocs w" "wSpecs w1 = branch_specs e s w"
    using catchUp_change[OF 1(2) assms(2)] 1(3) catchUp_None[OF 1(2)] caught_same_review[of s]
    by (auto simp: same_review_def put_state_def)
  have "stStatus s1 = Reviewed" "review_passed s1" using s1(2) assms(3,4) by (simp_all add: same_review_def review_passed_def)
  from archiveFresh_None[OF 1(4) this requireChange_Inr(2)[OF 1(3)]]
  have s2: "c2 = c" "same_review s1 s2" "fresh_verify s2" "wCaps w2 = wCaps w1" "wDocs w2 = wDocs w1" "wSpecs w2 = wSpecs w1"
    using 1(5) s1(1) requireChange_Inr[OF 1(3)] requireChange_Inr[OF 1(5)] by (auto simp: put_state_def)
  have "code_moved e (rwSHA (the (stReview s))) = False"
    using 1(1) assms(4) by (auto simp: reviewStale_def review_passed_def split: option.splits)
  with 1 s1 s2 show ?thesis
    by (intro that[of w2 s2 us]) (auto simp: same_review_def squashOntoBase_def split: option.splits)
qed



section \<open>What is archived is what was started\<close>

lemma steps_two: "step L N S w w1 \<Longrightarrow> step L N S w1 w2 \<Longrightarrow> steps L N S w w2"
  by (rule steps.more[OF steps.more[OF steps.none]])



section \<open>A blocked change that a conflicted catch-up sets in progress\<close>

text \<open>
  \<open>start\<close> on the branch of a blocked change first catches up with its base. When the rebase conflicts,
  \<open>recordCatchUp\<close> records the change in progress and \<open>start\<close> returns the conflict, before it has looked at
  the approval, the re-plan limit or the requirements another change in flight claims.
\<close>

definition demo_claim :: change where
  "demo_claim = demo_change\<lparr>cDeltas := [\<lparr>dOp = OpModified, dCapability = ''cap'', dName = ''R'', dLine = 1,
     dReq = \<lparr>rqName = ''R'', rqLine = 1, rqText = [], rqScenarios = [], rqStray = []\<rparr>, dReason = [], dExtra = 0, dPurpose = [], dPurposeLine = 0\<rparr>]\<rparr>"

definition demo_two :: world where
  "demo_two = demo_world\<lparr>wIDs := [''a'', ''b''], wDocs := (\<lambda>_. None)(''a'' := Some demo_claim, ''b'' := Some demo_claim),
     wStates := (\<lambda>_. None)(''a'' := Some ((new_state ''a'')\<lparr>stStatus := InProgress, stBaseBranch := ''main''\<rparr>),
       ''b'' := Some ((new_state ''b'')\<lparr>stStatus := Blocked, stBaseBranch := ''main'', stBlockedReason := Some ''a claims R''\<rparr>))\<rparr>"

definition demo_moved :: moved_base where
  "demo_moved = \<lparr>mvTip = ''t'', mvNeedRebase = True, mvConflicts = [''f.go''], mvTipSpecs = wSpecs demo_world, mvSpecs = wSpecs demo_world,
     mvRegressionCmd = [], mvRedAtGate = {},
     mvUnmerged = [''f.go''], mvOldTipRef = ''refs/apex/pre-rebase/b/1'', mvHead = ''t'', mvBehind = None, mvDirty = None, mvRebase = None,
     mvBaseline = None, mvInterrupted = None, mvLayOut = None, mvPick = None, mvCommit = None\<rparr>"

theorem conflicted_catch_up_unblocks:
  "let e = demo_env\<lparr>eBranch := OwnBranch, eBase := Some demo_moved\<rparr>; (res, w') = Start demo_lib e ''b'' demo_two in
     ActiveChanges demo_two = [''a''] \<and> res = Inl (ConflictError ''change.conflicted'' [''f.go'']) \<and> ActiveChanges w' = [''a'', ''b'']
     \<and> requirementConflicts (the (wDocs w' ''a'')) (the (wDocs w' ''b'')) \<noteq> []"
  by code_simp

section \<open>An answer outside git\<close>

text \<open>
  An answer restarts the count \<open>limits.attempts_total\<close> judges, in a work tree; outside one the counters
  stay, and the change blocks again at its next red verify.
\<close>

theorem answer_resets_total_only_in_git:
  assumes "AnswerChange e cid txt by w = (None, w')"
  shows "atAtAnswer (wAttempts w' cid) = (if wGit w then atTotal (wAttempts w cid) else atAtAnswer (wAttempts w cid))"
  using assms unfolding AnswerChange_def updateAttempts_def
  by (auto dest!: saveAndCommit_None split: option.splits sum.splits prod.splits if_splits)

end
