(* ===== verification/SessionFacts.thy ===== *)
theory SessionFacts
  imports CommandFacts
begin

text \<open>
  What settling a session guarantees: a review verdict survives only from a session that kept to its
  files, and a delegate sends a change back once, then again only after a person acted.
\<close>

section \<open>Review sessions\<close>

lemma SettleReviewRun_Inr:
  assumes "SettleReviewRun e tr cid run w = (Inr out, w')"
  obtains c s where "requireChange w cid = Inr (c, s)" "review_violations e tr cid run w = Inr (roViolations out)"
    "roViolations out = [] \<Longrightarrow> w' = w \<and> \<not> roVoided out"
    "roViolations out \<noteq> [] \<Longrightarrow> roVoided out \<and> (\<exists>vd moved. w' = put_state cid (void_review vd moved s) w)"
proof -
  obtain vs c s where vs: "review_violations e tr cid run w = Inr vs" "requireChange w cid = Inr (c, s)"
    using assms unfolding SettleReviewRun_def by (auto split: sum.splits)
  show ?thesis
  proof (rule that[OF vs(2)])
    show "review_violations e tr cid run w = Inr (roViolations out)"
      using assms vs unfolding SettleReviewRun_def Let_def by (auto split: if_splits option.splits prod.splits)
    show "roViolations out = [] \<Longrightarrow> w' = w \<and> \<not> roVoided out"
      using assms vs unfolding SettleReviewRun_def Let_def by (auto split: if_splits option.splits prod.splits)
    show "roViolations out \<noteq> [] \<Longrightarrow> roVoided out \<and> (\<exists>vd moved. w' = put_state cid (void_review vd moved s) w)"
      using assms vs unfolding SettleReviewRun_def Let_def
      by (auto dest!: saveAndCommit_None split: if_splits option.splits prod.splits)
  qed
qed

lemma review_violations_Nil:
  assumes "review_violations e tr cid run w = Inr []"
  shows "wGit w \<Longrightarrow> trBranch tr = ''change/'' @ cid"
    "rrHeadSHA run \<noteq> [] \<Longrightarrow> trCommitted tr = Inr fs \<Longrightarrow> f \<in> set fs \<Longrightarrow> f \<noteq> [] \<Longrightarrow> reviewMayTouch tr cid f"
    "trStatus tr = Inr ls \<Longrightarrow> l \<in> set ls \<Longrightarrow> 3 < length l \<Longrightarrow> reviewMayTouch tr cid (status_path l)"
  using assms unfolding review_violations_def Let_def ChangeBranch_def committed_violations_def left_violations_def
  by (auto simp: filter_empty_conv split: if_splits option.splits sum.splits)

text \<open>A review verdict stands only when its session kept to a review's files. Once the session is settled, either it
  left HEAD on the change's branch, committed and left nothing but \<open>review.md\<close>, review reports and ape's records, and the
  change is as it was; or its verdict is voided: no review is on record, the change is in progress or verified, and
  archive refuses it.\<close>

theorem review_session_read_only:
  assumes "SettleReviewRun e tr cid run w = (Inr out, w')"
  shows "if roVoided out
    then (\<exists>s. wStates w' cid = Some s \<and> stReview s = None \<and> stStatus s \<in> {InProgress, Verified}) \<and>
         (\<forall>L e' allow. fst (Archive L e' cid allow w') \<noteq> None)
    else w' = w \<and> (wGit w \<longrightarrow> trBranch tr = ''change/'' @ cid)
         \<and> (\<forall>fs. rrHeadSHA run \<noteq> [] \<longrightarrow> trCommitted tr = Inr fs \<longrightarrow> (\<forall>f\<in>set fs. f \<noteq> [] \<longrightarrow> reviewMayTouch tr cid f))
         \<and> (\<forall>ls. trStatus tr = Inr ls \<longrightarrow> (\<forall>l\<in>set ls. 3 < length l \<longrightarrow> reviewMayTouch tr cid (status_path l)))"
proof (cases "roViolations out = []")
  case True
  then show ?thesis
    using review_violations_Nil[of e tr cid run w] by (rule_tac SettleReviewRun_Inr[OF assms]) auto
next
  case False
  obtain s vd moved where w': "roVoided out" "w' = put_state cid (void_review vd moved s) w"
    by (rule SettleReviewRun_Inr[OF assms]) (use False in auto)
  let ?s = "void_review vd moved s"
  have s: "stReview ?s = None" "stStatus ?s \<in> {InProgress, Verified}"
    by (auto simp: void_review_def split: option.split)
  have "archivable L e' w' allow cid c1 ?s \<noteq> None" for L e' allow c1
    using s(2) by (auto simp: archivable_def)
  moreover have "s1 = ?s" if "requireChange w' cid = Inr (c1, s1)" for c1 s1
    using requireChange_Inr(2)[OF that] by (simp add: w'(2))
  moreover have "\<exists>c1 s1. requireChange w' cid = Inr (c1, s1) \<and> archivable L e' w' allow cid c1 s1 = None"
    if "fst (Archive L e' cid allow w') = None" for L e' allow
    using that unfolding Archive_def by (auto split: option.splits sum.splits)
  ultimately have "fst (Archive L e' cid allow w') \<noteq> None" for L e' allow by metis
  then show ?thesis using w' s by auto
qed

definition demo_trace :: trace where
  "demo_trace = \<lparr>trBranch = ''change/c1'', trCommitted = Inr [''dev/changes/c1/review.md'', ''main.go''], trStatus = Inr [],
     trDevRel = ''dev'', trStateRel = ''_apex/state'', trArchiveRel = ''dev/archive'', trTime = (\<lambda>s. Some (length s))\<rparr>"

definition demo_review_run :: reviewRun where
  "demo_review_run = \<lparr>rrDetachedID = ''r1'', rrStartedAt = ''2026-01-01T00:00:00Z'', rrHeadSHA = ''abc''\<rparr>"

theorem review_session_read_only_witness:
  "\<exists>out w'. SettleReviewRun demo_env demo_trace ''c1'' demo_review_run demo_reviewed = (Inr out, w')
     \<and> roVerdict out = ''pass'' \<and> roVoided out \<and> fst (Archive demo_lib demo_env ''c1'' False w') \<noteq> None"
proof -
  have "case fst (SettleReviewRun demo_env demo_trace ''c1'' demo_review_run demo_reviewed) of
      Inl _ \<Rightarrow> False | Inr out \<Rightarrow> roVerdict out = ''pass'' \<and> roVoided out" by code_simp
  then obtain out w' where s: "SettleReviewRun demo_env demo_trace ''c1'' demo_review_run demo_reviewed = (Inr out, w')"
    "roVerdict out = ''pass''" "roVoided out"
    by (cases "SettleReviewRun demo_env demo_trace ''c1'' demo_review_run demo_reviewed") (auto split: sum.splits)
  from review_session_read_only[OF s(1)] s show ?thesis by auto
qed

text \<open>
  Voiding sets the status from the verify alone: a change that was blocked while its session ran is verified again, its
  reason kept and its block counted.
\<close>

theorem void_lifts_a_block:
  "let w = exec demo_lib (CBlock ''stop'') demo_env ''c1'' demo_verified;
       w' = exec demo_lib (CSettleReview demo_trace demo_review_run) demo_env ''c1'' w in
     map_option stStatus (wStates w ''c1'') = Some Blocked \<and> map_option stStatus (wStates w' ''c1'') = Some Verified
     \<and> map_option stBlockedReason (wStates w' ''c1'') = Some (Some ''stop'') \<and> wBlocks w' ''M1'' = 1"
  by code_simp

text \<open>It does not look at the mark a catch-up leaves on the verify: after one the change is verified on a stale verify.\<close>

theorem void_trusts_a_stale_verify:
  "let mv = demo_moved\<lparr>mvNeedRebase := False, mvConflicts := [], mvUnmerged := []\<rparr>;
       w = exec demo_lib CVerify (demo_env\<lparr>eBase := Some mv, eDirty := Some (fail ''git.dirty'')\<rparr>) ''c1'' demo_verified;
       w' = exec demo_lib (CSettleReview demo_trace demo_review_run) demo_env ''c1'' w in
     map_option (\<lambda>s. (stStatus s, map_option vStale (stVerify s))) (wStates w ''c1'') = Some (InProgress, Some True)
     \<and> map_option (\<lambda>s. (stStatus s, map_option vStale (stVerify s))) (wStates w' ''c1'') = Some (Verified, Some True)"
  by code_simp

section \<open>Delegates\<close>

lemma foldl_last:
  assumes "foldl (\<lambda>r a. if p a \<and> r < f a then f a else r) x xs \<noteq> (x :: string)"
  shows "\<exists>a\<in>set xs. p a \<and> foldl (\<lambda>r a. if p a \<and> r < f a then f a else r) x xs = f a"
  using assms
proof (induction xs arbitrary: x)
  case (Cons a xs)
  let ?g = "\<lambda>r a. if p a \<and> r < f a then f a else r"
  show ?case
  proof (cases "foldl ?g (?g x a) xs = ?g x a")
    case True
    then show ?thesis using Cons.prems by (auto split: if_splits)
  next
    case False
    from Cons.IH[OF this] show ?thesis by auto
  qed
qed simp

text \<open>A reset is an answer's stamp or that of a person's acceptance of the task.\<close>

lemma last_reset_cases:
  assumes "last_reset s task \<noteq> []"
  shows "(\<exists>a. stAnswer s = Some a \<and> anAt a = last_reset s task)
    \<or> (\<exists>a\<in>set (stAccepted s). acTask a = task \<and> \<not> HasPrefix (acBy a) ''delegate:'' \<and> acAt a = last_reset s task)"
proof (cases "last_reset s task = (case stAnswer s of None \<Rightarrow> [] | Some a \<Rightarrow> anAt a)")
  case True
  then show ?thesis using assms by (auto split: option.splits)
next
  case False
  then show ?thesis
    using foldl_last[of "\<lambda>a. acTask a = task \<and> \<not> HasPrefix (acBy a) ''delegate:''" acAt _ "stAccepted s"]
    unfolding last_reset_def by fastforce
qed

lemma settle_returned:
  assumes "settleDelegateFail e tr cid touched run v w = (Inr out, w')" "doReturned out = Some ret"
  obtains c s where "requireChange w cid = Inr (c, s)" "w' = put_state cid (returned_state (drTask run) ret s) w"
    "returnsSinceReset (withBaseAccepted (wGit w) (wBaseAccepted w cid) s) (drTask run) = []"
    "stStatus s = Reviewed" "dtDefects ret \<noteq> []" "dtAt ret = eStamp e"
proof -
  have go: "\<not> HasPrefix (drFolder run) (trArchiveRel tr @ ''/'')" "eRecover e = None"
    using assms by (auto simp: settleDelegateFail_def no_outcome_def split: if_splits option.splits)
  obtain c s where cs: "requireChange w cid = Inr (c, s)"
    using assms go by (cases "requireChange w cid") (auto simp: settleDelegateFail_def no_outcome_def split: if_splits)
  obtain files where fs: "(if dvDefects v = [] then Inr [] else touched) = Inr files"
    using assms go cs by (cases "if dvDefects v = [] then Inr [] else touched") (simp_all add: settleDelegateFail_def)
  let ?prior = "returnsSinceReset (withBaseAccepted (wGit w) (wBaseAccepted w cid) s) (drTask run)"
  let ?ds = "filter (\<lambda>d. d \<in> set files) (dvDefects v)"
  note step = assms(1)[unfolded settleDelegateFail_def Let_def no_outcome_def, unfolded cs go fs, simplified]
  have "?prior = [] \<and> ?ds \<noteq> [] \<and> stStatus s = Reviewed"
    using step go(1) assms(2) by (auto split: if_split_asm)
  then show ?thesis
    using step go(1) assms(2) that[OF cs] by (auto dest!: saveAndCommit_None split: prod.splits option.splits)
qed

definition keeps_return :: "string \<Rightarrow> string \<Rightarrow> delegateReturn \<Rightarrow> string \<Rightarrow> state \<Rightarrow> bool" where
  "keeps_return cid task ret i s \<longleftrightarrow> (i = cid \<longrightarrow> ret \<in> set (stDelegateReturns s task))"

lemma keeps_returns [simp]:
  "stDelegateReturns (block_state r s) = stDelegateReturns s" "stDelegateReturns (back_to_progress v s) = stDelegateReturns s"
  "stDelegateReturns (red_verify v s) = stDelegateReturns s" "stDelegateReturns (green_verify v moved keep s) = stDelegateReturns s"
  "stDelegateReturns (review_state rv s) = stDelegateReturns s" "stDelegateReturns (withAcceptance s c rec) = stDelegateReturns s"
  "stDelegateReturns (recordCatchUp cu head at names inArchive s) = stDelegateReturns s"
  "stDelegateReturns (set_last_conflicts fs s) = stDelegateReturns s"
  "stDelegateReturns (applied_net_diff head st b inArchive s) = stDelegateReturns s"
  "stDelegateReturns (void_review vd mv s) = stDelegateReturns s" "stDelegateReturns (answer_state by at txt s) = stDelegateReturns s"
  by (simp_all add: transformers Let_def split: option.split)

lemma start_keeps_returns [simp]:
  "stDelegateReturns (start_record L e w i c (start_base L e c replan rebase enter s)) = stDelegateReturns s"
  by (simp add: start_record_def start_base_def Let_def rebaselineMilestoneRegression_def rebaselineRegression_def split: option.split)

interpretation dr: state_invariant L lim "- {cid}" UNIV "keeps_return cid task ret" "\<lambda>_ _ _. True" for L lim cid task ret
  by unfold_locales (simp_all add: keeps_return_def, auto simp: returned_state_def)

lemma merge_one_subset: "set (merge_one out e) \<subseteq> set out \<union> {e}"
  using set_update_subset_insert[of out _ e] by (auto simp: merge_one_def split: option.split if_splits)

lemma mergeAccepted_subset: "a \<in> set (mergeAccepted own extra) \<Longrightarrow> a \<in> set own \<union> set extra"
  unfolding mergeAccepted_def
proof (induction extra arbitrary: own)
  case (Cons e es)
  then show ?case using merge_one_subset[of own e] by fastforce
qed simp

text \<open>C28: a delegate's fail goes back to a change once: after a return of a task, no later fail of that task is sent back,
  whatever happens to the project in between, unless since then a person answered the change or accepted the task (a
  stamp not before the return's).\<close>

theorem delegate_returns_once:
  assumes "settleDelegateFail e tr cid touched run v w = (Inr out, w1)" and "doReturned out = Some ret"
    and "steps L (- {cid}) UNIV w1 w2"
    and "settleDelegateFail e2 tr2 cid touched2 run2 v2 w2 = (Inr out2, w3)" and "drTask run2 = drTask run" and "doReturned out2 \<noteq> None"
  shows "\<exists>c s. requireChange w2 cid = Inr (c, s) \<and> ret \<in> set (stDelegateReturns s (drTask run))
    \<and> ((\<exists>a. stAnswer s = Some a \<and> dtAt ret \<le> anAt a)
       \<or> (\<exists>a\<in>set (stAccepted s) \<union> set (wBaseAccepted w2 cid). acTask a = drTask run \<and> \<not> HasPrefix (acBy a) ''delegate:'' \<and> dtAt ret \<le> acAt a))"
proof -
  obtain s0 where w1: "w1 = put_state cid (returned_state (drTask run) ret s0) w"
    using settle_returned[OF assms(1,2)] by metis
  then have "states_ok (wLimits w1) (keeps_return cid (drTask run) ret) (\<lambda>_ _ _. True) w1"
    by (auto simp: states_ok_def keeps_return_def returned_state_def)
  then have ok: "states_ok (wLimits w1) (keeps_return cid (drTask run) ret) (\<lambda>_ _ _. True) w2"
    using dr.ok_steps[OF assms(3)] by blast
  obtain ret2 where "doReturned out2 = Some ret2" using assms(6) by auto
  then obtain c s where s: "requireChange w2 cid = Inr (c, s)"
      "returnsSinceReset (withBaseAccepted (wGit w2) (wBaseAccepted w2 cid) s) (drTask run) = []"
    using settle_returned[OF assms(4)] assms(5) by metis
  let ?s = "withBaseAccepted (wGit w2) (wBaseAccepted w2 cid) s"
  have same: "stDelegateReturns ?s = stDelegateReturns s" "stAnswer ?s = stAnswer s" by (simp_all add: withBaseAccepted_def)
  have acc: "set (stAccepted ?s) \<subseteq> set (stAccepted s) \<union> set (wBaseAccepted w2 cid)"
    using mergeAccepted_subset by (auto simp: withBaseAccepted_def)
  have r: "ret \<in> set (stDelegateReturns s (drTask run))"
    using ok requireChange_Inr(2)[OF s(1)] by (auto simp: states_ok_def keeps_return_def)
  then have reset: "last_reset ?s (drTask run) \<noteq> []" "dtAt ret \<le> last_reset ?s (drTask run)"
    using s(2) same(1) by (auto simp: returnsSinceReset_def filter_empty_conv not_less)
  from last_reset_cases[OF reset(1)]
  have "(\<exists>a. stAnswer s = Some a \<and> dtAt ret \<le> anAt a)
       \<or> (\<exists>a\<in>set (stAccepted s) \<union> set (wBaseAccepted w2 cid). acTask a = drTask run \<and> \<not> HasPrefix (acBy a) ''delegate:'' \<and> dtAt ret \<le> acAt a)"
  proof
    assume "\<exists>a. stAnswer ?s = Some a \<and> anAt a = last_reset ?s (drTask run)"
    then show ?thesis using reset(2) same(2) by auto
  next
    assume "\<exists>a\<in>set (stAccepted ?s). acTask a = drTask run \<and> \<not> HasPrefix (acBy a) ''delegate:'' \<and> acAt a = last_reset ?s (drTask run)"
    then show ?thesis using reset(2) acc by fastforce
  qed
  then show ?thesis using s(1) r by blast
qed

definition demo_delegate :: delegateRun where
  "demo_delegate = \<lparr>drTask = ''T2'', drFolder = ''dev/changes/c1''\<rparr>"

definition demo_fail :: delegateVerdict where
  "demo_fail = \<lparr>dvRun = ''d1'', dvReason = ''wrong'', dvDefects = [''main.go'']\<rparr>"

definition demo_settle :: "world \<Rightarrow> (apex_error + delegateOutcome) \<times> world" where
  "demo_settle w = settleDelegateFail demo_env demo_trace ''c1'' (Inr [''main.go'']) demo_delegate demo_fail w"

definition demo_back :: "command list" where
  "demo_back = [CBlock ''stop'', CAnswer ''go on'' ''Ann'', CStart, CVerify, CReview ''pass'']"

definition demo_again :: world where
  "demo_again = foldl (\<lambda>w cmd. exec demo_lib cmd (demo_env\<lparr>eBranch := OwnBranch\<rparr>) ''c1'' w) (snd (demo_settle demo_reviewed)) demo_back"

theorem delegate_returns_once_witness:
  "\<exists>out out2 w3. fst (demo_settle demo_reviewed) = Inr out \<and> doReturned out \<noteq> None
     \<and> demo_settle demo_again = (Inr out2, w3) \<and> doReturned out2 \<noteq> None
     \<and> (\<exists>c s. requireChange demo_again ''c1'' = Inr (c, s) \<and> stDelegateReturns s ''T2'' \<noteq> [])"
proof -
  have "case fst (demo_settle demo_reviewed) of Inl _ \<Rightarrow> False | Inr out \<Rightarrow> doReturned out \<noteq> None" by code_simp
  then obtain out w1 ret where a: "demo_settle demo_reviewed = (Inr out, w1)" "doReturned out = Some ret"
    by (cases "demo_settle demo_reviewed") (auto split: sum.splits)
  have "case fst (demo_settle demo_again) of Inl _ \<Rightarrow> False | Inr out \<Rightarrow> doReturned out \<noteq> None" by code_simp
  then obtain out2 w3 where b: "demo_settle demo_again = (Inr out2, w3)" "doReturned out2 \<noteq> None"
    by (cases "demo_settle demo_again") (auto split: sum.splits)
  have run: "steps demo_lib (- {''c1''}) UNIV w1 demo_again"
    unfolding demo_again_def demo_back_def foldl_Cons foldl_Nil a(1) snd_conv
    by (rule steps.more[OF steps.more[OF steps.more[OF steps_two]]]; rule step.command; simp del: exec.simps)
  from delegate_returns_once[OF a(1)[unfolded demo_settle_def] a(2) run b(1)[unfolded demo_settle_def] refl b(2)]
  show ?thesis using a b by (auto simp: demo_delegate_def)
qed

end
