(* ===== verification/Globs.thy ===== *)
theory Globs
  imports Markdown
begin

text \<open>
  Path globs: \<open>globRegexp\<close> (\<open>internal/apexv1/lift.go\<close>), which decides what a change's \<open>paths:\<close>
  cover, \<open>globsMeet\<close> (\<open>advise.go\<close>) and \<open>globsOverlap\<close> (\<open>changes.go\<close>), the test for two changes
  that share ground. \<open>path.Match(g, "")\<close> of the standard library, which the code uses only to refuse
  a malformed pattern, is modelled by what makes it fail. A compiled glob is a list of tokens, one
  per piece of the regular expression the code writes; Go's regular expressions match runes.
\<close>

section \<open>Malformed patterns\<close>

text \<open>\<open>path.scanChunk\<close>: leading stars, then the text up to the next star outside a class.\<close>

fun scan_chunk :: "bool \<Rightarrow> string \<Rightarrow> string \<times> string" where
  "scan_chunk inrange [] = ([], [])"
| "scan_chunk inrange (c # r) =
     (if c = CHR 0x5C then (case r of
          [] \<Rightarrow> ([c], [])
        | d # r' \<Rightarrow> (case scan_chunk inrange r' of (a, b) \<Rightarrow> (c # d # a, b)))
      else if c = CHR ''*'' \<and> \<not> inrange then ([], c # r)
      else (case scan_chunk (if c = CHR ''['' then True else if c = CHR '']'' then False else inrange) r of
              (a, b) \<Rightarrow> (c # a, b)))"

text \<open>\<open>path.getEsc\<close>: the rest after one possibly escaped rune, \<open>None\<close> when malformed.\<close>

definition get_esc :: "string \<Rightarrow> string option" where
  "get_esc chunk = (case chunk of
      [] \<Rightarrow> None
    | c # r \<Rightarrow>
        if c = CHR ''-'' \<or> c = CHR '']'' then None
        else let s = (if c = CHR 0x5C then r else chunk); (rn, n) = decode_rune (map of_char s) in
             if s = [] \<or> (rn = 0xFFFD \<and> n = 1) \<or> drop n s = [] then None else Some (drop n s))"

lemma decode_rune_width: "s \<noteq> [] \<Longrightarrow> 0 < snd (decode_rune s)"
  by (auto simp: decode_rune_def split: list.splits if_splits)

lemma get_esc_shorter: "get_esc s = Some r \<Longrightarrow> length r < length s"
  using decode_rune_width[of "map of_char s"] decode_rune_width[of "map of_char (tl s)"]
  by (auto simp: get_esc_def Let_def split: list.splits if_splits prod.splits)

text \<open>The ranges of a character class, up to its closing bracket.\<close>

function class_rest :: "nat \<Rightarrow> string \<Rightarrow> string option" where
  "class_rest nrange chunk =
     (if chunk \<noteq> [] \<and> hd chunk = CHR '']'' \<and> nrange > 0 then Some (tl chunk)
      else (case get_esc chunk of
              None \<Rightarrow> None
            | Some r \<Rightarrow>
                if hd r = CHR ''-'' then (case get_esc (tl r) of None \<Rightarrow> None | Some r' \<Rightarrow> class_rest (nrange + 1) r')
                else class_rest (nrange + 1) r))"
  by pat_completeness auto
termination
  by (relation "measure (\<lambda>(n, s). length s)") (auto dest!: get_esc_shorter)

declare class_rest.simps [simp del]

lemma class_rest_shorter: "class_rest n s = Some r \<Longrightarrow> length r < length s"
proof (induction n s arbitrary: r rule: class_rest.induct)
  case (1 n s)
  show ?case
  proof (cases "s \<noteq> [] \<and> hd s = CHR '']'' \<and> n > 0")
    case True
    with 1(3) show ?thesis by (auto simp: class_rest.simps[of n s])
  next
    case no: False
    have "get_esc s \<noteq> None" using 1(3) no by (cases "get_esc s") (auto simp: class_rest.simps[of n s])
    then obtain e where e: "get_esc s = Some e" "length e < length s" using get_esc_shorter by auto
    then have "length r < length s \<or> (\<exists>e'. get_esc (tl e) = Some e' \<and> class_rest (n + 1) e' = Some r \<and> hd e = CHR ''-'')
        \<or> class_rest (n + 1) e = Some r \<and> hd e \<noteq> CHR ''-''"
      using 1(3) no by (auto simp: class_rest.simps[of n s] split: if_splits option.splits)
    then show ?thesis
      using 1(1)[OF no e(1)] 1(2)[OF no e(1)] e(2) get_esc_shorter[of "tl e"] by fastforce
  qed
qed

text \<open>\<open>path.matchChunk\<close> against no text: whether it reports a malformed pattern.\<close>

function chunk_ok :: "string \<Rightarrow> bool" where
  "chunk_ok [] = True"
| "chunk_ok (c # r) =
     (if c = CHR ''['' then
        (case class_rest 0 (if r \<noteq> [] \<and> hd r = CHR ''^'' then tl r else r) of None \<Rightarrow> False | Some r' \<Rightarrow> chunk_ok r')
      else if c = CHR 0x5C then (case r of [] \<Rightarrow> False | d # r' \<Rightarrow> chunk_ok r')
      else chunk_ok r)"
  by pat_completeness auto
termination
  by (relation "measure length") (auto dest!: class_rest_shorter simp: less_Suc_eq split: if_splits)

text \<open>Whether \<open>path.Match(pattern, "")\<close> returns no error: every chunk is well formed.\<close>

lemma scan_chunk_parts: "scan_chunk b s = (x, y) \<Longrightarrow> s = x @ y"
  by (induction b s arbitrary: x y rule: scan_chunk.induct) (auto split: if_splits list.splits prod.splits)

lemma scan_chunk_progress: "s \<noteq> [] \<Longrightarrow> hd s \<noteq> CHR ''*'' \<Longrightarrow> scan_chunk False s = (x, y) \<Longrightarrow> length y < length s"
  using scan_chunk_parts[of False s x y] by (cases s) (auto split: if_splits list.splits prod.splits)

function glob_valid :: "string \<Rightarrow> bool" where
  "glob_valid s =
     (let p = dropWhile (\<lambda>c. c = CHR ''*'') s in
      if p = [] then True
      else chunk_ok (fst (scan_chunk False p)) \<and> glob_valid (snd (scan_chunk False p)))"
  by pat_completeness auto
termination
proof (relation "measure length")
  show "wf (measure (length :: string \<Rightarrow> nat))" by simp
next
  fix s p assume p: "p = dropWhile (\<lambda>c. c = CHR ''*'') s" "p \<noteq> []"
  have "length p \<le> length s" by (simp add: p length_dropWhile_le)
  moreover have "hd p \<noteq> CHR ''*''" using p hd_dropWhile[of "\<lambda>c. c = CHR ''*''" s] by auto
  ultimately show "(snd (scan_chunk False p), s) \<in> measure length"
    using scan_chunk_progress[OF p(2), of "fst (scan_chunk False p)" "snd (scan_chunk False p)"] by simp
qed

declare glob_valid.simps [simp del]

section \<open>Compiling and matching\<close>

datatype glob_tok =
    DirsSlash          \<comment> \<open>\<open>(?:.*/)?\<close>\<close>
  | AnySlash           \<comment> \<open>\<open>.*/\<close>\<close>
  | AnyPath            \<comment> \<open>\<open>.*\<close>\<close>
  | Segment            \<comment> \<open>\<open>[^/]*\<close>\<close>
  | OneRune            \<comment> \<open>\<open>[^/]\<close>\<close>
  | Lit nat

fun glob_toks :: "string \<Rightarrow> glob_tok list" where
  "glob_toks [] = []"
| "glob_toks (c # r) =
     (if HasPrefix (c # r) ''**/'' then DirsSlash # glob_toks (drop 2 r)
      else if HasPrefix (c # r) ''**'' then AnyPath # glob_toks (drop 1 r)
      else if c = CHR ''*'' then Segment # glob_toks r
      else if c = CHR ''?'' then OneRune # glob_toks r
      else Lit (of_char c) # glob_toks r)"

definition glob_norm :: "string \<Rightarrow> string" where
  "glob_norm g = TrimPrefix (TrimSpace g) ''./''"

text \<open>The code quotes each byte of the glob as the rune of that number.\<close>

definition globRegexp :: "string \<Rightarrow> glob_tok list option" where
  "globRegexp g0 =
     (let g1 = glob_norm g0; g = (if HasSuffix g1 ''/'' then g1 @ ''**'' else g1) in
      if g1 = [] \<or> \<not> glob_valid (ReplaceAll g ''**'' ''*'') then None else Some (glob_toks g))"

fun tok_weight :: "glob_tok \<Rightarrow> nat" where
  "tok_weight DirsSlash = 2"
| "tok_weight _ = 1"

function tok_match :: "glob_tok list \<Rightarrow> nat list \<Rightarrow> bool" where
  "tok_match [] rs = (rs = [])"
| "tok_match (Lit n # ts) rs = (case rs of [] \<Rightarrow> False | r # rs' \<Rightarrow> r = n \<and> tok_match ts rs')"
| "tok_match (OneRune # ts) rs = (case rs of [] \<Rightarrow> False | r # rs' \<Rightarrow> r \<noteq> 47 \<and> tok_match ts rs')"
| "tok_match (Segment # ts) rs = (tok_match ts rs \<or> (case rs of [] \<Rightarrow> False | r # rs' \<Rightarrow> r \<noteq> 47 \<and> tok_match (Segment # ts) rs'))"
| "tok_match (AnyPath # ts) rs = (tok_match ts rs \<or> (case rs of [] \<Rightarrow> False | r # rs' \<Rightarrow> r \<noteq> 10 \<and> tok_match (AnyPath # ts) rs'))"
| "tok_match (AnySlash # ts) rs = (case rs of [] \<Rightarrow> False
     | r # rs' \<Rightarrow> (r = 47 \<and> tok_match ts rs') \<or> (r \<noteq> 10 \<and> tok_match (AnySlash # ts) rs'))"
| "tok_match (DirsSlash # ts) rs = (tok_match ts rs \<or> tok_match (AnySlash # ts) rs)"
  by pat_completeness auto
termination
  by (relation "measure (\<lambda>(ts, rs). sum_list (map tok_weight ts) + length rs)") auto

definition glob_matches :: "string \<Rightarrow> string \<Rightarrow> bool" where
  "glob_matches g f = (case globRegexp g of None \<Rightarrow> False | Some ts \<Rightarrow> tok_match ts (runes f))"

definition globsMeet :: "string \<Rightarrow> string \<Rightarrow> bool" where
  "globsMeet a b = (case (globRegexp a, globRegexp b) of
      (Some ra, Some rb) \<Rightarrow> tok_match ra (runes (glob_norm b)) \<or> tok_match rb (runes (glob_norm a))
    | _ \<Rightarrow> False)"

definition glob_lit :: "string \<Rightarrow> string" where
  "glob_lit g = takeWhile (\<lambda>c. c \<notin> set ''*?['') g"

definition globsOverlap :: "string \<Rightarrow> string \<Rightarrow> bool" where
  "globsOverlap a b \<longleftrightarrow> HasPrefix (glob_lit a) (glob_lit b) \<or> HasPrefix (glob_lit b) (glob_lit a)"

section \<open>What a compiled glob matches\<close>

text \<open>The language of the regular expression, piece by piece: the reference for the matcher.\<close>

fun tok_lang :: "glob_tok \<Rightarrow> nat list set" where
  "tok_lang (Lit n) = {[n]}"
| "tok_lang OneRune = {[r] | r. r \<noteq> 47}"
| "tok_lang Segment = {u. 47 \<notin> set u}"
| "tok_lang AnyPath = {u. 10 \<notin> set u}"
| "tok_lang AnySlash = {u @ [47] | u. 10 \<notin> set u}"
| "tok_lang DirsSlash = insert [] {u @ [47] | u. 10 \<notin> set u}"

fun glob_lang :: "glob_tok list \<Rightarrow> nat list set" where
  "glob_lang [] = {[]}"
| "glob_lang (t # ts) = {u @ w | u w. u \<in> tok_lang t \<and> w \<in> glob_lang ts}"

lemma star_unfold:
  "(\<exists>u w. rs = u @ w \<and> x \<notin> set u \<and> P w) \<longleftrightarrow> P rs \<or> (\<exists>r rs'. rs = r # rs' \<and> r \<noteq> x \<and> (\<exists>u w. rs' = u @ w \<and> x \<notin> set u \<and> P w))"
  (is "?l \<longleftrightarrow> ?r")
proof
  assume ?l
  then obtain u w where "rs = u @ w" "x \<notin> set u" "P w" by blast
  then show ?r by (cases u) auto
next
  assume ?r
  then show ?l
  proof
    assume "P rs" then show ?l by (intro exI[of _ "[]"] exI[of _ rs]) simp
  next
    assume "\<exists>r rs'. rs = r # rs' \<and> r \<noteq> x \<and> (\<exists>u w. rs' = u @ w \<and> x \<notin> set u \<and> P w)"
    then obtain r u w where "rs = r # u @ w" "r \<noteq> x" "x \<notin> set u" "P w" by blast
    then show ?l by (intro exI[of _ "r # u"] exI[of _ w]) auto
  qed
qed

lemma slash_unfold:
  "(\<exists>u w. rs = u @ 47 # w \<and> 10 \<notin> set u \<and> w \<in> A) \<longleftrightarrow>
     (\<exists>r rs'. rs = (r :: nat) # rs' \<and> (r = 47 \<and> rs' \<in> A \<or> r \<noteq> 10 \<and> (\<exists>u w. rs' = u @ 47 # w \<and> 10 \<notin> set u \<and> w \<in> A)))"
  (is "?l \<longleftrightarrow> ?r")
proof
  assume ?l
  then obtain u w where "rs = u @ 47 # w" "10 \<notin> set u" "w \<in> A" by blast
  then show ?r by (cases u) auto
next
  assume ?r
  then obtain r rs' where r: "rs = r # rs'" and c: "r = 47 \<and> rs' \<in> A \<or> r \<noteq> 10 \<and> (\<exists>u w. rs' = u @ 47 # w \<and> 10 \<notin> set u \<and> w \<in> A)" by blast
  from c show ?l
  proof
    assume "r = 47 \<and> rs' \<in> A" then show ?l using r by (intro exI[of _ "[]"] exI[of _ rs']) simp
  next
    assume "r \<noteq> 10 \<and> (\<exists>u w. rs' = u @ 47 # w \<and> 10 \<notin> set u \<and> w \<in> A)"
    then obtain u w where "r \<noteq> 10" "rs' = u @ 47 # w" "10 \<notin> set u" "w \<in> A" by blast
    then show ?l using r by (intro exI[of _ "r # u"] exI[of _ w]) auto
  qed
qed

lemma tok_match_lang: "tok_match ts rs \<longleftrightarrow> rs \<in> glob_lang ts"
proof (induction ts rs rule: tok_match.induct)
  case (3 ts rs)
  have "rs \<in> glob_lang (OneRune # ts) \<longleftrightarrow> (\<exists>r w. rs = r # w \<and> r \<noteq> 47 \<and> w \<in> glob_lang ts)" for rs
    by (auto intro: exI[of _ "[_]"])
  with 3 show ?case by (auto split: list.split)
next
  case (4 ts rs)
  have "rs \<in> glob_lang (Segment # ts) \<longleftrightarrow> (\<exists>u w. rs = u @ w \<and> 47 \<notin> set u \<and> w \<in> glob_lang ts)" for rs by auto
  with 4 star_unfold[of rs 47 "\<lambda>w. w \<in> glob_lang ts"] show ?case by (auto split: list.split)
next
  case (5 ts rs)
  have "rs \<in> glob_lang (AnyPath # ts) \<longleftrightarrow> (\<exists>u w. rs = u @ w \<and> 10 \<notin> set u \<and> w \<in> glob_lang ts)" for rs by auto
  with 5 star_unfold[of rs 10 "\<lambda>w. w \<in> glob_lang ts"] show ?case by (auto split: list.split)
next
  case (6 ts rs)
  have "rs \<in> glob_lang (AnySlash # ts) \<longleftrightarrow> (\<exists>u w. rs = u @ 47 # w \<and> 10 \<notin> set u \<and> w \<in> glob_lang ts)" for rs
    by (auto intro: exI[of _ "_ @ [47]"]) (metis append.assoc append_Cons append_Nil)+
  with 6 slash_unfold[of rs "glob_lang ts"] show ?case by (auto split: list.split)
next
  case (7 ts rs)
  then show ?case by auto
qed (auto split: list.split)

text \<open>The text of a glob up to its first wildcard starts every path the glob matches.\<close>

lemma glob_lit_prefix: "tok_match (glob_toks g) rs \<Longrightarrow> \<exists>w. rs = map of_char (glob_lit g) @ w"
proof (induction g arbitrary: rs rule: glob_toks.induct)
  case (2 c r)
  show ?case
  proof (cases "c = CHR ''*'' \<or> c = CHR ''?''")
    case True
    then show ?thesis by (auto simp: glob_lit_def)
  next
    case False
    then obtain rs' where "rs = of_char c # rs'" "tok_match (glob_toks r) rs'"
      using 2(6) by (auto split: list.splits)
    with 2(5) False show ?thesis by (auto simp: glob_lit_def)
  qed
qed (simp add: glob_lit_def)

lemma glob_lit_stars: "glob_lit (g @ ''**'') = glob_lit g"
  by (induction g) (auto simp: glob_lit_def)

lemma glob_matches_lit:
  assumes "glob_matches g f"
  shows "\<exists>w. runes f = map of_char (glob_lit (glob_norm g)) @ w"
  using assms glob_lit_prefix[of "glob_norm g" "runes f"] glob_lit_prefix[of "glob_norm g @ ''**''" "runes f"]
  by (auto simp: glob_matches_def globRegexp_def glob_lit_stars Let_def split: option.splits if_splits)

lemma prefixes_comparable:
  assumes "map of_char a @ x = map (of_char :: char \<Rightarrow> nat) b @ y"
  shows "HasPrefix a b \<or> HasPrefix b a"
proof -
  from assms obtain us where "map of_char a = map of_char b @ us \<or> map (of_char :: char \<Rightarrow> nat) a @ us = map of_char b"
    by (auto simp: append_eq_append_conv2)
  then have "map of_char (take (length b) a) = map (of_char :: char \<Rightarrow> nat) b \<or> map of_char (take (length a) b) = map (of_char :: char \<Rightarrow> nat) a"
    by (metis append_eq_conv_conj length_map take_map)
  then show ?thesis by (auto simp: HasPrefix_def inj_map_eq_map[OF inj_of_char])
qed

text \<open>C40: two changes whose \<open>paths:\<close> cover a common file are reported as overlapping: when some path is
  matched by both globs, neither written with a leading \<open>./\<close> or spaces around it, \<open>globsOverlap\<close> holds.\<close>

theorem globsOverlap_conservative:
  assumes "glob_matches a f" and "glob_matches b f" and "glob_norm a = a" and "glob_norm b = b"
  shows "globsOverlap a b"
  using glob_matches_lit[OF assms(1)] glob_matches_lit[OF assms(2)] assms(3,4) prefixes_comparable
  unfolding globsOverlap_def by metis

theorem globsOverlap_conservative_witness: "globsOverlap ''internal/**'' ''internal/bus/*.go''"
proof (rule globsOverlap_conservative)
  show "glob_matches ''internal/**'' ''internal/bus/a.go''" "glob_matches ''internal/bus/*.go'' ''internal/bus/a.go''"
    "glob_norm ''internal/**'' = ''internal/**''" "glob_norm ''internal/bus/*.go'' = ''internal/bus/*.go''"
    by code_simp+
qed

text \<open>
  The condition on how the globs are written is needed: \<open>globRegexp\<close> drops a leading \<open>./\<close> and
  \<open>globsOverlap\<close> does not. And a glob that names a file outside ASCII does not match it, as the
  regular expression is written from bytes.
\<close>

theorem overlap_misses_dot:
  "glob_matches ''./src/*'' ''src/a'' \<and> glob_matches ''src/*'' ''src/a'' \<and> \<not> globsOverlap ''./src/*'' ''src/*''"
  by code_simp

theorem glob_misses_non_ascii:
  "\<not> glob_matches [CHR 0xC3, CHR 0xA9] [CHR 0xC3, CHR 0xA9] \<and> globRegexp [CHR 0xC3, CHR 0xA9] \<noteq> None"
  by code_simp

end
