(* ===== verification/CommitMsg.thy ===== *)
theory CommitMsg
  imports ChangeDoc Globs
begin

text \<open>
  The archive's squash commit (\<open>internal/apexv1/commitmsg.go\<close>): the \<open>commit:\<close> block of the
  configuration, the type of a change, the subject made from the template and the test for a subject
  that reads as one of ape's own (\<open>ReservedSubject\<close>, \<open>subjectguard.go\<close>), and the message with the
  branch's subjects and trailers. What \<open>git log\<close> prints is an argument.
\<close>

section \<open>Configuration\<close>

definition CommitTypes :: "string list" where
  "CommitTypes = [''feat'', ''fix'', ''perf'', ''refactor'', ''docs'', ''test'', ''build'', ''ci'', ''chore'']"

definition DefaultSubject :: string where "DefaultSubject = ''{type}: {title}''"
definition FallbackSubject :: string where "FallbackSubject = ''{title}''"

record commitConfig =
  ccSubject :: string
  ccHooks :: string
  ccTypes :: "string list"

datatype commit_error = BadHooks string | SubjectManyLines | SubjectPlaceholder string | NoTypes | BadType string | TypeTwice string

definition commitTypeRe :: "string \<Rightarrow> bool" where
  "commitTypeRe s \<longleftrightarrow> s \<noteq> [] \<and> is_lower (hd s) \<and> list_all (\<lambda>c. is_lower c \<or> is_digit c \<or> c = CHR ''-'') (tl s)"

fun check_types :: "string list \<Rightarrow> string list \<Rightarrow> commit_error option" where
  "check_types seen [] = None"
| "check_types seen (t # ts) =
     (if \<not> commitTypeRe t then Some (BadType t) else if t \<in> set seen then Some (TypeTwice t) else check_types (t # seen) ts)"

definition checkCommitTypes :: "bool \<Rightarrow> string list \<Rightarrow> commit_error option" where
  "checkCommitTypes present types =
     (if \<not> present then None else if types = [] then Some NoTypes else check_types [] types)"

text \<open>\<open>strings.NewReplacer\<close> with keys of which none starts another, as the code uses it.\<close>

function replace_keys :: "(string \<times> string) list \<Rightarrow> string \<Rightarrow> string" where
  "replace_keys kvs [] = []"
| "replace_keys kvs (c # r) = (case find (\<lambda>kv. fst kv \<noteq> [] \<and> HasPrefix (c # r) (fst kv)) kvs of
      Some (k, v) \<Rightarrow> v @ replace_keys kvs (drop (length k - 1) r)
    | None \<Rightarrow> c # replace_keys kvs r)"
  by pat_completeness auto
termination
  by (relation "measure (\<lambda>(kvs, s). length s)") auto

definition subject_keys :: "string \<Rightarrow> string \<Rightarrow> string \<Rightarrow> (string \<times> string) list" where
  "subject_keys ty title i = [(''{type}'', ty), (''{title}'', title), (''{id}'', i)]"

text \<open>\<open>UnmarshalYAML\<close> on the decoded block; \<open>present\<close>: the key \<open>types\<close> is there.\<close>

definition commit_unmarshal :: "bool \<Rightarrow> commitConfig \<Rightarrow> commit_error + commitConfig" where
  "commit_unmarshal present p = (case checkCommitTypes present (ccTypes p) of
      Some e \<Rightarrow> Inl e
    | None \<Rightarrow>
        let h = TrimSpace (ccHooks p) in
        if h \<noteq> [] \<and> h \<noteq> ''run'' \<and> h \<noteq> ''skip'' then Inl (BadHooks h)
        else if LF \<in> set (ccSubject p) then Inl SubjectManyLines
        else if list_ex (\<lambda>c. c = CHR ''{'' \<or> c = CHR ''}'') (replace_keys (subject_keys [] [] []) (ccSubject p))
        then Inl (SubjectPlaceholder (ccSubject p))
        else Inr (p\<lparr>ccHooks := h\<rparr>))"

definition TypeList :: "commitConfig \<Rightarrow> string list" where
  "TypeList cc = (if ccTypes cc \<noteq> [] then ccTypes cc else CommitTypes)"

definition SubjectTemplate :: "commitConfig \<Rightarrow> string" where
  "SubjectTemplate cc = (if TrimSpace (ccSubject cc) = [] then DefaultSubject else ccSubject cc)"

definition RunHooks :: "commitConfig \<Rightarrow> bool" where
  "RunHooks cc \<longleftrightarrow> ccHooks cc \<noteq> ''skip''"

section \<open>The subject\<close>

definition subjectFallback :: "change \<Rightarrow> commitConfig \<Rightarrow> bool" where
  "subjectFallback c cc \<longleftrightarrow> TrimSpace (ccSubject cc) = [] \<and> TrimSpace (mType (cMeta c)) = []"

definition typeFindings :: "string \<Rightarrow> change \<Rightarrow> commitConfig \<Rightarrow> finding list" where
  "typeFindings file c cc =
     (let t = TrimSpace (mType (cMeta c)); tmpl = SubjectTemplate cc in
      if t = [] \<and> Contains tmpl ''{type}''
      then [mk_finding file 1 (CheckMessage (TypeMissing (TrimSpace (ccSubject cc) = []) tmpl))]
      else if t \<noteq> [] \<and> t \<notin> set (TypeList cc) then [mk_finding file 1 (CheckMessage (TypeUnknown t))]
      else [])"

definition archiveSubject :: "string \<Rightarrow> change \<Rightarrow> string \<Rightarrow> string" where
  "archiveSubject tmpl c i =
     (let title = (if TrimSpace (cTitle c) = [] then titleFromSlug i else TrimSpace (cTitle c))
      in TrimSpace (replace_keys (subject_keys (TrimSpace (mType (cMeta c))) title i) tmpl))"

text \<open>\<open>strings.ToLower\<close> reaches the letters of \<open>apex\<close> from their two ASCII cases only.\<close>

definition ReservedSubject :: "string \<Rightarrow> bool" where
  "ReservedSubject s = HasPrefix (to_lower_ascii (TrimSpace s)) ''apex:''"

definition subject_of :: "change \<Rightarrow> string \<Rightarrow> commitConfig \<Rightarrow> string" where
  "subject_of c i cc = archiveSubject (if subjectFallback c cc then FallbackSubject else SubjectTemplate cc) c i"

definition reservedSubjectFindings :: "string \<Rightarrow> change \<Rightarrow> string \<Rightarrow> commitConfig \<Rightarrow> finding list" where
  "reservedSubjectFindings file c i cc =
     (if ReservedSubject (subject_of c i cc) then [mk_finding file 1 (CheckMessage (SubjectReserved (subject_of c i cc)))] else [])"

definition DefaultChangeType :: "string \<Rightarrow> string list \<Rightarrow> string" where
  "DefaultChangeType milestone types = (if milestone = ''none'' \<or> ''feat'' \<notin> set types then [] else ''feat'')"

section \<open>The message\<close>

record squash_lists =
  sqSubjects :: "string list"
  sqTrailers :: "string list"
  sqSeen :: "string list"

definition add_trailer :: "squash_lists \<Rightarrow> string \<Rightarrow> squash_lists" where
  "add_trailer st line = (if ''t:'' @ line \<in> set (sqSeen st) then st
     else st\<lparr>sqSeen := (''t:'' @ line) # sqSeen st, sqTrailers := sqTrailers st @ [line]\<rparr>)"

definition change_key :: "string \<Rightarrow> bool" where
  "change_key line = (case cut_char (CHR '':'') line of (k, _, ok) \<Rightarrow> \<not> ok \<or> EqualFold (TrimSpace k) ''Change'')"

definition squash_line :: "squash_lists \<Rightarrow> string \<Rightarrow> squash_lists" where
  "squash_line st l = (let line = TrimSpace l in if change_key line then st else add_trailer st line)"

definition record_subject :: "string \<Rightarrow> string" where
  "record_subject rec = TrimSpace (fst (cut_char (CHR 0x1F) (TrimLeft rec [LF])))"

definition record_trailers :: "string \<Rightarrow> string list" where
  "record_trailers rec = split_char LF (fst (snd (cut_char (CHR 0x1F) (TrimLeft rec [LF]))))"

definition squash_record :: "squash_lists \<Rightarrow> string \<Rightarrow> squash_lists" where
  "squash_record st rec =
     (let s = record_subject rec;
          st1 = (if s \<noteq> [] \<and> \<not> HasPrefix s ''apex:'' \<and> ''s:'' @ s \<notin> set (sqSeen st)
                 then st\<lparr>sqSeen := (''s:'' @ s) # sqSeen st, sqSubjects := sqSubjects st @ [''- '' @ s]\<rparr> else st)
      in foldl squash_line st1 (record_trailers rec))"

definition squash_parts :: "string \<Rightarrow> string list \<Rightarrow> squash_lists" where
  "squash_parts log extra =
     foldl add_trailer
       (foldl squash_record \<lparr>sqSubjects = [], sqTrailers = [], sqSeen = []\<rparr> (split_char (CHR 0x1E) log)) extra"

definition squashMessage :: "string \<Rightarrow> string \<Rightarrow> string \<Rightarrow> string list \<Rightarrow> string" where
  "squashMessage subject log i extra =
     (let st = squash_parts log extra in
      subject @ [LF, LF]
      @ (if sqSubjects st \<noteq> [] then Join (sqSubjects st) [LF] @ [LF, LF] else [])
      @ Join (sqTrailers st @ [''Change: '' @ i]) [LF] @ [LF])"

section \<open>What the message carries\<close>

definition sq_inv :: "squash_lists \<Rightarrow> bool" where
  "sq_inv st \<longleftrightarrow> distinct (sqSubjects st) \<and> distinct (sqTrailers st)
     \<and> (\<forall>s. ''s:'' @ s \<in> set (sqSeen st) \<longleftrightarrow> ''- '' @ s \<in> set (sqSubjects st))
     \<and> (\<forall>l. ''t:'' @ l \<in> set (sqSeen st) \<longleftrightarrow> l \<in> set (sqTrailers st))"

lemma add_trailer_facts:
  assumes "sq_inv st"
  shows "sq_inv (add_trailer st l)" "set (sqTrailers (add_trailer st l)) = insert l (set (sqTrailers st))"
    "sqSubjects (add_trailer st l) = sqSubjects st"
  using assms by (auto simp: sq_inv_def add_trailer_def)

lemma add_trailers_facts:
  assumes "sq_inv st"
  shows "sq_inv (foldl add_trailer st ls) \<and> set (sqTrailers (foldl add_trailer st ls)) = set ls \<union> set (sqTrailers st)
    \<and> sqSubjects (foldl add_trailer st ls) = sqSubjects st"
  using assms by (induction ls arbitrary: st) (auto simp: add_trailer_facts)

lemma squash_lines_facts:
  "foldl squash_line st ls = foldl add_trailer st (filter (\<lambda>l. \<not> change_key l) (map TrimSpace ls))"
  by (induction ls arbitrary: st) (auto simp: squash_line_def Let_def)

definition kept_subject :: "string \<Rightarrow> bool" where
  "kept_subject s \<longleftrightarrow> s \<noteq> [] \<and> \<not> HasPrefix s ''apex:''"

definition kept_trailers :: "string \<Rightarrow> string set" where
  "kept_trailers rec = {l. l \<in> TrimSpace ` set (record_trailers rec) \<and> \<not> change_key l}"

lemma squash_record_facts:
  assumes "sq_inv st"
  shows "sq_inv (squash_record st rec)
    \<and> set (sqTrailers (squash_record st rec)) = kept_trailers rec \<union> set (sqTrailers st)
    \<and> set (sqSubjects (squash_record st rec))
        = (if kept_subject (record_subject rec) then insert (''- '' @ record_subject rec) (set (sqSubjects st)) else set (sqSubjects st))"
proof -
  define s where "s = record_subject rec"
  define st1 where "st1 = (if s \<noteq> [] \<and> \<not> HasPrefix s ''apex:'' \<and> ''s:'' @ s \<notin> set (sqSeen st)
      then st\<lparr>sqSeen := (''s:'' @ s) # sqSeen st, sqSubjects := sqSubjects st @ [''- '' @ s]\<rparr> else st)"
  have i1: "sq_inv st1" "sqTrailers st1 = sqTrailers st"
    "set (sqSubjects st1) = (if kept_subject s then insert (''- '' @ s) (set (sqSubjects st)) else set (sqSubjects st))"
    using assms by (auto simp: st1_def sq_inv_def kept_subject_def)
  have "squash_record st rec = foldl add_trailer st1 (filter (\<lambda>l. \<not> change_key l) (map TrimSpace (record_trailers rec)))"
    by (simp add: squash_record_def squash_lines_facts s_def st1_def Let_def)
  then show ?thesis
    using add_trailers_facts[OF i1(1)] i1(2,3) by (auto simp: kept_trailers_def s_def)
qed

lemma squash_records_facts:
  assumes "sq_inv st"
  shows "sq_inv (foldl squash_record st recs)
    \<and> set (sqTrailers (foldl squash_record st recs)) = (\<Union>r\<in>set recs. kept_trailers r) \<union> set (sqTrailers st)
    \<and> set (sqSubjects (foldl squash_record st recs))
        = {''- '' @ record_subject r | r. r \<in> set recs \<and> kept_subject (record_subject r)} \<union> set (sqSubjects st)"
  using assms by (induction recs arbitrary: st) (auto simp: squash_record_facts)

text \<open>The squash commit keeps what the branch's commits recorded. Its body lists each subject of the branch that is
  not one of ape's own, and each trailer but \<open>Change:\<close>, once each and nothing else but the acceptances
  added; the message ends in the change's own trailer.\<close>

lemma squashMessage_keeps:
  "let st = squash_parts log extra; recs = split_char (CHR 0x1E) log in
     distinct (sqSubjects st) \<and> distinct (sqTrailers st)
     \<and> set (sqSubjects st) = {''- '' @ record_subject r | r. r \<in> set recs \<and> kept_subject (record_subject r)}
     \<and> set (sqTrailers st) = (\<Union>r\<in>set recs. kept_trailers r) \<union> set extra
     \<and> (\<exists>body. squashMessage subject log i extra = subject @ [LF, LF] @ body @ ''Change: '' @ i @ [LF])"
proof -
  let ?st0 = "\<lparr>sqSubjects = [], sqTrailers = [], sqSeen = []\<rparr>" and ?recs = "split_char (CHR 0x1E) log"
  have i0: "sq_inv ?st0" by (simp add: sq_inv_def)
  note r = squash_records_facts[OF i0, of ?recs]
  note e = add_trailers_facts[of "foldl squash_record ?st0 ?recs" extra]
  have msg: "\<exists>body. squashMessage subject log i extra = subject @ [LF, LF] @ body @ ''Change: '' @ i @ [LF]"
  proof -
    have "\<exists>b. Join (ts @ [x]) [LF] = b @ x" for ts x
      by (induction ts) (auto simp: Join_Cons)
    then obtain b where "Join (sqTrailers (squash_parts log extra) @ [''Change: '' @ i]) [LF] = b @ ''Change: '' @ i" by blast
    then show ?thesis by (auto simp: squashMessage_def Let_def)
  qed
  let ?st = "squash_parts log extra"
  have "sq_inv ?st" "set (sqTrailers ?st) = (\<Union>r\<in>set ?recs. kept_trailers r) \<union> set extra"
    "set (sqSubjects ?st) = {''- '' @ record_subject r | r. r \<in> set ?recs \<and> kept_subject (record_subject r)}"
    using r e by (auto simp: squash_parts_def)
  then show ?thesis unfolding Let_def sq_inv_def using msg by blast
qed

end
