(* ===== verification/ChangeCheck.thy ===== *)
theory ChangeCheck
  imports ChangePlan MergeFacts CommitMsg
begin

text \<open>
  \<open>ape change check\<close> (\<open>internal/apexv1/changes.go\<close>, with \<open>plantime.go\<close> and \<open>adviseFindings\<close> of
  \<open>advise.go\<close>): every rule a \<open>change.md\<close> is held to before it starts, against its own shape, the
  caps, the roadmap and the living specs. The findings of one call are a list in the order the code
  appends them. What it reads besides the change and the specs is the record \<open>check_env\<close>: the
  configuration, the size of \<open>design.md\<close>, the state file, the milestones of the roadmap, the
  decisions on disk, what the approvals froze, and the files an advise entry loads.
\<close>

section \<open>Inputs\<close>

datatype state_file = StateAbsent | StateBad | StateRead status

record check_env =
  ceCaps :: caps
  ceDesign :: "(string \<times> nat) option"
  ceState :: state_file
  ceCommit :: commitConfig
  ceMilestones :: "string list option"
  ceDecision :: "string \<Rightarrow> bool"
  ceFrozen :: "string \<Rightarrow> (string \<times> string) list \<times> (string \<times> string) list"
  ceDesignTools :: "string list"
  ceReviewTools :: "string list"
  ceAdvise :: "string \<Rightarrow> (nat \<times> string list) option"

definition finding_at :: "string \<Rightarrow> nat \<Rightarrow> check_message \<Rightarrow> finding" where
  "finding_at file line msg = mk_finding file line (CheckMessage msg)"

text \<open>The findings of one rule: one finding when it is broken.\<close>

definition found :: "bool \<Rightarrow> finding \<Rightarrow> finding list" where
  "found b f = (if b then [f] else [])"

lemma found_nil [simp]: "found b f = [] \<longleftrightarrow> \<not> b"
  by (simp add: found_def)

section \<open>Deltas against the specs\<close>

text \<open>\<open>reqHasLeadText\<close> over the lines of a requirement.\<close>

fun lead_text :: "string list \<Rightarrow> bool" where
  "lead_text [] = False"
| "lead_text (l # ls) =
     (let t = TrimSpace l in
      if HasPrefix t ''#### '' then False else if t \<noteq> [] \<and> \<not> HasPrefix t ''#'' then True else lead_text ls)"

definition reqHasLeadText :: "string \<Rightarrow> bool" where
  "reqHasLeadText txt = lead_text (split_char LF txt)"

definition loss_message :: "delta \<Rightarrow> loss \<Rightarrow> check_message" where
  "loss_message d l = (case l of
      DropsScenario s \<Rightarrow> ModifiedDrops (dCapability d) (dName d) s
    | ChangesCheck s was now \<Rightarrow> ModifiedRechecks (dCapability d) (dName d) s was now)"

definition spec_of :: "project \<Rightarrow> string \<Rightarrow> spec_doc" where
  "spec_of p cap = (case LoadSpec p cap of Some (s, _) \<Rightarrow> s
     | None \<Rightarrow> \<lparr>spTitle = [], spPurpose = [], spPreamble = [], spRequirements = [], spOther = []\<rparr>)"

definition purpose_findings :: "string \<Rightarrow> bool \<Rightarrow> delta \<Rightarrow> finding list" where
  "purpose_findings file specExists d =
     (if dPurposeLine d = 0 then []
      else if specExists then [finding_at file (dPurposeLine d) (PurposeOfExisting (dCapability d))]
      else if dPurpose d = [] then [finding_at file (dPurposeLine d) PurposeEmpty]
      else if LF \<in> set (dPurpose d) \<and> \<not> reqHasLeadText (rqText (dReq d)) then [finding_at file (dPurposeLine d) PurposeTookText]
      else [])"

text \<open>The switch on a delta's operation.\<close>

definition delta_op_findings :: "(string \<Rightarrow> string) \<Rightarrow> string \<Rightarrow> project \<Rightarrow> delta \<Rightarrow> finding list" where
  "delta_op_findings lower file p d =
     (let specExists = (LoadSpec p (dCapability d) \<noteq> None); spec = spec_of p (dCapability d);
          existing = (if specExists then Find spec (dName d) else None); near = nearMiss lower spec (dName d)
      in if dOp d = OpAdded then
           purpose_findings file specExists d
           @ (if existing \<noteq> None then [finding_at file (dLine d) (AddedAlready (dName d) (dCapability d))]
              else found (specExists \<and> near \<noteq> []) (finding_at file (dLine d) (AddedNear (dName d) near (dCapability d))))
           @ validateRequirementBody file (dReq d)
         else if dOp d = OpModified then
           (case existing of
              None \<Rightarrow> [finding_at file (dLine d) (ModifiedAbsent (dName d) (dCapability d) near)]
            | Some r \<Rightarrow> map (\<lambda>l. finding_at file (dLine d) (loss_message d l)) (scenarioLoss r (dReq d)))
           @ validateRequirementBody file (dReq d)
         else if dOp d = OpRemoved then
           found (existing = None) (finding_at file (dLine d) (RemovedAbsent (dName d) (dCapability d) near))
           @ found (dReason d = []) (finding_at file (dLine d) RemovedNoReason)
           @ found (dExtra d > 0) (finding_at file (dExtra d) RemovedExtra)
         else [])"

text \<open>One delta; \<open>seen\<close> is the line of each requirement named so far, the newest first.\<close>

fun deltas_findings ::
  "(string \<Rightarrow> string) \<Rightarrow> string \<Rightarrow> project \<Rightarrow> string set \<Rightarrow> (reqKey \<times> nat) list \<Rightarrow> delta list \<Rightarrow> finding list" where
  "deltas_findings lower file p touches seen [] = []"
| "deltas_findings lower file p touches seen (d # ds) =
     (if dCapability d = [] \<or> \<not> slugRe (dCapability d)
      then finding_at file (dLine d) (DeltaBadCapability (dCapability d)) # deltas_findings lower file p touches seen ds
      else found (dCapability d \<notin> touches) (finding_at file (dLine d) (DeltaNotTouched (dCapability d)))
           @ (if dName d = [] then finding_at file (dLine d) DeltaNoName # deltas_findings lower file p touches seen ds
              else (case map_of seen (key d) of
                      None \<Rightarrow> [] | Some prev \<Rightarrow> [finding_at file (dLine d) (DeltaTwice (dCapability d) (dName d) prev)])
                   @ delta_op_findings lower file p d
                   @ deltas_findings lower file p touches ((key d, dLine d) # seen) ds))"

text \<open>\<open>emptiedCapabilities\<close>, as the test of one capability, and \<open>checkRetire\<close>.\<close>

definition removed_names :: "change \<Rightarrow> string \<Rightarrow> string set" where
  "removed_names c cap = dName ` set (filter (\<lambda>d. dOp d = OpRemoved \<and> dCapability d = cap) (cDeltas c))"

definition kept_cap :: "change \<Rightarrow> string \<Rightarrow> bool" where
  "kept_cap c cap \<longleftrightarrow> list_ex (\<lambda>d. dOp d \<noteq> OpRemoved \<and> dCapability d = cap) (cDeltas c)"

definition emptied :: "project \<Rightarrow> change \<Rightarrow> string \<Rightarrow> bool" where
  "emptied p c cap \<longleftrightarrow> removed_names c cap \<noteq> {} \<and> \<not> kept_cap c cap \<and>
     (case LoadSpec p cap of None \<Rightarrow> False
      | Some (spec, _) \<Rightarrow> spRequirements spec \<noteq> [] \<and> list_all (\<lambda>r. rqName r \<in> removed_names c cap) (spRequirements spec))"

definition emptiedCapabilities :: "project \<Rightarrow> change \<Rightarrow> string list" where
  "emptiedCapabilities p c = filter (emptied p c) (dedup_acc [] (map dCapability (cDeltas c)))"

definition checkRetire :: "string \<Rightarrow> project \<Rightarrow> change \<Rightarrow> finding list" where
  "checkRetire file p c =
     map (\<lambda>cap. finding_at file 1 (RetireUnlisted cap))
       (filter (\<lambda>cap. cap \<notin> set (mRetire (cMeta c))) (sort (emptiedCapabilities p c)))
     @ map (\<lambda>cap. finding_at file 1 (RetireNotEmptied cap)) (filter (\<lambda>cap. \<not> emptied p c cap) (mRetire (cMeta c)))"

definition checkDeltas :: "(string \<Rightarrow> string) \<Rightarrow> string \<Rightarrow> project \<Rightarrow> change \<Rightarrow> string set \<Rightarrow> finding list" where
  "checkDeltas lower file p c touches = deltas_findings lower file p touches [] (cDeltas c) @ checkRetire file p c"

definition mergedSpecFindings :: "(string \<Rightarrow> string) \<Rightarrow> string \<Rightarrow> project \<Rightarrow> caps \<Rightarrow> change \<Rightarrow> finding list" where
  "mergedSpecFindings lower file p cfg c =
     (let (updates, conflicts) = MergeDelta lower p c; lim = capSpec (Limits cfg) in
      if conflicts \<noteq> [] then []
      else map (\<lambda>u. finding_at file 0 (MergedOverCap (suPath u) (length (suContent u)) lim))
             (filter (\<lambda>u. \<not> suRetired u \<and> int (length (suContent u)) > lim) updates))"

section \<open>Tasks\<close>

text \<open>\<open>humanReviewLikeRe\<close>: \<open>(?i)^human[- ]review\b\<close>.\<close>

definition human_like :: "string \<Rightarrow> bool" where
  "human_like s \<longleftrightarrow> to_lower_ascii (take 12 s) \<in> {''human-review'', ''human review''}
     \<and> (case drop 12 s of [] \<Rightarrow> True | c # _ \<Rightarrow> \<not> is_word_char c)"

definition malformedHumanReview :: "string \<Rightarrow> bool" where
  "malformedHumanReview check = (let s = TrimSpace check in s \<noteq> HumanReview \<and> human_like s)"

fun tasks_findings :: "string \<Rightarrow> string list \<Rightarrow> task list \<Rightarrow> finding list" where
  "tasks_findings file ids [] = []"
| "tasks_findings file ids (t # ts) =
     found (tID t \<in> set ids) (finding_at file (tLine t) (TaskDuplicate (tID t)))
     @ found (tCheck t = [] \<and> \<not> tRegression t) (finding_at file (tLine t) (TaskNoCheck (tID t)))
     @ found (malformedHumanReview (tCheck t)) (finding_at file (tLine t) (TaskHumanMalformed (tID t) (tCheck t)))
     @ tasks_findings file (tID t # ids) ts"

definition toolFindings :: "string \<Rightarrow> check_env \<Rightarrow> change \<Rightarrow> finding list" where
  "toolFindings file E c =
     map (\<lambda>t. finding_at file (tLine t) (ToolUnknown (tID t) (tTool t)))
       (filter (\<lambda>t. tTool t \<noteq> [] \<and> tTool t \<notin> set (ceDesignTools E)) (cTasks c))
     @ map (\<lambda>n. finding_at file 1 (ReviewToolUnknown n)) (filter (\<lambda>n. n \<notin> set (ceReviewTools E)) (mReviewTools (cMeta c)))"

definition guardedConfigKeys :: "string list" where
  "guardedConfigKeys = [''limits'', ''checks'', ''retries'', ''requires'', ''timeouts'', ''caps'', ''regression'', ''commit'',
     ''evidence'', ''marketplaces'', ''plugins'', ''tools'', ''human_review'', ''release'', ''secrets'']"

definition config_left :: "char option \<Rightarrow> bool" where
  "config_left prev = (case prev of None \<Rightarrow> True | Some c \<Rightarrow> \<not> is_word_char c \<and> c \<notin> set ''./-'')"

definition config_right :: "string \<Rightarrow> bool" where
  "config_right s = (case s of [] \<Rightarrow> True | c # _ \<Rightarrow> \<not> is_word_char c \<and> c \<noteq> CHR ''-'')"

fun config_file_from :: "char option \<Rightarrow> string \<Rightarrow> bool" where
  "config_file_from prev [] = False"
| "config_file_from prev (c # r) =
     (config_left prev \<and> list_ex (\<lambda>n. HasPrefix (c # r) n \<and> config_right (drop (length n) (c # r))) [''_apex/config.yaml'', ''_apex/config.yml'']
      \<or> config_file_from (Some c) r)"

text \<open>
  What follows a guarded key: a dotted tail, a backquote, spaces, a colon and no second colon. Every
  piece is followed by a byte that cannot be part of it, so the longest reading is the only one.
\<close>

definition key_tail :: "char \<Rightarrow> bool" where
  "key_tail c \<longleftrightarrow> is_lower c \<or> c = CHR ''_'' \<or> c = CHR ''.''"

definition guarded_rest :: "string \<Rightarrow> bool" where
  "guarded_rest s =
     (let s1 = (case s of c # r \<Rightarrow> if c = CHR ''.'' \<and> r \<noteq> [] \<and> key_tail (hd r) then dropWhile key_tail r else s | [] \<Rightarrow> s);
          s2 = TrimPrefix s1 ''`'';
          s3 = dropWhile re_space s2
      in (case s3 of [] \<Rightarrow> False | c # r \<Rightarrow> c = CHR '':'' \<and> (r = [] \<or> hd r \<noteq> CHR '':'')))"

definition guarded_left :: "char option \<Rightarrow> bool" where
  "guarded_left prev = (case prev of None \<Rightarrow> True | Some c \<Rightarrow> \<not> is_word_char c \<and> c \<notin> set ''.-'')"

fun guarded_key :: "char option \<Rightarrow> string \<Rightarrow> string option" where
  "guarded_key prev [] = None"
| "guarded_key prev (c # r) =
     (case (if guarded_left prev then find (\<lambda>k. HasPrefix (c # r) k \<and> guarded_rest (drop (length k) (c # r))) guardedConfigKeys else None) of
        Some k \<Rightarrow> Some k
      | None \<Rightarrow> guarded_key (Some c) r)"

definition guardedConfigTaskFindings :: "string \<Rightarrow> change \<Rightarrow> finding list" where
  "guardedConfigTaskFindings file c = List.map_filter (\<lambda>t.
     if config_file_from None (tWhat t)
     then map_option (\<lambda>k. finding_at file (tLine t) (GuardedConfigTask (tID t) k)) (guarded_key None (tWhat t))
     else None) (cTasks c)"

section \<open>What a person approved, and what a session reads\<close>

definition frozen_hits :: "(string \<times> string) list \<Rightarrow> string list" where
  "frozen_hits fs = sort (map (\<lambda>(f, m). f @ '' ('' @ m @ '''s gate)'') fs)"

definition namedFiles :: nat where "namedFiles = 4"

definition path_gate_findings ::
  "string \<Rightarrow> (string \<times> string) list \<Rightarrow> (string \<times> string) list \<Rightarrow> string \<Rightarrow> finding list" where
  "path_gate_findings file files globs g = (case globRegexp g of
      None \<Rightarrow> []
    | Some re \<Rightarrow>
        (let hit = filter (\<lambda>(f, m). tok_match re (runes f)) files;
             ghit = filter (\<lambda>(fg, m). globsMeet g fg) globs
         in if hit \<noteq> [] then [finding_at file 1 (TouchesGate g (limit (frozen_hits hit) namedFiles) True)]
            else if ghit \<noteq> [] then [finding_at file 1 (TouchesGate g (limit (frozen_hits ghit) namedFiles) False)]
            else []))"

definition gateFrozenFindings :: "string \<Rightarrow> check_env \<Rightarrow> change \<Rightarrow> finding list" where
  "gateFrozenFindings file E c =
     (if mPaths (cMeta c) = [] \<or> mMilestone (cMeta c) = [] then []
      else let (files, globs) = ceFrozen E (mMilestone (cMeta c)) in
           if files = [] \<and> globs = [] then []
           else concat (map (path_gate_findings file files globs) (mPaths (cMeta c))))"

definition AdviseSessions :: "string list" where
  "AdviseSessions = [''change'', ''apply'', ''review'']"

definition session_bytes :: "check_env \<Rightarrow> change \<Rightarrow> string \<Rightarrow> nat" where
  "session_bytes E c s = sum_list (map (\<lambda>n. case ceAdvise E n of None \<Rightarrow> 0
     | Some (n_bytes, fors) \<Rightarrow> n_bytes * count_list fors s) (mAdvise (cMeta c)))"

definition session_readers :: "check_env \<Rightarrow> change \<Rightarrow> string \<Rightarrow> string list" where
  "session_readers E c s = concat (map (\<lambda>n. case ceAdvise E n of None \<Rightarrow> []
     | Some (n_bytes, fors) \<Rightarrow> replicate (count_list fors s) n) (mAdvise (cMeta c)))"

definition advise_entry_findings :: "string \<Rightarrow> check_env \<Rightarrow> bool \<Rightarrow> string \<Rightarrow> finding list" where
  "advise_entry_findings file E perEntry n = (case ceAdvise E n of
      None \<Rightarrow> [finding_at file 1 (AdviseUnknown n)]
    | Some (n_bytes, fors) \<Rightarrow> found (perEntry \<and> int n_bytes > capAdvise (Limits (ceCaps E)))
        (finding_at file 1 (AdviseOverCap n n_bytes (capAdvise (Limits (ceCaps E))))))"

definition adviseFindings :: "string \<Rightarrow> check_env \<Rightarrow> bool \<Rightarrow> change \<Rightarrow> finding list" where
  "adviseFindings file E perEntry c =
     concat (map (advise_entry_findings file E perEntry) (mAdvise (cMeta c)))
     @ concat (map (\<lambda>s. found (mAdvise (cMeta c) \<noteq> [] \<and> int (session_bytes E c s) > capAdviseSession (Limits (ceCaps E)))
         (finding_at file 1 (AdviseSessionOverCap s (session_bytes E c s) (session_readers E c s) (capAdviseSession (Limits (ceCaps E))))))
         AdviseSessions)"

section \<open>The check\<close>

definition frontmatter_findings :: "string \<Rightarrow> check_env \<Rightarrow> bool \<Rightarrow> string \<Rightarrow> change \<Rightarrow> finding list" where
  "frontmatter_findings file E withCaps i c =
     (case cMetaErr c of
        None \<Rightarrow> []
      | Some NoFrontmatter \<Rightarrow> [finding_at file 1 FrontmatterMissing]
      | Some FrontmatterUnparsed \<Rightarrow> [finding_at file 1 FrontmatterBad])
     @ map (\<lambda>k. finding_at file 1 (check_message.UnknownKey k)) (cUnknownKeys c)
     @ (case cBadDocs c of
          None \<Rightarrow> []
        | Some (BadScalar v) \<Rightarrow> [finding_at file 1 (BadDocsValue (Some v))]
        | Some BadList \<Rightarrow> [finding_at file 1 (BadDocsValue None)])
     @ (if withCaps \<or> ceState E = StateAbsent \<or> ceState E = StateBad \<or> ceState E = StateRead Draft \<or> \<not> subjectFallback c (ceCommit E)
        then typeFindings file c (ceCommit E) else [])
     @ reservedSubjectFindings file c i (ceCommit E)
     @ found (mID (cMeta c) \<noteq> i) (finding_at file 1 (IDMismatch (mID (cMeta c)) i))
     @ found (\<not> ChangeIDRe i) (finding_at file 1 BadChangeID)
     @ (let m = mMilestone (cMeta c) in
        if m = [] then [finding_at file 1 NoMilestone]
        else if m = ''none'' then []
        else found (case ceMilestones E of None \<Rightarrow> True | Some ms \<Rightarrow> m \<notin> set ms) (finding_at file 1 (MilestoneUnknown m)))
     @ found (mTouches (cMeta c) = []) (finding_at file 1 NoTouches)
     @ map (\<lambda>t. finding_at file 1 (BadTouches t)) (filter (\<lambda>t. \<not> slugRe t) (mTouches (cMeta c)))
     @ concat (map (\<lambda>d. if \<not> adrIDRe d then [finding_at file 1 (BadDecision d)]
                        else found (\<not> ceDecision E d) (finding_at file 1 (DecisionMissing d))) (mDecisions (cMeta c)))
     @ map (\<lambda>g. finding_at file 1 (BadGlob g)) (filter (\<lambda>g. \<not> glob_valid g) (mPaths (cMeta c)))"

definition size_findings :: "string \<Rightarrow> check_env \<Rightarrow> bool \<Rightarrow> change \<Rightarrow> finding list" where
  "size_findings file E withCaps c =
     (let cs = Limits (ceCaps E) in
      (if withCaps then OverCeiling (ceCaps E) else [])
      @ found (int (PlanBytes c) > capChangeMD cs) (finding_at file 0 (ChangeOverCap (PlanBytes c) (capChangeMD cs)))
      @ found (int (length (cRaw c)) > changeMDCeiling) (finding_at file 0 (ChangeOverCeiling (length (cRaw c))))
      @ (case ceDesign E of
           None \<Rightarrow> []
         | Some (df, n) \<Rightarrow> found (int n > capDesignMD cs) (finding_at df 0 (DesignOverCap n (capDesignMD cs))))
      @ (case ceState E of StateAbsent \<Rightarrow> [finding_at file 0 NoStateFile] | StateBad \<Rightarrow> [finding_at file 0 StateUnreadable]
         | StateRead _ \<Rightarrow> []))"

definition section_findings :: "string \<Rightarrow> change \<Rightarrow> string \<Rightarrow> finding list" where
  "section_findings file c want = (case sectionOf c want of
      None \<Rightarrow> [finding_at file 0 (SectionMissing want)]
    | Some s \<Rightarrow> found (want \<noteq> ''Delta'' \<and> want \<noteq> ''Tasks'' \<and> \<not> hasProse (secBody s)) (finding_at file (secLine s) (SectionEmpty want)))"

definition checkChange ::
  "(string \<Rightarrow> string) \<Rightarrow> check_env \<Rightarrow> project \<Rightarrow> bool \<Rightarrow> string \<Rightarrow> string \<Rightarrow> change option \<Rightarrow> finding list" where
  "checkChange lower E p withCaps file i doc = (case doc of
      None \<Rightarrow> [finding_at file 0 ChangeMissing]
    | Some c \<Rightarrow>
        size_findings file E withCaps c
        @ frontmatter_findings file E withCaps i c
        @ guardedConfigTaskFindings file c
        @ gateFrozenFindings file E c
        @ found (cTitle c = []) (finding_at file 0 NoTitle)
        @ concat (map (section_findings file c) [''Why'', ''Out of scope'', ''Delta'', ''Tasks''])
        @ cParse c
        @ (case sectionOf c ''Delta'' of None \<Rightarrow> []
           | Some s \<Rightarrow> found (cDeltas c = [] \<and> cDeltaNone c = []) (finding_at file (secLine s) DeltaEmpty))
        @ checkDeltas lower file p c (set (mTouches (cMeta c)))
        @ mergedSpecFindings lower file p (ceCaps E) c
        @ (case sectionOf c ''Tasks'' of None \<Rightarrow> [] | Some s \<Rightarrow> found (cTasks c = []) (finding_at file (secLine s) TasksEmpty))
        @ tasks_findings file [] (cTasks c)
        @ toolFindings file E c
        @ adviseFindings file E withCaps c)"

section \<open>Overlapping changes\<close>

record overlap =
  ovWith :: string
  ovTouches :: "string list"
  ovPaths :: "string list"

definition change_overlap :: "string list \<Rightarrow> string list \<Rightarrow> string \<times> change option \<times> status option \<Rightarrow> overlap option" where
  "change_overlap touches paths = (\<lambda>(i, doc, st). case (doc, st) of
      (Some c, Some s) \<Rightarrow>
        if s = Archived then None
        else let ts = concat (map (\<lambda>t. filter (\<lambda>u. t = u) (mTouches (cMeta c))) touches);
                 ps = concat (map (\<lambda>g. map (\<lambda>h. g @ '' ~ '' @ h) (filter (globsOverlap g) (mPaths (cMeta c)))) paths)
             in if ts \<noteq> [] \<or> ps \<noteq> [] then Some \<lparr>ovWith = i, ovTouches = ts, ovPaths = ps\<rparr> else None
    | _ \<Rightarrow> None)"

definition overlaps :: "(string \<times> change option \<times> status option) list \<Rightarrow> string \<Rightarrow> string list \<Rightarrow> string list \<Rightarrow> overlap list" where
  "overlaps cs i touches paths = List.map_filter (change_overlap touches paths) (filter (\<lambda>x. fst x \<noteq> i) cs)"

end
