(* ===== verification/CheckFacts.thy ===== *)
theory CheckFacts
  imports ChangeCheck
begin

text \<open>
  What a clean \<open>ape change check\<close> promises: the delta merges into the specs it was checked
  against, within their cap, and every scenario and task the change will be verified by has its
  command.
\<close>

section \<open>Deltas of distinct requirements\<close>

lemma find_lookup: "find (\<lambda>r. rqName r = n) rs = req_lookup rs n"
  by (induction rs) auto

lemma Find_lookup: "Find s n = req_lookup (spRequirements s) n"
  by (simp add: Find_def find_lookup)

lemma applies_cong: "m (dName d) = m' (dName d) \<Longrightarrow> applies m d = applies m' d"
  by (simp add: applies_def)

lemma lookup_delete_other: "n \<noteq> k \<Longrightarrow> req_lookup (req_delete rs k) n = req_lookup rs n"
  by (induction rs) auto

lemma exec_lookup:
  assumes "wf_delta d" and "applies (req_lookup rs) d"
  shows "n \<noteq> dName d \<Longrightarrow> req_lookup (rs.exec rs (delta_op_of d)) n = req_lookup rs n"
    and "dOp d \<noteq> OpRemoved \<Longrightarrow> req_lookup (rs.exec rs (delta_op_of d)) (dName d) \<noteq> None"
  using assms rqName_live_req[OF assms(1)] lookup_replace[of rs "live_req d"]
  by (auto simp: delta_op_of_def applies_def wf_delta_def req_insert_def req_lookup_snoc lookup_delete_other split: option.splits if_splits)

text \<open>
  Deltas that each apply to the spec, no two of one requirement, apply one after another: each leaves
  the other requirements alone.
\<close>

lemma deltas_apply:
  assumes "list_all wf_delta ds" and "distinct (map dName ds)"
    and "\<forall>d\<in>set ds. applies (req_lookup (spRequirements spec)) d"
  shows "\<exists>spec' u'. foldl (apply_delta lower cap) (spec, u, cs) ds = (spec', u', cs)
    \<and> (\<forall>n. n \<notin> dName ` set ds \<longrightarrow> req_lookup (spRequirements spec') n = req_lookup (spRequirements spec) n)
    \<and> (\<forall>d\<in>set ds. dOp d \<noteq> OpRemoved \<longrightarrow> req_lookup (spRequirements spec') (dName d) \<noteq> None)"
  using assms
proof (induction ds arbitrary: spec u)
  case (Cons d ds)
  let ?spec = "spec\<lparr>spRequirements := rs.exec (spRequirements spec) (delta_op_of d)\<rparr>"
  have w: "wf_delta d" "applies (req_lookup (spRequirements spec)) d" using Cons.prems by simp_all
  have "applies (req_lookup (spRequirements ?spec)) d'" if "d' \<in> set ds" for d'
    using that Cons.prems exec_lookup(1)[OF w, of "dName d'"] applies_cong[of "req_lookup (spRequirements ?spec)" d' "req_lookup (spRequirements spec)"]
    by (metis distinct.simps(2) imageI list.set_intros(2) list.set_map list.simps(9) spec_doc.select_convs(4) spec_doc.surjective spec_doc.update_convs(4))
  with Cons.IH[of ?spec "bump d u"] Cons.prems obtain spec' u' where IH:
    "foldl (apply_delta lower cap) (?spec, bump d u, cs) ds = (spec', u', cs)"
    "\<forall>n. n \<notin> dName ` set ds \<longrightarrow> req_lookup (spRequirements spec') n = req_lookup (spRequirements ?spec) n"
    "\<forall>d\<in>set ds. dOp d \<noteq> OpRemoved \<longrightarrow> req_lookup (spRequirements spec') (dName d) \<noteq> None" by auto
  have "req_lookup (spRequirements spec') (dName d) = req_lookup (spRequirements ?spec) (dName d)"
    using IH(2) Cons.prems(2) by simp
  then have "dOp d \<noteq> OpRemoved \<Longrightarrow> req_lookup (spRequirements spec') (dName d) \<noteq> None" using exec_lookup(2)[OF w] by simp
  then show ?case using IH exec_lookup(1)[OF w] apply_delta_ok[OF w, of lower cap u cs] by auto
qed simp

section \<open>What the rules on deltas give\<close>

lemma deltas_findings_nil:
  assumes "deltas_findings lower file p touches seen ds = []"
  shows "distinct (map key ds) \<and> (\<forall>d\<in>set ds. key d \<notin> fst ` set seen \<and> slugRe (dCapability d) \<and> dCapability d \<in> touches
     \<and> delta_op_findings lower file p d = [])"
  using assms
proof (induction ds arbitrary: seen)
  case (Cons d ds)
  then have c: "slugRe (dCapability d)" "dCapability d \<in> touches" "map_of seen (key d) = None"
    "delta_op_findings lower file p d = []" "deltas_findings lower file p touches ((key d, dLine d) # seen) ds = []"
    by (auto split: if_splits option.splits)
  from Cons.IH[OF c(5)] c(1-4) show ?case by (auto simp: map_of_eq_None_iff)
qed simp

lemma base_lookup:
  "req_lookup (spRequirements (base_spec p c cap)) n = (if LoadSpec p cap \<noteq> None then Find (spec_of p cap) n else None)"
  by (auto simp: base_spec_def spec_of_def Find_lookup new_spec_def split: option.split)

lemma scenarioLoss_live [simp]: "scenarioLoss r (live_req d) = scenarioLoss r (dReq d)"
  by (simp add: scenarioLoss_def live_req_def)

lemma delta_op_applies:
  assumes "wf_delta d" and "delta_op_findings lower file p d = []"
  shows "applies (req_lookup (spRequirements (base_spec p c (dCapability d)))) d"
  using assms
  by (auto simp: delta_op_findings_def applies_def base_lookup wf_delta_def Let_def split: if_splits option.splits)

lemma delta_op_validated:
  assumes "wf_delta d" and "delta_op_findings lower file p d = []" and "dOp d \<noteq> OpRemoved"
  shows "validateRequirementBody file (dReq d) = []"
  using assms by (auto simp: delta_op_findings_def wf_delta_def Let_def split: if_splits option.splits)

lemma distinct_names: "distinct (map key ds) \<Longrightarrow> \<forall>d\<in>set ds. dCapability d = cap \<Longrightarrow> distinct (map dName ds)"
  by (induction ds) (auto simp: key_def)

lemma merge_cap_clean:
  assumes w: "list_all wf_delta (cDeltas c)" and f: "deltas_findings lower file p touches [] (cDeltas c) = []"
    and r: "\<forall>cap. emptied p c cap \<longrightarrow> cap \<in> set (mRetire (cMeta c))" and cap: "cap \<in> dCapability ` set (cDeltas c)"
  shows "snd (merge_cap lower p c cap) = []"
proof -
  note nil = deltas_findings_nil[OF f]
  let ?ds = "deltas_of c cap" and ?base = "base_spec p c cap"
  have ds: "set ?ds = {d \<in> set (cDeltas c). dCapability d = cap}" by (auto simp: deltas_of_def)
  have "distinct (map key ?ds)" using nil by (simp add: deltas_of_def distinct_map_filter)
  then have dn: "distinct (map dName ?ds)" using distinct_names[of ?ds cap] ds by simp
  have wf: "list_all wf_delta ?ds" using w ds by (auto simp: list_all_iff)
  have ap: "\<forall>d\<in>set ?ds. applies (req_lookup (spRequirements ?base)) d"
    using delta_op_applies[of _ lower "file" p c] nil wf ds by (auto simp: list_all_iff)
  obtain spec' u' where o: "applyDeltas lower cap ?base ?ds (start_update p cap) = (spec', u', [])"
    "\<forall>n. n \<notin> dName ` set ?ds \<longrightarrow> req_lookup (spRequirements spec') n = req_lookup (spRequirements ?base) n"
    "\<forall>d\<in>set ?ds. dOp d \<noteq> OpRemoved \<longrightarrow> req_lookup (spRequirements spec') (dName d) \<noteq> None"
    using deltas_apply[OF wf dn ap, of lower cap "start_update p cap" "[]"] unfolding applyDeltas_def by blast
  have "cap \<in> set (mRetire (cMeta c))" if e: "spRequirements spec' = []" "LoadSpec p cap \<noteq> None"
  proof -
    have rem: "\<forall>d\<in>set ?ds. dOp d = OpRemoved" using o(3) e(1) by auto
    obtain s t where s: "LoadSpec p cap = Some (s, t)" using e(2) by auto
    then have base: "?base = s" by (simp add: base_spec_def)
    have names: "rqName q \<in> removed_names c cap" if "q \<in> set (spRequirements s)" for q
    proof (rule ccontr)
      assume "rqName q \<notin> removed_names c cap"
      then have "rqName q \<notin> dName ` set ?ds" using rem ds by (auto simp: removed_names_def)
      then have "req_lookup (spRequirements s) (rqName q) = None" using o(2) e(1) base by simp
      then show False using that by (simp add: req_lookup_None)
    qed
    obtain d where d: "d \<in> set ?ds" using cap ds by auto
    then have "req_lookup (spRequirements s) (dName d) \<noteq> None" using ap rem base by (auto simp: applies_def split: option.splits)
    then have "spRequirements s \<noteq> []" by auto
    moreover have "\<not> kept_cap c cap" using rem ds by (auto simp: kept_cap_def list_ex_iff)
    moreover have "removed_names c cap \<noteq> {}" using d rem ds by (auto simp: removed_names_def)
    ultimately have "emptied p c cap" using names s by (auto simp: emptied_def list_all_iff)
    then show ?thesis using r by blast
  qed
  then show ?thesis using o(1) by (auto simp: merge_cap_def)
qed

lemma checkRetire_nil:
  assumes "checkRetire file p c = []" shows "\<forall>cap. emptied p c cap \<longrightarrow> cap \<in> set (mRetire (cMeta c))"
proof (intro allI impI)
  fix cap assume e: "emptied p c cap"
  then have "cap \<in> dCapability ` set (cDeltas c)" by (auto simp: emptied_def removed_names_def)
  then have "cap \<in> set (emptiedCapabilities p c)" using e by (auto simp: emptiedCapabilities_def set_dedup_acc)
  then show "cap \<in> set (mRetire (cMeta c))" using assms by (auto simp: checkRetire_def filter_empty_conv)
qed

lemma checkDeltas_merges:
  assumes "list_all wf_delta (cDeltas c)" and "checkDeltas lower file p c touches = []"
  shows "snd (MergeDelta lower p c) = []"
proof -
  have "deltas_findings lower file p touches [] (cDeltas c) = []" "checkRetire file p c = []"
    using assms(2) by (auto simp: checkDeltas_def)
  then have "snd (merge_cap lower p c cap) = []" if "cap \<in> set (delta_caps c)" for cap
    using merge_cap_clean[OF assms(1) _ checkRetire_nil] that by (auto simp: delta_caps_def set_dedup_acc)
  then show ?thesis by (auto simp: MergeDelta_def Let_def)
qed

lemma tasks_findings_nil:
  "tasks_findings file ids ts = [] \<Longrightarrow> distinct (map tID ts) \<and> tID ` set ts \<inter> set ids = {}
     \<and> (\<forall>t\<in>set ts. (tCheck t \<noteq> [] \<or> tRegression t) \<and> \<not> malformedHumanReview (tCheck t))"
  by (induction ts arbitrary: ids) fastforce+

definition one_check :: "scenario \<Rightarrow> bool" where
  "one_check s \<longleftrightarrow> (\<exists>cmd. scChecks s = [cmd] \<and> cmd \<noteq> [])"

lemma scenario_one_check: "scenario_findings file s = [] \<Longrightarrow> one_check s"
  by (cases "scChecks s"; cases "tl (scChecks s)") (auto simp: scenario_findings_def one_check_def split: if_splits)

lemma validated_one_check:
  "validateRequirementBody file r = [] \<Longrightarrow> rqScenarios r \<noteq> [] \<and> list_all one_check (rqScenarios r)"
  by (auto simp: validateRequirementBody_def list_all_iff intro: scenario_one_check split: if_splits)

section \<open>A checked change\<close>

text \<open>C37: a change that passes \<open>ape change check\<close> is one its loop can finish. Its delta merges into the specs it was
  checked against with no conflict and no spec over its cap; every requirement it adds or modifies is of
  a capability the change says it touches (so verify runs its scenarios) and has a scenario, each with
  exactly one check; its tasks have distinct ids and something to run or to accept; and the subject its
  archive commit would carry is not one of ape's own.\<close>

theorem checked_change_sound:
  assumes "c = ParseChange y file doc" and "checkChange lower E p withCaps file i (Some c) = []"
  shows "snd (MergeDelta lower p c) = []
    \<and> (\<forall>u\<in>set (fst (MergeDelta lower p c)). suRetired u \<or> int (length (suContent u)) \<le> capSpec (Limits (ceCaps E)))
    \<and> (\<forall>d\<in>set (cDeltas c). dCapability d \<in> set (mTouches (cMeta c))
         \<and> (dOp d \<noteq> OpRemoved \<longrightarrow> rqScenarios (dReq d) \<noteq> [] \<and> list_all one_check (rqScenarios (dReq d))))
    \<and> cTasks c \<noteq> [] \<and> distinct (map tID (cTasks c)) \<and> (\<forall>t\<in>set (cTasks c). tCheck t \<noteq> [] \<or> tRegression t)
    \<and> mID (cMeta c) = i \<and> \<not> ReservedSubject (subject_of c i (ceCommit E))"
proof -
  have w: "list_all wf_delta (cDeltas c)" using assms(1) wf_deltas_ParseChange by simp
  note nil = assms(2)[unfolded checkChange_def]
  have cd: "checkDeltas lower file p c (set (mTouches (cMeta c))) = []" and ms: "mergedSpecFindings lower file p (ceCaps E) c = []"
    and tf: "tasks_findings file [] (cTasks c) = []" and fm: "frontmatter_findings file E withCaps i c = []"
    and sf: "section_findings file c ''Tasks'' = []" and te: "\<forall>s. sectionOf c ''Tasks'' = Some s \<longrightarrow> cTasks c \<noteq> []"
    using nil by (auto split: option.splits)
  have merge: "snd (MergeDelta lower p c) = []" using checkDeltas_merges[OF w cd] .
  have df: "deltas_findings lower file p (set (mTouches (cMeta c))) [] (cDeltas c) = []" using cd by (simp add: checkDeltas_def)
  have "cTasks c \<noteq> []" using sf te by (auto simp: section_findings_def split: option.splits)
  moreover have "\<forall>u\<in>set (fst (MergeDelta lower p c)). suRetired u \<or> int (length (suContent u)) \<le> capSpec (Limits (ceCaps E))"
    using ms merge by (auto simp: mergedSpecFindings_def split_beta Let_def filter_empty_conv)
  moreover have "\<forall>d\<in>set (cDeltas c). dCapability d \<in> set (mTouches (cMeta c))
         \<and> (dOp d \<noteq> OpRemoved \<longrightarrow> rqScenarios (dReq d) \<noteq> [] \<and> list_all one_check (rqScenarios (dReq d)))"
    using deltas_findings_nil[OF df] delta_op_validated[of _ lower "file" p] validated_one_check[of "file"] w
    by (auto simp: list_all_iff)
  moreover have "mID (cMeta c) = i \<and> \<not> ReservedSubject (subject_of c i (ceCommit E))"
    using fm by (auto simp: frontmatter_findings_def reservedSubjectFindings_def split: if_splits)
  ultimately show ?thesis using merge tasks_findings_nil[OF tf] by auto
qed

definition ex_check_doc :: string where
  "ex_check_doc = Join [''---'', ''---'', ''# T'', ''## Why'', ''w'', ''## Out of scope'', ''o'', ''## Delta'',
     ''### ADDED [cap] Requirement: R'', ''#### Scenario: S'', ''- check: c'', ''## Tasks'', ''- T1 w - check: c''] [LF]"

definition ex_yaml :: yaml_lib where
  "ex_yaml = \<lparr>yMeta = (\<lambda>_. (empty_meta\<lparr>mID := ''c-1'', mMilestone := ''M1'', mTouches := [''cap''], mType := ''feat''\<rparr>, True)),
     yKeys = (\<lambda>_. Some [''id'']), yDocs = (\<lambda>_. None)\<rparr>"

definition ex_check_env :: check_env where
  "ex_check_env = \<lparr>ceCaps = zero_caps, ceDesign = None, ceState = StateRead Draft, ceCommit = \<lparr>ccSubject = [], ccHooks = [], ccTypes = []\<rparr>,
     ceMilestones = Some [''M1''], ceDecision = (\<lambda>_. False), ceFrozen = (\<lambda>_. ([], [])), ceDesignTools = [], ceReviewTools = [],
     ceAdvise = (\<lambda>_. None)\<rparr>"

definition ex_specs :: project where
  "ex_specs = \<lparr>pSpecDirs = [], pSpecFile = (\<lambda>_. None), pSpecPath = (\<lambda>c. c)\<rparr>"

definition ex_meta :: changeMeta where
  "ex_meta = empty_meta\<lparr>mID := ''c-1'', mMilestone := ''M1'', mTouches := [''cap''], mType := ''feat''\<rparr>"

definition ex_lines :: "(nat \<times> string) list \<Rightarrow> mdLine list" where
  "ex_lines ls = map (\<lambda>(n, s). \<lparr>mdN = n, mdText = s, mdInCode = False\<rparr>) ls"

definition ex_sections :: "mdSection list" where
  "ex_sections = map (\<lambda>(ti, n, ls). \<lparr>secLevel = 2, secTitle = ti, secLine = n, secBody = ex_lines ls\<rparr>)
     [(''Why'', 4, [(5, ''w'')]), (''Out of scope'', 6, [(7, ''o'')]),
      (''Delta'', 8, [(9, ''### ADDED [cap] Requirement: R''), (10, ''#### Scenario: S''), (11, ''- check: c'')]),
      (''Tasks'', 12, [(13, ''- T1 w - check: c'')])]"

definition ex_added_req :: requirement where
  "ex_added_req = \<lparr>rqName = ''R'', rqLine = 9, rqText = Join [''### Requirement: R'', ''#### Scenario: S'', ''- check: c''] [LF],
     rqScenarios = [\<lparr>scName = ''S'', scLine = 10, scChecks = [''c''], scKinds = [[]], scKindLines = [11], scTagged = [False]\<rparr>], rqStray = []\<rparr>"

definition ex_checked :: change where
  "ex_checked = \<lparr>cMeta = ex_meta, cMetaErr = None, cTitle = ''T'', cH2 = ex_sections, cDeltaNone = [],
     cDeltas = [\<lparr>dOp = ''ADDED'', dCapability = ''cap'', dName = ''R'', dLine = 9, dReq = ex_added_req, dReason = [], dExtra = 0,
                 dPurpose = [], dPurposeLine = 0\<rparr>],
     cTasks = [\<lparr>tID = ''T1'', tWhat = ''w'', tCheck = ''c'', tRegression = False, tTool = [], tFull = False, tLive = False, tLine = 13\<rparr>],
     cUnknownKeys = [], cBadDocs = None, cParse = [], cFile = ''change.md'', cRaw = ex_check_doc\<rparr>"

lemma ex_checked_parsed: "ex_checked = ParseChange ex_yaml ''change.md'' ex_check_doc"
  by code_simp

theorem checked_change_sound_witness:
  "snd (MergeDelta (\<lambda>s. s) ex_specs ex_checked) = [] \<and> length (cDeltas ex_checked) = 1 \<and> map tID (cTasks ex_checked) = [''T1'']"
proof -
  have "checkChange (\<lambda>s. s) ex_check_env ex_specs True ''change.md'' ''c-1'' (Some ex_checked) = []" by code_simp
  from checked_change_sound[OF ex_checked_parsed this] have "snd (MergeDelta (\<lambda>s. s) ex_specs ex_checked) = []" by blast
  moreover have "length (cDeltas ex_checked) = 1" "map tID (cTasks ex_checked) = [''T1'']" by (simp_all add: ex_checked_def)
  ultimately show ?thesis by blast
qed

end
