(* ===== verification/Roadmap.thy ===== *)
theory Roadmap
  imports Globs
begin

text \<open>
  \<open>internal/apexv1/roadmap.go\<close>: \<open>roadmap.md\<close> and its milestones, the status a \<open>Status:\<close> line
  records, the ids new milestones get, and the rewriting of one status line. The numbers of the budget
  lines (\<open>strconv.ParseFloat\<close>, \<open>time.ParseDuration\<close>, the token counts of \<open>ParseTokens\<close>) are read by the
  parameter \<open>num_lib\<close>, which only says whether a text is one; a budget is kept as the text it is read
  from. Statuses are read from one line, so no text matched here holds a newline.
\<close>

section \<open>Data\<close>

definition MilestoneProposed :: string where "MilestoneProposed = ''proposed''"
definition MilestoneApproved :: string where "MilestoneApproved = ''approved''"
definition MilestoneDone :: string where "MilestoneDone = ''done''"

lemmas milestone_status_defs [code_eval] = MilestoneProposed_def MilestoneApproved_def MilestoneDone_def

record milestone =
  msID :: string
  msTitle :: string
  msLine :: nat
  msStatus :: string
  msStatusText :: string
  msStatusLine :: nat
  msGate :: string
  msBudgetRaw :: string
  msBudget :: "string option"
  msTokensRaw :: string
  msTokens :: "string option"
  msWallRaw :: string
  msWall :: "string option"
  msGoal :: string
  msOutOfScope :: "string list"
  msApprovedAt :: string

record roadmap =
  rmTitle :: string
  rmMilestones :: "milestone list"
  rmLines :: "string list"
  rmHeadErrs :: "finding list"

record num_lib =
  nlFloat :: "string \<Rightarrow> bool"
  nlTokens :: "string \<Rightarrow> bool"
  nlDuration :: "string \<Rightarrow> bool"

section \<open>Status lines\<close>

text \<open>The text after the last ASCII space, and what is before it.\<close>

definition last_word :: "string \<Rightarrow> string" where
  "last_word s = rev (takeWhile (\<lambda>c. \<not> re_space c) (rev s))"

definition before_last :: "string \<Rightarrow> string" where
  "before_last s = rev (dropWhile (\<lambda>c. \<not> re_space c) (rev s))"

text \<open>
  \<open>approvedRe\<close>, as its second group: the stamp is what follows the last space, and the name, with
  its spaces on both sides, is at least three bytes.
\<close>

definition match_approved :: "string \<Rightarrow> string option" where
  "match_approved s =
     (let rest = dropWhile re_space (drop 8 s); inner = butlast (drop 3 rest); y = last_word inner; mid = before_last inner in
      if HasPrefix s ''approved'' \<and> HasPrefix rest ''(by'' \<and> drop 3 rest \<noteq> [] \<and> last rest = CHR '')''
         \<and> y \<noteq> [] \<and> 3 \<le> length mid \<and> re_space (hd mid)
      then Some y else None)"

definition is_hex :: "char \<Rightarrow> bool" where
  "is_hex c \<longleftrightarrow> is_digit c \<or> c \<in> set ''abcdef''"

text \<open>\<open>doneRe\<close>: a stamp and a sha, or those after \<open>accepted red by\<close> and a name.\<close>

definition match_done :: "string \<Rightarrow> bool" where
  "match_done s =
     (let rest = dropWhile re_space (drop 4 s); inner = butlast (tl rest); h = last_word inner;
          b = rev (dropWhile re_space (rev (before_last inner))); r = drop 16 b
      in HasPrefix s ''done'' \<and> HasPrefix rest ''('' \<and> tl rest \<noteq> [] \<and> last rest = CHR '')''
         \<and> list_all is_hex h \<and> 7 \<le> length h \<and> length h \<le> 40 \<and> before_last inner \<noteq> []
         \<and> (b \<noteq> [] \<and> list_all (\<lambda>c. \<not> re_space c) b
            \<or> HasPrefix b ''accepted red by '' \<and> last_word r \<noteq> [] \<and> 2 \<le> length (before_last r)))"

definition stripComment :: "string \<Rightarrow> string" where
  "stripComment v = TrimSpace (case Index v '' #'' of None \<Rightarrow> v | Some i \<Rightarrow> take i v)"

definition classifyMilestoneStatus :: "string \<Rightarrow> string \<times> string" where
  "classifyMilestoneStatus txt =
     (if txt = MilestoneProposed then (MilestoneProposed, [])
      else case match_approved txt of
             Some at \<Rightarrow> (MilestoneApproved, at)
           | None \<Rightarrow> if match_done txt then (MilestoneDone, []) else (txt, []))"

section \<open>Parsing\<close>

definition head_dashes :: "string list" where
  "head_dashes = [[CHR 0xE2, CHR 0x80, CHR 0x94], [CHR 0xE2, CHR 0x80, CHR 0x93], '':'', ''-'']"

text \<open>\<open>milestoneHeadRe\<close> on a heading's trimmed text: the id and the title.\<close>

definition match_milestone_head :: "string \<Rightarrow> (string \<times> string) option" where
  "match_milestone_head s = (case s of
      [] \<Rightarrow> None
    | c # r \<Rightarrow>
        (let ds = takeWhile is_digit r; rest = dropWhile re_space (drop (length ds) r);
             n = lead_len head_dashes rest; ti = dropWhile re_space (drop n rest)
         in if c = CHR ''M'' \<and> ds \<noteq> [] \<and> n \<noteq> 0 \<and> ti \<noteq> [] then Some (c # ds, TrimSpace ti) else None))"

definition nextHeadingRe :: "string \<Rightarrow> bool" where
  "nextHeadingRe s \<longleftrightarrow> to_lower_ascii (take 4 s) = ''next'' \<and> (case drop 4 s of [] \<Rightarrow> True | c # _ \<Rightarrow> \<not> is_word_char c)"

text \<open>
  \<open>strings.ToLower\<close> compared with a field's name: besides the ASCII cases only U+212A falls on a
  letter of one of the names.
\<close>

definition field_key :: "string \<Rightarrow> string" where
  "field_key k = to_lower_ascii (ReplaceAll k [CHR 0xE2, CHR 0x84, CHR 0xAA] ''k'')"

definition set_status :: "string \<Rightarrow> milestone \<Rightarrow> milestone" where
  "set_status txt ms = ms\<lparr>msStatusText := txt, msStatus := fst (classifyMilestoneStatus txt), msApprovedAt := snd (classifyMilestoneStatus txt)\<rparr>"

definition budget_text :: "string \<Rightarrow> string" where
  "budget_text raw = TrimSpace (TrimPrefix (TrimSpace (TrimSuffix raw ''USD'')) ''$'')"

text \<open>The switch on a field's name; \<open>None\<close> for a name it does not know.\<close>

definition ms_field :: "num_lib \<Rightarrow> nat \<Rightarrow> string \<Rightarrow> string \<Rightarrow> milestone \<Rightarrow> (milestone \<times> bool) option" where
  "ms_field nl n k v ms =
     (if k = ''status'' then Some ((set_status (stripComment v) ms)\<lparr>msStatusLine := n\<rparr>, False)
      else if k = ''gate'' then Some (ms\<lparr>msGate := Trim v ''`''\<rparr>, False)
      else if k = ''budget'' then
        Some (ms\<lparr>msBudgetRaw := stripComment v,
                 msBudget := (if nlFloat nl (budget_text (stripComment v)) then Some (budget_text (stripComment v)) else msBudget ms)\<rparr>, False)
      else if k = ''budget-tokens'' then
        Some (ms\<lparr>msTokensRaw := stripComment v, msTokens := (if nlTokens nl (stripComment v) then Some (stripComment v) else msTokens ms)\<rparr>, False)
      else if k = ''budget-wall'' then
        Some (ms\<lparr>msWallRaw := stripComment v, msWall := (if nlDuration nl (stripComment v) then Some (stripComment v) else msWall ms)\<rparr>, False)
      else if k = ''goal'' then Some (ms\<lparr>msGoal := v\<rparr>, False)
      else if k = ''out of scope'' then Some (if v \<noteq> [] then ms\<lparr>msOutOfScope := msOutOfScope ms @ [v]\<rparr> else ms, True)
      else None)"

definition ms_line :: "num_lib \<Rightarrow> milestone \<times> bool \<Rightarrow> mdLine \<Rightarrow> milestone \<times> bool" where
  "ms_line nl st l =
     (if mdInCode l then st
      else let t = TrimSpace (mdText l); (k, v, ok) = cut_char (CHR '':'') t;
               field = (ok \<and> \<not> HasPrefix t ''-'' \<and> \<not> HasPrefix t ''*'')
           in case (if field then ms_field nl (mdN l) (field_key (TrimSpace k)) (TrimSpace v) (fst st) else None) of
                Some st' \<Rightarrow> st'
              | None \<Rightarrow>
                  if \<not> field \<and> snd st \<and> (HasPrefix t ''- '' \<or> HasPrefix t ''* '')
                  then ((fst st)\<lparr>msOutOfScope := msOutOfScope (fst st) @ [TrimSpace (drop 2 t)]\<rparr>, snd st)
                  else (fst st, if field then False else snd st))"

definition new_ms :: "string \<Rightarrow> string \<Rightarrow> nat \<Rightarrow> milestone" where
  "new_ms i ti n = \<lparr>msID = i, msTitle = ti, msLine = n, msStatus = [], msStatusText = [], msStatusLine = 0, msGate = [],
     msBudgetRaw = [], msBudget = None, msTokensRaw = [], msTokens = None, msWallRaw = [], msWall = None, msGoal = [],
     msOutOfScope = [], msApprovedAt = []\<rparr>"

definition parse_ms :: "num_lib \<Rightarrow> mdSection \<Rightarrow> milestone option" where
  "parse_ms nl s = (if nextHeadingRe (secTitle s) then None
     else map_option (\<lambda>(i, ti). fst (foldl (ms_line nl) (new_ms i ti (secLine s), False) (secBody s))) (match_milestone_head (secTitle s)))"

definition head_err :: "string \<Rightarrow> mdSection \<Rightarrow> finding option" where
  "head_err file s = (if nextHeadingRe (secTitle s) \<or> match_milestone_head (secTitle s) \<noteq> None then None
     else Some (mk_finding file (secLine s) (RoadmapMessage RoadmapHeading)))"

definition ParseRoadmap :: "num_lib \<Rightarrow> string \<Rightarrow> string \<Rightarrow> roadmap" where
  "ParseRoadmap nl file doc =
     (let lines = splitLines doc; secs = h2Sections lines in
      \<lparr>rmTitle = (case find (\<lambda>l. fst (headingLevel l) = 1) lines of None \<Rightarrow> [] | Some l \<Rightarrow> snd (headingLevel l)),
       rmMilestones = List.map_filter (parse_ms nl) secs,
       rmLines = split_char LF (crlf_to_lf doc),
       rmHeadErrs = List.map_filter (head_err file) secs\<rparr>)"

definition rm_Find :: "roadmap \<Rightarrow> string \<Rightarrow> milestone option" where
  "rm_Find r i = find (\<lambda>m. msID m = i) (rmMilestones r)"

definition rm_Current :: "roadmap \<Rightarrow> milestone option" where
  "rm_Current r = find (\<lambda>m. msStatus m \<noteq> MilestoneDone) (rmMilestones r)"

text \<open>\<open>NextID\<close>: one past the largest number; Go's \<open>int\<close> wraps at its end.\<close>

definition id_number :: "milestone \<Rightarrow> nat" where
  "id_number m = (case Atoi_digits (TrimPrefix (msID m) ''M'') of None \<Rightarrow> 0 | Some n \<Rightarrow> n)"

definition max_number :: "milestone list \<Rightarrow> nat" where
  "max_number ms = foldl (\<lambda>a m. max a (id_number m)) 0 ms"

definition NextID :: "roadmap \<Rightarrow> string" where
  "NextID r = (let n = max_number (rmMilestones r) + 1 in
     ''M'' @ (if n < 2 ^ 63 then Itoa n else ''-9223372036854775808''))"

definition WithStatus :: "roadmap \<Rightarrow> string \<Rightarrow> string \<Rightarrow> string option" where
  "WithStatus r i txt = map_option (\<lambda>m.
     Join (if msStatusLine m > 0 then (rmLines r)[msStatusLine m - 1 := ''Status: '' @ txt]
           else take (msLine m) (rmLines r) @ [''Status: '' @ txt] @ drop (msLine m) (rmLines r)) [LF]) (rm_Find r i)"

definition goal_comment :: string where
  "goal_comment = ''<!-- one paragraph: what is true when this milestone is done -->''"

text \<open>\<open>budget\<close> is the number as \<open>FormatFloat\<close> prints it.\<close>

definition AppendMilestone :: "string \<Rightarrow> string \<Rightarrow> string \<Rightarrow> string \<Rightarrow> string option \<Rightarrow> string \<Rightarrow> string list \<Rightarrow> string" where
  "AppendMilestone doc i ti gate budget goal oos =
     TrimRight doc [LF] @ [LF, LF] @ ''## '' @ i @ '' '' @ [CHR 0xE2, CHR 0x80, CHR 0x94] @ '' '' @ ti @ [LF]
     @ ''Status: '' @ MilestoneProposed @ [LF] @ ''Gate: '' @ gate @ [LF]
     @ (case budget of None \<Rightarrow> [] | Some b \<Rightarrow> ''Budget: '' @ b @ [LF])
     @ ''Goal: '' @ (if goal = [] then goal_comment else goal) @ [LF] @ ''Out of scope:'' @ [LF]
     @ concat (map (\<lambda>x. ''- '' @ x @ [LF]) oos)"

definition appendMilestoneBudgets :: "string \<Rightarrow> string \<Rightarrow> string \<Rightarrow> string" where
  "appendMilestoneBudgets doc tokens wall =
     (let ls = (if tokens \<noteq> [] then ''Budget-tokens: '' @ tokens @ [LF] else []) @ (if wall \<noteq> [] then ''Budget-wall: '' @ wall @ [LF] else [])
      in if ls = [] then doc
         else case LastIndex doc (LF # ''Goal: '') of None \<Rightarrow> doc | Some i \<Rightarrow> take (i + 1) doc @ ls @ drop (i + 1) doc)"

section \<open>Validation\<close>

definition ms_finding :: "string \<Rightarrow> nat \<Rightarrow> roadmap_message \<Rightarrow> finding" where
  "ms_finding file n msg = mk_finding file n (RoadmapMessage msg)"

definition status_findings :: "string \<Rightarrow> milestone \<Rightarrow> finding list" where
  "status_findings file m =
     (if msStatus m \<in> {MilestoneProposed, MilestoneApproved, MilestoneDone} then []
      else if msStatus m = [] then [ms_finding file (msLine m) (MilestoneNoStatus (msID m))]
      else [ms_finding file (msStatusLine m) (MilestoneBadStatus (msID m) (msStatusText m))])"

definition field_findings :: "string \<Rightarrow> milestone \<Rightarrow> finding list" where
  "field_findings file m =
     (if msGate m = [] then [ms_finding file (msLine m) (MilestoneNoGate (msID m))] else [])
     @ (if msBudgetRaw m \<noteq> [] \<and> msBudget m = None then [ms_finding file (msLine m) (MilestoneBadBudget (msID m) (msBudgetRaw m))] else [])
     @ (if msTokensRaw m \<noteq> [] \<and> msTokens m = None then [ms_finding file (msLine m) (MilestoneBadTokens (msID m) (msTokensRaw m))] else [])
     @ (if msWallRaw m \<noteq> [] \<and> msWall m = None then [ms_finding file (msLine m) (MilestoneBadWall (msID m) (msWallRaw m))] else [])
     @ (if TrimSpace (msGoal m) = [] \<or> \<not> hasProse [\<lparr>mdN = 0, mdText = msGoal m, mdInCode = False\<rparr>]
        then [ms_finding file (msLine m) (MilestoneNoGoal (msID m))] else [])"

fun milestones_findings :: "string \<Rightarrow> string list \<Rightarrow> milestone list \<Rightarrow> finding list" where
  "milestones_findings file seen [] = []"
| "milestones_findings file seen (m # ms) =
     (if msID m \<in> set seen then [ms_finding file (msLine m) (MilestoneDuplicate (msID m))] else [])
     @ status_findings file m @ field_findings file m @ milestones_findings file (msID m # seen) ms"

definition ValidateRoadmap :: "num_lib \<Rightarrow> string \<Rightarrow> string \<Rightarrow> finding list" where
  "ValidateRoadmap nl file doc =
     (let r = ParseRoadmap nl file doc in
      rmHeadErrs r
      @ (if rmTitle r \<noteq> ''Roadmap'' then [ms_finding file 1 RoadmapTitle] else [])
      @ (if rmMilestones r = [] then [ms_finding file 0 RoadmapNoMilestones] else [])
      @ milestones_findings file [] (rmMilestones r))"

text \<open>\<open>filterMilestone\<close>: the findings whose sentence starts with the milestone's id and does not speak of its status.\<close>

definition names_milestone :: "string \<Rightarrow> finding \<Rightarrow> bool" where
  "names_milestone i f = (case f_Message f of
      RoadmapMessage (MilestoneNoGate x) \<Rightarrow> x = i
    | RoadmapMessage (MilestoneBadBudget x raw) \<Rightarrow> x = i \<and> \<not> Contains raw ''status'' \<and> \<not> Contains raw ''Status''
    | RoadmapMessage (MilestoneBadTokens x raw) \<Rightarrow> x = i \<and> \<not> Contains raw ''status'' \<and> \<not> Contains raw ''Status''
    | RoadmapMessage (MilestoneBadWall x raw) \<Rightarrow> x = i \<and> \<not> Contains raw ''status'' \<and> \<not> Contains raw ''Status''
    | RoadmapMessage (MilestoneNoGoal x) \<Rightarrow> x = i
    | _ \<Rightarrow> False)"

definition filterMilestone :: "finding list \<Rightarrow> milestone \<Rightarrow> finding list" where
  "filterMilestone fs m = filter (names_milestone (msID m)) fs"

end
