(* ===== verification/GateScript.thy ===== *)
theory GateScript
  imports Globs ChangeDoc
begin

text \<open>
  \<open>internal/apexv1/gatescript.go\<close>: the reading of a gate line into its simple commands
  (\<open>gateCommands\<close>) and the scripts those commands run (\<open>gateScripts\<close>), which is what an approval freezes.
  The lexer works on runes, \<^typ>\<open>nat\<close> code points; where the code keeps the rune slice and an index, the
  model keeps the runes after the current one, so an index past the end is the empty list. The tables of
  \<open>unicode.IsLetter\<close> and \<open>unicode.IsDigit\<close> are a parameter. Paths are those of a system with \<open>/\<close> as its
  separator.
\<close>

section \<open>Runes\<close>

type_synonym rune = nat

record unicode_lib =
  ucLetter :: "rune \<Rightarrow> bool"
  ucDigit :: "rune \<Rightarrow> bool"

definition rc :: "char \<Rightarrow> rune" where
  "rc c = of_char c"

text \<open>\<open>strings.Builder.WriteRune\<close>.\<close>

definition encode_rune :: "rune \<Rightarrow> string" where
  "encode_rune r =
     (if r < 0x80 then [char_of r]
      else if r < 0x800 then [char_of (0xC0 + r div 64), char_of (0x80 + r mod 64)]
      else if r > 0x10FFFF \<or> 0xD800 \<le> r \<and> r \<le> 0xDFFF then [CHR 0xEF, CHR 0xBF, CHR 0xBD]
      else if r < 0x10000 then [char_of (0xE0 + r div 4096), char_of (0x80 + r div 64 mod 64), char_of (0x80 + r mod 64)]
      else [char_of (0xF0 + r div 262144), char_of (0x80 + r div 4096 mod 64), char_of (0x80 + r div 64 mod 64), char_of (0x80 + r mod 64)])"

text \<open>\<open>unicode.IsSpace\<close>.\<close>

definition space_rune :: "rune \<Rightarrow> bool" where
  "space_rune r \<longleftrightarrow> 9 \<le> r \<and> r \<le> 13 \<or> 0x2000 \<le> r \<and> r \<le> 0x200A
     \<or> r \<in> {0x20, 0x85, 0xA0, 0x1680, 0x2028, 0x2029, 0x202F, 0x205F, 0x3000}"

definition one_of :: "string \<Rightarrow> rune \<Rightarrow> bool" where
  "one_of cs r \<longleftrightarrow> r \<in> rc ` set cs"

section \<open>Expansions\<close>

text \<open>The runes after the closing backquote.\<close>

fun backquote_rest :: "rune list \<Rightarrow> rune list" where
  "backquote_rest [] = []"
| "backquote_rest (r # rs) =
     (if r = rc (CHR 0x5C) then (case rs of [] \<Rightarrow> [] | _ # rs' \<Rightarrow> backquote_rest rs')
      else if r = rc (CHR ''`'') then rs else backquote_rest rs)"

text \<open>The runes after the bracket that closes the \<open>d\<close> open ones.\<close>

function nested_rest :: "rune \<Rightarrow> rune \<Rightarrow> nat \<Rightarrow> rune list \<Rightarrow> rune list" where
  "nested_rest opn closer d [] = []"
| "nested_rest opn closer d (r # rs) =
     (if r = rc (CHR 0x5C) then nested_rest opn closer d (drop 1 rs)
      else if r = rc (CHR 0x27) then nested_rest opn closer d (drop 1 (dropWhile (\<lambda>x. x \<noteq> rc (CHR 0x27)) rs))
      else if r = opn then nested_rest opn closer (d + 1) rs
      else if r = closer then (if d = 1 then rs else nested_rest opn closer (d - 1) rs)
      else nested_rest opn closer d rs)"
  by pat_completeness auto
termination
  by (relation "measure (\<lambda>(opn, closer, d, rs). length rs)") (auto simp: le_imp_less_Suc length_dropWhile_le less_Suc_eq_le intro: order_trans[OF diff_le_self])

definition name_rune :: "unicode_lib \<Rightarrow> rune \<Rightarrow> bool" where
  "name_rune uc r \<longleftrightarrow> r = rc (CHR ''_'') \<or> ucLetter uc r \<or> ucDigit uc r"

text \<open>\<open>skipExpansion\<close>: the runes after the expansion that \<open>r\<close> starts.\<close>

definition skipExpansion :: "unicode_lib \<Rightarrow> rune \<Rightarrow> rune list \<Rightarrow> rune list" where
  "skipExpansion uc r rs =
     (if r = rc (CHR ''`'') then backquote_rest rs
      else case rs of
        [] \<Rightarrow> []
      | s # rs' \<Rightarrow>
          if s = rc (CHR ''('') then nested_rest s (rc (CHR '')'')) 1 rs'
          else if s = rc (CHR ''{'') then nested_rest s (rc (CHR ''}'')) 1 rs'
          else if ucDigit uc s \<or> one_of ''?@#*$!-'' s then rs'
          else if s \<noteq> rc (CHR ''_'') \<and> \<not> ucLetter uc s then rs
          else dropWhile (name_rune uc) rs')"

lemma length_backquote_rest: "length (backquote_rest rs) \<le> length rs"
proof (induction rs rule: backquote_rest.induct)
  case (2 r rs)
  show ?case
  proof (cases "r = rc (CHR 0x5C)")
    case True
    then show ?thesis using 2(1)[OF True] by (cases rs) (simp_all add: le_SucI)
  next
    case False
    then show ?thesis using 2(2)[OF False] by (simp add: le_SucI)
  qed
qed simp

lemma length_nested_rest: "length (nested_rest opn closer d rs) \<le> length rs"
proof (induction opn closer d rs rule: nested_rest.induct)
  case (2 opn closer d r rs)
  have "length (drop 1 (dropWhile (\<lambda>x. x \<noteq> rc (CHR 0x27)) rs)) \<le> length rs"
    using length_dropWhile_le[of "\<lambda>x. x \<noteq> rc (CHR 0x27)" rs] by simp
  with 2 show ?case by (auto intro: le_SucI order_trans)
qed simp

lemma length_skipExpansion: "length (skipExpansion uc r rs) \<le> length rs"
proof (cases rs)
  case Nil
  then show ?thesis by (simp add: skipExpansion_def)
next
  case (Cons s rs')
  have "length (nested_rest q c 1 rs') \<le> length rs" for q c using length_nested_rest[of q c 1 rs'] Cons by simp
  moreover have "length (dropWhile (name_rune uc) rs') \<le> length rs" using length_dropWhile_le[of "name_rune uc" rs'] Cons by simp
  ultimately show ?thesis
    using length_backquote_rest[of rs] Cons by (simp add: skipExpansion_def del: backquote_rest.simps)
qed

section \<open>The lexer\<close>

record gateLexer =
  glRest :: "rune list"
  glCmds :: "string list list"
  glCur :: "string list"
  glW :: string
  glInWord :: bool
  glTarget :: bool

definition endWord :: "gateLexer \<Rightarrow> gateLexer" where
  "endWord l = l\<lparr>glCur := (if glInWord l \<and> \<not> glTarget l then glCur l @ [glW l] else glCur l),
                 glTarget := (glTarget l \<and> \<not> glInWord l), glW := [], glInWord := False\<rparr>"

definition endCmd :: "gateLexer \<Rightarrow> gateLexer" where
  "endCmd l = (let l = endWord l in
     l\<lparr>glCmds := (if glCur l \<noteq> [] then glCmds l @ [glCur l] else glCmds l), glCur := [], glTarget := False\<rparr>)"

definition add_rune :: "rune \<Rightarrow> gateLexer \<Rightarrow> gateLexer" where
  "add_rune r l = l\<lparr>glW := glW l @ encode_rune r, glInWord := True\<rparr>"

text \<open>\<open>doubleQuoted\<close>, after the opening quote: the word and the runes after the closing quote.\<close>

function double_quoted :: "unicode_lib \<Rightarrow> string \<Rightarrow> rune list \<Rightarrow> string \<times> rune list" where
  "double_quoted uc w [] = (w, [])"
| "double_quoted uc w (r # rs) =
     (if r = rc (CHR 0x22) then (w, rs)
      else if r = rc (CHR 0x5C)
      then (case rs of [] \<Rightarrow> (w, []) | s # rs' \<Rightarrow> double_quoted uc (w @ encode_rune s) rs')
      else if r = rc (CHR ''$'') \<or> r = rc (CHR ''`'') then double_quoted uc (w @ ''$'') (skipExpansion uc r rs)
      else double_quoted uc (w @ encode_rune r) rs)"
  by pat_completeness auto
termination
  by (relation "measure (\<lambda>(uc, w, rs). length rs)") (auto simp: less_Suc_eq_le length_skipExpansion)

definition redirection :: "gateLexer \<Rightarrow> gateLexer" where
  "redirection l =
     (let l1 = (if glInWord l \<and> list_all is_digit (glW l) then l\<lparr>glW := [], glInWord := False\<rparr> else l);
          l2 = endWord l1
      in l2\<lparr>glRest := dropWhile (one_of ''<>&|'') (glRest l2), glTarget := True\<rparr>)"

text \<open>\<open>step\<close> on the rune \<open>r\<close>, with \<open>glRest\<close> the runes after it.\<close>

definition gate_step :: "unicode_lib \<Rightarrow> rune \<Rightarrow> gateLexer \<Rightarrow> gateLexer" where
  "gate_step uc r l =
     (let rs = glRest l in
      if r = rc (CHR 0x5C)
      then (case rs of [] \<Rightarrow> l | s # rs' \<Rightarrow> (if s \<noteq> rc LF then add_rune s l else l)\<lparr>glRest := rs'\<rparr>)
      else if r = rc (CHR 0x27)
      then l\<lparr>glW := glW l @ concat (map encode_rune (takeWhile (\<lambda>x. x \<noteq> rc (CHR 0x27)) rs)), glInWord := True,
             glRest := drop 1 (dropWhile (\<lambda>x. x \<noteq> rc (CHR 0x27)) rs)\<rparr>
      else if r = rc (CHR 0x22)
      then (let (w, rs') = double_quoted uc (glW l) rs in l\<lparr>glW := w, glInWord := True, glRest := rs'\<rparr>)
      else if r = rc (CHR ''$'') \<or> r = rc (CHR ''`'')
      then add_rune (rc (CHR ''$'')) (l\<lparr>glRest := skipExpansion uc r rs\<rparr>)
      else if r = rc (CHR ''#'') \<and> \<not> glInWord l
      then l\<lparr>glRest := dropWhile (\<lambda>x. x \<noteq> rc LF) rs\<rparr>
      else if one_of (LF # '';|()'') r \<or> r = rc (CHR ''&'') \<and> (rs = [] \<or> hd rs \<noteq> rc (CHR ''>''))
      then endCmd l
      else if one_of ''<>&'' r then redirection l
      else if space_rune r then endWord l
      else add_rune r l)"

lemma glRest_simps [simp]: "glRest (endWord l) = glRest l" "glRest (endCmd l) = glRest l" "glRest (add_rune r l) = glRest l"
  by (simp_all add: endWord_def endCmd_def add_rune_def Let_def)

lemma length_double_quoted: "length (snd (double_quoted uc w rs)) \<le> length rs"
proof (induction uc w rs rule: double_quoted.induct)
  case (2 uc w r rs)
  have e: "length (snd (double_quoted uc (w @ ''$'') (skipExpansion uc r rs))) \<le> Suc (length rs)"
    if "r \<noteq> rc (CHR 0x22)" "r \<noteq> rc (CHR 0x5C)" "r = rc (CHR ''$'') \<or> r = rc (CHR ''`'')"
    using 2(2)[OF that] length_skipExpansion[of uc r rs] by simp
  consider (quote) "r = rc (CHR 0x22)" | (esc) "r \<noteq> rc (CHR 0x22)" "r = rc (CHR 0x5C)"
    | (exp) "r \<noteq> rc (CHR 0x22)" "r \<noteq> rc (CHR 0x5C)" "r = rc (CHR ''$'') \<or> r = rc (CHR ''`'')"
    | (other) "r \<noteq> rc (CHR 0x22)" "r \<noteq> rc (CHR 0x5C)" "\<not> (r = rc (CHR ''$'') \<or> r = rc (CHR ''`''))" by blast
  then show ?case
  proof cases
    case esc
    then show ?thesis using 2(1)[OF esc] by (cases rs) (simp_all add: le_SucI)
  next
    case exp
    then show ?thesis using e[OF exp] by (simp only: double_quoted.simps if_False if_True) simp
  next
    case other
    then show ?thesis using 2(3)[OF other] by (simp add: le_SucI)
  qed simp
qed simp

lemma length_gate_step: "length (glRest (gate_step uc r l)) \<le> length (glRest l)"
proof -
  obtain rs where rs: "glRest l = rs" by simp
  have red: "length (glRest (redirection l)) \<le> length rs"
    using rs by (auto simp: redirection_def Let_def length_dropWhile_le)
  have q: "length (drop 1 (dropWhile P rs)) \<le> length rs" for P
    using length_dropWhile_le[of P rs] by simp
  have dq: "length (glRest (case double_quoted uc (glW l) rs of (w, rs') \<Rightarrow> l\<lparr>glW := w, glInWord := True, glRest := rs'\<rparr>)) \<le> length rs"
    using length_double_quoted[of uc "glW l" rs] by (cases "double_quoted uc (glW l) rs") simp
  have esc: "length (glRest (case rs of [] \<Rightarrow> l | s # rs' \<Rightarrow> (if s \<noteq> rc LF then add_rune s l else l)\<lparr>glRest := rs'\<rparr>)) \<le> length rs"
    using rs by (cases rs) simp_all
  show ?thesis
    using red q dq esc length_skipExpansion[of uc r rs] length_dropWhile_le[of _ rs]
    unfolding gate_step_def Let_def rs by (auto simp: rs)
qed

function gate_loop :: "unicode_lib \<Rightarrow> gateLexer \<Rightarrow> gateLexer" where
  "gate_loop uc l = (case glRest l of [] \<Rightarrow> l | r # rs \<Rightarrow> gate_loop uc (gate_step uc r (l\<lparr>glRest := rs\<rparr>)))"
  by pat_completeness auto
termination
proof (relation "measure (\<lambda>(uc, l). length (glRest l))", goal_cases)
  case (2 uc l r rs)
  then show ?case using length_gate_step[of uc r "l\<lparr>glRest := rs\<rparr>"] by simp
qed simp

declare gate_loop.simps [simp del]

definition new_lexer :: "rune list \<Rightarrow> gateLexer" where
  "new_lexer rs = \<lparr>glRest = rs, glCmds = [], glCur = [], glW = [], glInWord = False, glTarget = False\<rparr>"

definition gateCommands :: "unicode_lib \<Rightarrow> string \<Rightarrow> string list list" where
  "gateCommands uc gate = glCmds (endCmd (gate_loop uc (new_lexer (runes gate))))"

section \<open>Interpreters\<close>

record interpreter =
  inNoScript :: string
  inWithArg :: string
  inNoScriptLong :: "string list"
  inWithArgLong :: "string list"
  inPlus :: bool

definition shellInterpreter :: interpreter where
  "shellInterpreter = \<lparr>inNoScript = ''cs'', inWithArg = ''oO'', inNoScriptLong = [], inWithArgLong = [], inPlus = True\<rparr>"

definition interpreters :: "string \<Rightarrow> interpreter option" where
  "interpreters name =
     (if name \<in> {''sh'', ''bash'', ''zsh'', ''dash''} then Some shellInterpreter
      else if name = ''python'' then Some \<lparr>inNoScript = ''cm'', inWithArg = ''WX'', inNoScriptLong = [], inWithArgLong = [], inPlus = False\<rparr>
      else if name = ''node''
      then Some \<lparr>inNoScript = ''ep'', inWithArg = ''r'', inNoScriptLong = [''--eval'', ''--print''],
                 inWithArgLong = [''--require'', ''--import'', ''--loader'', ''--conditions''], inPlus = False\<rparr>
      else if name = ''ruby'' then Some \<lparr>inNoScript = ''e'', inWithArg = ''IrCEF'', inNoScriptLong = [], inWithArgLong = [], inPlus = False\<rparr>
      else if name = ''perl'' then Some \<lparr>inNoScript = ''eE'', inWithArg = [], inNoScriptLong = [], inWithArgLong = [], inPlus = False\<rparr>
      else None)"

definition commandPrefixes :: "string list" where
  "commandPrefixes = [''!'', ''{'', ''if'', ''then'', ''else'', ''elif'', ''do'', ''while'', ''until'', ''time'', ''exec'', ''command'', ''env'']"

text \<open>The letters of one short option word: \<open>None\<close> when one gives code instead of a file, else whether the next word is an argument.\<close>

fun option_letters :: "interpreter \<Rightarrow> string \<Rightarrow> bool option" where
  "option_letters i [] = Some False"
| "option_letters i (c # cs) =
     (if c \<in> set (inNoScript i) then None else if c \<in> set (inWithArg i) then Some (cs = []) else option_letters i cs)"

function interp_script :: "interpreter \<Rightarrow> string list \<Rightarrow> string" where
  "interp_script i [] = []"
| "interp_script i (a # as) =
     (if a = ''--'' then (case as of [] \<Rightarrow> [] | x # _ \<Rightarrow> x)
      else if a = ''-'' then []
      else if HasPrefix a ''--''
      then (let (name, _, glued) = cut_char (CHR ''='') a in
            if name \<in> set (inNoScriptLong i) then []
            else if \<not> glued \<and> name \<in> set (inWithArgLong i) then interp_script i (drop 1 as) else interp_script i as)
      else if HasPrefix a ''-'' \<or> inPlus i \<and> HasPrefix a ''+''
      then (case option_letters i (drop 1 a) of
              None \<Rightarrow> [] | Some skip \<Rightarrow> interp_script i (if skip then drop 1 as else as))
      else a)"
  by pat_completeness auto
termination
  by (relation "measure (\<lambda>(i, as). length as)") auto

section \<open>Scripts\<close>

definition assign_rune :: "unicode_lib \<Rightarrow> bool \<Rightarrow> rune \<Rightarrow> bool" where
  "assign_rune uc first r \<longleftrightarrow> r = rc (CHR ''_'') \<or> ucLetter uc r \<or> \<not> first \<and> ucDigit uc r"

definition isAssignment :: "unicode_lib \<Rightarrow> string \<Rightarrow> bool" where
  "isAssignment uc w = (let (name, _, ok) = cut_char (CHR ''='') w in
     ok \<and> (case runes name of [] \<Rightarrow> False | r # rs \<Rightarrow> assign_rune uc True r \<and> list_all (assign_rune uc False) rs))"

text \<open>\<open>filepath.Clean\<close> of a path that is not absolute.\<close>

definition clean_step :: "string list \<Rightarrow> string \<Rightarrow> string list" where
  "clean_step out s =
     (if s = [] \<or> s = ''.'' then out
      else if s = ''..'' \<and> out \<noteq> [] \<and> last out \<noteq> ''..'' then butlast out
      else out @ [s])"

definition clean_parts :: "string \<Rightarrow> string list" where
  "clean_parts w = foldl clean_step [] (split_char (CHR ''/'') w)"

definition Clean :: "string \<Rightarrow> string" where
  "Clean w = (if clean_parts w = [] then ''.'' else Join (clean_parts w) ''/'')"

definition path_Base :: "string \<Rightarrow> string" where
  "path_Base p = (let s = TrimRight p ''/'' in
     if p = [] then ''.'' else if s = [] then ''/'' else last (split_char (CHR ''/'') s))"

definition repoPath :: "string \<Rightarrow> string option" where
  "repoPath w =
     (if w = [] \<or> HasPrefix w ''-'' \<or> list_ex (\<lambda>c. c \<in> set ''$*?[~'') w \<or> HasPrefix w ''/'' then None
      else if Clean w = ''.'' \<or> Clean w = ''..'' \<or> HasPrefix (Clean w) ''../'' then None
      else Some (Clean w))"

fun skip_prefixes :: "unicode_lib \<Rightarrow> bool \<Rightarrow> string list \<Rightarrow> string list" where
  "skip_prefixes uc env [] = []"
| "skip_prefixes uc env (c # cs) =
     (if isAssignment uc c \<or> c \<in> set commandPrefixes \<or> env \<and> HasPrefix c ''-''
      then skip_prefixes uc (env \<or> c = ''env'') cs else c # cs)"

text \<open>The scripts of one simple command.\<close>

definition command_scripts :: "unicode_lib \<Rightarrow> string list \<Rightarrow> string list" where
  "command_scripts uc c = (case skip_prefixes uc False c of
      [] \<Rightarrow> []
    | exe # args \<Rightarrow>
        (if CHR ''/'' \<in> set exe then (case repoPath exe of None \<Rightarrow> [] | Some rel \<Rightarrow> [rel]) else [])
        @ (case interpreters (TrimRight (path_Base exe) ''0123456789.'') of
             None \<Rightarrow> []
           | Some i \<Rightarrow> (case repoPath (interp_script i args) of None \<Rightarrow> [] | Some rel \<Rightarrow> [rel])))"

definition gateScripts :: "unicode_lib \<Rightarrow> string \<Rightarrow> string list" where
  "gateScripts uc gate = sort (remdups (concat (map (command_scripts uc) (gateCommands uc gate))))"

end
