(* ===== verification/Approval.thy ===== *)
theory Approval
  imports Roadmap GateScript ChangePlan
begin

text \<open>
  What ape records of a milestone (\<open>milestones.json\<close>) and what an approval freezes:
  \<open>internal/apexv1/approval.go\<close>, \<open>gateselfcheck.go\<close>, the own files of a gate (\<open>gateown.go\<close>), the gate
  folders a close archives (\<open>gatefolder.go\<close>), the full run (\<open>fullrun.go\<close>) and the records of
  \<open>milestone.go\<close>. Seconds, log paths, output digests and tails are left out of the records. A map from
  paths to digests is an association list with distinct keys, in the order of the keys.

  \<open>menv\<close> is what a milestone command learns from outside the records: the clock, git, the person, the
  files of the tree and their SHA-256 before (\<open>0\<close>) and after (\<open>1\<close>) the gate ran, the scripts that are
  regular files and those \<open>bash -n\<close> refuses, what the folders and scripts of a gate name
  (\<open>nOwnRead\<close>: the loops of \<open>gateOwnScan\<close> and \<open>ownScan.read\<close>), the runs of checks, and the failures of its writes.
\<close>

section \<open>Records\<close>

record gateSelfCheck =
  gsAt :: string
  gsSHA :: string
  gsExit :: int
  gsWrote :: "string list"

record acceptGreen =
  agReason :: string
  agBy :: string
  agAt :: string

record milestoneApproval =
  maBy :: string
  maAt :: string
  maGateCmd :: string
  maGateFiles :: "(string \<times> string) list"
  maGateFilesSHA256 :: string
  maGateOwnFiles :: "(string \<times> string) list"
  maGateGlobs :: "string list"
  maScratchExcluded :: bool
  maGateScratch :: "string list"
  maSelfCheck :: "gateSelfCheck option"
  maBaseSHA :: string
  maAcceptGreen :: "acceptGreen option"

text \<open>A run of a milestone's gate.\<close>

record milestoneGateRun =
  mgExit :: int
  mgAt :: string
  mgSHA :: string
  mgCmd :: string
  mgReason :: string
  mgSpecChecks :: nat
  mgSpecFailed :: "checkResult list"
  mgStrayFiles :: "string list"
  mgStraysKept :: "string list"
  mgRegression :: "regressionVerdict option"
  mgFlaky :: "string list"
  mgFullSkipped :: nat
  mgFullRunReused :: string

record acceptRed =
  arReason :: string
  arBy :: string
  arAt :: string
  arGate :: "milestoneGateRun option"

record milestoneRecord =
  mrResult :: string
  mrSince :: "milestoneGateRun option"
  mrApproval :: "milestoneApproval option"
  mrDoneAt :: string
  mrAcceptRed :: "acceptRed option"
  mrConsecutiveBlocks :: nat
  mrGateArchived :: "(string \<times> string) list"

definition new_record :: milestoneRecord where
  "new_record = \<lparr>mrResult = [], mrSince = None, mrApproval = None, mrDoneAt = [], mrAcceptRed = None, mrConsecutiveBlocks = 0, mrGateArchived = []\<rparr>"

record fullRun =
  frAt :: string
  frTree :: string
  frApproval :: string
  frChecks :: string
  frResults :: "checkResult list"
  frRegression :: "checkResult option"
  frVerdict :: "regressionVerdict option"
  frBy :: string

text \<open>The records on disk; \<open>None\<close>: no roadmap, or a \<open>milestones.json\<close> that does not read.\<close>

record mworld =
  mwRoadmap :: "string option"
  mwRecords :: "(string \<Rightarrow> milestoneRecord option) option"
  mwLastRun :: "string \<Rightarrow> milestoneGateRun option"
  mwFull :: "string \<Rightarrow> fullRun option"

record gate_own =
  goFiles :: "(string \<times> string) list"
  goGlobs :: "string list"
  goKeep :: "string list"

text \<open>The commit of the milestone files: made, failed, or refused with ape's edit of the roadmap or the records undone.\<close>

datatype commit_case = Committed string | CommitFailed apex_error | CommitUndone apex_error bool bool

record menv =
  nUnicode :: unicode_lib
  nNums :: num_lib
  nSha256 :: "string \<Rightarrow> string"
  nRel :: string
  nStamp :: "nat \<Rightarrow> string"
  nHead :: string
  nPerson :: "apex_error option"
  nRecover :: "apex_error option"
  nOnBranch :: "apex_error option"
  nFileSHA :: "nat \<Rightarrow> string \<Rightarrow> string option"
  nOwnRead :: "nat \<Rightarrow> milestone \<Rightarrow> gate_own"
  nGitIgnored :: "string \<Rightarrow> bool"
  nExecutable :: "nat \<Rightarrow> string \<Rightarrow> bool"
  nShebang :: "nat \<Rightarrow> string \<Rightarrow> bool"
  nLower :: "string \<Rightarrow> string"
  nGlobFiles :: "nat \<Rightarrow> string \<Rightarrow> string list"
  nRegular :: "string \<Rightarrow> bool"
  nSyntax :: "string \<Rightarrow> bool"
  nUnmet :: "string \<Rightarrow> string"
  nIgnored :: "nat \<Rightarrow> (string \<times> string) list"
  nSelfRun :: checkResult
  nExec :: "nat \<Rightarrow> nat \<Rightarrow> plannedCheck \<Rightarrow> checkResult"
  nCtxErr :: "nat \<Rightarrow> nat \<Rightarrow> bool"
  nInterrupted :: "nat \<Rightarrow> apex_error option"
  nRerun :: bool
  nSpecs :: project
  nRegressionCmd :: string
  nCandidates :: "(string \<times> regressionBaselineRec option \<times> regressionBaselineRec option) list"
  nFailing :: "checkResult \<Rightarrow> string list"
  nTree :: "nat \<Rightarrow> string option"
  nChanges :: "(string \<times> change option \<times> state option) list"
  nFolders :: "string list"
  nArchiveDir :: string
  nArchiveThere :: bool
  nMove :: "apex_error option"
  nEdited :: "string option option"
  nWrite :: "apex_error option"
  nSave :: "nat \<Rightarrow> apex_error option"
  nCommit :: commit_case
  nEvidence :: "apex_error option"

section \<open>The gate an approval freezes\<close>

text \<open>\<open>MilestoneApproval.Base\<close>, of a pointer that may be nil.\<close>

definition approval_Base :: "milestoneApproval option \<Rightarrow> string" where
  "approval_Base a = (case a of None \<Rightarrow> [] | Some a \<Rightarrow>
     if maBaseSHA a \<noteq> [] then maBaseSHA a else case maSelfCheck a of None \<Rightarrow> [] | Some sc \<Rightarrow> gsSHA sc)"

definition gateFiles :: "menv \<Rightarrow> nat \<Rightarrow> string \<Rightarrow> (string \<times> string) list" where
  "gateFiles e ph gate = List.map_filter (\<lambda>rel. map_option (Pair rel) (nFileSHA e ph rel)) (gateScripts (nUnicode e) gate)"

definition gateFilesDigest :: "(string \<Rightarrow> string) \<Rightarrow> (string \<times> string) list \<Rightarrow> string" where
  "gateFilesDigest sha256_hex files =
     sha256_hex (concat (map (\<lambda>n. n @ '' '' @ (case map_of files n of None \<Rightarrow> [] | Some s \<Rightarrow> s) @ [LF]) (sort (map fst files))))"

definition gateWrote :: "(string \<times> string) list \<Rightarrow> (string \<times> string) list \<Rightarrow> string list" where
  "gateWrote before after = sort (map fst (filter (\<lambda>(f, stamp). (case map_of before f of None \<Rightarrow> [] | Some s \<Rightarrow> s) \<noteq> stamp) after))"

section \<open>The gate's own files\<close>

definition scriptExts :: "string list" where
  "scriptExts = [''.sh'', ''.bash'', ''.zsh'', ''.ksh'', ''.py'', ''.pl'', ''.rb'', ''.js'', ''.mjs'', ''.cjs'', ''.ts'', ''.awk'', ''.sed'', ''.php'',
     ''.lua'', ''.tcl'', ''.go'', ''.mk'', ''.ps1'']"

definition scriptNames :: "string list" where
  "scriptNames = [''makefile'', ''gnumakefile'']"

text \<open>\<open>path.Ext\<close>: from the last dot of the last element, if it has one.\<close>

definition path_Ext :: "string \<Rightarrow> string" where
  "path_Ext s = (let base = rev (takeWhile (\<lambda>c. c \<noteq> CHR ''/'') (rev s)) in
     if CHR ''.'' \<in> set base then CHR ''.'' # rev (takeWhile (\<lambda>c. c \<noteq> CHR ''.'') (rev base)) else [])"

definition isScript :: "menv \<Rightarrow> nat \<Rightarrow> string \<Rightarrow> bool" where
  "isScript e ph rel \<longleftrightarrow> nLower e (path_Ext rel) \<in> set scriptExts \<or> nLower e (path_Base rel) \<in> set scriptNames
     \<or> nExecutable e ph rel \<or> nShebang e ph rel"

definition gateScratch :: "menv \<Rightarrow> nat \<Rightarrow> string list \<Rightarrow> string list \<Rightarrow> string list" where
  "gateScratch e ph names keep = filter (\<lambda>f. nGitIgnored e f \<and> f \<notin> set keep \<and> \<not> isScript e ph f) names"

definition gateOwnScan :: "menv \<Rightarrow> nat \<Rightarrow> milestone \<Rightarrow> gate_own" where
  "gateOwnScan e ph m =
     (let own = nOwnRead e ph m;
          files = filter (\<lambda>(f, s). f \<notin> set (gateScripts (nUnicode e) (msGate m))) (goFiles own);
          scratch = gateScratch e ph (map fst files) (goKeep own)
      in own\<lparr>goFiles := filter (\<lambda>(f, s). f \<notin> set scratch) files\<rparr>)"

section \<open>Recording an approval\<close>

definition newApproval :: "menv \<Rightarrow> milestone \<Rightarrow> string \<Rightarrow> string list \<Rightarrow> milestoneApproval" where
  "newApproval e m who wrote =
     (let files = gateFiles e 1 (msGate m); own = gateOwnScan e 1 m;
          scratch = filter (\<lambda>f. f \<notin> set (goKeep own)) wrote
      in \<lparr>maBy = who, maAt = nStamp e 2, maGateCmd = msGate m, maGateFiles = files,
          maGateFilesSHA256 = gateFilesDigest (nSha256 e) files,
          maGateOwnFiles = filter (\<lambda>(f, s). f \<notin> set scratch) (goFiles own), maGateGlobs = sort (goGlobs own),
          maScratchExcluded = True, maGateScratch = scratch, maSelfCheck = None, maBaseSHA = [], maAcceptGreen = None\<rparr>)"

datatype gate_drift = CommandChanged string string | FileGone string | FileChanged string | FileNew string string

definition file_drift :: "menv \<Rightarrow> nat \<Rightarrow> string \<times> string \<Rightarrow> gate_drift option" where
  "file_drift e ph = (\<lambda>(n, was). case nFileSHA e ph n of
      None \<Rightarrow> Some (FileGone n)
    | Some is \<Rightarrow> if was \<noteq> is then Some (FileChanged n) else None)"

fun new_files :: "milestoneApproval \<Rightarrow> string list \<Rightarrow> (string \<times> string) list \<Rightarrow> gate_drift list" where
  "new_files a seen [] = []"
| "new_files a seen ((g, f) # gfs) =
     (if map_of (maGateOwnFiles a) f = None \<and> map_of (maGateFiles a) f = None \<and> f \<notin> set seen \<and> f \<notin> set (maGateScratch a)
      then FileNew f g # new_files a (f # seen) gfs else new_files a seen gfs)"

definition gateOwnDrift :: "menv \<Rightarrow> nat \<Rightarrow> milestone \<Rightarrow> milestoneApproval \<Rightarrow> gate_drift list" where
  "gateOwnDrift e ph m a =
     (let names = sort (map fst (maGateOwnFiles a));
          scratch = (if \<not> maScratchExcluded a \<and> names \<noteq> [] then gateScratch e ph names (goKeep (gateOwnScan e ph m)) else []) @ maGateScratch a
      in List.map_filter (\<lambda>n. file_drift e ph (n, case map_of (maGateOwnFiles a) n of None \<Rightarrow> [] | Some s \<Rightarrow> s)) (filter (\<lambda>n. n \<notin> set scratch) names)
         @ new_files a [] (concat (map (\<lambda>g. map (Pair g) (nGlobFiles e ph g)) (maGateGlobs a))))"

definition gateDrift :: "menv \<Rightarrow> nat \<Rightarrow> milestone \<Rightarrow> milestoneApproval \<Rightarrow> gate_drift list" where
  "gateDrift e ph m a =
     (if TrimSpace (msGate m) \<noteq> TrimSpace (maGateCmd a) then [CommandChanged (maGateCmd a) (msGate m)] else [])
     @ List.map_filter (\<lambda>n. case map_of (maGateFiles a) n of None \<Rightarrow> None | Some was \<Rightarrow> file_drift e ph (n, was))
         (gateScripts (nUnicode e) (msGate m))
     @ gateOwnDrift e ph m a"

definition gateOwnUnrecorded :: "menv \<Rightarrow> nat \<Rightarrow> milestone \<Rightarrow> milestoneApproval \<Rightarrow> bool" where
  "gateOwnUnrecorded e ph m a =
     (let own = gateOwnScan e ph m in
      list_ex (\<lambda>(n, s). map_of (maGateOwnFiles a) n = None \<and> n \<notin> set (maGateScratch a)) (goFiles own)
      \<or> list_ex (\<lambda>g. g \<notin> set (maGateGlobs a)) (goGlobs own))"

definition gateScriptUnrecorded :: "menv \<Rightarrow> nat \<Rightarrow> milestone \<Rightarrow> milestoneApproval \<Rightarrow> bool" where
  "gateScriptUnrecorded e ph m a \<longleftrightarrow>
     list_ex (\<lambda>(n, s). map_of (maGateFiles a) n = None) (gateFiles e ph (msGate m)) \<or> gateOwnUnrecorded e ph m a"

definition requireApprovalRecord :: "menv \<Rightarrow> nat \<Rightarrow> mworld \<Rightarrow> milestone \<Rightarrow> bool \<Rightarrow> apex_error option" where
  "requireApprovalRecord e ph w m checkGate = (case mwRecords w of
      None \<Rightarrow> Some (OtherError ''milestones.json'')
    | Some recs \<Rightarrow>
        (case recs (msID m) of
           None \<Rightarrow> Some (fail ''milestone.status-unrecorded'')
         | Some rec \<Rightarrow>
             (case mrApproval rec of
                None \<Rightarrow> Some (fail ''milestone.status-unrecorded'')
              | Some a \<Rightarrow> when_err (checkGate \<and> gateDrift e ph m a \<noteq> []) (fail ''milestone.gate-changed''))))"

section \<open>What project check reports of the records\<close>

datatype record_message = ApprovalUnrecorded string | GateChangedSince string "gate_drift list" | DoneUnrecorded string

definition milestone_record_finding :: "menv \<Rightarrow> (string \<Rightarrow> milestoneRecord option) \<Rightarrow> milestone \<Rightarrow> (nat \<times> record_message) option" where
  "milestone_record_finding e recs m =
     (let rec = recs (msID m) in
      if msStatus m = MilestoneApproved then
        (case (case rec of None \<Rightarrow> None | Some r \<Rightarrow> mrApproval r) of
           None \<Rightarrow> Some (msStatusLine m, ApprovalUnrecorded (msID m))
         | Some a \<Rightarrow> if gateDrift e 0 m a \<noteq> [] then Some (msStatusLine m, GateChangedSince (msID m) (gateDrift e 0 m a)) else None)
      else if msStatus m = MilestoneDone then
        (case rec of
           None \<Rightarrow> Some (msStatusLine m, DoneUnrecorded (msID m))
         | Some r \<Rightarrow> if mrDoneAt r = [] \<and> mrResult r \<noteq> ''green'' \<and> mrAcceptRed r = None then Some (msStatusLine m, DoneUnrecorded (msID m)) else None)
      else None)"

definition milestoneRecordFindings :: "menv \<Rightarrow> mworld \<Rightarrow> (nat \<times> record_message) list" where
  "milestoneRecordFindings e w = (case (mwRoadmap w, mwRecords w) of
      (Some doc, Some recs) \<Rightarrow> List.map_filter (milestone_record_finding e recs) (rmMilestones (ParseRoadmap (nNums e) (nRel e) doc))
    | _ \<Rightarrow> [])"

text \<open>The frozen files and globs of the approved milestones a change may not edit, each with its milestone; a later one replaces an earlier.\<close>

definition gate_frozen_one :: "(string \<Rightarrow> milestoneRecord option) \<Rightarrow> string \<Rightarrow> milestone \<Rightarrow> (string \<times> string) list \<times> (string \<times> string) list" where
  "gate_frozen_one recs ms m =
     (if msStatus m \<noteq> MilestoneApproved \<or> (ms \<noteq> msID m \<and> ms \<noteq> ''none'') then ([], [])
      else case (case recs (msID m) of None \<Rightarrow> None | Some r \<Rightarrow> mrApproval r) of
             None \<Rightarrow> ([], [])
           | Some a \<Rightarrow> (map (\<lambda>f. (f, msID m)) (map fst (maGateFiles a) @ map fst (maGateOwnFiles a)), map (\<lambda>g. (g, msID m)) (maGateGlobs a)))"

definition gateFrozen :: "menv \<Rightarrow> mworld \<Rightarrow> string \<Rightarrow> (string \<rightharpoonup> string) \<times> (string \<rightharpoonup> string)" where
  "gateFrozen e w ms = (case (mwRoadmap w, mwRecords w) of
      (Some doc, Some recs) \<Rightarrow>
        (let all = map (gate_frozen_one recs ms) (rmMilestones (ParseRoadmap (nNums e) (nRel e) doc))
         in (map_of (rev (concat (map fst all))), map_of (rev (concat (map snd all)))))
    | _ \<Rightarrow> (Map.empty, Map.empty))"

section \<open>The self-check\<close>

definition ExitTimeout :: int where "ExitTimeout = 124"
definition exitNotExecutable :: int where "exitNotExecutable = 126"
definition exitNotFound :: int where "exitNotFound = 127"

definition gateUnrunnable :: "menv \<Rightarrow> string \<Rightarrow> bool" where
  "gateUnrunnable e gate \<longleftrightarrow>
     list_ex (\<lambda>rel. \<not> nRegular e rel \<or> nSyntax e rel) (gateScripts (nUnicode e) gate) \<or> nUnmet e gate \<noteq> []"

definition gate_self_check :: "menv \<Rightarrow> milestone \<Rightarrow> bool \<Rightarrow> bool \<Rightarrow> apex_error + gateSelfCheck" where
  "gate_self_check e m reapproval green =
     (if gateUnrunnable e (msGate m) then Inl (fail ''milestone.gate-broken'')
      else case nInterrupted e 0 of
        Some er \<Rightarrow> Inl er
      | None \<Rightarrow>
          (let r = nSelfRun e; sc = \<lparr>gsAt = nStamp e 0, gsSHA = nHead e, gsExit = crExit r, gsWrote = gateWrote (nIgnored e 0) (nIgnored e 1)\<rparr>
           in if crExit r = 0 then (if reapproval \<and> green then Inr sc else Inl (fail ''milestone.gate-green''))
              else if crExit r = ExitTimeout \<or> crExit r = exitNotExecutable \<or> crExit r = exitNotFound then Inl (fail ''milestone.gate-broken'')
              else Inr sc))"

section \<open>Gate folders\<close>

fun archived_path :: "(string \<times> string) list \<Rightarrow> string \<Rightarrow> string" where
  "archived_path [] rel = rel"
| "archived_path ((from, to) # as) rel =
     (if rel = from then to
      else if HasPrefix rel (from @ ''/'') then to @ ''/'' @ drop (length from + 1) rel
      else archived_path as rel)"

definition ArchivedPath :: "milestoneRecord option \<Rightarrow> string \<Rightarrow> string" where
  "ArchivedPath r rel = (case r of None \<Rightarrow> rel | Some r \<Rightarrow> archived_path (mrGateArchived r) rel)"

definition gateArchivePlan :: "menv \<Rightarrow> apex_error + (string \<times> string) list" where
  "gateArchivePlan e =
     (if nFolders e = [] then Inr []
      else if nArchiveThere e then Inl (fail ''milestone.gate-archive-exists'')
      else Inr (map (\<lambda>f. (f, if length (nFolders e) > 1 then nArchiveDir e @ ''/'' @ path_Base f else nArchiveDir e)) (nFolders e)))"

section \<open>Gate runs and the full run\<close>

definition GateGreen :: string where "GateGreen = ''green''"
definition GateRed :: string where "GateRed = ''red''"
definition RegressionSkippedGateRed :: string where "RegressionSkippedGateRed = ''gate-red''"

definition run_Green :: "milestoneGateRun \<Rightarrow> bool" where
  "run_Green r \<longleftrightarrow> mgExit r = 0 \<and> mgSpecFailed r = [] \<and> (case mgRegression r of None \<Rightarrow> True | Some v \<Rightarrow> \<not> rvFailed v)"

definition gateResult :: "milestoneGateRun \<Rightarrow> string" where
  "gateResult r = (if run_Green r then GateGreen else GateRed)"

definition full_Green :: "fullRun \<Rightarrow> bool" where
  "full_Green f \<longleftrightarrow> list_all (\<lambda>r. \<not> crRed r) (frResults f) \<and> (case frVerdict f of None \<Rightarrow> True | Some v \<Rightarrow> \<not> rvFailed v)"

definition approvalKey :: "mworld \<Rightarrow> string \<Rightarrow> string" where
  "approvalKey w i = (case mwRecords w of
      None \<Rightarrow> []
    | Some recs \<Rightarrow> (case (case recs i of None \<Rightarrow> None | Some r \<Rightarrow> mrApproval r) of
                     None \<Rightarrow> [] | Some a \<Rightarrow> maAt a @ '' '' @ maGateFilesSHA256 a))"

definition fullChecksKey :: "(string \<Rightarrow> string) \<Rightarrow> plannedCheck list \<Rightarrow> string \<Rightarrow> string" where
  "fullChecksKey sha256_hex checks cmd =
     sha256_hex (Join (sort (map (\<lambda>pc. pcRef pc @ [TAB] @ pcCmd pc) checks) @ [''regression'' @ [TAB] @ cmd]) [LF])"

definition currentFullRun :: "menv \<Rightarrow> mworld \<Rightarrow> string \<Rightarrow> plannedCheck list \<Rightarrow> string \<Rightarrow> fullRun option" where
  "currentFullRun e w i checks cmd = (case mwFull w i of
      None \<Rightarrow> None
    | Some f \<Rightarrow>
        if full_Green f \<and> frChecks f = fullChecksKey (nSha256 e) checks cmd
           \<and> approvalKey w i \<noteq> [] \<and> approvalKey w i = frApproval f \<and> nTree e 0 = Some (frTree f)
        then Some f else None)"

definition withoutFull :: "plannedCheck list \<Rightarrow> plannedCheck list \<times> nat" where
  "withoutFull checks = (filter (\<lambda>pc. \<not> pcFull pc) checks, length (filter pcFull checks))"

definition splitFull :: "plannedCheck list \<Rightarrow> plannedCheck list \<times> plannedCheck list" where
  "splitFull checks = (filter (\<lambda>pc. \<not> pcFull pc) checks, filter pcFull checks)"

definition run_gate :: nat where "run_gate = 0"
definition run_plain :: nat where "run_plain = 1"
definition run_full :: nat where "run_full = 2"

definition mRun :: "menv \<Rightarrow> nat \<Rightarrow> plannedCheck list \<Rightarrow> checkResult list" where
  "mRun e k pcs = RunChecks (nExec e k) (nCtxErr e k) pcs"

definition runFull :: "menv \<Rightarrow> string \<Rightarrow> plannedCheck list \<Rightarrow> string \<Rightarrow> string \<Rightarrow> mworld \<Rightarrow> (apex_error + fullRun) \<times> mworld" where
  "runFull e i checks cmd who w =
     (let results = mRun e run_full (checks @ (if cmd \<noteq> [] then [regression_check cmd] else [])) in
      case nInterrupted e 3 of
        Some er \<Rightarrow> (Inl er, w)
      | None \<Rightarrow>
          (let reg = (if cmd \<noteq> [] then Some (judgeRegression (last results) (map_option snd (milestoneRegressionBaseline (nCandidates e) cmd)) (nFailing e (last results))) else None);
               f = \<lparr>frAt = nStamp e 3, frTree = (case nTree e 1 of None \<Rightarrow> [] | Some t \<Rightarrow> t), frApproval = approvalKey w i,
                    frChecks = fullChecksKey (nSha256 e) checks cmd,
                    frResults = (if cmd \<noteq> [] then butlast results else results),
                    frRegression = map_option fst reg, frVerdict = map_option snd reg, frBy = who\<rparr>
           in (Inr f, w\<lparr>mwFull := (mwFull w)(i := Some f)\<rparr>)))"

end
