(* ===== verification/Milestone.thy ===== *)
theory Milestone
  imports Approval
begin

text \<open>
  The commands of a milestone (\<open>internal/apexv1/milestone.go\<close>): \<open>new\<close>, \<open>approve\<close>, \<open>gate\<close>, \<open>full\<close>,
  \<open>gate --spec-only\<close> and \<open>close\<close>, each a function from the records (\<open>mworld\<close>) to a result, an error and the
  records after it. A write that fails leaves its file as it was; every write before it stays. Events, the
  evidence folder and the text of a message are not modelled.
\<close>

section \<open>Commits\<close>

text \<open>
  \<open>commitMilestone\<close> with ape's own edits since \<open>w0\<close>: \<open>doc\<close> and \<open>recs\<close> say which of the two files are its
  own, so that a refused commit restores them when they were clean.
\<close>

definition commitMilestone :: "menv \<Rightarrow> bool \<Rightarrow> bool \<Rightarrow> mworld \<Rightarrow> mworld \<Rightarrow> (apex_error + string) \<times> mworld" where
  "commitMilestone e doc recs w0 w = (case nCommit e of
      Committed sha \<Rightarrow> (Inr sha, w)
    | CommitFailed er \<Rightarrow> (Inl er, w)
    | CommitUndone er cleanDoc cleanRecs \<Rightarrow>
        (Inl er, w\<lparr>mwRoadmap := (if doc \<and> cleanDoc then mwRoadmap w0 else mwRoadmap w),
                   mwRecords := (if recs \<and> cleanRecs then mwRecords w0 else mwRecords w)\<rparr>))"

definition loadRoadmapDoc :: "menv \<Rightarrow> mworld \<Rightarrow> apex_error + (string \<times> roadmap)" where
  "loadRoadmapDoc e w = (case mwRoadmap w of
      None \<Rightarrow> Inl (fail ''roadmap.missing'')
    | Some doc \<Rightarrow> Inr (doc, ParseRoadmap (nNums e) (nRel e) doc))"

definition find_milestone :: "menv \<Rightarrow> mworld \<Rightarrow> string \<Rightarrow> apex_error + (string \<times> roadmap \<times> milestone)" where
  "find_milestone e w i = (case loadRoadmapDoc e w of
      Inl er \<Rightarrow> Inl er
    | Inr (doc, rm) \<Rightarrow> (case rm_Find rm i of None \<Rightarrow> Inl (fail ''milestone.not-found'') | Some m \<Rightarrow> Inr (doc, rm, m)))"

section \<open>New\<close>

definition has_lf :: "string \<Rightarrow> bool" where
  "has_lf s \<longleftrightarrow> LF \<in> set s"

definition NewMilestoneWith ::
  "menv \<Rightarrow> string \<Rightarrow> string \<Rightarrow> string \<Rightarrow> string option \<Rightarrow> string \<Rightarrow> string \<Rightarrow> mworld \<Rightarrow> (string option \<times> apex_error option) \<times> mworld" where
  "NewMilestoneWith e title0 gate goal usd tokens0 wall0 w =
     (let title = TrimSpace title0; tokens = TrimSpace tokens0; wall = TrimSpace wall0 in
      case first_err
        [nRecover e,
         when_err (title = []) (UsageError ''usage.title''),
         when_err (TrimSpace gate = []) (UsageError ''usage.gate''),
         when_err (has_lf gate \<or> has_lf title) (UsageError ''usage.one-line''),
         when_err (tokens \<noteq> [] \<and> \<not> nlTokens (nNums e) tokens) (UsageError ''usage.budget''),
         when_err (wall \<noteq> [] \<and> \<not> nlDuration (nNums e) wall) (UsageError ''usage.budget''),
         nOnBranch e] of
        Some er \<Rightarrow> ((None, Some er), w)
      | None \<Rightarrow>
          (case loadRoadmapDoc e w of
             Inl er \<Rightarrow> ((None, Some er), w)
           | Inr (doc, rm) \<Rightarrow>
               (case nWrite e of
                  Some er \<Rightarrow> ((None, Some er), w)
                | None \<Rightarrow>
                    (let i = NextID rm;
                         w1 = w\<lparr>mwRoadmap := Some (appendMilestoneBudgets (AppendMilestone doc i title gate usd goal []) tokens wall)\<rparr>
                     in case commitMilestone e True True w w1 of
                          (Inl er, w2) \<Rightarrow> ((Some i, Some er), w2)
                        | (Inr _, w2) \<Rightarrow> ((Some i, None), w2)))))"

definition NewMilestone :: "menv \<Rightarrow> string \<Rightarrow> string \<Rightarrow> string option \<Rightarrow> string \<Rightarrow> mworld \<Rightarrow> (string option \<times> apex_error option) \<times> mworld" where
  "NewMilestone e title gate budget goal w = NewMilestoneWith e title gate goal budget [] [] w"

section \<open>Approve\<close>

definition record_of :: "(string \<Rightarrow> milestoneRecord option) \<Rightarrow> string \<Rightarrow> milestoneRecord" where
  "record_of recs i = (case recs i of None \<Rightarrow> new_record | Some r \<Rightarrow> r)"

text \<open>An approved milestone whose record holds its gate as it is: nothing to approve.\<close>

definition approval_current :: "menv \<Rightarrow> milestone \<Rightarrow> milestoneRecord option \<Rightarrow> bool" where
  "approval_current e m rec = (case rec of
      None \<Rightarrow> False
    | Some r \<Rightarrow> (case mrApproval r of
        None \<Rightarrow> False
      | Some a \<Rightarrow> gateDrift e 0 m a = [] \<and> \<not> gateScriptUnrecorded e 0 m a \<and> mrConsecutiveBlocks r = 0))"

definition approved_record :: "menv \<Rightarrow> milestone \<Rightarrow> string \<Rightarrow> string \<Rightarrow> string \<Rightarrow> gateSelfCheck \<Rightarrow> milestoneRecord \<Rightarrow> milestoneRecord" where
  "approved_record e m who base green sc r =
     (let a = (newApproval e m who (gsWrote sc))\<lparr>maSelfCheck := Some sc, maBaseSHA := base\<rparr>;
          a' = (if gsExit sc = 0 then a\<lparr>maAcceptGreen := Some \<lparr>agReason = green, agBy = maBy a, agAt = maAt a\<rparr>\<rparr> else a)
      in r\<lparr>mrApproval := Some a', mrConsecutiveBlocks := 0\<rparr>)"

definition approved_text :: "menv \<Rightarrow> string \<Rightarrow> string" where
  "approved_text e who = ''approved (by '' @ TrimSpace who @ '' '' @ nStamp e 1 @ '')''"

text \<open>The status line of a first approval, written; the milestone as it reads afterwards.\<close>

definition write_approved :: "menv \<Rightarrow> roadmap \<Rightarrow> milestone \<Rightarrow> string \<Rightarrow> mworld \<Rightarrow> (apex_error + milestone) \<times> mworld" where
  "write_approved e rm m who w =
     (if msStatus m = MilestoneApproved then (Inr m, w)
      else case WithStatus rm (msID m) (approved_text e who) of
        None \<Rightarrow> (Inl (OtherError ''no milestone''), w)
      | Some updated \<Rightarrow>
          (case nWrite e of
             Some er \<Rightarrow> (Inl er, w)
           | None \<Rightarrow> (case rm_Find (ParseRoadmap (nNums e) [] updated) (msID m) of
                        None \<Rightarrow> Inl (OtherError ''panic'')
                      | Some m' \<Rightarrow> Inr m',
                      w\<lparr>mwRoadmap := Some updated\<rparr>)))"

definition approve_write ::
  "menv \<Rightarrow> roadmap \<Rightarrow> milestone \<Rightarrow> (string \<Rightarrow> milestoneRecord option) \<Rightarrow> string \<Rightarrow> string \<Rightarrow> string \<Rightarrow> gateSelfCheck \<Rightarrow> mworld
    \<Rightarrow> (milestone \<times> bool) option \<times> apex_error option \<times> mworld" where
  "approve_write e rm m recs who base green sc w = (case write_approved e rm m who w of
      (Inl er, w1) \<Rightarrow> (None, Some er, w1)
    | (Inr m', w1) \<Rightarrow>
        (case nSave e 0 of
           Some er \<Rightarrow> (None, Some er, w1)
         | None \<Rightarrow>
             (let w2 = w1\<lparr>mwRecords := Some (recs(msID m := Some (approved_record e m' (TrimSpace who) base green sc (record_of recs (msID m)))))\<rparr>
              in case commitMilestone e True True w w2 of
                   (Inl er, w3) \<Rightarrow> (Some (m', True), Some er, w3)
                 | (Inr _, w3) \<Rightarrow> (Some (m', True), None, w3))))"

definition approveMilestone ::
  "menv \<Rightarrow> string \<Rightarrow> string \<Rightarrow> string \<Rightarrow> mworld \<Rightarrow> (milestone \<times> bool) option \<times> apex_error option \<times> mworld" where
  "approveMilestone e i who green w = (case first_err [nPerson e, nRecover e, when_err (TrimSpace who = []) (UsageError ''usage.by''), nOnBranch e] of
      Some er \<Rightarrow> (None, Some er, w)
    | None \<Rightarrow>
        (case find_milestone e w i of
           Inl er \<Rightarrow> (None, Some er, w)
         | Inr (doc, rm, m) \<Rightarrow>
             (case mwRecords w of
                None \<Rightarrow> (None, Some (OtherError ''milestones.json''), w)
              | Some recs \<Rightarrow>
                  if msStatus m = MilestoneDone then (None, Some (fail ''milestone.done''), w)
                  else if msStatus m = MilestoneApproved \<and> approval_current e m (recs i) then (Some (m, False), None, w)
                  else
                    (let fs = filterMilestone (ValidateRoadmap (nNums e) (nRel e) doc) m;
                         old = approval_Base (case recs i of None \<Rightarrow> None | Some r \<Rightarrow> mrApproval r);
                         base = (if old \<noteq> [] then old else nHead e);
                         reapproval = (msStatus m = MilestoneApproved)
                     in if fs \<noteq> [] then (None, Some (FailError ''milestone.malformed'' fs), w)
                        else if green \<noteq> [] \<and> \<not> reapproval then (None, Some (UsageError ''usage.accept-green''), w)
                        else case gate_self_check e m reapproval (green \<noteq> []) of
                               Inl er \<Rightarrow> (None, Some er, w)
                             | Inr sc \<Rightarrow> approve_write e rm m recs who base green sc w))))"

definition ApproveMilestoneOutcome ::
  "menv \<Rightarrow> string \<Rightarrow> string \<Rightarrow> string option \<Rightarrow> mworld \<Rightarrow> (milestone \<times> bool) option \<times> apex_error option \<times> mworld" where
  "ApproveMilestoneOutcome e i who acceptGreen w = (case acceptGreen of
      None \<Rightarrow> approveMilestone e i who [] w
    | Some g \<Rightarrow>
        (let reason = TrimSpace g in
         if reason = [] \<or> has_lf reason then (None, Some (UsageError ''usage.reason''), w)
         else approveMilestone e i who reason w))"

definition ApproveMilestone :: "menv \<Rightarrow> string \<Rightarrow> string \<Rightarrow> mworld \<Rightarrow> milestone option \<times> apex_error option \<times> mworld" where
  "ApproveMilestone e i who w = (case approveMilestone e i who [] w of (r, er, w') \<Rightarrow> (map_option fst r, er, w'))"

definition ApproveMilestoneAcceptGreen :: "menv \<Rightarrow> string \<Rightarrow> string \<Rightarrow> string \<Rightarrow> mworld \<Rightarrow> milestone option \<times> apex_error option \<times> mworld" where
  "ApproveMilestoneAcceptGreen e i who reason w = (case ApproveMilestoneOutcome e i who (Some reason) w of (r, er, w') \<Rightarrow> (map_option fst r, er, w'))"

section \<open>Gate\<close>

record gateResultRec =
  grMilestone :: string
  grRun :: "milestoneGateRun option"
  grStatus :: string
  grInFlight :: "string list"
  grResultChanged :: bool
  grAcceptRed :: "acceptRed option"
  grArchived :: "(string \<times> string) list"

definition blank_gate :: "string \<Rightarrow> string \<Rightarrow> gateResultRec" where
  "blank_gate i st = \<lparr>grMilestone = i, grRun = None, grStatus = st, grInFlight = [], grResultChanged = False, grAcceptRed = None, grArchived = []\<rparr>"

definition GatePreflight :: "menv \<Rightarrow> string \<Rightarrow> mworld \<Rightarrow> apex_error option" where
  "GatePreflight e i w = (case nOnBranch e of
      Some er \<Rightarrow> Some er
    | None \<Rightarrow>
        (case find_milestone e w i of
           Inl _ \<Rightarrow> None
         | Inr (_, _, m) \<Rightarrow>
             if msStatus m = MilestoneDone then Some (fail ''milestone.done'')
             else if msStatus m = MilestoneApproved then requireApprovalRecord e 0 w m True
             else None))"

definition gate_check :: "string \<Rightarrow> string \<Rightarrow> plannedCheck" where
  "gate_check i cmd = \<lparr>pcRef = ''gate-'' @ i, pcKind = KindGate, pcCapability = [], pcRequirement = [], pcScenario = [],
     pcDelta = False, pcCmd = cmd, pcLine = 0, pcFull = False\<rparr>"

definition gateFullRun :: "menv \<Rightarrow> string \<Rightarrow> fullRun option \<Rightarrow> plannedCheck list \<Rightarrow> string \<Rightarrow> bool \<Rightarrow> mworld \<Rightarrow> (apex_error + fullRun) \<times> mworld" where
  "gateFullRun e i fr checks cmd full w = (case fr of
      Some f \<Rightarrow> (Inr f, w)
    | None \<Rightarrow> runFull e i checks cmd (if full then ''close'' else ''gate'') w)"

text \<open>The run a gate records: of its command, the results of the scenarios and the full run it took, if any.\<close>

definition gate_run_of ::
  "menv \<Rightarrow> milestone \<Rightarrow> checkResult \<Rightarrow> checkResult list \<Rightarrow> nat \<Rightarrow> nat \<Rightarrow> regressionVerdict option \<Rightarrow> fullRun option \<Rightarrow> bool \<Rightarrow> milestoneGateRun" where
  "gate_run_of e m gate plain checks skipped verdict fr reused =
     (let results = plain @ (case fr of None \<Rightarrow> [] | Some f \<Rightarrow> frResults f);
          ran = gate # results @ (case fr of None \<Rightarrow> [] | Some f \<Rightarrow> opt_list (frRegression f))
      in \<lparr>mgExit = crExit gate, mgAt = nStamp e 4, mgSHA = nHead e, mgCmd = msGate m, mgReason = crReason gate,
          mgSpecChecks = checks, mgSpecFailed = filter (\<lambda>r. crExit r \<noteq> 0) results, mgStrayFiles = StrayFiles ran, mgStraysKept = StraysKept ran,
          mgRegression = (case fr of Some f \<Rightarrow> (if frRegression f = None then verdict else frVerdict f) | None \<Rightarrow> verdict),
          mgFlaky = map crTask (filter crFlaky ran), mgFullSkipped = skipped,
          mgFullRunReused = (case fr of Some f \<Rightarrow> (if reused then frAt f else []) | None \<Rightarrow> [])\<rparr>)"

definition record_gate :: "menv \<Rightarrow> string \<Rightarrow> string \<Rightarrow> milestoneGateRun \<Rightarrow> mworld \<Rightarrow> (apex_error + gateResultRec) \<times> mworld" where
  "record_gate e i st run w0 =
     (let w = w0\<lparr>mwLastRun := (mwLastRun w0)(i := Some run)\<rparr>; g = (blank_gate i st)\<lparr>grRun := Some run\<rparr> in
      case mwRecords w of
        None \<Rightarrow> (Inl (OtherError ''milestones.json''), w)
      | Some recs \<Rightarrow>
          if (case recs i of None \<Rightarrow> False | Some r \<Rightarrow> mrResult r = gateResult run) then (Inr g, w)
          else (case nSave e 1 of
                  Some er \<Rightarrow> (Inl er, w)
                | None \<Rightarrow> (Inr (g\<lparr>grResultChanged := True\<rparr>),
                           w\<lparr>mwRecords := Some (recs(i := Some ((record_of recs i)\<lparr>mrResult := gateResult run, mrSince := Some run\<rparr>)))\<rparr>)))"

definition runGate :: "menv \<Rightarrow> string \<Rightarrow> bool \<Rightarrow> mworld \<Rightarrow> (apex_error + gateResultRec) \<times> mworld" where
  "runGate e i full w = (case find_milestone e w i of
      Inl er \<Rightarrow> (Inl er, w)
    | Inr (_, _, m) \<Rightarrow>
        if msGate m = [] then (Inl (fail ''milestone.no-gate''), w)
        else
          (let gate = hd (mRun e run_gate [gate_check i (msGate m)]);
               skip = (crExit gate \<noteq> 0 \<and> \<not> full);
               all = EffectiveSpecChecks (nSpecs e) None;
               (spec, skipped) = (if skip then withoutFull all else (all, 0));
               cmd = nRegressionCmd e;
               verdict = (if cmd \<noteq> [] \<and> skip then Some ((empty_verdict cmd)\<lparr>rvSkipped := RegressionSkippedGateRed\<rparr>) else None);
               (plain, fulls) = splitFull spec;
               fr = (if \<not> skip \<and> \<not> nRerun e then currentFullRun e w i fulls cmd else None);
               results = mRun e run_plain plain
           in case first_err [nInterrupted e 1, nInterrupted e 2] of
                Some er \<Rightarrow> (Inl er, w)
              | None \<Rightarrow>
                  if skip then record_gate e i (msStatus m) (gate_run_of e m gate results (length spec) skipped verdict None False) w
                  else (case gateFullRun e i fr fulls cmd full w of
                          (Inl er, w1) \<Rightarrow> (Inl er, w1)
                        | (Inr f, w1) \<Rightarrow>
                            record_gate e i (msStatus m) (gate_run_of e m gate results (length spec) skipped verdict (Some f) (fr \<noteq> None)) w1)))"

definition RunGate :: "menv \<Rightarrow> string \<Rightarrow> mworld \<Rightarrow> gateResultRec option \<times> apex_error option \<times> mworld" where
  "RunGate e i w = (case first_err [nRecover e, GatePreflight e i w] of
      Some er \<Rightarrow> (None, Some er, w)
    | None \<Rightarrow>
        (case runGate e i False w of
           (Inl er, w1) \<Rightarrow> (None, Some er, w1)
         | (Inr g, w1) \<Rightarrow>
             if \<not> grResultChanged g then (Some g, None, w1)
             else (case commitMilestone e False True w w1 of
                     (Inl er, w2) \<Rightarrow> (Some g, Some er, w2)
                   | (Inr _, w2) \<Rightarrow> (Some g, None, w2))))"

text \<open>\<open>ape milestone full\<close>.\<close>

definition RunFull :: "menv \<Rightarrow> string \<Rightarrow> mworld \<Rightarrow> fullRun option \<times> apex_error option \<times> mworld" where
  "RunFull e i w = (case GatePreflight e i w of
      Some er \<Rightarrow> (None, Some er, w)
    | None \<Rightarrow>
        (case find_milestone e w i of
           Inl er \<Rightarrow> (None, Some er, w)
         | Inr _ \<Rightarrow>
             (case runFull e i (snd (splitFull (EffectiveSpecChecks (nSpecs e) None))) (nRegressionCmd e) ''full'' w of
                (Inl er, w1) \<Rightarrow> (None, Some er, w1)
              | (Inr f, w1) \<Rightarrow> (Some f, when_err (\<not> full_Green f) (fail ''milestone.full-red''), w1))))"

record specOnlyResult =
  soSpecChecks :: nat
  soFullSkipped :: nat
  soSpecFailed :: "checkResult list"

definition RunSpecOnly :: "menv \<Rightarrow> string \<Rightarrow> mworld \<Rightarrow> apex_error + specOnlyResult" where
  "RunSpecOnly e i w = (case first_err [nRecover e, nOnBranch e] of
      Some er \<Rightarrow> Inl er
    | None \<Rightarrow>
        (case find_milestone e w i of
           Inl er \<Rightarrow> Inl er
         | Inr (_, _, m) \<Rightarrow>
             (case (if msStatus m = MilestoneDone then Some (fail ''milestone.done'')
                    else if msStatus m = MilestoneApproved then requireApprovalRecord e 0 w m True else None) of
                Some er \<Rightarrow> Inl er
              | None \<Rightarrow>
                  (let (spec, full) = withoutFull (EffectiveSpecChecks (nSpecs e) None); results = mRun e run_plain spec
                   in case nInterrupted e 2 of
                        Some er \<Rightarrow> Inl er
                      | None \<Rightarrow> Inr \<lparr>soSpecChecks = length spec, soFullSkipped = full, soSpecFailed = filter (\<lambda>r. crExit r \<noteq> 0) results\<rparr>))))"

section \<open>Close\<close>

definition in_flight :: "menv \<Rightarrow> string \<Rightarrow> string list" where
  "in_flight e i = List.map_filter (\<lambda>(c, doc, st). case (doc, st) of
      (Some d, Some s) \<Rightarrow> if mMilestone (cMeta d) = i \<and> stStatus s \<in> {InProgress, Verified, Reviewed} then Some c else None
    | _ \<Rightarrow> None) (nChanges e)"

definition markDone :: "menv \<Rightarrow> string \<Rightarrow> string \<Rightarrow> acceptRed option \<Rightarrow> (string \<times> string) list \<Rightarrow> mworld \<Rightarrow> apex_error option \<times> mworld" where
  "markDone e i at red archived w = (case mwRecords w of
      None \<Rightarrow> (Some (OtherError ''milestones.json''), w)
    | Some recs \<Rightarrow>
        (case nSave e 2 of
           Some er \<Rightarrow> (Some er, w)
         | None \<Rightarrow>
             (let r = record_of recs i;
                  r' = r\<lparr>mrDoneAt := at, mrAcceptRed := (if red = None then mrAcceptRed r else red),
                         mrGateArchived := (if archived = [] then mrGateArchived r else archived)\<rparr>
              in (None, w\<lparr>mwRecords := Some (recs(i := Some r'))\<rparr>))))"

definition done_sha :: "milestoneGateRun \<Rightarrow> string" where
  "done_sha run = (if mgSHA run = [] then ''0000000'' else mgSHA run)"

definition done_text :: "milestoneGateRun \<Rightarrow> acceptRed option \<Rightarrow> string" where
  "done_text run red = (case red of
      None \<Rightarrow> ''done ('' @ mgAt run @ '' '' @ done_sha run @ '')''
    | Some r \<Rightarrow> ''done (accepted red by '' @ arBy r @ '' '' @ arAt r @ '' '' @ done_sha run @ '')'')"

text \<open>The end of a close, once the gate may end the milestone: \<open>w\<close> after the gate ran, the roadmap read again.\<close>

definition close_write ::
  "menv \<Rightarrow> string \<Rightarrow> gateResultRec \<Rightarrow> milestoneGateRun \<Rightarrow> acceptRed option \<Rightarrow> (string \<times> string) list \<Rightarrow> mworld
    \<Rightarrow> gateResultRec option \<times> apex_error option \<times> mworld" where
  "close_write e i g run red0 plan w = (case loadRoadmapDoc e w of
      Inl er \<Rightarrow> (None, Some er, w)
    | Inr (_, rm) \<Rightarrow>
        (case nMove e of
           Some er \<Rightarrow> (None, Some er, w)
         | None \<Rightarrow>
             (let red = map_option (\<lambda>r. r\<lparr>arAt := nStamp e 5, arGate := Some run\<rparr>) red0 in
              case WithStatus rm i (done_text run red) of
                None \<Rightarrow> (None, Some (OtherError ''no milestone''), w)
              | Some updated \<Rightarrow>
                  (case nWrite e of
                     Some er \<Rightarrow> (None, Some er, w)
                   | None \<Rightarrow>
                       (case markDone e i (mgAt run) red plan (w\<lparr>mwRoadmap := Some updated\<rparr>) of
                          (Some er, w1) \<Rightarrow> (None, Some er, w1)
                        | (None, w1) \<Rightarrow>
                            (let g' = g\<lparr>grStatus := MilestoneDone, grAcceptRed := red, grArchived := plan\<rparr> in
                             case nEvidence e of
                               Some er \<Rightarrow> (Some g', Some er, w1)
                             | None \<Rightarrow> (case commitMilestone e False False w w1 of
                                          (Inl er, w2) \<Rightarrow> (Some g', Some er, w2)
                                        | (Inr _, w2) \<Rightarrow> (Some g', None, w2))))))))"

definition edited :: "menv \<Rightarrow> mworld \<Rightarrow> mworld" where
  "edited e w = (case nEdited e of None \<Rightarrow> w | Some doc \<Rightarrow> w\<lparr>mwRoadmap := doc\<rparr>)"

definition close_gate ::
  "menv \<Rightarrow> string \<Rightarrow> acceptRed option \<Rightarrow> (string \<times> string) list \<Rightarrow> mworld \<Rightarrow> gateResultRec option \<times> apex_error option \<times> mworld" where
  "close_gate e i red plan w = (case runGate e i True w of
      (Inl er, w1) \<Rightarrow> (None, Some er, w1)
    | (Inr g, w1) \<Rightarrow>
        (case grRun g of
           None \<Rightarrow> (None, Some (OtherError ''no run''), w1)
         | Some run \<Rightarrow>
             if \<not> run_Green run \<and> red = None
             then (if grResultChanged g
                   then (case commitMilestone e False True w w1 of
                           (Inl er, w2) \<Rightarrow> (Some g, Some er, w2)
                         | (Inr _, w2) \<Rightarrow> (Some g, Some (fail ''gate.red''), w2))
                   else (Some g, Some (fail ''gate.red''), w1))
             else close_write e i g run (if run_Green run then None else red) plan (edited e w1)))"

definition closeMilestone :: "menv \<Rightarrow> string \<Rightarrow> acceptRed option \<Rightarrow> mworld \<Rightarrow> gateResultRec option \<times> apex_error option \<times> mworld" where
  "closeMilestone e i red w = (case first_err [nRecover e, nOnBranch e] of
      Some er \<Rightarrow> (None, Some er, w)
    | None \<Rightarrow>
        (case find_milestone e w i of
           Inl er \<Rightarrow> (None, Some er, w)
         | Inr (_, _, m) \<Rightarrow>
             if msStatus m = MilestoneDone then (Some (blank_gate i MilestoneDone), None, w)
             else if msStatus m \<noteq> MilestoneApproved then (None, Some (fail ''milestone.not-approved''), w)
             else case requireApprovalRecord e 0 w m True of
               Some er \<Rightarrow> (None, Some er, w)
             | None \<Rightarrow>
                 if in_flight e i \<noteq> []
                 then (Some ((blank_gate i (msStatus m))\<lparr>grInFlight := in_flight e i\<rparr>), Some (fail ''milestone.changes-in-flight''), w)
                 else (case gateArchivePlan e of
                         Inl er \<Rightarrow> (None, Some er, w)
                       | Inr plan \<Rightarrow> close_gate e i red plan w)))"

definition CloseMilestone :: "menv \<Rightarrow> string \<Rightarrow> mworld \<Rightarrow> gateResultRec option \<times> apex_error option \<times> mworld" where
  "CloseMilestone e i w = closeMilestone e i None w"

definition CloseMilestoneAcceptRed :: "menv \<Rightarrow> string \<Rightarrow> string \<Rightarrow> string \<Rightarrow> mworld \<Rightarrow> gateResultRec option \<times> apex_error option \<times> mworld" where
  "CloseMilestoneAcceptRed e i reason0 who0 w =
     (let reason = TrimSpace reason0; who = TrimSpace who0 in
      case first_err
        [nPerson e,
         when_err (reason = [] \<or> has_lf reason) (UsageError ''usage.reason''),
         when_err (who = []) (UsageError ''usage.by'')] of
        Some er \<Rightarrow> (None, Some er, w)
      | None \<Rightarrow> closeMilestone e i (Some \<lparr>arReason = reason, arBy = who, arAt = [], arGate = None\<rparr>) w)"

section \<open>Gates the rewrite of (live) tags changes\<close>

text \<open>
  \<open>rerecordRewrittenGates\<close> (\<open>rewritelive.go\<close>): \<open>before\<close> has the digests of the files the rewrite changed, from before it;
  \<open>nFileSHA e 1\<close> reads them after it. A digest that was the recorded one is recorded again; a file that had drifted keeps
  its record. \<open>ids\<close> are the milestones of \<open>milestones.json\<close>.
\<close>

definition rerecord_file :: "menv \<Rightarrow> (string \<rightharpoonup> string) \<Rightarrow> string \<times> string \<Rightarrow> string \<times> string" where
  "rerecord_file e before = (\<lambda>(f, sum). if before f = Some sum then (f, case nFileSHA e 1 f of None \<Rightarrow> sum | Some now \<Rightarrow> now) else (f, sum))"

definition rerecord_approval :: "menv \<Rightarrow> (string \<rightharpoonup> string) \<Rightarrow> milestoneApproval \<Rightarrow> milestoneApproval" where
  "rerecord_approval e before a =
     (let files = map (rerecord_file e before) (maGateFiles a); own = map (rerecord_file e before) (maGateOwnFiles a)
      in if files = maGateFiles a \<and> own = maGateOwnFiles a then a
         else a\<lparr>maGateFiles := files, maGateOwnFiles := own, maGateFilesSHA256 := gateFilesDigest (nSha256 e) files\<rparr>)"

definition rerecord :: "menv \<Rightarrow> (string \<rightharpoonup> string) \<Rightarrow> milestoneRecord \<Rightarrow> milestoneRecord" where
  "rerecord e before r = (case mrApproval r of None \<Rightarrow> r | Some a \<Rightarrow> r\<lparr>mrApproval := Some (rerecord_approval e before a)\<rparr>)"

definition rerecordRewrittenGates ::
  "menv \<Rightarrow> (string \<rightharpoonup> string) \<Rightarrow> string list \<Rightarrow> mworld \<Rightarrow> (apex_error + string list) \<times> mworld" where
  "rerecordRewrittenGates e before ids w = (case mwRecords w of
      None \<Rightarrow> (Inl (OtherError ''milestones.json''), w)
    | Some recs \<Rightarrow>
        (let changed = sort (filter (\<lambda>i. case recs i of None \<Rightarrow> False | Some r \<Rightarrow> rerecord e before r \<noteq> r) ids) in
         if changed = [] then (Inr [], w)
         else case nSave e 3 of
                Some er \<Rightarrow> (Inl er, w)
              | None \<Rightarrow> (Inr changed, w\<lparr>mwRecords := Some (\<lambda>i. if i \<in> set changed then map_option (rerecord e before) (recs i) else recs i)\<rparr>)))"

end
