(* ===== verification/RoadmapFacts.thy ===== *)
theory RoadmapFacts
  imports Roadmap PlanFacts
begin

text \<open>
  What the roadmap's operations show: the id of a new milestone is no id of the roadmap, and writing a
  milestone's status line and reading the document again changes that status and nothing else.
\<close>

section \<open>Ids\<close>

definition ms_id :: "string \<Rightarrow> bool" where
  "ms_id i \<longleftrightarrow> (\<exists>ds. i = CHR ''M'' # ds \<and> ds \<noteq> [] \<and> list_all is_digit ds)"

lemma match_milestone_head_id: "match_milestone_head s = Some (i, ti) \<Longrightarrow> ms_id i"
  by (auto simp: match_milestone_head_def ms_id_def Let_def list_all_iff dest: set_takeWhileD split: list.splits if_splits)

lemma ms_field_id: "ms_field nl n k v ms = Some st \<Longrightarrow> msID (fst st) = msID ms"
  by (auto simp: ms_field_def set_status_def split: if_splits)

lemma ms_line_id: "msID (fst (ms_line nl st l)) = msID (fst st)"
  by (auto simp: ms_line_def Let_def dest: ms_field_id split: option.splits prod.splits)

lemma ms_lines_id: "msID (fst (foldl (ms_line nl) st ls)) = msID (fst st)"
  by (induction ls arbitrary: st) (simp_all add: ms_line_id)

lemma parsed_ids:
  assumes "m \<in> set (rmMilestones (ParseRoadmap nl file doc))"
  shows "ms_id (msID m)"
proof -
  from assms obtain s where "parse_ms nl s = Some m"
    by (auto simp: ParseRoadmap_def Let_def map_filter_def)
  then show ?thesis
    by (auto simp: parse_ms_def ms_lines_id new_ms_def dest: match_milestone_head_id split: if_splits)
qed

lemma max_number_ge: "m \<in> set ms \<Longrightarrow> id_number m \<le> max_number ms"
proof -
  have "foldl (\<lambda>a m. max a (id_number m)) b ms \<ge> b \<and> (\<forall>m\<in>set ms. id_number m \<le> foldl (\<lambda>a m. max a (id_number m)) b ms)" for b
  proof (induction ms arbitrary: b)
    case (Cons x ms)
    show ?case using Cons.IH[of "max b (id_number x)"] by auto
  qed simp
  then show "m \<in> set ms \<Longrightarrow> id_number m \<le> max_number ms" by (simp add: max_number_def)
qed

text \<open>The id a new milestone gets is the id of no milestone of the roadmap, whatever document it
  was read from.
\<close>

lemma NextID_fresh: "NextID (ParseRoadmap nl file doc) \<notin> msID ` set (rmMilestones (ParseRoadmap nl file doc))"
proof
  let ?r = "ParseRoadmap nl file doc"
  define n where "n = max_number (rmMilestones ?r) + 1"
  assume "NextID ?r \<in> msID ` set (rmMilestones ?r)"
  then obtain m where m: "m \<in> set (rmMilestones ?r)" "msID m = NextID ?r" by auto
  then obtain ds where ds: "NextID ?r = CHR ''M'' # ds" "list_all is_digit ds" using parsed_ids[OF m(1)] by (auto simp: ms_id_def)
  show False
  proof (cases "n < 2 ^ 63")
    case True
    then have "NextID ?r = ''M'' @ Itoa n" unfolding NextID_def Let_def n_def[symmetric] by simp
    with m True have "id_number m = n" by (simp add: id_number_def TrimPrefix_def Atoi_Itoa)
    with max_number_ge[OF m(1)] show False by (simp add: n_def)
  next
    case False
    then have "NextID ?r = ''M'' @ ''-9223372036854775808''" unfolding NextID_def Let_def n_def[symmetric] by simp
    with ds show False by (auto simp: is_digit_def)
  qed
qed

section \<open>Status lines\<close>

text \<open>The lines \<open>ParseRoadmap\<close> reads a status from.\<close>

definition status_line :: "mdLine \<Rightarrow> bool" where
  "status_line l \<longleftrightarrow> \<not> mdInCode l \<and> (let t = TrimSpace (mdText l); (k, v, ok) = cut_char (CHR '':'') t in
     ok \<and> \<not> HasPrefix t ''-'' \<and> \<not> HasPrefix t ''*'' \<and> field_key (TrimSpace k) = ''status'')"

definition status_value :: "mdLine \<Rightarrow> string" where
  "status_value l = stripComment (TrimSpace (fst (snd (cut_char (CHR '':'') (TrimSpace (mdText l))))))"

definition with_status :: "nat \<Rightarrow> string \<Rightarrow> milestone \<Rightarrow> milestone" where
  "with_status n txt ms = (if msStatusLine ms = n then set_status txt ms else ms)"

lemma ms_line_status:
  "status_line l \<Longrightarrow> ms_line nl st l = ((set_status (status_value l) (fst st))\<lparr>msStatusLine := mdN l\<rparr>, False)"
  by (cases "cut_char (CHR '':'') (TrimSpace (mdText l))")
    (simp add: status_line_def ms_line_def status_value_def Let_def ms_field_def)

lemma ms_field_other:
  "k \<noteq> ''status'' \<Longrightarrow> ms_field nl n k v (set_status txt ms) = map_option (map_prod (set_status txt) id) (ms_field nl n k v ms)"
  "k \<noteq> ''status'' \<Longrightarrow> ms_field nl n k v ms = Some st \<Longrightarrow> msStatusLine (fst st) = msStatusLine ms"
  by (auto simp: ms_field_def set_status_def split: if_splits)

lemma ms_line_other:
  assumes "\<not> status_line l"
  shows "ms_line nl (set_status txt ms, b) l = map_prod (set_status txt) id (ms_line nl (ms, b) l)"
    and "msStatusLine (fst (ms_line nl (ms, b) l)) = msStatusLine ms"
proof -
  obtain k v ok where c: "cut_char (CHR '':'') (TrimSpace (mdText l)) = (k, v, ok)" by (cases "cut_char (CHR '':'') (TrimSpace (mdText l))")
  note defs = ms_line_def Let_def c
  have oos: "msOutOfScope (set_status txt ms) = msOutOfScope ms"
    "(set_status txt ms)\<lparr>msOutOfScope := x\<rparr> = set_status txt (ms\<lparr>msOutOfScope := x\<rparr>)" for x
    by (simp_all add: set_status_def)
  show "ms_line nl (set_status txt ms, b) l = map_prod (set_status txt) id (ms_line nl (ms, b) l)"
    using assms by (auto simp: defs status_line_def ms_field_other(1) oos split: option.splits)
  show "msStatusLine (fst (ms_line nl (ms, b) l)) = msStatusLine ms"
    using assms by (auto simp: defs status_line_def dest: ms_field_other(2) split: option.splits)
qed

section \<open>Rewriting one line\<close>

definition upd_line :: "nat \<Rightarrow> string \<Rightarrow> mdLine \<Rightarrow> mdLine" where
  "upd_line n s l = (if mdN l = n then l\<lparr>mdText := s\<rparr> else l)"

lemma upd_line_other [simp]: "mdN l \<noteq> n \<Longrightarrow> upd_line n s l = l"
  by (simp add: upd_line_def)

lemma with_status_set: "with_status n txt ((set_status t ms)\<lparr>msStatusLine := k\<rparr>) = (set_status (if k = n then txt else t) ms)\<lparr>msStatusLine := k\<rparr>"
  by (simp add: with_status_def set_status_def)

lemma set_status_twice: "set_status t (set_status u ms) = set_status t ms" "set_status t (with_status n txt ms) = set_status t ms"
  by (simp_all add: set_status_def with_status_def)

lemma ms_line_upd:
  assumes "mdN l = n \<Longrightarrow> status_line l"
    and "mdN l = n \<Longrightarrow> status_line (upd_line n s l) \<and> status_value (upd_line n s l) = txt"
  shows "ms_line nl (map_prod (with_status n txt) id st) (upd_line n s l) = map_prod (with_status n txt) id (ms_line nl st l)"
proof -
  obtain ms b where st: "st = (ms, b)" by (cases st)
  have N: "mdN (upd_line n s l) = mdN l" by (simp add: upd_line_def)
  consider (at) "mdN l = n" | (status) "mdN l \<noteq> n" "status_line l" | (other) "mdN l \<noteq> n" "\<not> status_line l" by blast
  then show ?thesis
  proof cases
    case other
    then show ?thesis
      using ms_line_other(1)[of l nl "txt" ms b] ms_line_other(2)[of l nl ms b] st
      by (cases "msStatusLine ms = n") (auto simp: with_status_def map_prod_def split: prod.splits)
  qed (use assms N st in \<open>auto simp: ms_line_status with_status_set set_status_twice\<close>)
qed

lemma ms_lines_upd:
  assumes "\<forall>l\<in>set ls. mdN l = n \<longrightarrow> status_line l \<and> status_line (upd_line n s l) \<and> status_value (upd_line n s l) = txt"
  shows "foldl (ms_line nl) (map_prod (with_status n txt) id st) (map (upd_line n s) ls) = map_prod (with_status n txt) id (foldl (ms_line nl) st ls)"
  using assms by (induction ls arbitrary: st) (simp_all add: ms_line_upd)

lemma ms_lines_status_line:
  "msStatusLine (fst (foldl (ms_line nl) st ls)) = msStatusLine (fst st)
   \<or> (\<exists>l\<in>set ls. status_line l \<and> mdN l = msStatusLine (fst (foldl (ms_line nl) st ls)))"
proof (induction ls arbitrary: st)
  case (Cons l ls)
  show ?case
  proof (cases "status_line l")
    case True
    then show ?thesis using Cons.IH[of "ms_line nl st l"] by (auto simp: ms_line_status)
  next
    case False
    then show ?thesis using Cons.IH[of "ms_line nl st l"] ms_line_other(2)[of l nl "fst st" "snd st"] by auto
  qed
qed simp

lemma parse_ms_upd:
  assumes "\<forall>l\<in>set (secBody s). mdN l = n \<longrightarrow> status_line l \<and> status_line (upd_line n t l) \<and> status_value (upd_line n t l) = txt" and "n > 0"
  shows "parse_ms nl (s\<lparr>secBody := map (upd_line n t) (secBody s)\<rparr>) = map_option (with_status n txt) (parse_ms nl s)"
proof -
  have "with_status n txt (new_ms i ti k) = new_ms i ti k" for i ti k using assms(2) by (simp add: with_status_def new_ms_def)
  then have "fst (foldl (ms_line nl) (new_ms i ti k, False) (map (upd_line n t) (secBody s)))
      = with_status n txt (fst (foldl (ms_line nl) (new_ms i ti k, False) (secBody s)))" for i ti k
    using ms_lines_upd[OF assms(1), of nl "(new_ms i ti k, False)"] by simp
  then show ?thesis by (cases "match_milestone_head (secTitle s)") (auto simp: parse_ms_def)
qed

section \<open>Lines and sections of the rewritten document\<close>

definition upd_sec :: "nat \<Rightarrow> string \<Rightarrow> mdSection \<Rightarrow> mdSection" where
  "upd_sec n t s = s\<lparr>secBody := map (upd_line n t) (secBody s)\<rparr>"

lemma sections_upd:
  assumes "\<forall>l\<in>set ls. mdN l = n \<longrightarrow> \<not> top_heading l \<and> \<not> top_heading (upd_line n t l)"
  shows "sections_spec (map (upd_line n t) ls) = map (upd_sec n t) (sections_spec ls)"
  using assms
proof (induction ls rule: sections_spec.induct)
  case (2 l ls)
  have top: "top_heading (upd_line n t x) = top_heading x" if "x \<in> set ls" for x
    using 2(3) that by (cases "mdN x = n") auto
  then have tw: "takeWhile (\<lambda>x. \<not> top_heading x) (map (upd_line n t) ls) = map (upd_line n t) (takeWhile (\<lambda>x. \<not> top_heading x) ls)"
    "dropWhile (\<lambda>x. \<not> top_heading x) (map (upd_line n t) ls) = map (upd_line n t) (dropWhile (\<lambda>x. \<not> top_heading x) ls)"
    by (induction ls) simp_all
  show ?case
  proof (cases "fst (headingLevel l) = 2")
    case True
    then have "mdN l \<noteq> n" using 2(3) level2_top by auto
    then show ?thesis using True 2(1)[OF True] 2(3) set_dropWhileD tw by (fastforce simp: upd_sec_def)
  next
    case False
    moreover have "fst (headingLevel (upd_line n t l)) \<noteq> 2" using False 2(3) level2_top[of "upd_line n t l"] by (cases "mdN l = n") auto
    ultimately show ?thesis using 2(2)[OF False] 2(3) by simp
  qed
qed simp

lemma sections_body: "s \<in> set (sections_spec ls) \<Longrightarrow> l \<in> set (secBody s) \<Longrightarrow> l \<in> set ls \<and> \<not> top_heading l"
  by (induction ls rule: sections_spec.induct) (auto split: if_splits dest: set_takeWhileD set_dropWhileD)

lemma split_go_upd:
  assumes "k < length ts" and "\<not> mdInCode (split_go i fence ts ! k)" and "\<not> is_fence (TrimSpace t)"
  shows "split_go i fence (ts[k := t]) = map (upd_line (i + k + 1) t) (split_go i fence ts)"
  using assms
proof (induction i fence ts arbitrary: k rule: split_go.induct)
  case (2 i fence ln rest)
  have other: "map (upd_line (Suc i) t) (split_go (Suc i) f rest) = split_go (Suc i) f rest" for f
    by (rule map_idI) (auto simp: in_set_conv_nth mdN_split_go)
  show ?case
  proof (cases k)
    case 0
    then show ?thesis using 2(5,6) by (auto simp: Let_def other split: if_splits) (simp add: upd_line_def)
  next
    case (Suc j)
    then show ?thesis using 2(1-3)[of _ j] 2(4-6) by (auto simp: Let_def upd_line_def)
  qed
qed simp

section \<open>The written line\<close>

lemma HasPrefix_stop: "c \<notin> set u \<Longrightarrow> HasPrefix (x @ c # r) u \<Longrightarrow> HasPrefix x u"
  unfolding HasPrefix_iff by (auto simp: append_eq_append_conv2 Cons_eq_append_conv)

lemma TrimSpace_after:
  assumes s: "TrimSpace s = s" "s \<noteq> []" and p: "p \<noteq> []" "hd p \<notin> hd ` set space_runes"
  shows "TrimSpace (p @ CHR '' '' # s) = p @ CHR '' '' # s"
proof -
  have "lead_len space_runes (p @ CHR '' '' # s) = 0"
    unfolding lead_len_0_iff using p by (cases p) (force simp: HasPrefix_iff Cons_eq_append_conv)+
  moreover have "lead_len (map rev space_runes) (rev (p @ CHR '' '' # s)) = 0"
  proof -
    have 0: "lead_len (map rev space_runes) (rev s) = 0" using TrimSpace_ends(2)[of s] s by simp
    obtain c r where c: "rev s = c # r" using s(2) by (cases "rev s") auto
    have "\<not> HasPrefix (rev s @ CHR '' '' # rev p) (rev u)" if u: "u \<in> set space_runes" for u
    proof (cases "CHR '' '' \<in> set u")
      case True
      with u have "u = '' ''" by (auto simp: space_runes_def)
      with 0 u c show ?thesis by (auto simp: lead_len_0_iff)
    next
      case False
      have "u \<noteq> []" using u by (auto simp: space_runes_def)
      with 0 u have "\<not> HasPrefix (rev s) (rev u)" by (auto simp: lead_len_0_iff)
      with False show ?thesis using HasPrefix_stop[of "CHR '' ''" "rev u"] by auto
    qed
    then show ?thesis by (auto simp: lead_len_0_iff)
  qed
  ultimately show ?thesis by (simp add: TrimSpace_def strip.simps)
qed

lemma TrimSpace_id:
  assumes "s \<noteq> []" and "hd s \<notin> hd ` set space_runes" and "last s \<notin> last ` set space_runes"
  shows "TrimSpace s = s"
proof -
  have ne: "u \<noteq> []" if "u \<in> set space_runes" for u using that by (auto simp: space_runes_def)
  have "lead_len space_runes s = 0"
    unfolding lead_len_0_iff using ne assms(1,2) by (auto simp: HasPrefix_iff)
  moreover have "lead_len (map rev space_runes) (rev s) = 0"
    unfolding lead_len_0_iff using ne assms(1,3)
    by (auto simp: HasPrefix_iff) (metis hd_append hd_rev image_eqI rev_is_Nil_conv)
  ultimately show ?thesis by (simp add: TrimSpace_def strip.simps)
qed

lemma TrimSpace_status:
  assumes "TrimSpace s = s" and "s \<noteq> []"
  shows "TrimSpace (''Status: '' @ s) = ''Status: '' @ s"
  using TrimSpace_after[OF assms, of "''Status:''"] by (simp add: space_runes_def)

lemma stripComment_fix:
  assumes "stripComment s = s"
  shows "TrimSpace s = s"
proof (cases "Index s '' #''")
  case None
  with assms show ?thesis by (simp add: stripComment_def)
next
  case (Some i)
  then have "i + 2 \<le> length s" using Index_bound by fastforce
  moreover have "length (stripComment s) \<le> i" using Some length_TrimSpace_le[of "take i s"] by (auto simp: stripComment_def)
  ultimately show ?thesis using assms by simp
qed

lemma TrimSpace_blank_front: "TrimSpace (CHR '' '' # s) = TrimSpace s"
  using strip_blank_front[of "'' ''" s] by (simp add: TrimSpace_def)

lemma written_line:
  fixes l :: mdLine
  assumes "stripComment s = s" and "s \<noteq> []" and "\<not> mdInCode l" and "mdText l = ''Status: '' @ s"
  shows "status_line l" "status_value l = s" "\<not> top_heading l" "\<not> is_fence (TrimSpace (mdText l))"
proof -
  have s: "TrimSpace s = s" using assms(1) by (rule stripComment_fix)
  have t: "TrimSpace (mdText l) = ''Status: '' @ s" using TrimSpace_status[OF s assms(2)] assms(4) by simp
  have c: "cut_char (CHR '':'') (''Status: '' @ s) = (''Status'', '' '' @ s, True)" by (simp add: cut_char_def)
  have k: "field_key (TrimSpace ''Status'') = ''status''" by code_simp
  show "status_line l" using assms(3) k by (simp add: status_line_def t c[simplified])
  show "status_value l = s" using assms(1) s by (simp add: status_value_def t c[simplified] TrimSpace_blank_front)
  show "\<not> is_fence (TrimSpace (mdText l))" by (simp add: t is_fence_def)
  have "takeWhile (\<lambda>c. c = CHR ''#'') (TrimRight (''Status: '' @ r) [CHR '' '', TAB]) = []" for r
    by (induction r rule: rev_induct) (simp_all add: TrimRight_def)
  then have "takeWhile (\<lambda>c. c = CHR ''#'') (TrimRight (mdText l) [CHR '' '', TAB]) = []"
    unfolding assms(4) .
  then show "\<not> top_heading l" by (simp add: top_heading_def headingLevel_def)
qed

lemma raw_lines_upd:
  assumes "k < length (raw_lines doc)" and "t \<noteq> []" and "LF \<notin> set t" and "CR \<notin> set t" and "CR \<notin> set (crlf_to_lf doc)"
  shows "raw_lines (Join ((split_char LF (crlf_to_lf doc))[k := t]) [LF]) = (raw_lines doc)[k := t]"
proof -
  define ls where "ls = split_char LF (crlf_to_lf doc)"
  have ne: "ls \<noteq> []" by (simp add: ls_def)
  have free: "\<forall>l\<in>set (ls[k := t]). LF \<notin> set l \<and> CR \<notin> set l"
    using split_char_free[of LF "crlf_to_lf doc"] assms(3-5) Join_part_chars[of _ ls "[LF]"] Join_split_char[of LF "crlf_to_lf doc"]
    by (auto simp: ls_def[symmetric] dest!: set_update_subset_insert[THEN subsetD])
  have "CR \<notin> set (Join (ls[k := t]) [LF])"
    using free set_Join_subset[of "ls[k := t]" "[LF]"] by auto
  then have c: "crlf_to_lf (Join (ls[k := t]) [LF]) = Join (ls[k := t]) [LF]" by (rule crlf_to_lf_id)
  have s: "split_char LF (Join (ls[k := t]) [LF]) = ls[k := t]"
    using free ne by (intro split_char_Join) auto
  have r: "raw_lines doc = (if last ls = [] then butlast ls else ls)" using ne by (simp add: raw_lines_def ls_def)
  have "last (ls[k := t]) = [] \<longleftrightarrow> last ls = []"
    using assms(1,2) ne r by (auto simp: last_conv_nth nth_list_update split: if_splits)
  then show ?thesis
    using ne r assms(1) unfolding ls_def[symmetric] raw_lines_def[of "Join _ _"] c s by (auto simp: butlast_list_update)
qed

lemma map_filter_upd:
  "(\<And>x. x \<in> set xs \<Longrightarrow> f (h x) = map_option g (f x)) \<Longrightarrow> List.map_filter f (map h xs) = map g (List.map_filter f xs)"
  by (induction xs) (simp_all add: map_filter_simps split: option.splits)

text \<open>The document with line \<open>n\<close> replaced.\<close>

lemma parse_upd:
  assumes st: "stripComment s = s" "s \<noteq> []" "LF \<notin> set s" "CR \<notin> set s" and cr: "CR \<notin> set (crlf_to_lf doc)"
    and l: "l \<in> set (splitLines doc)" "status_line l" "\<not> top_heading l" "mdN l = n"
  shows "rmMilestones (ParseRoadmap nl file (Join ((split_char LF (crlf_to_lf doc))[n - 1 := ''Status: '' @ s]) [LF]))
    = map (with_status n s) (rmMilestones (ParseRoadmap nl file doc))"
proof -
  let ?t = "''Status: '' @ s" and ?ls = "splitLines doc"
  obtain k where k: "k < length (raw_lines doc)" "?ls ! k = l" using l(1) by (auto simp: in_set_conv_nth splitLines_def)
  have n: "n = k + 1" using mdN_split_go[OF k(1), of 0 "[]"] k(2) l(4) by (simp add: splitLines_def)
  have uniq: "x = l" if "x \<in> set ?ls" "mdN x = n" for x
    using that k n by (auto simp: in_set_conv_nth splitLines_def mdN_split_go)
  have code: "\<not> mdInCode l" using l(2) by (simp add: status_line_def)
  have u: "upd_line n ?t l = l\<lparr>mdText := ?t\<rparr>" using l(4) by (simp add: upd_line_def)
  have w: "status_line (upd_line n ?t l)" "status_value (upd_line n ?t l) = s" "\<not> top_heading (upd_line n ?t l)" "\<not> is_fence (TrimSpace ?t)"
    using written_line[OF st(1,2), of "l\<lparr>mdText := ?t\<rparr>"] code unfolding u by simp_all
  have "raw_lines (Join ((split_char LF (crlf_to_lf doc))[k := ?t]) [LF]) = (raw_lines doc)[k := ?t]"
    using st(3,4) by (intro raw_lines_upd k(1) cr) auto
  then have lines: "splitLines (Join ((split_char LF (crlf_to_lf doc))[n - 1 := ?t]) [LF]) = map (upd_line n ?t) ?ls"
    using split_go_upd[OF k(1), of 0 "[]" ?t] w(4) code k(2) n by (simp add: splitLines_def)
  have sec: "h2Sections (map (upd_line n ?t) ?ls) = map (upd_sec n ?t) (h2Sections ?ls)"
    unfolding h2Sections_spec using uniq l(3) w(3) by (intro sections_upd) auto
  have "parse_ms nl (upd_sec n ?t x) = map_option (with_status n s) (parse_ms nl x)" if "x \<in> set (h2Sections ?ls)" for x
    unfolding upd_sec_def using that uniq l(2) w sections_body[of x ?ls] n
    by (intro parse_ms_upd) (auto simp: h2Sections_spec)
  then have "List.map_filter (parse_ms nl) (map (upd_sec n ?t) (h2Sections ?ls)) = map (with_status n s) (List.map_filter (parse_ms nl) (h2Sections ?ls))"
    by (rule map_filter_upd)
  then show ?thesis using lines sec by (simp add: ParseRoadmap_def Let_def)
qed

lemma WithStatus_replace:
  assumes "rm_Find (ParseRoadmap nl file doc) i = Some m" and "msStatusLine m > 0"
    and "stripComment s = s" and "s \<noteq> []" and "LF \<notin> set s" and "CR \<notin> set s" and "CR \<notin> set (crlf_to_lf doc)"
  shows "\<exists>doc'. WithStatus (ParseRoadmap nl file doc) i s = Some doc'
    \<and> rmMilestones (ParseRoadmap nl file doc') = map (\<lambda>m'. if msStatusLine m' = msStatusLine m then set_status s m' else m') (rmMilestones (ParseRoadmap nl file doc))"
proof -
  let ?r = "ParseRoadmap nl file doc" and ?n = "msStatusLine m"
  have "m \<in> set (rmMilestones ?r)" using assms(1) by (auto simp: rm_Find_def find_Some_iff)
  then obtain x where x: "x \<in> set (h2Sections (splitLines doc))" "parse_ms nl x = Some m"
    by (auto simp: ParseRoadmap_def Let_def map_filter_def)
  then obtain i ti where "m = fst (foldl (ms_line nl) (new_ms i ti (secLine x), False) (secBody x))"
    by (auto simp: parse_ms_def split: if_splits)
  with ms_lines_status_line[of nl "(new_ms i ti (secLine x), False)" "secBody x"] assms(2)
  obtain l where l: "l \<in> set (secBody x)" "status_line l" "mdN l = ?n" by (auto simp: new_ms_def)
  with sections_body[of x "splitLines doc"] x(1) have "l \<in> set (splitLines doc)" "\<not> top_heading l" by (auto simp: h2Sections_spec)
  from parse_upd[OF assms(3-7) this(1) l(2) this(2) l(3)] show ?thesis
    using assms(1,2) by (simp add: WithStatus_def with_status_def[abs_def] ParseRoadmap_def[of nl "file" doc] Let_def)
qed

end
