(* ===== verification/RoadmapInsert.thy ===== *)
theory RoadmapInsert
  imports RoadmapFacts
begin

text \<open>
  The status round trip of \<open>WithStatus\<close> in both of its branches: a status line replaced, and one put
  under the heading of a section that has none, where every later line moves by one.
\<close>

section \<open>Lines and sections in order\<close>

definition ordered_lines :: "mdLine list \<Rightarrow> bool" where
  "ordered_lines ls \<longleftrightarrow> sorted_wrt (\<lambda>a b. mdN a < mdN b) ls"

lemma ordered_lines_simps [simp]:
  "ordered_lines []" "ordered_lines (l # ls) \<longleftrightarrow> (\<forall>x\<in>set ls. mdN l < mdN x) \<and> ordered_lines ls"
  "ordered_lines (xs @ ys) \<longleftrightarrow> ordered_lines xs \<and> ordered_lines ys \<and> (\<forall>x\<in>set xs. \<forall>y\<in>set ys. mdN x < mdN y)"
  by (auto simp: ordered_lines_def sorted_wrt_append)

lemma ordered_split_go: "ordered_lines (split_go i fence ts)"
  by (simp add: ordered_lines_def sorted_wrt_iff_nth_less mdN_split_go)

lemma ordered_parts:
  assumes "ordered_lines ls"
  shows "ordered_lines (dropWhile P ls)" "x \<in> set (takeWhile P ls) \<Longrightarrow> y \<in> set (dropWhile P ls) \<Longrightarrow> mdN x < mdN y"
proof -
  have "ordered_lines (takeWhile P ls @ dropWhile P ls)" using assms by (simp only: takeWhile_dropWhile_id)
  then show "ordered_lines (dropWhile P ls)" "x \<in> set (takeWhile P ls) \<Longrightarrow> y \<in> set (dropWhile P ls) \<Longrightarrow> mdN x < mdN y"
    unfolding ordered_lines_simps(3) by blast+
qed

lemma sections_line: "s \<in> set (sections_spec ls) \<Longrightarrow> \<exists>h\<in>set ls. mdN h = secLine s \<and> fst (headingLevel h) = 2"
  by (induction ls rule: sections_spec.induct) (auto split: if_splits dest: set_dropWhileD)

lemma sections_disjoint:
  assumes "ordered_lines ls" and "s \<in> set (sections_spec ls)" and "s' \<in> set (sections_spec ls)"
    and "l \<in> set (secBody s)" and "l' \<in> set (secBody s')" and "mdN l = mdN l'"
  shows "s = s'"
  using assms
proof (induction ls rule: sections_spec.induct)
  case (2 h ls)
  let ?P = "\<lambda>x. \<not> top_heading x"
  have o: "ordered_lines ls" using 2(3) by simp
  have apart: "mdN y < mdN x" if "x \<in> set (secBody t)" "t \<in> set (sections_spec (dropWhile ?P ls))" "y \<in> set (takeWhile ?P ls)" for x y t
    using sections_body[OF that(2,1)] ordered_parts(2)[OF o that(3)] by blast
  show ?case
  proof (cases "fst (headingLevel h) = 2")
    case True
    then show ?thesis using 2(1)[OF True ordered_parts(1)[OF o]] 2(4-8) apart by auto (metis less_not_refl)+
  qed (use 2 in simp)
qed simp

lemma sections_inj:
  assumes "ordered_lines ls" and "s \<in> set (sections_spec ls)" and "s' \<in> set (sections_spec ls)" and "secLine s = secLine s'"
  shows "s = s'"
  using assms
proof (induction ls rule: sections_spec.induct)
  case (2 h ls)
  note line = sections_line[of _ "dropWhile (\<lambda>x. \<not> top_heading x) ls"]
  have later: "\<forall>x\<in>set (sections_spec (dropWhile (\<lambda>x. \<not> top_heading x) ls)). mdN h < secLine x"
    using 2(3) line by (fastforce dest: set_dropWhileD)
  show ?case
  proof (cases "fst (headingLevel h) = 2")
    case True
    have o: "ordered_lines ls" using 2(3) by simp
    show ?thesis using True 2(1)[OF True ordered_parts(1)[OF o]] 2(4-6) later by (auto dest: bspec less_not_refl2)
  qed (use 2 in simp)
qed simp

lemma sections_append:
  assumes "top_heading h"
  shows "sections_spec (A @ h # B) = sections_spec A @ sections_spec (h # B)"
proof (induction A)
  case (Cons a A)
  have "takeWhile (\<lambda>x. \<not> top_heading x) (A @ h # B) = takeWhile (\<lambda>x. \<not> top_heading x) A"
    using assms by (induction A) auto
  then show ?case using Cons assms sections_spec_dropWhile[of A] sections_spec_dropWhile[of "A @ h # B"]
    by (cases "fst (headingLevel a) = 2") (simp_all del: sections_spec.simps add: sections_spec.simps(2)[of a])
qed simp

section \<open>Milestones without their line numbers\<close>

definition unlined :: "milestone \<Rightarrow> milestone" where
  "unlined m = m\<lparr>msLine := 0, msStatusLine := 0\<rparr>"

lemma unlined_simps [simp]:
  "msID (unlined m) = msID m" "msStatus (unlined m) = msStatus m" "msStatusText (unlined m) = msStatusText m" "msGate (unlined m) = msGate m"
  "unlined (unlined m) = unlined m" "unlined (m\<lparr>msStatusLine := n\<rparr>) = unlined m"
  "unlined (set_status t m) = set_status t (unlined m)" "msOutOfScope (unlined m) = msOutOfScope m"
  by (simp_all add: unlined_def set_status_def)

definition shift_line :: "mdLine \<Rightarrow> mdLine" where
  "shift_line l = l\<lparr>mdN := mdN l + 1\<rparr>"

definition shift_sec :: "mdSection \<Rightarrow> mdSection" where
  "shift_sec s = s\<lparr>secLine := secLine s + 1, secBody := map shift_line (secBody s)\<rparr>"

lemma shift_line_simps [simp]:
  "mdText (shift_line l) = mdText l" "mdInCode (shift_line l) = mdInCode l" "headingLevel (shift_line l) = headingLevel l"
  "top_heading (shift_line l) = top_heading l" "status_line (shift_line l) = status_line l" "mdN (shift_line l) = Suc (mdN l)"
  by (simp_all add: shift_line_def headingLevel_def top_heading_def status_line_def)

lemma split_go_Suc: "split_go (Suc i) fence ts = map shift_line (split_go i fence ts)"
  by (induction i fence ts rule: split_go.induct) (auto simp: Let_def shift_line_def)

lemma sections_shift: "sections_spec (map shift_line ls) = map shift_sec (sections_spec ls)"
proof (induction ls rule: sections_spec.induct)
  case (2 l ls)
  have "takeWhile (\<lambda>x. \<not> top_heading x) (map shift_line ls) = map shift_line (takeWhile (\<lambda>x. \<not> top_heading x) ls)"
    "dropWhile (\<lambda>x. \<not> top_heading x) (map shift_line ls) = map shift_line (dropWhile (\<lambda>x. \<not> top_heading x) ls)"
    by (induction ls) simp_all
  with 2 show ?case by (auto simp: shift_sec_def)
qed simp

lemma ms_field_unlined:
  "map_option (map_prod unlined id) (ms_field nl n k v ms) = map_option (map_prod unlined id) (ms_field nl n' k v (unlined ms))"
  by (simp add: ms_field_def set_status_def unlined_def)

lemma ms_line_unlined:
  assumes "map_prod unlined id st = map_prod unlined id st'" and "mdText l = mdText l'" and "mdInCode l = mdInCode l'"
  shows "map_prod unlined id (ms_line nl st l) = map_prod unlined id (ms_line nl st' l')"
proof -
  obtain ms b ms' where st: "st = (ms, b)" "st' = (ms', b)" "unlined ms = unlined ms'" using assms(1) by (cases st; cases st') auto
  obtain k v ok where c: "cut_char (CHR '':'') (TrimSpace (mdText l')) = (k, v, ok)" by (cases "cut_char (CHR '':'') (TrimSpace (mdText l'))")
  let ?k = "field_key (TrimSpace k)" and ?v = "TrimSpace v"
  have f: "map_option (map_prod unlined id) (ms_field nl (mdN l) ?k ?v ms) = map_option (map_prod unlined id) (ms_field nl (mdN l') ?k ?v ms')"
    using ms_field_unlined[of nl "mdN l" ?k ?v ms "mdN l'"] ms_field_unlined[of nl "mdN l'" ?k ?v ms' "mdN l'"] st(3) by simp
  have o: "unlined (ms\<lparr>msOutOfScope := msOutOfScope ms @ x\<rparr>) = unlined (ms'\<lparr>msOutOfScope := msOutOfScope ms' @ x\<rparr>)" for x
    using st(3) unlined_simps(8)[of ms] unlined_simps(8)[of ms'] by (cases ms; cases ms') (simp add: unlined_def)
  show ?thesis
    using f o st(3) unfolding ms_line_def Let_def assms(2,3) c st(1,2)
    by (cases "ms_field nl (mdN l) ?k ?v ms"; cases "ms_field nl (mdN l') ?k ?v ms'") (auto simp: map_prod_def)
qed

lemma ms_lines_unlined:
  "map_prod unlined id st = map_prod unlined id st' \<Longrightarrow>
   map_prod unlined id (foldl (ms_line nl) st (map shift_line ls)) = map_prod unlined id (foldl (ms_line nl) st' ls)"
proof (induction ls arbitrary: st st')
  case (Cons l ls)
  show ?case using Cons.IH[OF ms_line_unlined[OF Cons.prems, of "shift_line l" l nl]] by simp
qed simp

lemma parse_ms_shift: "map_option unlined (parse_ms nl (shift_sec s)) = map_option unlined (parse_ms nl s)"
proof -
  have "unlined (fst (foldl (ms_line nl) (new_ms i ti n, False) (map shift_line ls))) = unlined (fst (foldl (ms_line nl) (new_ms i ti k, False) ls))" for i ti n k ls
    using ms_lines_unlined[of "(new_ms i ti n, False)" "(new_ms i ti k, False)" nl ls]
    by (cases "foldl (ms_line nl) (new_ms i ti n, False) (map shift_line ls)"; cases "foldl (ms_line nl) (new_ms i ti k, False) ls")
      (simp add: new_ms_def unlined_def)
  then show ?thesis by (cases "match_milestone_head (secTitle s)") (auto simp: parse_ms_def shift_sec_def)
qed

lemma ms_lines_no_status:
  assumes "list_all (\<lambda>l. \<not> status_line l) ls"
  shows "foldl (ms_line nl) (set_status t ms, b) ls = map_prod (set_status t) id (foldl (ms_line nl) (ms, b) ls)"
  using assms
proof (induction ls arbitrary: ms b)
  case (Cons l ls)
  obtain ms' b' where "ms_line nl (ms, b) l = (ms', b')" by (cases "ms_line nl (ms, b) l")
  then show ?case using Cons ms_line_other(1)[of l nl t ms b] by simp
qed simp

lemma ms_lines_zero:
  assumes "msStatusLine (fst (foldl (ms_line nl) st ls)) = 0" and "\<forall>l\<in>set ls. mdN l > 0"
  shows "list_all (\<lambda>l. \<not> status_line l) ls"
  using assms
proof (induction ls arbitrary: st)
  case (Cons l ls)
  from Cons have r: "list_all (\<lambda>l. \<not> status_line l) ls" by simp
  have keep: "list_all (\<lambda>l. \<not> status_line l) ls \<Longrightarrow> msStatusLine (fst (foldl (ms_line nl) s ls)) = msStatusLine (fst s)" for s
    using ms_lines_status_line[of nl s ls] by (auto simp: list_all_iff)
  show ?case
  proof (cases "status_line l")
    case True
    then show ?thesis using Cons.prems keep[OF r, of "ms_line nl st l"] by (simp add: ms_line_status)
  next
    case False
    with r show ?thesis by simp
  qed
qed simp

lemma split_go_at:
  assumes "k < length ts" and "\<not> mdInCode (split_go i fence ts ! k)"
  shows "split_go i fence (take (Suc k) ts @ zs) = take (Suc k) (split_go i fence ts) @ split_go (i + k + 1) [] zs"
  using assms
proof (induction i fence ts arbitrary: k rule: split_go.induct)
  case (2 i fence ln rest)
  show ?case
  proof (cases k)
    case 0
    then show ?thesis using 2(5) by (auto simp: Let_def split: if_splits)
  next
    case (Suc j)
    then show ?thesis using 2(1-3)[of _ j] 2(4,5) by (auto simp: Let_def)
  qed
qed simp


lemma raw_lines_insert:
  assumes "k < length (raw_lines doc)" and "t \<noteq> []" and "LF \<notin> set t" and "CR \<notin> set t" and "CR \<notin> set (crlf_to_lf doc)"
  defines "ls \<equiv> split_char LF (crlf_to_lf doc)"
  shows "raw_lines (Join (take (Suc k) ls @ [t] @ drop (Suc k) ls) [LF]) = take (Suc k) (raw_lines doc) @ t # drop (Suc k) (raw_lines doc)"
proof -
  let ?new = "take (Suc k) ls @ [t] @ drop (Suc k) ls"
  have ne: "ls \<noteq> []" by (simp add: ls_def)
  have free: "\<forall>l\<in>set ?new. LF \<notin> set l \<and> CR \<notin> set l"
    using split_char_free[of LF "crlf_to_lf doc"] assms(3-5) Join_part_chars[of _ ls "[LF]"] Join_split_char[of LF "crlf_to_lf doc"]
    by (auto simp: ls_def[symmetric] dest!: in_set_takeD in_set_dropD)
  have "CR \<notin> set (Join ?new [LF])" using free set_Join_subset[of ?new "[LF]"] by fastforce
  then have c: "crlf_to_lf (Join ?new [LF]) = Join ?new [LF]" by (rule crlf_to_lf_id)
  have s: "split_char LF (Join ?new [LF]) = ?new" using free by (intro split_char_Join) auto
  have r: "raw_lines doc = (if last ls = [] then butlast ls else ls)" using ne by (simp add: raw_lines_def ls_def)
  show ?thesis
  proof (cases "last ls = []")
    case True
    then have "ls = raw_lines doc @ [[]]" using r ne append_butlast_last_id[of ls] by simp
    then have "?new = (take (Suc k) (raw_lines doc) @ t # drop (Suc k) (raw_lines doc)) @ [[]]" using assms(1) by simp
    then show ?thesis unfolding raw_lines_def[of "Join _ _"] c s by (simp add: butlast_append)
  next
    case False
    then have "last ?new \<noteq> []" using assms(2) by (simp add: last_drop)
    then show ?thesis using False r unfolding raw_lines_def[of "Join _ _"] c s by simp
  qed
qed

lemma parse_ms_line: "parse_ms nl s = Some m \<Longrightarrow> msLine m = secLine s"
proof -
  have f: "msLine (fst (ms_line nl st l)) = msLine (fst st)" for st l
  proof (cases "status_line l")
    case True
    then show ?thesis by (simp add: ms_line_status set_status_def)
  next
    case False
    have "ms_field nl n k v ms = Some st' \<Longrightarrow> msLine (fst st') = msLine ms" for n k v ms st'
      by (auto simp: ms_field_def set_status_def split: if_splits)
    then show ?thesis by (auto simp: ms_line_def Let_def split: option.splits prod.splits)
  qed
  have "msLine (fst (foldl (ms_line nl) st ls)) = msLine (fst st)" for st ls
    by (induction ls arbitrary: st) (simp_all add: f)
  then show "parse_ms nl s = Some m \<Longrightarrow> msLine m = secLine s" by (auto simp: parse_ms_def new_ms_def split: if_splits)
qed

lemma map_filter_simps' [simp]: "List.map_filter f (xs @ ys) = List.map_filter f xs @ List.map_filter f ys"
  by (induction xs) (simp_all add: map_filter_simps split: option.splits)

lemma map_filter_Some: "f x = Some y \<Longrightarrow> List.map_filter f (x # xs) = y # List.map_filter f xs"
  by (simp add: map_filter_simps)

lemma map_filter_shift:
  "map unlined (List.map_filter (parse_ms nl) (map shift_sec ss)) = map unlined (List.map_filter (parse_ms nl) ss)"
proof (induction ss)
  case (Cons s ss)
  then show ?case using parse_ms_shift[of nl s]
    by (cases "parse_ms nl s"; cases "parse_ms nl (shift_sec s)") (auto simp: map_filter_simps)
qed (simp add: map_filter_simps)

text \<open>A milestone without a status line, read with one put first into its section.\<close>

lemma parse_ms_insert:
  assumes "parse_ms nl x = Some m" and "msStatusLine m = 0" and "\<forall>l\<in>set (secBody x). mdN l > 0"
    and "status_line l" and "status_value l = s"
  shows "\<exists>m'. parse_ms nl (x\<lparr>secBody := l # map shift_line (secBody x)\<rparr>) = Some m' \<and> unlined m' = set_status s (unlined m)"
proof -
  let ?b = "secBody x"
  obtain i ti where h: "\<not> nextHeadingRe (secTitle x)" "match_milestone_head (secTitle x) = Some (i, ti)"
    and m: "m = fst (foldl (ms_line nl) (new_ms i ti (secLine x), False) ?b)"
    using assms(1) by (auto simp: parse_ms_def split: if_splits)
  let ?n = "new_ms i ti (secLine x)"
  have no: "list_all (\<lambda>l. \<not> status_line l) ?b" using ms_lines_zero[of nl "(?n, False)" ?b] assms(2,3) m by simp
  have "map_prod unlined id (foldl (ms_line nl) (ms_line nl (?n, False) l) (map shift_line ?b))
      = map_prod unlined id (foldl (ms_line nl) (set_status s ?n, False) ?b)"
    by (rule ms_lines_unlined) (simp add: ms_line_status[OF assms(4)] assms(5))
  also have "\<dots> = map_prod unlined id (map_prod (set_status s) id (foldl (ms_line nl) (?n, False) ?b))"
    by (simp only: ms_lines_no_status[OF no])
  finally have "unlined (fst (foldl (ms_line nl) (ms_line nl (?n, False) l) (map shift_line ?b))) = set_status s (unlined m)"
    unfolding m by (metis fst_map_prod unlined_simps(7))
  with h show ?thesis by (simp add: parse_ms_def)
qed

text \<open>The document with a status line put under a milestone's heading.\<close>

lemma parse_insert:
  assumes st: "stripComment s = s" "s \<noteq> []" "LF \<notin> set s" "CR \<notin> set s" and cr: "CR \<notin> set (crlf_to_lf doc)"
    and x: "x \<in> set (h2Sections (splitLines doc))" "parse_ms nl x = Some m" "msStatusLine m = 0"
  defines "ls \<equiv> split_char LF (crlf_to_lf doc)"
  shows "map unlined (rmMilestones (ParseRoadmap nl file (Join (take (secLine x) ls @ [''Status: '' @ s] @ drop (secLine x) ls) [LF])))
    = map (\<lambda>m'. unlined (if msLine m' = secLine x then set_status s m' else m')) (rmMilestones (ParseRoadmap nl file doc))"
proof -
  let ?t = "''Status: '' @ s" and ?ls = "splitLines doc" and ?raw = "raw_lines doc" and ?P = "\<lambda>x. \<not> top_heading x"
  obtain h where "h \<in> set ?ls" and h: "mdN h = secLine x" "fst (headingLevel h) = 2"
    using sections_line[of x ?ls] x(1) by (auto simp: h2Sections_spec)
  then obtain k where k: "k < length ?raw" "?ls ! k = h" by (auto simp: in_set_conv_nth splitLines_def)
  have n: "secLine x = Suc k" using mdN_split_go[OF k(1), of 0 "[]"] k(2) h(1) by (simp add: splitLines_def)
  have code: "\<not> mdInCode h" using h(2) by auto
  define A where "A = take k ?ls"
  define B where "B = split_go (Suc k) [] (drop (Suc k) ?raw)"
  define l where "l = \<lparr>mdN = Suc (Suc k), mdText = ?t, mdInCode = False\<rparr>"
  have w: "status_line l" "status_value l = s" "\<not> top_heading l" "\<not> is_fence (TrimSpace ?t)"
    using written_line[OF st(1,2), of l] by (simp_all add: l_def)
  have at: "split_go 0 [] (take (Suc k) ?raw @ zs) = take (Suc k) ?ls @ split_go (Suc k) [] zs" for zs
    using split_go_at[OF k(1), of 0 "[]" zs] code k(2) by (simp add: splitLines_def)
  have tk: "take (Suc k) ?ls = A @ [h]" using k by (simp add: A_def take_Suc_conv_app_nth splitLines_def)
  have old: "?ls = A @ h # B" using at[of "drop (Suc k) ?raw"] tk by (simp add: B_def splitLines_def)
  have "raw_lines (Join (take (secLine x) ls @ [?t] @ drop (secLine x) ls) [LF]) = take (Suc k) ?raw @ ?t # drop (Suc k) ?raw"
    unfolding n ls_def using st(3,4) by (intro raw_lines_insert k(1) cr) auto
  then have new: "splitLines (Join (take (secLine x) ls @ [?t] @ drop (secLine x) ls) [LF]) = A @ h # l # map shift_line B"
    using at[of "?t # drop (Suc k) ?raw"] tk w(4) by (simp add: splitLines_def[of "Join _ _"] B_def l_def split_go_Suc)
  define C where "C = sections_spec (dropWhile ?P B)"
  define y where "y = \<lparr>secLevel = 2, secTitle = snd (headingLevel h), secLine = mdN h, secBody = takeWhile ?P B\<rparr>"
  have so: "h2Sections ?ls = sections_spec A @ y # C"
    using h(2) unfolding h2Sections_spec old sections_append[OF level2_top[OF h(2)]] by (simp add: y_def C_def)
  have ord: "ordered_lines (A @ h # B)" using ordered_split_go[of 0 "[]" ?raw] old by (simp add: splitLines_def)
  have "y = x"
    using sections_inj[of ?ls y x] ord x(1) so h(1) old by (simp add: h2Sections_spec y_def)
  have tw: "takeWhile ?P (map shift_line B) = map shift_line (takeWhile ?P B)" "dropWhile ?P (map shift_line B) = map shift_line (dropWhile ?P B)"
    by (induction B) simp_all
  have sn: "h2Sections (A @ h # l # map shift_line B) = sections_spec A @ y\<lparr>secBody := l # map shift_line (secBody y)\<rparr> # map shift_sec C"
    using h(2) w(3) unfolding h2Sections_spec sections_append[OF level2_top[OF h(2)]]
    by (simp add: y_def C_def tw sections_shift)
  have "mdN b > 0" if "b \<in> set (secBody x)" for b
  proof -
    have "b \<in> set B" using that \<open>y = x\<close> by (auto simp: y_def dest: set_takeWhileD)
    with ord have "mdN h < mdN b" by simp
    then show ?thesis by simp
  qed
  then obtain m' where m': "parse_ms nl (y\<lparr>secBody := l # map shift_line (secBody y)\<rparr>) = Some m'" "unlined m' = set_status s (unlined m)"
    using parse_ms_insert[OF x(2,3) _ w(1,2)] \<open>y = x\<close> by auto
  have apart: "msLine a \<noteq> Suc k" if "a \<in> set (List.map_filter (parse_ms nl) (sections_spec A)) \<union> set (List.map_filter (parse_ms nl) C)" for a
  proof -
    from that obtain z where z: "z \<in> set (sections_spec A) \<union> set C" "parse_ms nl z = Some a" unfolding map_filter_def by auto blast+
    then obtain g where "g \<in> set A \<union> set B" "mdN g = secLine z"
      using sections_line[of z A] sections_line[of z "dropWhile ?P B"] by (auto simp: C_def dest: set_dropWhileD)
    then show ?thesis using ord parse_ms_line[OF z(2)] h(1) n by auto
  qed
  let ?mf = "List.map_filter (parse_ms nl)"
  have ms: "rmMilestones (ParseRoadmap nl file d) = ?mf (h2Sections (splitLines d))" for d by (simp add: ParseRoadmap_def Let_def)
  have "?mf (h2Sections ?ls) = ?mf (sections_spec A) @ m # ?mf C"
    using x(2) \<open>y = x\<close> unfolding so by (simp add: map_filter_Some)
  moreover have "map unlined (?mf (h2Sections (A @ h # l # map shift_line B))) = map unlined (?mf (sections_spec A)) @ set_status s (unlined m) # map unlined (?mf C)"
    using m' unfolding sn by (simp add: map_filter_Some map_filter_shift)
  ultimately show ?thesis
    using apart parse_ms_line[OF x(2)] unfolding ms new unfolding n by simp
qed

lemma parse_status_line:
  assumes "parse_ms nl x = Some m"
  shows "msStatusLine m = 0 \<or> (\<exists>l\<in>set (secBody x). status_line l \<and> mdN l = msStatusLine m)"
proof -
  obtain i ti where "m = fst (foldl (ms_line nl) (new_ms i ti (secLine x), False) (secBody x))"
    using assms by (auto simp: parse_ms_def split: if_splits)
  then show ?thesis using ms_lines_status_line[of nl "(new_ms i ti (secLine x), False)" "secBody x"] by (simp add: new_ms_def)
qed

lemma WithStatus_reads_back:
  assumes "rm_Find (ParseRoadmap nl file doc) i = Some m"
    and "stripComment s = s" and "s \<noteq> []" and "LF \<notin> set s" and "CR \<notin> set s" and "CR \<notin> set (crlf_to_lf doc)"
  shows "\<exists>doc'. WithStatus (ParseRoadmap nl file doc) i s = Some doc'
    \<and> map unlined (rmMilestones (ParseRoadmap nl file doc'))
        = map (\<lambda>m'. unlined (if msLine m' = msLine m then set_status s m' else m')) (rmMilestones (ParseRoadmap nl file doc))"
proof -
  let ?r = "ParseRoadmap nl file doc" and ?ls = "splitLines doc"
  have ord: "ordered_lines ?ls" using ordered_split_go by (simp add: splitLines_def)
  have "m \<in> set (rmMilestones ?r)" using assms(1) by (auto simp: rm_Find_def find_Some_iff)
  then obtain x where x: "x \<in> set (h2Sections ?ls)" "parse_ms nl x = Some m"
    by (auto simp: ParseRoadmap_def Let_def map_filter_def)
  show ?thesis
  proof (cases "msStatusLine m = 0")
    case True
    then show ?thesis
      using parse_insert[OF assms(2-6) x True, of "file"] assms(1) parse_ms_line[OF x(2)]
      by (simp add: WithStatus_def ParseRoadmap_def[of nl "file" doc] Let_def)
  next
    case False
    have "msStatusLine m' = msStatusLine m \<longleftrightarrow> msLine m' = msLine m" if "m' \<in> set (rmMilestones ?r)" for m'
    proof -
      from that obtain x' where x': "x' \<in> set (h2Sections ?ls)" "parse_ms nl x' = Some m'"
        by (auto simp: ParseRoadmap_def Let_def map_filter_def)
      show ?thesis
        using sections_disjoint[OF ord] sections_inj[OF ord] x x' False parse_status_line[OF x(2)] parse_status_line[OF x'(2)]
          parse_ms_line[OF x(2)] parse_ms_line[OF x'(2)] unfolding h2Sections_spec by (metis option.inject)
    qed
    then have "map unlined (map (\<lambda>m'. if msStatusLine m' = msStatusLine m then set_status s m' else m') (rmMilestones ?r))
        = map (\<lambda>m'. unlined (if msLine m' = msLine m then set_status s m' else m')) (rmMilestones ?r)"
      by simp
    then show ?thesis using WithStatus_replace[OF assms(1) _ assms(2-6)] False by auto
  qed
qed

text \<open>C38: setting the status of a milestone and reading the document again gives the milestones of the
  roadmap, in order, with the new status on that milestone and every other field unchanged; only line
  numbers move, when the section had no \<open>Status:\<close> line and one is put under its heading. The text is
  one line that \<open>stripComment\<close> keeps, and the document has no carriage return left after its line
  ends are normalised.
\<close>

theorem WithStatus_roundtrip:
  assumes "rm_Find (ParseRoadmap nl file doc) i = Some m"
    and "stripComment s = s" and "s \<noteq> []" and "LF \<notin> set s" and "CR \<notin> set s" and "CR \<notin> set (crlf_to_lf doc)"
  shows "\<exists>doc'. WithStatus (ParseRoadmap nl file doc) i s = Some doc'
    \<and> map unlined (rmMilestones (ParseRoadmap nl file doc'))
        = map (\<lambda>m'. unlined (if msLine m' = msLine m then set_status s m' else m')) (rmMilestones (ParseRoadmap nl file doc))"
  by (rule WithStatus_reads_back[OF assms])

definition ex_roadmap :: string where
  "ex_roadmap = Join [''# Roadmap'', [], ''## M1 - One'', ''Status: proposed'', ''Gate: make gate'', ''Goal: g''] [LF]"

definition ex_nums :: num_lib where
  "ex_nums = \<lparr>nlFloat = (\<lambda>_. False), nlTokens = (\<lambda>_. False), nlDuration = (\<lambda>_. False)\<rparr>"

definition ex_status :: string where "ex_status = ''approved (by ann 2026-01-01T00:00:00Z)''"

definition ex_parsed :: roadmap where
  "ex_parsed = \<lparr>rmTitle = ''Roadmap'', rmMilestones = [(set_status ''proposed'' (new_ms ''M1'' ''One'' 3))\<lparr>msStatusLine := 4, msGate := ''make gate'', msGoal := ''g''\<rparr>],
     rmLines = [''# Roadmap'', [], ''## M1 - One'', ''Status: proposed'', ''Gate: make gate'', ''Goal: g''], rmHeadErrs = []\<rparr>"

lemma ex_roadmap_parsed: "ParseRoadmap ex_nums ''roadmap.md'' ex_roadmap = ex_parsed"
  by code_simp

theorem WithStatus_roundtrip_witness:
  "\<exists>doc'. WithStatus ex_parsed ''M1'' ex_status = Some doc'
     \<and> map (\<lambda>m. (msID m, msStatus m, msApprovedAt m)) (rmMilestones (ParseRoadmap ex_nums ''roadmap.md'' doc')) = [(''M1'', MilestoneApproved, ''2026-01-01T00:00:00Z'')]"
proof -
  have find: "rm_Find (ParseRoadmap ex_nums ''roadmap.md'' ex_roadmap) ''M1'' = Some (hd (rmMilestones ex_parsed))"
    unfolding ex_roadmap_parsed by code_simp
  have st: "stripComment ex_status = ex_status" "ex_status \<noteq> []"
    "LF \<notin> set ex_status" "CR \<notin> set ex_status" "CR \<notin> set (crlf_to_lf ex_roadmap)" by code_simp+
  note w = WithStatus_roundtrip[OF find st]
  from w[unfolded ex_roadmap_parsed] obtain doc' where d: "WithStatus ex_parsed ''M1'' ex_status = Some doc'"
    "map unlined (rmMilestones (ParseRoadmap ex_nums ''roadmap.md'' doc'))
       = map (\<lambda>m'. unlined (if msLine m' = msLine (hd (rmMilestones ex_parsed)) then set_status ex_status m' else m')) (rmMilestones ex_parsed)"
    by (elim exE conjE)
  let ?f = "\<lambda>m. (msID m, msStatus m, msApprovedAt m)"
  have u: "?f \<circ> unlined = ?f" by (simp add: comp_def unlined_def)
  have c: "classifyMilestoneStatus ex_status = (MilestoneApproved, ''2026-01-01T00:00:00Z'')" by code_simp
  have "map ?f (rmMilestones (ParseRoadmap ex_nums ''roadmap.md'' doc')) = map ?f (map unlined (rmMilestones (ParseRoadmap ex_nums ''roadmap.md'' doc')))"
    by (simp only: map_map u)
  also have "\<dots> = [(''M1'', MilestoneApproved, ''2026-01-01T00:00:00Z'')]"
    unfolding d(2) by (simp add: ex_parsed_def set_status_def c new_ms_def unlined_def)
  finally show ?thesis by (intro exI[of _ doc'] conjI d(1))
qed

end
