(* ===== verification/MilestoneFacts.thy ===== *)
theory MilestoneFacts
  imports Milestone RoadmapInsert EffectiveFacts
begin

text \<open>
  What the milestone commands keep of their records. The locale \<open>record_invariant\<close> is the contract of a
  property of one milestone's record: the states each command may leave it in keep it, and then every
  world the commands reach, with any environment and any edit of the roadmap between them, has it on every
  record. It is interpreted on \<open>record_sound\<close>.
\<close>

section \<open>What a gate run may change\<close>

lemma runFull_records [simp]:
  "mwRecords (snd (runFull e i checks cmd who w)) = mwRecords w" "mwRoadmap (snd (runFull e i checks cmd who w)) = mwRoadmap w"
  by (simp_all add: runFull_def Let_def split: option.splits)

lemma gateFullRun_records [simp]:
  "mwRecords (snd (gateFullRun e i fr checks cmd full w)) = mwRecords w" "mwRoadmap (snd (gateFullRun e i fr checks cmd full w)) = mwRoadmap w"
  by (simp_all add: gateFullRun_def split: option.splits)

text \<open>The records after a gate run: as they were, or with one milestone's result flipped.\<close>

definition gate_records :: "string \<Rightarrow> (string \<Rightarrow> milestoneRecord option) option \<Rightarrow> (string \<Rightarrow> milestoneRecord option) option \<Rightarrow> bool" where
  "gate_records i before after \<longleftrightarrow> after = before \<or>
     (\<exists>recs run. before = Some recs \<and> after = Some (recs(i := Some ((record_of recs i)\<lparr>mrResult := gateResult run, mrSince := Some run\<rparr>)))
        \<and> (recs i = None \<or> mrResult (record_of recs i) \<noteq> gateResult run))"

lemma record_gate_records: "gate_records i (mwRecords w) (mwRecords (snd (record_gate e i st run w)))"
  by (auto simp: record_gate_def gate_records_def Let_def record_of_def split: option.splits)

lemma record_gate_roadmap [simp]: "mwRoadmap (snd (record_gate e i st run w)) = mwRoadmap w"
  by (simp add: record_gate_def Let_def split: option.splits)

lemma record_gate_result:
  assumes "record_gate e i st run w = (Inr g, w')"
  shows "grRun g = Some run" "grStatus g = st" "grMilestone g = i" "grResultChanged g \<longleftrightarrow> mwRecords w' \<noteq> mwRecords w"
proof -
  show "grRun g = Some run" "grStatus g = st" "grMilestone g = i"
    using assms by (auto simp: record_gate_def blank_gate_def Let_def split: option.splits if_splits)
  have "recs(i := Some ((record_of recs i)\<lparr>mrResult := gateResult run, mrSince := Some run\<rparr>)) \<noteq> recs"
    if "\<not> (case recs i of None \<Rightarrow> False | Some r \<Rightarrow> mrResult r = gateResult run)" for recs
  proof
    assume eq: "recs(i := Some ((record_of recs i)\<lparr>mrResult := gateResult run, mrSince := Some run\<rparr>)) = recs"
    then have "recs i = Some ((record_of recs i)\<lparr>mrResult := gateResult run, mrSince := Some run\<rparr>)" by (metis fun_upd_same)
    with that show False by simp
  qed
  then show "grResultChanged g \<longleftrightarrow> mwRecords w' \<noteq> mwRecords w"
    using assms by (auto simp: record_gate_def blank_gate_def Let_def split: option.splits if_splits)
qed

text \<open>Every branch of \<open>runGate\<close> that returns a result ends in \<open>record_gate\<close>.\<close>

lemma runGate_cases:
  obtains (refused) er w1 where "runGate e i full w = (Inl er, w1)" "mwRecords w1 = mwRecords w" "mwRoadmap w1 = mwRoadmap w"
  | (ran) doc rm m gate plain n skipped v fr reused w1 where
      "find_milestone e w i = Inr (doc, rm, m)" "gate = hd (mRun e run_gate [gate_check i (msGate m)])"
      "runGate e i full w = record_gate e i (msStatus m) (gate_run_of e m gate plain n skipped v fr reused) w1"
      "mwRecords w1 = mwRecords w" "mwRoadmap w1 = mwRoadmap w" "mwFull w1 = mwFull w \<or> fr \<noteq> None"
proof (cases "find_milestone e w i")
  case (Inl er)
  then show ?thesis using refused[of er w] by (simp add: runGate_def)
next
  case (Inr x)
  obtain doc rm m where x: "x = (doc, rm, m)" by (cases x)
  define gate where "gate = hd (mRun e run_gate [gate_check i (msGate m)])"
  define skip where "skip = (crExit gate \<noteq> 0 \<and> \<not> full)"
  obtain spec skipped where sp: "(if skip then withoutFull (EffectiveSpecChecks (nSpecs e) None) else (EffectiveSpecChecks (nSpecs e) None, 0)) = (spec, skipped)"
    by (cases "if skip then withoutFull (EffectiveSpecChecks (nSpecs e) None) else (EffectiveSpecChecks (nSpecs e) None, 0)")
  obtain plain fulls where pf: "splitFull spec = (plain, fulls)" by (cases "splitFull spec")
  define cmd where "cmd = nRegressionCmd e"
  define v where "v = (if cmd \<noteq> [] \<and> skip then Some ((empty_verdict cmd)\<lparr>rvSkipped := RegressionSkippedGateRed\<rparr>) else None)"
  define fr where "fr = (if \<not> skip \<and> \<not> nRerun e then currentFullRun e w i fulls cmd else None)"
  note body = runGate_def[of e i full w, unfolded Inr x sum.case prod.case gate_def[symmetric] Let_def, folded skip_def cmd_def, folded v_def, unfolded sp prod.case, unfolded pf prod.case, folded fr_def]
  show ?thesis
  proof (cases "msGate m = []")
    case True
    then show ?thesis using refused body by auto
  next
    case gate: False
    show ?thesis
    proof (cases "first_err [nInterrupted e 1, nInterrupted e 2]")
      case (Some er)
      then show ?thesis using refused[of er w] body gate by simp
    next
      case None
      show ?thesis
      proof (cases skip)
        case True
        then show ?thesis
          using ran[OF Inr[unfolded x] gate_def, of "mRun e run_plain plain" "length spec" skipped v None False w] body gate None by simp
      next
        case False
        obtain r w1 where g: "gateFullRun e i fr fulls cmd full w = (r, w1)" by (cases "gateFullRun e i fr fulls cmd full w")
        have k: "mwRecords w1 = mwRecords w" "mwRoadmap w1 = mwRoadmap w"
          using gateFullRun_records[of e i fr fulls cmd full w] g by simp_all
        show ?thesis
        proof (cases r)
          case (Inl er)
          then show ?thesis using refused[of er w1] body gate None False g k by simp
        next
          case (Inr f)
          then show ?thesis
            using ran[OF \<open>find_milestone e w i = Inr x\<close>[unfolded x] gate_def, of "mRun e run_plain plain" "length spec" skipped v "Some f" "fr \<noteq> None" w1]
              body gate None False g k by simp
        qed
      qed
    qed
  qed
qed

lemma runGate_records: "gate_records i (mwRecords w) (mwRecords (snd (runGate e i full w)))"
proof (cases rule: runGate_cases[of e i full w])
  case (refused er w1)
  then show ?thesis by (simp add: gate_records_def)
next
  case (ran doc rm m gate plain n skipped v fr reused w1)
  then show ?thesis using record_gate_records[of i w1 e] by simp
qed

lemma runGate_roadmap [simp]: "mwRoadmap (snd (runGate e i full w)) = mwRoadmap w"
  by (cases rule: runGate_cases[of e i full w]) simp_all

lemma runGate_result:
  assumes "runGate e i full w = (Inr g, w')"
  obtains run doc rm m where "grRun g = Some run" "find_milestone e w i = Inr (doc, rm, m)" "mgCmd run = msGate m" "grStatus g = msStatus m"
    "grResultChanged g \<longleftrightarrow> mwRecords w' \<noteq> mwRecords w" "mgExit run = crExit (hd (mRun e run_gate [gate_check i (msGate m)]))"
proof (cases rule: runGate_cases[of e i full w])
  case (refused er w1)
  then show ?thesis using assms by simp
next
  case (ran doc rm m gate plain n skipped v fr reused w1)
  let ?run = "gate_run_of e m gate plain n skipped v fr reused"
  have r: "record_gate e i (msStatus m) ?run w1 = (Inr g, w')" using ran(3) assms by simp
  show ?thesis
    by (rule that[of ?run doc rm m]) (use record_gate_result[OF r] ran in \<open>simp_all add: gate_run_of_def Let_def\<close>)
qed

lemma find_milestone_id: "find_milestone e w i = Inr (doc, rm, m) \<Longrightarrow> msID m = i"
  by (auto simp: find_milestone_def rm_Find_def find_Some_iff split: sum.splits option.splits)

section \<open>Properties of every record\<close>

definition all_recs :: "(milestoneRecord \<Rightarrow> bool) \<Rightarrow> mworld \<Rightarrow> bool" where
  "all_recs P w \<longleftrightarrow> (\<forall>recs i r. mwRecords w = Some recs \<longrightarrow> recs i = Some r \<longrightarrow> P r)"

lemma all_recs_upd: "mwRecords w = Some recs \<Longrightarrow> all_recs P w \<Longrightarrow> P r \<Longrightarrow> all_recs P (w\<lparr>mwRecords := Some (recs(i := Some r))\<rparr>)"
  by (auto simp: all_recs_def)

lemma all_recs_cong: "mwRecords w' = mwRecords w \<Longrightarrow> all_recs P w' = all_recs P w"
  by (simp add: all_recs_def)

lemma all_recs_commit: "all_recs P w0 \<Longrightarrow> all_recs P w \<Longrightarrow> all_recs P (snd (commitMilestone e doc recs w0 w))"
  by (auto simp: commitMilestone_def all_recs_def split: commit_case.splits)

text \<open>A red gate a person accepted: a reason, a name and the red run.\<close>

definition accepted_red :: "acceptRed \<Rightarrow> bool" where
  "accepted_red a \<longleftrightarrow> arReason a \<noteq> [] \<and> arBy a \<noteq> [] \<and> (case arGate a of None \<Rightarrow> False | Some run \<Rightarrow> \<not> run_Green run)"

locale record_invariant =
  fixes P :: "milestoneRecord \<Rightarrow> bool"
  assumes fresh: "P new_record"
    and approve: "P r \<Longrightarrow> who \<noteq> [] \<Longrightarrow> gate_self_check e m re (green \<noteq> []) = Inr sc \<Longrightarrow> P (approved_record e m' who base green sc r)"
    and gate: "P r \<Longrightarrow> P (r\<lparr>mrResult := gateResult run, mrSince := Some run\<rparr>)"
    and closed: "P r \<Longrightarrow> mrApproval r \<noteq> None \<Longrightarrow> mrAcceptRed r = red \<or> (\<exists>a. red = Some a \<and> accepted_red a) \<Longrightarrow>
        P (r\<lparr>mrDoneAt := at, mrAcceptRed := red, mrGateArchived := archived\<rparr>)"
    and blocks: "P r \<Longrightarrow> P (r\<lparr>mrConsecutiveBlocks := n\<rparr>)"
    and rewritten: "P r \<Longrightarrow> P (rerecord e before r)"
begin

lemma record_of: "mwRecords w = Some recs \<Longrightarrow> all_recs P w \<Longrightarrow> P (record_of recs i)"
  using fresh by (auto simp: all_recs_def record_of_def split: option.splits)

lemma gate_records_inv:
  assumes "gate_records i (mwRecords w) (mwRecords w')" and "all_recs P w"
  shows "all_recs P w'"
proof (cases "mwRecords w' = mwRecords w")
  case True
  then show ?thesis using assms(2) all_recs_cong[THEN iffD2] by blast
next
  case False
  then obtain recs run where r: "mwRecords w = Some recs"
      "mwRecords w' = Some (recs(i := Some ((Milestone.record_of recs i)\<lparr>mrResult := gateResult run, mrSince := Some run\<rparr>)))"
    using assms(1) by (auto simp: gate_records_def)
  have "P ((Milestone.record_of recs i)\<lparr>mrResult := gateResult run, mrSince := Some run\<rparr>)"
    by (rule gate[OF record_of[OF r(1) assms(2)]])
  with r assms(2) show ?thesis by (auto simp: all_recs_def)
qed

lemma runGate: "all_recs P w \<Longrightarrow> all_recs P (snd (runGate e i full w))"
  using gate_records_inv[OF runGate_records] .

lemma RunGate: "all_recs P w \<Longrightarrow> all_recs P (snd (snd (RunGate e i w)))"
proof -
  assume w: "all_recs P w"
  obtain r w1 where r: "Milestone.runGate e i False w = (r, w1)" by (cases "Milestone.runGate e i False w")
  have w1: "all_recs P w1" using runGate[OF w, of e i False] r by simp
  obtain c w2 where c: "commitMilestone e False True w w1 = (c, w2)" by (cases "commitMilestone e False True w w1")
  have "all_recs P w2" using all_recs_commit[OF w w1, of e False True] c by simp
  with w w1 r c show ?thesis by (auto simp: RunGate_def split: option.splits sum.splits)
qed

lemma RunFull: "all_recs P w \<Longrightarrow> all_recs P (snd (snd (RunFull e i w)))"
proof -
  assume w: "all_recs P w"
  obtain r w1 where r: "runFull e i (snd (splitFull (EffectiveSpecChecks (nSpecs e) None))) (nRegressionCmd e) ''full'' w = (r, w1)"
    by (cases "runFull e i (snd (splitFull (EffectiveSpecChecks (nSpecs e) None))) (nRegressionCmd e) ''full'' w")
  then have "mwRecords w1 = mwRecords w" by (metis runFull_records(1) snd_conv)
  then have "all_recs P w1" using all_recs_cong[THEN iffD2] w by blast
  with w r show ?thesis by (auto simp: RunFull_def split: option.splits sum.splits)
qed

lemma NewMilestoneWith: "all_recs P w \<Longrightarrow> all_recs P (snd (NewMilestoneWith e title gt goal usd tokens wall w))"
proof -
  assume w: "all_recs P w"
  have "all_recs P (snd (commitMilestone e True True w (w\<lparr>mwRoadmap := d\<rparr>)))" for d
    using w by (intro all_recs_commit) (simp_all add: all_recs_def)
  with w show ?thesis by (auto simp: NewMilestoneWith_def Let_def split: option.splits sum.splits prod.splits)
    (metis snd_conv)+
qed

lemma approve_write:
  assumes "all_recs P w" and "mwRecords w = Some recs" and "TrimSpace who \<noteq> []" and "gate_self_check e m0 re (green \<noteq> []) = Inr sc"
  shows "all_recs P (snd (snd (approve_write e rm m recs who base green sc w)))"
proof -
  obtain r w1 where r: "write_approved e rm m who w = (r, w1)" by (cases "write_approved e rm m who w")
  have k: "mwRecords w1 = mwRecords w" using r by (auto simp: write_approved_def split: if_splits option.splits)
  then have w1: "all_recs P w1" using all_recs_cong[THEN iffD2] assms(1) by blast
  let ?w2 = "\<lambda>m'. w1\<lparr>mwRecords := Some (recs(msID m := Some (approved_record e m' (TrimSpace who) base green sc (record_of recs (msID m)))))\<rparr>"
  have "P (approved_record e m' (TrimSpace who) base green sc (record_of recs (msID m)))" for m'
    using approve[OF record_of[OF assms(2,1)] assms(3,4)] .
  then have "all_recs P (?w2 m')" for m' using all_recs_upd[of w1 recs P] k assms(2) w1 by simp
  then have "all_recs P (snd (commitMilestone e True True w (?w2 m')))" for m' using assms(1) by (intro all_recs_commit)
  then have "commitMilestone e True True w (?w2 m') = (c, w3) \<Longrightarrow> all_recs P w3" for m' c w3 by (metis snd_conv)
  with w1 r show ?thesis by (auto simp: approve_write_def Let_def split: option.splits sum.splits prod.splits)
qed

lemma approveMilestone: "all_recs P w \<Longrightarrow> all_recs P (snd (snd (approveMilestone e i who green w)))"
  using approve_write[of w _ who e _ _ green]
  by (auto simp: approveMilestone_def Let_def when_err_def split: option.splits sum.splits prod.splits if_splits)

lemma markDone:
  assumes "all_recs P w" and "mwRecords w = Some recs" and "mrApproval (Milestone.record_of recs i) \<noteq> None"
    and "red = None \<or> (\<exists>a. red = Some a \<and> accepted_red a)"
  shows "all_recs P (snd (markDone e i at red archived w))"
proof -
  have "P ((Milestone.record_of recs i)\<lparr>mrDoneAt := at, mrAcceptRed := (if red = None then mrAcceptRed (Milestone.record_of recs i) else red), mrGateArchived := ar\<rparr>)" for ar
    by (rule closed[OF record_of[OF assms(2,1)] assms(3)]) (use assms(4) in auto)
  then have "all_recs P (w\<lparr>mwRecords := Some (recs(i := Some ((Milestone.record_of recs i)\<lparr>mrDoneAt := at,
      mrAcceptRed := (if red = None then mrAcceptRed (Milestone.record_of recs i) else red), mrGateArchived := ar\<rparr>)))\<rparr>)" for ar
    using all_recs_upd[OF assms(2,1)] by blast
  then show ?thesis using assms(1,2) by (simp add: markDone_def Let_def split: option.splits)
qed

lemma close_write:
  assumes w: "all_recs P w" and recs: "mwRecords w = Some recs" and a: "mrApproval (Milestone.record_of recs i) \<noteq> None"
    and red: "red0 = None \<or> (\<exists>r. red0 = Some r \<and> arReason r \<noteq> [] \<and> arBy r \<noteq> [] \<and> \<not> run_Green run)"
  shows "all_recs P (snd (snd (close_write e i g run red0 plan w)))"
proof -
  define red' where "red' = map_option (\<lambda>r. r\<lparr>arAt := nStamp e 5, arGate := Some run\<rparr>) red0"
  have red': "red' = None \<or> (\<exists>a. red' = Some a \<and> accepted_red a)" using red by (auto simp: red'_def accepted_red_def)
  have d: "all_recs P (snd (Milestone.markDone e i (mgAt run) red' plan (w\<lparr>mwRoadmap := d\<rparr>)))" for d
    using w recs by (intro markDone[OF _ _ a red']) (simp_all add: all_recs_def)
  then have m: "all_recs P w1" if "Milestone.markDone e i (mgAt run) red' plan (w\<lparr>mwRoadmap := d\<rparr>) = (x, w1)" for d x w1
    using that by (metis snd_conv)
  have c: "all_recs P w2" if "commitMilestone e False False w w1 = (x, w2)" "all_recs P w1" for x w1 w2
    using all_recs_commit[OF w that(2), of e False False] that(1) by simp
  show ?thesis unfolding close_write_def red'_def[symmetric] Let_def
    using w m c by (auto split: option.splits sum.splits prod.splits)
qed

lemma close_gate:
  assumes w: "all_recs P w" and recs: "mwRecords w = Some recs" and a: "mrApproval (Milestone.record_of recs i) \<noteq> None"
    and red: "red = None \<or> (\<exists>r. red = Some r \<and> arReason r \<noteq> [] \<and> arBy r \<noteq> [])"
  shows "all_recs P (snd (snd (close_gate e i red plan w)))"
proof -
  obtain r w1 where r: "Milestone.runGate e i True w = (r, w1)" by (cases "Milestone.runGate e i True w")
  have w1: "all_recs P w1" using runGate[OF w, of e i True] r by simp
  have "gate_records i (mwRecords w) (mwRecords w1)" using runGate_records[of i w e True] r by simp
  then obtain recs1 where recs1: "mwRecords w1 = Some recs1" "mrApproval (Milestone.record_of recs1 i) \<noteq> None"
    using recs a by (auto simp: gate_records_def record_of_def)
  have c: "all_recs P w2" if "commitMilestone e False True w w1 = (x, w2)" for x w2
    using all_recs_commit[OF w w1, of e False True] that by simp
  have e: "all_recs P (edited e w1)" "mwRecords (edited e w1) = Some recs1"
    using w1 recs1 by (simp_all add: edited_def all_recs_def split: option.splits)
  have "all_recs P (snd (snd (Milestone.close_write e i g run None plan (edited e w1))))" for g run
    by (rule close_write[OF e recs1(2)]) simp
  moreover have "all_recs P (snd (snd (Milestone.close_write e i g run red plan (edited e w1))))" if "\<not> run_Green run" for g run
    by (rule close_write[OF e recs1(2)]) (use red that in auto)
  ultimately show ?thesis unfolding close_gate_def r using w1 c by (auto split: option.splits sum.splits prod.splits)
qed

lemma closeMilestone:
  assumes w: "all_recs P w" and red: "red = None \<or> (\<exists>r. red = Some r \<and> arReason r \<noteq> [] \<and> arBy r \<noteq> [])"
  shows "all_recs P (snd (snd (closeMilestone e i red w)))"
proof -
  have "all_recs P (snd (snd (Milestone.close_gate e i red plan w)))"
    if "find_milestone e w i = Inr (doc, rm, m)" "requireApprovalRecord e 0 w m True = None" for doc rm m plan
  proof -
    have i: "msID m = i" using find_milestone_id[OF that(1)] .
    from that(2) i obtain recs where "mwRecords w = Some recs" "mrApproval (Milestone.record_of recs i) \<noteq> None"
      by (auto simp: requireApprovalRecord_def record_of_def split: option.splits)
    then show ?thesis using close_gate[OF w _ _ red] by blast
  qed
  then show ?thesis using w by (auto simp: closeMilestone_def split: option.splits sum.splits)
qed

lemma CloseMilestone: "all_recs P w \<Longrightarrow> all_recs P (snd (snd (CloseMilestone e i w)))"
  unfolding CloseMilestone_def by (rule closeMilestone) simp_all

lemma CloseMilestoneAcceptRed: "all_recs P w \<Longrightarrow> all_recs P (snd (snd (CloseMilestoneAcceptRed e i reason who w)))"
  using closeMilestone[of w "Some \<lparr>arReason = TrimSpace reason, arBy = TrimSpace who, arAt = [], arGate = None\<rparr>" e i]
  by (auto simp: CloseMilestoneAcceptRed_def Let_def when_err_def split: option.splits if_splits)

end

section \<open>Every world the commands reach\<close>

text \<open>
  A step is one command in any environment, or the hand of a person on the roadmap. The count of
  blocked changes moves with the changes of the milestone (\<open>noteBlocked\<close>, \<open>resetBlocks\<close>, whose
  commands are in \<open>Lifecycle\<close>): the step \<open>blocked\<close> allows any count.
\<close>

inductive milestone_step :: "mworld \<Rightarrow> mworld \<Rightarrow> bool" where
  new: "milestone_step w (snd (NewMilestoneWith e title gt goal usd tokens wall w))"
| approve: "milestone_step w (snd (snd (ApproveMilestoneOutcome e i who green w)))"
| gate: "milestone_step w (snd (snd (RunGate e i w)))"
| full: "milestone_step w (snd (snd (RunFull e i w)))"
| close: "milestone_step w (snd (snd (CloseMilestone e i w)))"
| close_red: "milestone_step w (snd (snd (CloseMilestoneAcceptRed e i reason who w)))"
| rewrite_live: "milestone_step w (snd (rerecordRewrittenGates e before ids w))"
| edit: "milestone_step w (w\<lparr>mwRoadmap := doc\<rparr>)"
| blocked: "mwRecords w = Some recs \<Longrightarrow>
    milestone_step w (w\<lparr>mwRecords := Some (recs(i := Some ((record_of recs i)\<lparr>mrConsecutiveBlocks := n\<rparr>)))\<rparr>)"

inductive milestone_reachable :: "mworld \<Rightarrow> bool" where
  init: "mwRecords w = Some Map.empty \<Longrightarrow> milestone_reachable w"
| step: "milestone_reachable w \<Longrightarrow> milestone_step w w' \<Longrightarrow> milestone_reachable w'"

context record_invariant
begin

lemma outcome: "all_recs P w \<Longrightarrow> all_recs P (snd (snd (ApproveMilestoneOutcome e i who green w)))"
  using approveMilestone by (simp add: ApproveMilestoneOutcome_def Let_def split: option.splits)

lemma rerecordRewrittenGates: "all_recs P w \<Longrightarrow> all_recs P (snd (rerecordRewrittenGates e before ids w))"
  using rewritten by (auto simp: rerecordRewrittenGates_def Let_def all_recs_def split: option.splits if_splits)

lemma kept: "milestone_step w w' \<Longrightarrow> all_recs P w \<Longrightarrow> all_recs P w'"
proof (induction rule: milestone_step.induct)
  case (blocked w recs i n)
  then show ?case using all_recs_upd[OF blocked] blocks[OF record_of[OF blocked]] by blast
qed (simp_all add: NewMilestoneWith outcome RunGate RunFull CloseMilestone CloseMilestoneAcceptRed rerecordRewrittenGates all_recs_def[of _ "_\<lparr>mwRoadmap := _\<rparr>"],
     simp add: all_recs_def)

lemma everywhere: "milestone_reachable w \<Longrightarrow> all_recs P w"
  by (induction rule: milestone_reachable.induct) (simp add: all_recs_def, use kept in blast)

end

section \<open>Sound records\<close>

text \<open>
  The self-check of an approval is red, and not because the gate could not run; or it is green and a
  person said why.
\<close>

definition approval_sound :: "milestoneApproval \<Rightarrow> bool" where
  "approval_sound a \<longleftrightarrow> maBy a \<noteq> [] \<and> (case maSelfCheck a of
      None \<Rightarrow> False
    | Some sc \<Rightarrow> if gsExit sc = 0 then (case maAcceptGreen a of None \<Rightarrow> False | Some g \<Rightarrow> agReason g \<noteq> [] \<and> agBy g = maBy a)
                 else gsExit sc \<notin> {ExitTimeout, exitNotExecutable, exitNotFound} \<and> maAcceptGreen a = None)"

definition record_sound :: "milestoneRecord \<Rightarrow> bool" where
  "record_sound r \<longleftrightarrow>
     (mrResult r \<noteq> [] \<longrightarrow> (case mrSince r of None \<Rightarrow> False | Some run \<Rightarrow> mrResult r = gateResult run))
     \<and> (case mrApproval r of None \<Rightarrow> mrDoneAt r = [] \<and> mrAcceptRed r = None | Some a \<Rightarrow> approval_sound a)
     \<and> (case mrAcceptRed r of None \<Rightarrow> True | Some a \<Rightarrow> accepted_red a)"

lemma approved_sound:
  assumes "who \<noteq> []" and "gate_self_check e m re (green \<noteq> []) = Inr sc"
  shows "\<exists>a. mrApproval (approved_record e m' who base green sc r) = Some a \<and> approval_sound a"
  using assms by (auto simp: approved_record_def approval_sound_def gate_self_check_def newApproval_def Let_def split: if_splits option.splits)

lemma approved_fields [simp]:
  "mrResult (approved_record e m who base green sc r) = mrResult r" "mrSince (approved_record e m who base green sc r) = mrSince r"
  "mrDoneAt (approved_record e m who base green sc r) = mrDoneAt r" "mrAcceptRed (approved_record e m who base green sc r) = mrAcceptRed r"
  by (simp_all add: approved_record_def Let_def)

interpretation sound: record_invariant record_sound
proof
  show "record_sound new_record" by (simp add: record_sound_def new_record_def)
next
  fix r e m re sc m' and who base green :: string
  assume r: "record_sound r" and a: "who \<noteq> []" "gate_self_check e m re (green \<noteq> []) = Inr sc"
  from approved_sound[OF a] obtain ap where "mrApproval (approved_record e m' who base green sc r) = Some ap" "approval_sound ap" by blast
  with r show "record_sound (approved_record e m' who base green sc r)" by (simp add: record_sound_def cong: option.case_cong)
next
  fix r :: milestoneRecord and run
  show "record_sound r \<Longrightarrow> record_sound (r\<lparr>mrResult := gateResult run, mrSince := Some run\<rparr>)" by (simp add: record_sound_def cong: option.case_cong)
next
  fix r :: milestoneRecord and red at archived
  show "record_sound r \<Longrightarrow> mrApproval r \<noteq> None \<Longrightarrow> mrAcceptRed r = red \<or> (\<exists>a. red = Some a \<and> accepted_red a) \<Longrightarrow>
      record_sound (r\<lparr>mrDoneAt := at, mrAcceptRed := red, mrGateArchived := archived\<rparr>)"
    by (auto simp: record_sound_def cong: option.case_cong)
next
  fix r :: milestoneRecord and n
  show "record_sound r \<Longrightarrow> record_sound (r\<lparr>mrConsecutiveBlocks := n\<rparr>)" by (simp add: record_sound_def cong: option.case_cong)
next
  fix r e before
  have "maBy (rerecord_approval e before a) = maBy a" "maSelfCheck (rerecord_approval e before a) = maSelfCheck a"
    "maAcceptGreen (rerecord_approval e before a) = maAcceptGreen a" for a
    by (simp_all add: rerecord_approval_def Let_def)
  then have "approval_sound (rerecord_approval e before a) = approval_sound a" for a
    by (simp only: approval_sound_def)
  then show "record_sound r \<Longrightarrow> record_sound (rerecord e before r)"
    by (simp add: record_sound_def rerecord_def split: option.splits)
qed

end
