(* ===== verification/GateFacts.thy ===== *)
theory GateFacts
  imports GateScript
begin

text \<open>
  What the reading of a gate gives: the scripts it names are clean paths below the project root, and a
  line of quoted words is read back as those words.
\<close>

section \<open>Clean paths\<close>

definition below_root :: "string \<Rightarrow> bool" where
  "below_root p \<longleftrightarrow> p \<noteq> [] \<and> list_all (\<lambda>s. s \<noteq> [] \<and> s \<noteq> ''.'' \<and> s \<noteq> ''..'') (split_char (CHR ''/'') p)"

text \<open>The parts of a clean path: \<open>..\<close> only at the front, no empty part and no dot.\<close>

definition clean_out :: "string list \<Rightarrow> bool" where
  "clean_out out \<longleftrightarrow> (\<exists>n rest. out = replicate n ''..'' @ rest \<and> list_all (\<lambda>s. s \<noteq> [] \<and> s \<noteq> ''.'' \<and> s \<noteq> ''..'') rest)"

lemma clean_step_out:
  assumes "clean_out out"
  shows "clean_out (clean_step out s)"
proof -
  obtain n rest where o: "out = replicate n ''..'' @ rest" "list_all (\<lambda>s. s \<noteq> [] \<and> s \<noteq> ''.'' \<and> s \<noteq> ''..'') rest"
    using assms by (auto simp: clean_out_def)
  consider (skip) "s = [] \<or> s = ''.''" | (pop) "s = ''..''" "out \<noteq> []" "last out \<noteq> ''..''"
    | (up) "s = ''..''" "out = [] \<or> last out = ''..''" | (push) "s \<noteq> []" "s \<noteq> ''.''" "s \<noteq> ''..''" by blast
  then show ?thesis
  proof cases
    case skip
    then show ?thesis using assms by (auto simp: clean_step_def)
  next
    case pop
    then have "rest \<noteq> []" using o(1) by auto
    then have "clean_step out s = replicate n ''..'' @ butlast rest" using pop o(1) by (simp add: clean_step_def butlast_append)
    moreover have "list_all (\<lambda>s. s \<noteq> [] \<and> s \<noteq> ''.'' \<and> s \<noteq> ''..'') (butlast rest)" using o(2) by (auto simp: list_all_iff dest: in_set_butlastD)
    ultimately show ?thesis unfolding clean_out_def by blast
  next
    case up
    have "rest = []"
    proof (rule ccontr)
      assume "rest \<noteq> []"
      then have "last rest \<in> set rest" "last out = last rest" using o(1) by auto
      with up(2) o \<open>rest \<noteq> []\<close> show False by (auto simp: list_all_iff)
    qed
    then have "clean_step out s = replicate (Suc n) ''..'' @ []" using up o(1) by (auto simp: clean_step_def replicate_append_same)
    then show ?thesis unfolding clean_out_def by (intro exI[of _ "Suc n"] exI[of _ "[]"]) simp
  next
    case push
    then have "clean_step out s = replicate n ''..'' @ (rest @ [s])" using o(1) by (simp add: clean_step_def)
    moreover have "list_all (\<lambda>s. s \<noteq> [] \<and> s \<noteq> ''.'' \<and> s \<noteq> ''..'') (rest @ [s])" using o(2) push by simp
    ultimately show ?thesis unfolding clean_out_def by blast
  qed
qed

lemma clean_parts_out: "clean_out (clean_parts w)"
proof -
  have "clean_out []" by (simp add: clean_out_def)
  then have "clean_out (foldl clean_step [] ss)" for ss
    by (rule foldl_invariant[where P = clean_out]) (rule clean_step_out)
  then show ?thesis by (simp add: clean_parts_def)
qed

lemma clean_step_set: "set (clean_step out s) \<subseteq> insert s (set out)"
  by (auto simp: clean_step_def dest: in_set_butlastD)

lemma clean_parts_from: "set (clean_parts w) \<subseteq> set (split_char (CHR ''/'') w)"
  unfolding clean_parts_def
  by (rule foldl_invariant[where P = "\<lambda>out. set out \<subseteq> set (split_char (CHR ''/'') w)"]) (use clean_step_set in auto)

lemma repoPath_below:
  assumes "repoPath w = Some p"
  shows "below_root p" and "set p \<subseteq> insert (CHR ''/'') (set w)"
proof -
  let ?ps = "clean_parts w"
  have p: "p = Clean w" "Clean w \<noteq> ''.''" "Clean w \<noteq> ''..''" "\<not> HasPrefix (Clean w) ''../''"
    using assms by (auto simp: repoPath_def split: if_splits)
  then have ne: "?ps \<noteq> []" and c: "p = Join ?ps ''/''" by (auto simp: Clean_def split: if_splits)
  have free: "\<forall>s\<in>set ?ps. CHR ''/'' \<notin> set s" using clean_parts_from[of w] split_char_free by blast
  have sp: "split_char (CHR ''/'') p = ?ps" unfolding c using ne free by (rule split_char_Join)
  obtain n rest where o: "?ps = replicate n ''..'' @ rest" "list_all (\<lambda>s. s \<noteq> [] \<and> s \<noteq> ''.'' \<and> s \<noteq> ''..'') rest"
    using clean_parts_out[of w] by (auto simp: clean_out_def)
  have "n = 0"
  proof (cases n)
    case (Suc k)
    show ?thesis
    proof (cases "replicate k ''..'' @ rest")
      case Nil
      then have "p = ''..''" using c o(1) Suc by simp
      with p show ?thesis by simp
    next
      case (Cons x xs)
      then have "p = ''../'' @ Join (x # xs) ''/''" using c o(1) Suc by (simp add: Join_Cons)
      then have "HasPrefix p ''../''" by (simp only: HasPrefix_append)
      with p show ?thesis by simp
    qed
  qed simp
  with o ne have "list_all (\<lambda>s. s \<noteq> [] \<and> s \<noteq> ''.'' \<and> s \<noteq> ''..'') ?ps" by simp
  moreover have "p \<noteq> []"
  proof
    assume "p = []"
    then have "?ps = [[]]" using sp by simp
    with calculation show False by simp
  qed
  ultimately show "below_root p" by (simp add: below_root_def sp)
  have "set s \<subseteq> set w" if "s \<in> set (split_char (CHR ''/'') w)" for s
    using Join_part_chars[OF that, of "''/''"] by (simp add: Join_split_char)
  then show "set p \<subseteq> insert (CHR ''/'') (set w)" unfolding c using set_Join_subset[of ?ps "''/''"] clean_parts_from[of w] by fastforce
qed

text \<open>C39: whatever the gate line, the scripts an approval freezes are listed in order and once each, and each
  is a clean path below the project root: no empty part, no \<open>.\<close>, no \<open>..\<close>, and none of the characters the
  shell would expand.
\<close>

theorem gateScripts_below_root:
  "sorted (gateScripts uc gate) \<and> distinct (gateScripts uc gate)
   \<and> list_all (\<lambda>p. below_root p \<and> set p \<inter> set ''$*?[~'' = {}) (gateScripts uc gate)"
proof -
  have "below_root p \<and> set p \<inter> set ''$*?[~'' = {}" if p: "p \<in> set (command_scripts uc c)" for p c
  proof -
    have opt: "x \<in> set (case repoPath w of None \<Rightarrow> [] | Some rel \<Rightarrow> [rel]) \<Longrightarrow> repoPath w = Some x" for x w by (cases "repoPath w") simp_all
    obtain w where w: "repoPath w = Some p"
    proof (cases "skip_prefixes uc False c")
      case Nil
      with p show ?thesis by (simp add: command_scripts_def)
    next
      case (Cons x args)
      define i where "i = interpreters (TrimRight (path_Base x) ''0123456789.'')"
      from p Cons have "p \<in> set (if CHR ''/'' \<in> set x then (case repoPath x of None \<Rightarrow> [] | Some rel \<Rightarrow> [rel]) else [])
          \<or> p \<in> set (case i of None \<Rightarrow> [] | Some i \<Rightarrow> (case repoPath (interp_script i args) of None \<Rightarrow> [] | Some rel \<Rightarrow> [rel]))"
        unfolding command_scripts_def i_def by (simp only: list.case set_append Un_iff)
      then show ?thesis
      proof
        assume "p \<in> set (if CHR ''/'' \<in> set x then (case repoPath x of None \<Rightarrow> [] | Some rel \<Rightarrow> [rel]) else [])"
        then show ?thesis using opt[of p x] that by (cases "CHR ''/'' \<in> set x") simp_all
      next
        assume "p \<in> set (case i of None \<Rightarrow> [] | Some i \<Rightarrow> (case repoPath (interp_script i args) of None \<Rightarrow> [] | Some rel \<Rightarrow> [rel]))"
        then show ?thesis using opt[of p] that by (cases i) simp_all
      qed
    qed
    then have "\<not> list_ex (\<lambda>c. c \<in> set ''$*?[~'') w" by (auto simp: repoPath_def split: if_splits)
    then have "\<forall>c\<in>set w. c \<notin> set ''$*?[~''" unfolding list_ex_iff by blast
    moreover have "CHR ''/'' \<notin> set ''$*?[~''" by simp
    moreover have "A \<subseteq> insert x W \<Longrightarrow> \<forall>c\<in>W. c \<notin> B \<Longrightarrow> x \<notin> B \<Longrightarrow> A \<inter> B = {}" for A W B :: "char set" and x by blast
    ultimately show ?thesis using repoPath_below[OF w] by (intro conjI)
  qed
  then show ?thesis by (auto simp: gateScripts_def list_all_iff)
qed

section \<open>Quoted words\<close>

definition ascii :: "string \<Rightarrow> bool" where
  "ascii s \<longleftrightarrow> list_all (\<lambda>c. (of_char c :: nat) < 128) s"

definition sh_quote :: "string \<Rightarrow> string" where
  "sh_quote w = CHR 0x27 # w @ [CHR 0x27]"

lemma runes_ascii: "ascii s \<Longrightarrow> runes s = map rc s"
proof (induction s)
  case Nil
  then show ?case by (simp add: runes_def decode_runes.simps)
next
  case (Cons c s)
  then have "(of_char c :: nat) < 128" "runes s = map rc s" by (simp_all add: ascii_def)
  then show ?case by (simp add: runes_def decode_runes.simps[of "_ # _"] decode_rune_def rc_def)
qed

lemma encode_ascii: "ascii w \<Longrightarrow> concat (map encode_rune (map rc w)) = w"
  by (induction w) (simp_all add: ascii_def encode_rune_def rc_def)

lemma rc_eq [simp]: "rc c = rc d \<longleftrightarrow> c = d"
  by (simp add: rc_def)

lemma quote_rest:
  assumes "CHR 0x27 \<notin> set w"
  shows "takeWhile (\<lambda>x. x \<noteq> rc (CHR 0x27)) (map rc w @ rc (CHR 0x27) # R) = map rc w"
    and "dropWhile (\<lambda>x. x \<noteq> rc (CHR 0x27)) (map rc w @ rc (CHR 0x27) # R) = rc (CHR 0x27) # R"
  using assms by (induction w) auto

lemma gate_step_quote:
  assumes "CHR 0x27 \<notin> set w" and "ascii w"
  shows "gate_step uc (rc (CHR 0x27)) (l\<lparr>glRest := map rc w @ rc (CHR 0x27) # R\<rparr>) = l\<lparr>glRest := R, glW := glW l @ w, glInWord := True\<rparr>"
  using encode_ascii[OF assms(2)] unfolding gate_step_def Let_def by (simp add: quote_rest[OF assms(1)])

lemma gate_step_space: "gate_step uc (rc (CHR '' '')) l = endWord l"
  by (simp add: gate_step_def Let_def one_of_def) (simp add: space_rune_def rc_def)

lemma gate_loop_Cons: "glRest l = r # rs \<Longrightarrow> gate_loop uc l = gate_loop uc (gate_step uc r (l\<lparr>glRest := rs\<rparr>))"
  by (simp add: gate_loop.simps[of uc l])

lemma gate_loop_words:
  assumes "ws \<noteq> []" and "\<forall>w\<in>set ws. ascii w \<and> CHR 0x27 \<notin> set w"
    and "glRest l = map rc (Join (map sh_quote ws) '' '')" and "glW l = []" and "\<not> glInWord l" and "\<not> glTarget l"
  shows "glCmds (endCmd (gate_loop uc l)) = glCmds l @ [glCur l @ ws]"
  using assms
proof (induction ws arbitrary: l)
  case (Cons w ws)
  define R where "R = (if ws = [] then [] else rc (CHR '' '') # map rc (Join (map sh_quote ws) '' ''))"
  have rest: "glRest l = rc (CHR 0x27) # map rc w @ rc (CHR 0x27) # R"
    using Cons.prems(3) by (cases ws) (simp_all add: sh_quote_def[of w] R_def)
  have "gate_loop uc l = gate_loop uc (l\<lparr>glRest := R, glW := w, glInWord := True\<rparr>)"
    using gate_loop_Cons[OF rest, of uc] Cons.prems(2,4) by (simp add: gate_step_quote)
  also have "glCmds (endCmd \<dots>) = glCmds l @ [glCur l @ w # ws]"
  proof (cases "ws = []")
    case True
    then show ?thesis using Cons.prems(6) by (simp add: R_def gate_loop.simps endCmd_def endWord_def Let_def)
  next
    case False
    let ?l = "l\<lparr>glRest := R, glW := w, glInWord := True\<rparr>"
    let ?m = "endWord (?l\<lparr>glRest := map rc (Join (map sh_quote ws) '' '')\<rparr>)"
    have "gate_loop uc ?l = gate_loop uc ?m"
      using False gate_loop_Cons[of ?l "rc (CHR '' '')" "map rc (Join (map sh_quote ws) '' '')" uc]
      by (simp only: gate_step_space) (simp add: R_def)
    moreover have "glCmds (endCmd (gate_loop uc ?m)) = glCmds ?m @ [glCur ?m @ ws]"
      using Cons.prems False by (intro Cons.IH) (simp_all add: endWord_def)
    ultimately show ?thesis using Cons.prems(6) by (simp add: endWord_def)
  qed
  finally show ?case .
qed simp

lemma gateCommands_words:
  assumes "ws \<noteq> []" and "\<forall>w\<in>set ws. ascii w \<and> CHR 0x27 \<notin> set w"
  shows "gateCommands uc (Join (map sh_quote ws) '' '') = [ws]"
proof -
  have "ascii (Join (map sh_quote ws) '' '')"
    unfolding ascii_def list_all_iff
  proof
    fix c
    assume "c \<in> set (Join (map sh_quote ws) '' '')"
    then have "c = CHR '' '' \<or> c = CHR 0x27 \<or> (\<exists>w\<in>set ws. c \<in> set w)"
      using Join_chars[of c "map sh_quote ws" "'' ''"] by (auto simp: sh_quote_def)
    then show "(of_char c :: nat) < 128" using assms(2) by (auto simp: ascii_def list_all_iff)
  qed
  then show ?thesis
    using gate_loop_words[OF assms, of "new_lexer (map rc (Join (map sh_quote ws) '' ''))" uc]
    by (simp add: gateCommands_def runes_ascii new_lexer_def)
qed

text \<open>A gate line of single-quoted words is read as one command of exactly those words, whatever
  characters of the shell they hold: nothing inside the quotes ends a word or a command, starts a comment,
  a redirection or an expansion. The words are ASCII and hold no single quote.
\<close>

lemma gateCommands_quoted:
  assumes "ws \<noteq> []" and "\<forall>w\<in>set ws. ascii w \<and> CHR 0x27 \<notin> set w"
  shows "gateCommands uc (Join (map sh_quote ws) '' '') = [ws]"
  by (rule gateCommands_words[OF assms])

lemma gateCommands_quoted_witness:
  "gateCommands \<lparr>ucLetter = (\<lambda>_. False), ucDigit = (\<lambda>_. False)\<rparr> (Join (map sh_quote [''bash'', ''a;b $x'', [], ''#c'']) '' '') = [[''bash'', ''a;b $x'', [], ''#c'']]"
proof -
  have "[''bash'', ''a;b $x'', [], ''#c''] \<noteq> []" by simp
  moreover have "\<forall>w\<in>set [''bash'', ''a;b $x'', [], ''#c'']. ascii w \<and> CHR 0x27 \<notin> set w" by code_simp
  ultimately show ?thesis by (rule gateCommands_quoted)
qed

end
