(* ===== verification/MilestoneDemo.thy ===== *)
theory MilestoneDemo
  imports MilestoneFacts GateFacts
begin

text \<open>
  A project with one milestone, whose gate is \<open>'bash' 'gate.sh'\<close>: proposed, approved by \<open>ann\<close> with a red
  self-check, and closed by a green gate. The theorems on milestones are applied to it.
\<close>

definition demo_gate :: string where
  "demo_gate = Join (map sh_quote [''bash'', ''gate.sh'']) '' ''"

definition demo_lines :: "string \<Rightarrow> string list" where
  "demo_lines st = [''# Roadmap'', [], ''## M1 - One'', ''Status: '' @ st, ''Gate: '' @ demo_gate, ''Goal: g'']"

definition demo_doc :: "string \<Rightarrow> string" where
  "demo_doc st = Join (demo_lines st) [LF]"

definition demo_ms :: "string \<Rightarrow> milestone" where
  "demo_ms st = (set_status st (new_ms ''M1'' ''One'' 3))\<lparr>msStatusLine := 4, msGate := demo_gate, msGoal := ''g''\<rparr>"

definition demo_parsed :: "string \<Rightarrow> roadmap" where
  "demo_parsed st = \<lparr>rmTitle = ''Roadmap'', rmMilestones = [demo_ms st], rmLines = demo_lines st, rmHeadErrs = []\<rparr>"

abbreviation "demo_approved_text \<equiv> ''approved (by ann T1)''"

abbreviation "demo_uc \<equiv> \<lparr>ucLetter = (\<lambda>_. False), ucDigit = (\<lambda>_. False)\<rparr>"

definition demo_menv :: menv where
  "demo_menv = \<lparr>nUnicode = demo_uc, nNums = ex_nums, nSha256 = (\<lambda>s. s), nRel = ''roadmap.md'', nStamp = (\<lambda>_. ''T1''), nHead = ''abc1234'',
     nPerson = None, nRecover = None, nOnBranch = None, nFileSHA = (\<lambda>_ f. if f = ''gate.sh'' then Some ''h1'' else None),
     nOwnRead = (\<lambda>_ _. \<lparr>goFiles = [], goGlobs = [], goKeep = []\<rparr>), nGitIgnored = (\<lambda>_. False), nExecutable = (\<lambda>_ _. False), nShebang = (\<lambda>_ _. False), nLower = (\<lambda>s. s),
     nGlobFiles = (\<lambda>_ _. []), nRegular = (\<lambda>_. True), nSyntax = (\<lambda>_. False), nUnmet = (\<lambda>_. []), nIgnored = (\<lambda>_. []),
     nSelfRun = blank_result demo_gate 1, nExec = (\<lambda>_ _ pc. blank_result (pcCmd pc) 0), nCtxErr = (\<lambda>_ _. False), nInterrupted = (\<lambda>_. None), nRerun = False,
     nSpecs = \<lparr>pSpecDirs = [], pSpecFile = (\<lambda>_. None), pSpecPath = (\<lambda>_. [])\<rparr>, nRegressionCmd = [], nCandidates = [], nFailing = (\<lambda>_. []),
     nTree = (\<lambda>_. None), nChanges = [], nFolders = [], nArchiveDir = [], nArchiveThere = False, nMove = None, nEdited = None, nWrite = None,
     nSave = (\<lambda>_. None), nCommit = Committed ''abc1235'', nEvidence = None\<rparr>"

definition demo_mworld :: mworld where
  "demo_mworld = \<lparr>mwRoadmap = Some (demo_doc ''proposed''), mwRecords = Some Map.empty, mwLastRun = Map.empty, mwFull = Map.empty\<rparr>"

definition demo_check :: gateSelfCheck where
  "demo_check = \<lparr>gsAt = ''T1'', gsSHA = ''abc1234'', gsExit = 1, gsWrote = []\<rparr>"

definition demo_record :: milestoneRecord where
  "demo_record = approved_record demo_menv (demo_ms demo_approved_text) ''ann'' ''abc1234'' [] demo_check new_record"

definition demo_mapproved :: mworld where
  "demo_mapproved = demo_mworld\<lparr>mwRoadmap := Some (demo_doc demo_approved_text), mwRecords := Some [''M1'' \<mapsto> demo_record]\<rparr>"

section \<open>Reading the demonstration\<close>

lemma demo_parse:
  "ParseRoadmap ex_nums ''roadmap.md'' (demo_doc ''proposed'') = demo_parsed ''proposed''"
  "ParseRoadmap ex_nums ''roadmap.md'' (demo_doc demo_approved_text) = demo_parsed demo_approved_text"
  "ParseRoadmap ex_nums [] (demo_doc demo_approved_text) = demo_parsed demo_approved_text"
  by code_simp+

lemma demo_classify:
  "classifyMilestoneStatus ''proposed'' = (MilestoneProposed, [])" "classifyMilestoneStatus demo_approved_text = (MilestoneApproved, ''T1'')"
  by code_simp+

lemma demo_stati: "MilestoneProposed \<noteq> MilestoneDone" "MilestoneApproved \<noteq> MilestoneDone" "MilestoneProposed \<noteq> MilestoneApproved" "demo_gate \<noteq> []"
  by code_simp+

lemma demo_status [simp]:
  "msID (demo_ms st) = ''M1''" "msGate (demo_ms st) = demo_gate" "msGoal (demo_ms st) = ''g''"
  "msStatus (demo_ms ''proposed'') = MilestoneProposed" "msStatus (demo_ms demo_approved_text) = MilestoneApproved"
  by (simp_all add: demo_ms_def set_status_def new_ms_def demo_classify)

lemma demo_find: "rm_Find (demo_parsed st) ''M1'' = Some (demo_ms st)"
  by (simp add: rm_Find_def demo_parsed_def)

lemma demo_commands: "gateCommands uc demo_gate = [[''bash'', ''gate.sh'']]"
  unfolding demo_gate_def by (rule gateCommands_words) (simp, code_simp)

lemma demo_bash:
  "isAssignment demo_uc ''bash'' = False" "''bash'' \<in> set commandPrefixes \<longleftrightarrow> False" "TrimRight (path_Base ''bash'') ''0123456789.'' = ''bash''"
  "interpreters ''bash'' = Some shellInterpreter" "interp_script shellInterpreter [''gate.sh''] = ''gate.sh''" "repoPath ''gate.sh'' = Some ''gate.sh''"
  by code_simp+

lemma demo_scripts: "gateScripts demo_uc demo_gate = [''gate.sh'']"
  by (simp add: gateScripts_def demo_commands command_scripts_def demo_bash)

lemma demo_valid: "ValidateRoadmap ex_nums ''roadmap.md'' (demo_doc ''proposed'') = []"
proof -
  have p: "hasProse [\<lparr>mdN = 0, mdText = ''g'', mdInCode = False\<rparr>] \<and> TrimSpace ''g'' \<noteq> []" by code_simp
  show ?thesis
    by (simp add: ValidateRoadmap_def demo_parse(1) Let_def demo_parsed_def status_findings_def field_findings_def p demo_stati)
      (simp add: demo_ms_def set_status_def new_ms_def)
qed

lemma demo_trim: "TrimSpace ''ann'' = ''ann''" by code_simp

lemma demo_find_milestone: "find_milestone demo_menv demo_mworld ''M1'' = Inr (demo_doc ''proposed'', demo_parsed ''proposed'', demo_ms ''proposed'')"
  by (simp add: find_milestone_def loadRoadmapDoc_def demo_mworld_def demo_menv_def demo_parse demo_find)

lemma demo_self_check: "gate_self_check demo_menv (demo_ms st) False False = Inr demo_check"
  by (simp add: gate_self_check_def gateUnrunnable_def demo_menv_def demo_scripts demo_check_def blank_result_def
      ExitTimeout_def exitNotExecutable_def exitNotFound_def gateWrote_def)

lemma demo_with_status: "WithStatus (demo_parsed ''proposed'') ''M1'' demo_approved_text = Some (demo_doc demo_approved_text)"
  by code_simp

lemma demo_write: "approve_write demo_menv (demo_parsed ''proposed'') (demo_ms ''proposed'') Map.empty ''ann'' ''abc1234'' [] demo_check demo_mworld
    = (Some (demo_ms demo_approved_text, True), None, demo_mapproved)"
proof -
  have t: "approved_text demo_menv ''ann'' = demo_approved_text" by (simp add: approved_text_def demo_trim) (simp add: demo_menv_def)
  have e: "nWrite demo_menv = None" "nSave demo_menv n = None" "nNums demo_menv = ex_nums" "nCommit demo_menv = Committed ''abc1235''" for n
    by (simp_all add: demo_menv_def)
  have "write_approved demo_menv (demo_parsed ''proposed'') (demo_ms ''proposed'') ''ann'' demo_mworld
      = (Inr (demo_ms demo_approved_text), demo_mworld\<lparr>mwRoadmap := Some (demo_doc demo_approved_text)\<rparr>)"
    by (simp add: write_approved_def t e demo_with_status demo_parse demo_find demo_stati)
  then show ?thesis
    by (simp add: approve_write_def commitMilestone_def e demo_trim demo_mapproved_def demo_record_def record_of_def)
qed

lemma demo_approve: "ApproveMilestoneOutcome demo_menv ''M1'' ''ann'' None demo_mworld = (Some (demo_ms demo_approved_text, True), None, demo_mapproved)"
proof -
  have e: "nPerson demo_menv = None" "nRecover demo_menv = None" "nOnBranch demo_menv = None" "nNums demo_menv = ex_nums" "nRel demo_menv = ''roadmap.md''"
    "nHead demo_menv = ''abc1234''" "mwRecords demo_mworld = Some Map.empty"
    by (simp_all add: demo_menv_def demo_mworld_def)
  show ?thesis
    by (simp add: ApproveMilestoneOutcome_def approveMilestone_def e demo_trim demo_find_milestone demo_stati demo_valid filterMilestone_def
        approval_Base_def when_err_def demo_self_check demo_write)
qed

lemma demo_mapproved_reachable: "milestone_reachable demo_mapproved"
proof -
  have "milestone_reachable demo_mworld" by (rule milestone_reachable.init) (simp add: demo_mworld_def)
  then show ?thesis using milestone_reachable.step[OF _ milestone_step.approve[of demo_mworld demo_menv "''M1''" "''ann''" None]] by (simp add: demo_approve)
qed

end
