(* ===== verification/ApprovalFacts.thy ===== *)
theory ApprovalFacts
  imports Approval
begin

text \<open>
  When a gate that was just approved differs from its approval: \<open>gateDrift\<close> of \<open>newApproval\<close> in a tree that did not change.
\<close>

lemma map_of_map_filter:
  "map_of (List.map_filter (\<lambda>x. map_option (Pair x) (f x)) xs) n = (if n \<in> set xs then f n else None)"
  by (induction xs) (auto simp: map_filter_simps split: option.splits)

lemma map_filter_Nil: "List.map_filter f xs = [] \<longleftrightarrow> (\<forall>x\<in>set xs. f x = None)"
  by (induction xs) (auto simp: map_filter_simps split: option.splits)

lemma new_files_Nil:
  "new_files a seen gfs = [] \<longleftrightarrow>
     (\<forall>(g, f)\<in>set gfs. map_of (maGateOwnFiles a) f \<noteq> None \<or> map_of (maGateFiles a) f \<noteq> None \<or> f \<in> set seen \<or> f \<in> set (maGateScratch a))"
  by (induction a seen gfs rule: new_files.induct) auto

lemma map_of_filter_fst: "map_of (filter (\<lambda>(f, s). P f) xs) n = (if P n then map_of xs n else None)"
  by (induction xs) auto

text \<open>
  What the read of a gate's files gives (\<open>gateOwn.add\<close>, \<open>ownScan.glob\<close>): each file with its digest, and every file a glob matches.
\<close>

definition own_read_ok :: "menv \<Rightarrow> nat \<Rightarrow> milestone \<Rightarrow> bool" where
  "own_read_ok e ph m \<longleftrightarrow>
     (\<forall>(f, s)\<in>set (goFiles (nOwnRead e ph m)). nFileSHA e ph f = Some s)
     \<and> (\<forall>g\<in>set (goGlobs (nOwnRead e ph m)). \<forall>f\<in>set (nGlobFiles e ph g). f \<in> fst ` set (goFiles (nOwnRead e ph m)))"

text \<open>The files a glob matches that the approval leaves out as scratch and the self-check did not write.\<close>

definition ignored_matches :: "menv \<Rightarrow> nat \<Rightarrow> milestone \<Rightarrow> string list \<Rightarrow> string list" where
  "ignored_matches e ph m wrote =
     (let own = nOwnRead e ph m in
      filter (\<lambda>f. f \<notin> set wrote \<and> f \<notin> set (gateScripts (nUnicode e) (msGate m)) \<and> nGitIgnored e f \<and> f \<notin> set (goKeep own) \<and> \<not> isScript e ph f)
        (concat (map (nGlobFiles e ph) (goGlobs own))))"

lemma own_scan_files:
  "map_of (goFiles (gateOwnScan e ph m)) f =
     (if f \<in> set (gateScripts (nUnicode e) (msGate m)) \<or> nGitIgnored e f \<and> f \<notin> set (goKeep (nOwnRead e ph m)) \<and> \<not> isScript e ph f
      then None else map_of (goFiles (nOwnRead e ph m)) f)"
proof -
  let ?fs = "filter (\<lambda>(f, s). f \<notin> set (gateScripts (nUnicode e) (msGate m))) (goFiles (nOwnRead e ph m))"
  let ?scratch = "gateScratch e ph (map fst ?fs) (goKeep (nOwnRead e ph m))"
  have "map_of (goFiles (gateOwnScan e ph m)) f = (if f \<notin> set ?scratch then map_of ?fs f else None)"
    using map_of_filter_fst[of "\<lambda>f. f \<notin> set ?scratch" ?fs f] by (simp add: gateOwnScan_def Let_def)
  moreover have "f \<in> set ?scratch \<longleftrightarrow> f \<in> fst ` set ?fs \<and> nGitIgnored e f \<and> f \<notin> set (goKeep (nOwnRead e ph m)) \<and> \<not> isScript e ph f"
    by (auto simp: gateScratch_def)
  moreover have "map_of ?fs f = None" if "f \<notin> fst ` set ?fs" using that by (simp add: map_of_eq_None_iff)
  ultimately show ?thesis by (auto simp: map_of_filter_fst)
qed

lemma own_scan_simps [simp]: "goGlobs (gateOwnScan e ph m) = goGlobs (nOwnRead e ph m)" "goKeep (gateOwnScan e ph m) = goKeep (nOwnRead e ph m)"
  by (simp_all add: gateOwnScan_def Let_def)

text \<open>A tree that did not change since the approval, as a later command reads it.\<close>

definition same_tree :: "menv \<Rightarrow> menv \<Rightarrow> bool" where
  "same_tree e e' \<longleftrightarrow> nUnicode e' = nUnicode e \<and> nFileSHA e' 0 = nFileSHA e 1 \<and> nGlobFiles e' 0 = nGlobFiles e 1"

lemma scripts_no_drift:
  assumes "same_tree e e'"
  shows "List.map_filter (\<lambda>n. case map_of (maGateFiles (newApproval e m who wrote)) n of None \<Rightarrow> None | Some was \<Rightarrow> file_drift e' 0 (n, was))
    (gateScripts (nUnicode e') (msGate m)) = []"
  using assms
  by (auto simp: map_filter_Nil newApproval_def gateFiles_def Let_def map_of_map_filter file_drift_def same_tree_def split: option.splits)

lemma own_file_recorded:
  "map_of (maGateOwnFiles (newApproval e m who wrote)) f =
     (if f \<in> set wrote \<and> f \<notin> set (goKeep (nOwnRead e 1 m)) then None else map_of (goFiles (gateOwnScan e 1 m)) f)"
  by (auto simp: newApproval_def Let_def map_of_filter_fst)

lemma own_files_no_drift:
  assumes "same_tree e e'" and "own_read_ok e 1 m" and "n \<in> fst ` set (maGateOwnFiles (newApproval e m who wrote))"
  shows "file_drift e' 0 (n, case map_of (maGateOwnFiles (newApproval e m who wrote)) n of None \<Rightarrow> [] | Some s \<Rightarrow> s) = None"
proof -
  from assms(3) obtain s where s: "map_of (maGateOwnFiles (newApproval e m who wrote)) n = Some s"
    by (metis map_of_eq_None_iff not_Some_eq)
  then have "map_of (goFiles (nOwnRead e 1 m)) n = Some s" by (auto simp: own_file_recorded own_scan_files split: if_splits)
  from map_of_SomeD[OF this] have "nFileSHA e 1 n = Some s" using assms(2) by (auto simp: own_read_ok_def)
  with s assms(1) show ?thesis by (simp add: file_drift_def same_tree_def)
qed

lemma glob_match_recorded:
  assumes ok: "own_read_ok e 1 m" and g: "g \<in> set (goGlobs (nOwnRead e 1 m))" "f \<in> set (nGlobFiles e 1 g)"
  shows "map_of (maGateOwnFiles (newApproval e m who wrote)) f \<noteq> None \<or> map_of (maGateFiles (newApproval e m who wrote)) f \<noteq> None
      \<or> f \<in> set (maGateScratch (newApproval e m who wrote))
    \<longleftrightarrow> f \<notin> set (ignored_matches e 1 m wrote)"
proof -
  from ok g have im: "f \<in> fst ` set (goFiles (nOwnRead e 1 m))" by (simp add: own_read_ok_def)
  then obtain s where fs: "(f, s) \<in> set (goFiles (nOwnRead e 1 m))" by force
  then have sha: "nFileSHA e 1 f = Some s" using ok by (auto simp: own_read_ok_def)
  have raw: "map_of (goFiles (nOwnRead e 1 m)) f \<noteq> None" using im by (simp only: map_of_eq_None_iff not_not)
  have "map_of (maGateFiles (newApproval e m who wrote)) f \<noteq> None \<longleftrightarrow> f \<in> set (gateScripts (nUnicode e) (msGate m))"
    using sha by (simp add: newApproval_def gateFiles_def Let_def map_of_map_filter)
  moreover have "f \<in> set (maGateScratch (newApproval e m who wrote)) \<longleftrightarrow> f \<in> set wrote \<and> f \<notin> set (goKeep (nOwnRead e 1 m))"
    by (simp add: newApproval_def Let_def)
  ultimately show ?thesis using g raw by (auto simp: own_file_recorded own_scan_files ignored_matches_def Let_def)
qed

lemma approval_drift:
  assumes tree: "same_tree e e'" and ok: "own_read_ok e 1 m"
  shows "gateDrift e' 0 m (newApproval e m who wrote) = [] \<longleftrightarrow> ignored_matches e 1 m wrote = []"
proof -
  let ?a = "newApproval e m who wrote"
  have cmd: "maGateCmd ?a = msGate m" and globs: "set (maGateGlobs ?a) = set (goGlobs (nOwnRead e 1 m))" and sc: "maScratchExcluded ?a"
    by (simp_all add: newApproval_def Let_def)
  have "gateDrift e' 0 m ?a = [] \<longleftrightarrow> gateOwnDrift e' 0 m ?a = []"
    using scripts_no_drift[OF tree] by (simp add: gateDrift_def cmd)
  also have "\<dots> \<longleftrightarrow> new_files ?a [] (concat (map (\<lambda>g. map (Pair g) (nGlobFiles e' 0 g)) (maGateGlobs ?a))) = []"
    using own_files_no_drift[OF tree ok] by (auto simp: gateOwnDrift_def Let_def map_filter_Nil sc)
  also have "\<dots> \<longleftrightarrow> (\<forall>g\<in>set (goGlobs (nOwnRead e 1 m)). \<forall>f\<in>set (nGlobFiles e 1 g). f \<notin> set (ignored_matches e 1 m wrote))"
    using tree glob_match_recorded[OF ok] by (auto simp: new_files_Nil globs same_tree_def)
  also have "\<dots> \<longleftrightarrow> ignored_matches e 1 m wrote = []"
    by (auto simp: ignored_matches_def Let_def filter_empty_conv)
  finally show ?thesis .
qed

end
