(* ===== verification/MilestoneSafety.thy ===== *)
theory MilestoneSafety
  imports MilestoneDemo ApprovalFacts CommandFacts
begin

text \<open>
  What the milestone commands promise: every record they reach is sound, a close that ends a milestone ran
  its whole gate, a milestone just approved passes the preflight of its gate, and exactly when a gate differs from the
  approval just recorded.
\<close>

section \<open>Records\<close>

text \<open>C9: in every world the milestone commands reach, every record of \<open>milestones.json\<close> is sound: its result is that of the run it
  keeps; it has a \<open>done_at\<close> or an accepted red only with an approval; the approval names a person and its self-check is red,
  and not because the gate could not run, or green with a person's reason; and an accepted red holds a reason, a name and a red run.\<close>

theorem milestone_records_sound:
  assumes "milestone_reachable w" and "mwRecords w = Some recs" and "recs i = Some r"
  shows "record_sound r"
  using sound.everywhere[OF assms(1)] assms(2,3) by (auto simp: all_recs_def)

theorem milestone_records_sound_witness:
  "record_sound demo_record \<and> mrApproval demo_record \<noteq> None"
proof -
  have "mwRecords demo_mapproved = Some [''M1'' \<mapsto> demo_record]" by (simp add: demo_mapproved_def)
  from milestone_records_sound[OF demo_mapproved_reachable this, of "''M1''"] show ?thesis
    by (simp add: demo_record_def approved_record_def Let_def)
qed

section \<open>Close\<close>

text \<open>The gate of a close: its command, every scenario of the specs and the full run of the rest, fresh or still current.\<close>

definition close_full :: "menv \<Rightarrow> string \<Rightarrow> mworld \<Rightarrow> fullRun \<Rightarrow> bool" where
  "close_full e i w f \<longleftrightarrow>
     (let fulls = snd (splitFull (EffectiveSpecChecks (nSpecs e) None)) in
      (\<not> nRerun e \<and> currentFullRun e w i fulls (nRegressionCmd e) = Some f) \<or> fst (runFull e i fulls (nRegressionCmd e) ''close'' w) = Inr f)"

lemma record_gate_saved:
  assumes "record_gate e i st run w = (Inr g, w')"
  shows "\<exists>recs recs'. mwRecords w = Some recs \<and> mwRecords w' = Some recs' \<and> mrResult (record_of recs' i) = gateResult run
    \<and> mrApproval (record_of recs' i) = mrApproval (record_of recs i)"
proof (cases "mwRecords w")
  case None
  then show ?thesis using assms by (simp add: record_gate_def Let_def)
next
  case recs: (Some recs)
  show ?thesis
  proof (cases "case recs i of None \<Rightarrow> False | Some r \<Rightarrow> mrResult r = gateResult run")
    case True
    then have "mwRecords w' = Some recs" using assms recs by (auto simp: record_gate_def Let_def)
    then show ?thesis using recs True by (auto simp: record_of_def split: option.splits)
  next
    case False
    then have "mwRecords w' = Some (recs(i := Some ((record_of recs i)\<lparr>mrResult := gateResult run, mrSince := Some run\<rparr>)))"
      using assms recs by (auto simp: record_gate_def Let_def split: option.splits)
    then show ?thesis using recs by (simp add: record_of_def)
  qed
qed

text \<open>A gate that ran to its end for a close: \<open>a\<close> the approval of the record, which stays.\<close>

definition full_gate :: "menv \<Rightarrow> string \<Rightarrow> mworld \<Rightarrow> milestone \<Rightarrow> fullRun \<Rightarrow> milestoneGateRun \<Rightarrow> bool" where
  "full_gate e i w m f run \<longleftrightarrow> close_full e i w f \<and> mgCmd run = msGate m
     \<and> mgExit run = crExit (hd (mRun e run_gate [gate_check i (msGate m)]))
     \<and> mgSpecFailed run = filter (\<lambda>r. crExit r \<noteq> 0) (mRun e run_plain (fst (splitFull (EffectiveSpecChecks (nSpecs e) None))) @ frResults f)
     \<and> (frRegression f \<noteq> None \<longrightarrow> mgRegression run = frVerdict f)"

lemma runGate_full:
  assumes "runGate e i True w = (Inr g, w')"
  obtains doc rm m f run recs recs' where "find_milestone e w i = Inr (doc, rm, m)" "full_gate e i w m f run" "grRun g = Some run"
    "mwRecords w = Some recs" "mwRecords w' = Some recs'" "mrResult (record_of recs' i) = gateResult run"
    "mrApproval (record_of recs' i) = mrApproval (record_of recs i)"
proof -
  let ?all = "EffectiveSpecChecks (nSpecs e) None"
  obtain x where x: "find_milestone e w i = Inr x" using assms by (cases "find_milestone e w i") (auto simp: runGate_def)
  obtain doc rm m where m: "x = (doc, rm, m)" by (cases x)
  let ?fr = "if \<not> nRerun e then currentFullRun e w i (snd (splitFull ?all)) (nRegressionCmd e) else None"
  obtain fr w1 where fr: "gateFullRun e i ?fr (snd (splitFull ?all)) (nRegressionCmd e) True w = (fr, w1)"
    by (cases "gateFullRun e i ?fr (snd (splitFull ?all)) (nRegressionCmd e) True w")
  let ?run = "\<lambda>f. gate_run_of e m (hd (mRun e run_gate [gate_check i (msGate m)])) (mRun e run_plain (fst (splitFull ?all))) (length ?all) 0 None (Some f) (?fr \<noteq> None)"
  have "\<exists>f. fr = Inr f \<and> record_gate e i (msStatus m) (?run f) w1 = (Inr g, w')"
    using assms fr by (auto simp: runGate_def x m Let_def split_beta split: if_splits option.splits sum.splits)
  then obtain f where f: "fr = Inr f" "record_gate e i (msStatus m) (?run f) w1 = (Inr g, w')" by blast
  have "close_full e i w f"
    using fr f(1) by (auto simp: close_full_def Let_def gateFullRun_def split: option.splits if_splits)
  then have g: "full_gate e i w m f (?run f)" by (simp add: full_gate_def gate_run_of_def Let_def)
  have k: "mwRecords w1 = mwRecords w"
    using gateFullRun_records(1)[of e i ?fr "snd (splitFull ?all)" "nRegressionCmd e" True w] fr by simp
  from record_gate_saved[OF f(2)] obtain recs recs' where s: "mwRecords w1 = Some recs" "mwRecords w' = Some recs'"
    "mrResult (record_of recs' i) = gateResult (?run f)" "mrApproval (record_of recs' i) = mrApproval (record_of recs i)" by (elim exE conjE)
  show ?thesis by (rule that[OF x[unfolded m] g record_gate_result(1)[OF f(2)] s(1)[unfolded k] s(2-4)])
qed

lemma close_write_done:
  assumes "close_write e i g run red0 plan w = (Some g', None, w')"
  shows "\<exists>doc recs. mwRoadmap w = Some doc \<and> mwRecords w = Some recs
    \<and> grAcceptRed g' = map_option (\<lambda>r. r\<lparr>arAt := nStamp e 5, arGate := Some run\<rparr>) red0 \<and> grRun g' = grRun g \<and> grStatus g' = MilestoneDone
    \<and> WithStatus (ParseRoadmap (nNums e) (nRel e) doc) i (done_text run (grAcceptRed g')) = mwRoadmap w' \<and> mwRoadmap w' \<noteq> None
    \<and> mwRecords w' = Some (recs(i := Some ((record_of recs i)\<lparr>mrDoneAt := mgAt run,
          mrAcceptRed := (if red0 = None then mrAcceptRed (record_of recs i) else grAcceptRed g'),
          mrGateArchived := (if plan = [] then mrGateArchived (record_of recs i) else plan)\<rparr>)))"
  using assms unfolding close_write_def
  by (auto simp: Let_def markDone_def loadRoadmapDoc_def commitMilestone_def split: option.splits sum.splits prod.splits commit_case.splits)

lemma edited_records [simp]: "mwRecords (edited e w) = mwRecords w"
  by (simp add: edited_def split: option.splits)

text \<open>What a close leaves behind: the roadmap as it stood when the gate ended, with the status set, and the record closed.\<close>

definition closed_with :: "menv \<Rightarrow> string \<Rightarrow> milestoneGateRun \<Rightarrow> milestoneApproval \<Rightarrow> acceptRed option \<Rightarrow> mworld \<Rightarrow> mworld \<Rightarrow> bool" where
  "closed_with e i run a red w w' \<longleftrightarrow>
     (\<exists>doc doc' recs' r. mwRoadmap (edited e w) = Some doc \<and> WithStatus (ParseRoadmap (nNums e) (nRel e) doc) i (done_text run red) = Some doc'
        \<and> mwRoadmap w' = Some doc' \<and> mwRecords w' = Some recs' \<and> recs' i = Some r \<and> mrDoneAt r = mgAt run \<and> mrResult r = gateResult run
        \<and> mrApproval r = Some a \<and> (red \<noteq> None \<longrightarrow> mrAcceptRed r = red))"

lemma close_gate_done:
  assumes c: "close_gate e i red plan w = (Some g, None, w')" and "mwRecords w = Some recs" and "mrApproval (record_of recs i) = Some a"
  obtains doc rm m f run red' where "find_milestone e w i = Inr (doc, rm, m)" "full_gate e i w m f run" "grRun g = Some run"
    "grAcceptRed g = red'" "closed_with e i run a red' w w'"
    "if run_Green run then red' = None else \<exists>r. red = Some r \<and> red' = Some (r\<lparr>arAt := nStamp e 5, arGate := Some run\<rparr>)"
proof -
  obtain r w1 where r: "runGate e i True w = (r, w1)" by (cases "runGate e i True w")
  obtain g1 where g1: "r = Inr g1" using c r by (cases r) (auto simp: close_gate_def)
  from runGate_full[OF r[unfolded g1]] obtain doc rm m f run recs0 recs1 where
    f: "find_milestone e w i = Inr (doc, rm, m)" "full_gate e i w m f run" "grRun g1 = Some run" and
    k: "mwRecords w = Some recs0" "mwRecords w1 = Some recs1" "mrResult (record_of recs1 i) = gateResult run"
       "mrApproval (record_of recs1 i) = mrApproval (record_of recs0 i)" .
  have green: "run_Green run \<or> red \<noteq> None" and cw: "close_write e i g1 run (if run_Green run then None else red) plan (edited e w1) = (Some g, None, w')"
    using c by (auto simp: close_gate_def r g1 f(3) split: if_splits prod.splits sum.splits)
  have rm: "mwRoadmap w1 = mwRoadmap w" using runGate_roadmap[of e i True w] r by simp
  then have "mwRoadmap (edited e w1) = mwRoadmap (edited e w)" by (simp add: edited_def split: option.splits)
  with close_write_done[OF cw] k assms(2,3) have "closed_with e i run a (grAcceptRed g) w w'" "grRun g = grRun g1"
    "grAcceptRed g = map_option (\<lambda>r. r\<lparr>arAt := nStamp e 5, arGate := Some run\<rparr>) (if run_Green run then None else red)"
    by (auto simp: closed_with_def)
  with that[OF f(1,2)] f(3) green show ?thesis by (auto split: if_splits)
qed

text \<open>C5: a close that ends a milestone found it approved with a record whose gate and files are those approved, and no change of
  it in flight; it ran the gate, every scenario of the specs and the full run (taken again only while it is current); and it ends
  it when all of them are green, or with the red accepted by name. The roadmap then says done, and the record keeps when, the
  result, the approval and the accepted red.\<close>

theorem close_ran_gate:
  assumes "closeMilestone e i red w = (Some g, None, w')" and "grRun g \<noteq> None"
  shows "\<exists>doc rm m a f run. find_milestone e w i = Inr (doc, rm, m) \<and> msStatus m = MilestoneApproved
    \<and> (\<exists>recs r. mwRecords w = Some recs \<and> recs i = Some r \<and> mrApproval r = Some a) \<and> gateDrift e 0 m a = [] \<and> in_flight e i = []
    \<and> grRun g = Some run \<and> full_gate e i w m f run \<and> closed_with e i run a (grAcceptRed g) w w'
    \<and> (if run_Green run
       then grAcceptRed g = None \<and> crExit (hd (mRun e run_gate [gate_check i (msGate m)])) = 0
         \<and> (\<forall>pc\<in>set (EffectiveSpecChecks (nSpecs e) None). \<not> pcFull pc \<longrightarrow>
              (\<exists>x\<in>set (mRun e run_plain (fst (splitFull (EffectiveSpecChecks (nSpecs e) None)))). crTask x = pcRef pc \<and> crExit x = 0))
         \<and> (\<forall>x\<in>set (frResults f). crExit x = 0)
       else \<exists>r. red = Some r \<and> grAcceptRed g = Some (r\<lparr>arAt := nStamp e 5, arGate := Some run\<rparr>))"
proof -
  obtain x where x: "find_milestone e w i = Inr x" using assms(1) by (cases "find_milestone e w i") (auto simp: closeMilestone_def split: option.splits)
  obtain doc rm m where m: "x = (doc, rm, m)" by (cases x)
  have id: "msID m = i" using find_milestone_id x m by blast
  from assms obtain plan where c: "msStatus m = MilestoneApproved" "requireApprovalRecord e 0 w m True = None" "in_flight e i = []"
    "close_gate e i red plan w = (Some g, None, w')"
    by (auto simp: closeMilestone_def x m blank_gate_def split: option.splits if_splits sum.splits)
  then obtain recs r a where a: "mwRecords w = Some recs" "recs i = Some r" "mrApproval r = Some a" "gateDrift e 0 m a = []"
    by (auto simp: requireApprovalRecord_def id when_err_def split: option.splits if_splits)
  have "mrApproval (record_of recs i) = Some a" using a by (simp add: record_of_def)
  from close_gate_done[OF c(4) a(1) this] obtain doc' rm' m' f run red' where
    f: "find_milestone e w i = Inr (doc', rm', m')" "full_gate e i w m' f run" "grRun g = Some run"
    "grAcceptRed g = red'" "closed_with e i run a red' w w'"
    "if run_Green run then red' = None else \<exists>r. red = Some r \<and> red' = Some (r\<lparr>arAt := nStamp e 5, arGate := Some run\<rparr>)" .
  have m': "m' = m" using f(1) x m by simp
  have "\<exists>x\<in>set (mRun e run_plain (fst (splitFull (EffectiveSpecChecks (nSpecs e) None)))). crTask x = pcRef pc \<and> crExit x = 0"
    if "run_Green run" "pc \<in> set (EffectiveSpecChecks (nSpecs e) None)" "\<not> pcFull pc" for pc
  proof -
    have "pc \<in> set (fst (splitFull (EffectiveSpecChecks (nSpecs e) None)))" using that(2,3) by (simp add: splitFull_def)
    from run_checks_covers[OF this] obtain x where "x \<in> set (mRun e run_plain (fst (splitFull (EffectiveSpecChecks (nSpecs e) None))))" "crTask x = pcRef pc"
      unfolding mRun_def RunChecks_def by blast
    with that(1) f(2) show ?thesis by (auto simp: run_Green_def full_gate_def filter_empty_conv)
  qed
  moreover have "\<forall>x\<in>set (frResults f). crExit x = 0" "crExit (hd (mRun e run_gate [gate_check i (msGate m)])) = 0" if "run_Green run"
    using that f(2) m' by (auto simp: run_Green_def full_gate_def filter_empty_conv)
  ultimately show ?thesis using x[unfolded m] c(1,3) a f m' by (intro exI[of _ doc] exI[of _ rm] exI[of _ m] exI[of _ a] exI[of _ f] exI[of _ run]) auto
qed

lemma demo_close:
  obtains g w' where "closeMilestone demo_menv ''M1'' None demo_mapproved = (Some g, None, w')" "grRun g \<noteq> None"
proof -
  let ?m = "demo_ms demo_approved_text"
  have e: "nRecover demo_menv = None" "nOnBranch demo_menv = None" "nNums demo_menv = ex_nums" "nRel demo_menv = ''roadmap.md''" "nChanges demo_menv = []"
    "nFolders demo_menv = []" "nMove demo_menv = None" "nEdited demo_menv = None" "nWrite demo_menv = None" "nEvidence demo_menv = None"
    "nSave demo_menv n = None" "nInterrupted demo_menv n = None" "nRegressionCmd demo_menv = []" "nRerun demo_menv = False" "nHead demo_menv = ''abc1234''"
    "nStamp demo_menv n = ''T1''" "nCommit demo_menv = Committed ''abc1235''" "nExec demo_menv k n pc = blank_result (pcCmd pc) 0" "nCtxErr demo_menv k n = False"
    "nGlobFiles demo_menv n g = []" "nOwnRead demo_menv n m = \<lparr>goFiles = [], goGlobs = [], goKeep = []\<rparr>" "nUnicode demo_menv = demo_uc"
    "nFileSHA demo_menv n ''gate.sh'' = Some ''h1''" for n k pc g m
    by (simp_all add: demo_menv_def)
  have w: "mwRoadmap demo_mapproved = Some (demo_doc demo_approved_text)" "mwRecords demo_mapproved = Some [''M1'' \<mapsto> demo_record]" "mwFull demo_mapproved = Map.empty"
    by (simp_all add: demo_mapproved_def demo_mworld_def)
  have specs: "EffectiveSpecChecks (nSpecs demo_menv) None = []" unfolding demo_menv_def menv.simps by code_simp
  have f: "find_milestone demo_menv v ''M1'' = Inr (demo_doc demo_approved_text, demo_parsed demo_approved_text, ?m)"
    if "mwRoadmap v = Some (demo_doc demo_approved_text)" for v
    by (simp add: find_milestone_def loadRoadmapDoc_def that e demo_parse demo_find)
  obtain a where a: "mrApproval demo_record = Some a" "maGateFiles a = [(''gate.sh'', ''h1'')]" "maGateCmd a = demo_gate" "maGateOwnFiles a = []" "maGateGlobs a = []"
    by (simp add: demo_record_def approved_record_def newApproval_def gateOwnScan_def gateScratch_def gateFiles_def e demo_scripts Let_def map_filter_simps demo_check_def)
  have "requireApprovalRecord demo_menv 0 demo_mapproved ?m True = None"
    by (simp add: requireApprovalRecord_def w a gateDrift_def gateOwnDrift_def e demo_scripts map_filter_simps file_drift_def Let_def when_err_def)
  moreover have "in_flight demo_menv ''M1'' = []" "gateArchivePlan demo_menv = Inr []" by (simp_all add: in_flight_def gateArchivePlan_def e map_filter_simps)
  moreover obtain g w1 run where g: "runGate demo_menv ''M1'' True demo_mapproved = (Inr g, w1)" "grRun g = Some run" "run_Green run" "mgAt run = ''T1''" "mgSHA run = ''abc1234''"
      "mwRoadmap w1 = mwRoadmap demo_mapproved" "mwRecords w1 \<noteq> None"
    by (simp add: runGate_def f w demo_stati mRun_def RunChecks_def gate_check_def label_def blank_result_def specs splitFull_def currentFullRun_def e
        gateFullRun_def runFull_def record_gate_def gate_run_of_def blank_gate_def Let_def run_Green_def demo_record_def gateResult_def GateGreen_def new_record_def)
  moreover obtain doc where "WithStatus (demo_parsed demo_approved_text) ''M1'' (done_text run None) = Some doc"
    by (simp add: WithStatus_def demo_find)
  ultimately show ?thesis
    using that e f w demo_stati demo_parse
    by (auto simp: closeMilestone_def close_gate_def close_write_def loadRoadmapDoc_def edited_def markDone_def commitMilestone_def when_err_def Let_def)
qed

theorem close_ran_gate_witness:
  "\<exists>g w' run a. closeMilestone demo_menv ''M1'' None demo_mapproved = (Some g, None, w') \<and> grRun g = Some run \<and> run_Green run
     \<and> closed_with demo_menv ''M1'' run a None demo_mapproved w'"
proof -
  obtain g w' where c: "closeMilestone demo_menv ''M1'' None demo_mapproved = (Some g, None, w')" "grRun g \<noteq> None" by (rule demo_close)
  from close_ran_gate[OF c] show ?thesis using c(1) by (auto split: if_splits)
qed

section \<open>Approve, then gate\<close>

lemma find_map_eq: "(\<And>x. P (f x) = P x) \<Longrightarrow> find P (map f xs) = map_option f (find P xs)"
  by (induction xs) auto

lemma rmMilestones_file: "rmMilestones (ParseRoadmap nl file doc) = rmMilestones (ParseRoadmap nl file' doc)"
  by (simp add: ParseRoadmap_def Let_def)

lemma match_approved_text:
  assumes "W \<noteq> []" and "T \<noteq> []" and "\<forall>c\<in>set T. \<not> re_space c"
  shows "match_approved (''approved (by '' @ W @ '' '' @ T @ '')'') = Some T"
proof -
  let ?s = "''approved (by '' @ W @ '' '' @ T @ '')''" and ?rest = "''(by '' @ W @ '' '' @ T @ '')''"
  have sp: "re_space (CHR '' '')" "\<not> re_space (CHR ''('')" by code_simp+
  have rest: "dropWhile re_space (drop 8 ?s) = ?rest" by (simp add: sp)
  have inner: "butlast (drop 3 ?rest) = '' '' @ W @ '' '' @ T" by (simp add: butlast_append)
  have tw: "takeWhile (\<lambda>c. \<not> re_space c) (rev T @ xs) = rev T @ takeWhile (\<lambda>c. \<not> re_space c) xs"
    "dropWhile (\<lambda>c. \<not> re_space c) (rev T @ xs) = dropWhile (\<lambda>c. \<not> re_space c) xs" for xs
    by (rule takeWhile_append2, use assms(3) in simp) (rule dropWhile_append2, use assms(3) in simp)
  have "last_word ('' '' @ W @ '' '' @ T) = T" "before_last ('' '' @ W @ '' '' @ T) = '' '' @ W @ '' ''"
    by (simp_all add: last_word_def before_last_def tw sp)
  moreover have "HasPrefix ?s ''approved''" "HasPrefix ?rest ''(by''" by (simp_all add: HasPrefix_def)
  moreover have "3 \<le> length ('' '' @ W @ '' '')" using assms(1) by (cases W) auto
  moreover have "last ?rest = CHR '')''" "drop 3 ?rest \<noteq> []" by simp_all
  ultimately show ?thesis
    unfolding match_approved_def rest Let_def inner using assms(2) sp by simp
qed

lemma classify_approved:
  assumes "TrimSpace who \<noteq> []" and "nStamp e 1 \<noteq> []" and "\<forall>c\<in>set (nStamp e 1). \<not> re_space c"
  shows "classifyMilestoneStatus (approved_text e who) = (MilestoneApproved, nStamp e 1)"
proof -
  have "approved_text e who \<noteq> MilestoneProposed" by (simp add: approved_text_def MilestoneProposed_def)
  then show ?thesis
    using match_approved_text[OF assms] by (simp only: classifyMilestoneStatus_def approved_text_def if_False option.case)
qed

lemma new_files_cong:
  "maGateOwnFiles b = maGateOwnFiles a \<Longrightarrow> maGateFiles b = maGateFiles a \<Longrightarrow> maGateScratch b = maGateScratch a \<Longrightarrow> new_files b seen gfs = new_files a seen gfs"
  by (induction a seen gfs rule: new_files.induct) auto

lemma gateDrift_cong:
  assumes "maGateCmd b = maGateCmd a" "maGateOwnFiles b = maGateOwnFiles a" "maGateFiles b = maGateFiles a" "maGateScratch b = maGateScratch a"
    "maGateGlobs b = maGateGlobs a" "maScratchExcluded b = maScratchExcluded a"
  shows "gateDrift e ph m b = gateDrift e ph m a"
  unfolding gateDrift_def gateOwnDrift_def Let_def assms new_files_cong[OF assms(2,3,4)] by simp

lemma approved_record_drift:
  assumes "mrApproval (approved_record e m who base green sc r) = Some a"
  shows "gateDrift e' ph m' a = gateDrift e' ph m' (newApproval e m who (gsWrote sc))"
  by (rule gateDrift_cong) (use assms in \<open>auto simp: approved_record_def Let_def split: if_splits\<close>)

text \<open>The milestone after its status line is written: found again, approved.\<close>

lemma write_approved_found:
  assumes w: "write_approved e rm m0 who w = (Inr m, w1)" and f: "find_milestone e w i = Inr (doc, rm, m0)"
    and doc: "CR \<notin> set (crlf_to_lf doc)"
    and tx: "stripComment (approved_text e who) = approved_text e who" "LF \<notin> set (approved_text e who)" "CR \<notin> set (approved_text e who)"
    and cl: "classifyMilestoneStatus (approved_text e who) = (MilestoneApproved, at)"
    and e': "nNums e' = nNums e" and roadmap: "mwRoadmap w' = mwRoadmap w1"
  shows "msStatus m = MilestoneApproved \<and> msID m = i \<and> (\<exists>doc' rm'. find_milestone e' w' i = Inr (doc', rm', m))"
proof -
  from f have d: "mwRoadmap w = Some doc" "rm = ParseRoadmap (nNums e) (nRel e) doc" "rm_Find rm i = Some m0"
    by (auto simp: find_milestone_def loadRoadmapDoc_def split: option.splits)
  have id: "msID m0 = i" using find_milestone_id[OF f] .
  show ?thesis
  proof (cases "msStatus m0 = MilestoneApproved")
    case True
    then have "m = m0" "w1 = w" using w by (simp_all add: write_approved_def)
    then show ?thesis using True id d roadmap e' rmMilestones_file[of "nNums e" "nRel e'" doc "nRel e"]
      by (auto simp: find_milestone_def loadRoadmapDoc_def rm_Find_def)
  next
    case False
    have "approved_text e who \<noteq> []" by (simp add: approved_text_def)
    from WithStatus_reads_back[OF d(3)[unfolded d(2)] tx(1) this tx(2,3) doc] obtain doc' where
      doc': "WithStatus rm i (approved_text e who) = Some doc'" and
      eq: "map unlined (rmMilestones (ParseRoadmap (nNums e) (nRel e) doc'))
        = map (\<lambda>m'. unlined (if msLine m' = msLine m0 then set_status (approved_text e who) m' else m')) (rmMilestones rm)"
      unfolding d(2) by blast
    let ?h = "\<lambda>m'. unlined (if msLine m' = msLine m0 then set_status (approved_text e who) m' else m')"
    have found: "rm_Find (ParseRoadmap (nNums e) [] doc') i = Some m" "mwRoadmap w1 = Some doc'"
      using w False doc' id by (auto simp: write_approved_def split: option.splits)
    have u: "msID (unlined x) = msID x" "msID (?h x) = msID x" for x by (simp_all add: unlined_def set_status_def)
    have "map_option unlined (find (\<lambda>m. msID m = i) (rmMilestones (ParseRoadmap (nNums e) (nRel e) doc'))) = map_option ?h (find (\<lambda>m. msID m = i) (rmMilestones rm))"
      unfolding find_map_eq[of "\<lambda>m. msID m = i" unlined, OF arg_cong[OF u(1)], symmetric]
        find_map_eq[of "\<lambda>m. msID m = i" ?h, OF arg_cong[OF u(2)], symmetric] eq ..
    then have "unlined m = unlined (set_status (approved_text e who) m0)"
      using found(1) d(3) unfolding rm_Find_def rmMilestones_file[of "nNums e" "[]" doc' "nRel e"] by simp
    then have "msStatus (unlined m) = msStatus (unlined (set_status (approved_text e who) m0))" by simp
    then have "msStatus m = MilestoneApproved" by (simp add: unlined_def set_status_def cl)
    moreover have "msID m = i" using found(1) by (auto simp: rm_Find_def find_Some_iff)
    moreover have "find_milestone e' w' i = Inr (doc', ParseRoadmap (nNums e) (nRel e') doc', m)"
      using found roadmap e' rmMilestones_file[of "nNums e" "[]" doc' "nRel e'"] by (simp add: find_milestone_def loadRoadmapDoc_def rm_Find_def)
    ultimately show ?thesis by blast
  qed
qed

lemma approve_write_steps:
  assumes "approve_write e rm m0 recs who base green sc w = (Some (m, True), None, w')"
  obtains w1 where "write_approved e rm m0 who w = (Inr m, w1)" "mwRoadmap w' = mwRoadmap w1"
    "mwRecords w' = Some (recs(msID m0 := Some (approved_record e m (TrimSpace who) base green sc (record_of recs (msID m0)))))"
  using assms unfolding approve_write_def
  by (auto simp: Let_def commitMilestone_def split: prod.splits sum.splits option.splits commit_case.splits)

lemma approveMilestone_steps:
  assumes "approveMilestone e i who green w = (Some (m, True), None, w')"
  obtains doc rm m0 recs base sc where "find_milestone e w i = Inr (doc, rm, m0)" "mwRecords w = Some recs" "TrimSpace who \<noteq> []"
    "gsWrote sc = gateWrote (nIgnored e 0) (nIgnored e 1)" "approve_write e rm m0 recs who base green sc w = (Some (m, True), None, w')"
proof -
  obtain x where x: "find_milestone e w i = Inr x" and who: "TrimSpace who \<noteq> []"
    using assms by (cases "find_milestone e w i") (auto simp: approveMilestone_def when_err_def split: option.splits if_splits)
  obtain doc rm m0 where m0: "x = (doc, rm, m0)" by (cases x)
  obtain recs where recs: "mwRecords w = Some recs" using assms by (auto simp: approveMilestone_def x m0 split: option.splits)
  obtain base sc where sc: "gate_self_check e m0 (msStatus m0 = MilestoneApproved) (green \<noteq> []) = Inr sc"
    "approve_write e rm m0 recs who base green sc w = (Some (m, True), None, w')"
    using assms by (auto simp: approveMilestone_def x m0 recs Let_def split: option.splits if_splits sum.splits)
  from sc(1) have "gsWrote sc = gateWrote (nIgnored e 0) (nIgnored e 1)"
    by (auto simp: gate_self_check_def Let_def split: if_splits option.splits)
  with that x m0 recs who sc(2) show ?thesis by blast
qed

text \<open>C20: a milestone just approved may run its gate, under two conditions: the approver's name leaves the status line readable
  (no \<open>#\<close> after a space, one line), and no file a recorded glob matches is git-ignored scratch that the self-check did not
  write. Then, while the tree, as the approval left it, does not change, \<open>milestone gate\<close> finds the milestone approved, recorded and
  its gate as approved, and the preflight passes.\<close>

theorem approved_passes_preflight:
  assumes a: "approveMilestone e i who green w = (Some (m, True), None, w')"
    and doc: "mwRoadmap w = Some doc" "CR \<notin> set (crlf_to_lf doc)"
    and tx: "stripComment (approved_text e who) = approved_text e who" "LF \<notin> set (approved_text e who)" "CR \<notin> set (approved_text e who)"
    and stamp: "nStamp e 1 \<noteq> []" "\<forall>c\<in>set (nStamp e 1). \<not> re_space c"
    and tree: "same_tree e e'" "own_read_ok e 1 m" "ignored_matches e 1 m (gateWrote (nIgnored e 0) (nIgnored e 1)) = []"
    and e': "nOnBranch e' = None" "nNums e' = nNums e"
  shows "msStatus m = MilestoneApproved \<and> (\<exists>doc' rm'. find_milestone e' w' i = Inr (doc', rm', m)) \<and> GatePreflight e' i w' = None"
proof -
  from approveMilestone_steps[OF a] obtain doc0 rm m0 recs base sc where
    f: "find_milestone e w i = Inr (doc0, rm, m0)" "mwRecords w = Some recs" "TrimSpace who \<noteq> []"
      "gsWrote sc = gateWrote (nIgnored e 0) (nIgnored e 1)" "approve_write e rm m0 recs who base green sc w = (Some (m, True), None, w')" .
  from approve_write_steps[OF f(5)] obtain w1 where w1: "write_approved e rm m0 who w = (Inr m, w1)" "mwRoadmap w' = mwRoadmap w1"
    "mwRecords w' = Some (recs(msID m0 := Some (approved_record e m (TrimSpace who) base green sc (record_of recs (msID m0)))))" .
  have d0: "doc0 = doc" using f(1) doc(1) by (auto simp: find_milestone_def loadRoadmapDoc_def split: option.splits)
  have id: "msID m0 = i" using find_milestone_id[OF f(1)] .
  have ok: "msStatus m = MilestoneApproved" "msID m = i" "\<exists>doc' rm'. find_milestone e' w' i = Inr (doc', rm', m)"
    using write_approved_found[OF w1(1) f(1) _ tx classify_approved[OF f(3) stamp] e'(2) w1(2)] doc(2) d0 by simp_all
  obtain ap where ap: "mrApproval (approved_record e m (TrimSpace who) base green sc (record_of recs i)) = Some ap"
    by (auto simp: approved_record_def Let_def)
  have "gateDrift e' 0 m ap = []"
    using approved_record_drift[OF ap] approval_drift[OF tree(1,2)] tree(3) f(4) by simp
  then have "requireApprovalRecord e' 0 w' m True = None"
    using w1(3) ap ok(2) id by (simp add: requireApprovalRecord_def when_err_def)
  moreover have "MilestoneApproved \<noteq> MilestoneDone" by code_simp
  ultimately show ?thesis using ok e'(1) by (auto simp: GatePreflight_def)
qed

theorem approved_passes_preflight_witness: "GatePreflight demo_menv ''M1'' demo_mapproved = None"
proof -
  have a: "approveMilestone demo_menv ''M1'' ''ann'' [] demo_mworld = (Some (demo_ms demo_approved_text, True), None, demo_mapproved)"
    using demo_approve by (simp add: ApproveMilestoneOutcome_def)
  have t: "approved_text demo_menv ''ann'' = demo_approved_text" by (simp add: approved_text_def demo_trim) (simp add: demo_menv_def)
  have st: "nStamp demo_menv 1 = ''T1''" by (simp add: demo_menv_def)
  have tx: "stripComment demo_approved_text = demo_approved_text" "LF \<notin> set demo_approved_text" "CR \<notin> set demo_approved_text"
    "CR \<notin> set (crlf_to_lf (demo_doc ''proposed''))" "''T1'' \<noteq> []" "\<forall>c\<in>set ''T1''. \<not> re_space c" by code_simp+
  have o: "own_read_ok demo_menv 1 m" "ignored_matches demo_menv 1 m wr = []" "same_tree demo_menv demo_menv" for m wr
    by (simp_all add: own_read_ok_def ignored_matches_def same_tree_def demo_menv_def)
  show ?thesis
    using approved_passes_preflight[OF a, of "demo_doc ''proposed''" demo_menv] tx o
    by (simp add: t st) (simp add: demo_menv_def demo_mworld_def)
qed

section \<open>Approvals that do not hold\<close>

text \<open>C21: in a tree that did not change, the gate differs from the approval just recorded exactly when a file that
  one of its globs matches is git-ignored, sourced or declared by no script, no script itself, and was not written by the
  self-check: the approval leaves it out of its files and does not note it as scratch either, and \<open>gateOwnDrift\<close> then reports it as new.\<close>

theorem fresh_approval_drift:
  assumes "same_tree e e'" and "own_read_ok e 1 m"
  shows "gateDrift e' 0 m (newApproval e m who wrote) = [] \<longleftrightarrow> ignored_matches e 1 m wrote = []"
  by (rule approval_drift[OF assms])

definition demo_ignored :: menv where
  "demo_ignored = demo_menv\<lparr>nOwnRead := (\<lambda>_ _. \<lparr>goFiles = [(''data/old.log'', ''h2'')], goGlobs = [''data/*.log''], goKeep = []\<rparr>),
     nGitIgnored := (\<lambda>_. True), nGlobFiles := (\<lambda>_ _. [''data/old.log'']),
     nFileSHA := (\<lambda>_ f. if f = ''gate.sh'' then Some ''h1'' else if f = ''data/old.log'' then Some ''h2'' else None)\<rparr>"

theorem fresh_approval_drift_witness:
  "gateDrift demo_ignored 0 (demo_ms ''proposed'') (newApproval demo_ignored (demo_ms ''proposed'') ''ann'' []) \<noteq> []"
proof -
  have ext: "path_Ext ''data/old.log'' \<notin> set scriptExts" "path_Base ''data/old.log'' \<notin> set scriptNames" by code_simp+
  have s: "gateScripts (nUnicode demo_menv) demo_gate = [''gate.sh'']" by (simp add: demo_menv_def demo_scripts)
  have n: "\<not> isScript demo_ignored 1 ''data/old.log''"
    using ext by (simp add: isScript_def demo_ignored_def) (simp add: demo_menv_def)
  have "same_tree demo_ignored demo_ignored" "own_read_ok demo_ignored 1 (demo_ms ''proposed'')"
    by (simp_all add: same_tree_def own_read_ok_def demo_ignored_def)
  moreover have "ignored_matches demo_ignored 1 (demo_ms ''proposed'') [] \<noteq> []"
    using n s by (simp add: ignored_matches_def Let_def) (simp add: demo_ignored_def)
  ultimately show ?thesis using fresh_approval_drift by blast
qed

text \<open>An approver whose name has a \<open>#\<close> after a space: the status line written is not read as approved.\<close>

lemma approver_hash_lost:
  "classifyMilestoneStatus (stripComment (''approved (by ann #2 '' @ stamp @ '')'')) = (''approved (by ann'', [])"
proof -
  have "Index (''approved (by ann #2 '' @ stamp @ '')'') '' #'' = Some 16" by (simp add: HasPrefix_def)
  then have "stripComment (''approved (by ann #2 '' @ stamp @ '')'') = TrimSpace (take 16 (''approved (by ann #2 '' @ stamp @ '')''))"
    by (simp only: stripComment_def option.case)
  also have "\<dots> = TrimSpace ''approved (by ann''" by simp
  also have "\<dots> = ''approved (by ann''" by code_simp
  finally show ?thesis by simp code_simp
qed

end
