(* ===== verification/Next.thy ===== *)
theory Next
  imports Roadmap ChangePlan
begin

text \<open>
  Next, the findings noticed out of scope (\<open>internal/apexv1/next.go\<close>, \<open>nextmove.go\<close>): the list under a label or a
  section of \<open>roadmap.md\<close> and the file \<open>next.md\<close>, how both are read, where a line is added, what \<open>ape next move\<close> carries from
  one to the other, and the findings a review noticed. An index of the code that is \<open>-1\<close> is \<open>None\<close>. A file that does
  not exist is \<open>None\<close>.
\<close>

section \<open>The lines of Next\<close>

definition NextPointer :: string where
  "NextPointer = ''Next '' @ [CHR 0xE2, CHR 0x80, CHR 0x94] @ '' not milestones: [next.md](next.md)''"

definition nextMDSkeleton :: string where
  "nextMDSkeleton = ''# Next'' @ [LF, LF] @ ''Findings noticed out of scope, for apex-plan to triage at the next delivery ''
     @ [CHR 0xE2, CHR 0x80, CHR 0x94] @ '' not milestones.'' @ [LF]"

text \<open>The expressions match a trimmed line, so their trailing \<open>\s*\<close> matches nothing.\<close>

definition nextPointerRe :: "string \<Rightarrow> bool" where
  "nextPointerRe t \<longleftrightarrow> nextHeadingRe t
     \<and> (HasSuffix (to_lower_ascii t) ''](next.md)'' \<or> HasSuffix (to_lower_ascii t) ''](./next.md)'')"

definition nextLabelRe :: "string \<Rightarrow> bool" where
  "nextLabelRe t \<longleftrightarrow> nextHeadingRe t \<and> HasSuffix t '':''"

definition NextLine :: "string \<Rightarrow> string \<Rightarrow> string \<Rightarrow> string" where
  "NextLine date txt from = ''- '' @ date @ '' '' @ TrimSpace txt @ (if from \<noteq> [] then '' (from '' @ from @ '')'' else [])"

definition bullet :: "string \<Rightarrow> bool" where
  "bullet t \<longleftrightarrow> HasPrefix t ''- '' \<or> HasPrefix t ''* ''"

definition isListLine :: "string \<Rightarrow> bool" where
  "isListLine l = (let t = TrimSpace l in bullet t \<or> t \<noteq> [] \<and> (HasPrefix l '' '' \<or> HasPrefix l [TAB]))"

definition blank :: "string \<Rightarrow> bool" where
  "blank l \<longleftrightarrow> TrimSpace l = []"

text \<open>The lines without the blank ones that end them.\<close>

definition trim_end :: "string list \<Rightarrow> string list" where
  "trim_end ls = rev (dropWhile blank (rev ls))"

section \<open>Adding to the roadmap\<close>

text \<open>The scan of \<open>AppendNextLines\<close>: a fence of either kind opens or closes code; \<open>end\<close> is where the section stops.\<close>

record append_scan =
  apCode :: bool
  apSection :: "nat option"
  apLabel :: "nat option"
  apFirstH2 :: "nat option"
  apEnd :: "nat option"

definition append_step :: "append_scan \<Rightarrow> nat \<times> string \<Rightarrow> append_scan" where
  "append_step s = (\<lambda>(i, l).
     let t = TrimSpace l; level = length (takeWhile (\<lambda>c. c = CHR ''#'') t);
         heading = (level > 0 \<and> level \<le> 2 \<and> HasPrefix (drop level t) '' '')
     in if HasPrefix t ''```'' \<or> HasPrefix t ''~~~'' then s\<lparr>apCode := \<not> apCode s\<rparr>
        else if apCode s then s
        else if heading \<and> apSection s \<noteq> None \<and> apEnd s = None then s\<lparr>apEnd := Some i\<rparr>
        else if heading \<and> level = 2
        then s\<lparr>apFirstH2 := (case apFirstH2 s of None \<Rightarrow> Some i | x \<Rightarrow> x),
               apSection := (if apSection s = None \<and> nextHeadingRe (TrimSpace (drop level t)) then Some i else apSection s)\<rparr>
        else if \<not> heading \<and> apFirstH2 s = None \<and> apLabel s = None \<and> nextLabelRe t then s\<lparr>apLabel := Some i\<rparr>
        else s)"

text \<open>The end of the list that starts after line \<open>j\<close>: the line after its last list line, blank lines inside it allowed.\<close>

fun list_end :: "nat \<Rightarrow> nat \<Rightarrow> string list \<Rightarrow> nat" where
  "list_end e j [] = e"
| "list_end e j (l # ls) =
     (if isListLine l then list_end (j + 1) (j + 1) ls else if \<not> blank l then e else list_end e (j + 1) ls)"

definition AppendNextLines :: "string \<Rightarrow> string list \<Rightarrow> string" where
  "AppendNextLines roadmap new =
     (if new = [] then roadmap
      else let doc = crlf_to_lf roadmap; trailing = HasSuffix doc [LF];
               ls = split_char LF (TrimSuffix doc [LF]);
               s = foldl append_step \<lparr>apCode = False, apSection = None, apLabel = None, apFirstH2 = None, apEnd = None\<rparr> (enumerate 0 ls);
               at = (case apSection s of
                   Some sec \<Rightarrow> (let e = (case apEnd s of None \<Rightarrow> length ls | Some e \<Rightarrow> e)
                                in Some (sec + 1 + length (trim_end (drop (sec + 1) (take e ls)))))
                 | None \<Rightarrow> map_option (\<lambda>lab. list_end (lab + 1) (lab + 1)
                     (drop (lab + 1) (take (case apFirstH2 s of None \<Rightarrow> length ls | Some h \<Rightarrow> h) ls))) (apLabel s))
           in case at of
                None \<Rightarrow> Join (trim_end ls @ [[], ''## Next''] @ new) [LF] @ [LF]
              | Some k \<Rightarrow> Join (take k ls @ new @ drop k ls) [LF] @ (if trailing then [LF] else []))"

section \<open>Reading the items\<close>

text \<open>\<open>nextListItems\<close>: the items so far and whether a continuation would go on with the last.\<close>

fun next_list_items :: "bool \<Rightarrow> bool \<Rightarrow> bool \<Rightarrow> string list \<Rightarrow> mdLine list \<Rightarrow> string list" where
  "next_list_items lab atHeading open out [] = out"
| "next_list_items lab atHeading open out (l # ls) =
     (let t = TrimSpace (mdText l) in
      if mdInCode l then next_list_items lab atHeading open out ls
      else if fst (headingLevel l) > 0
      then (if atHeading then out else next_list_items lab atHeading False out ls)
      else if bullet t
      then (if TrimSpace (drop 2 t) \<noteq> [] then next_list_items lab atHeading True (out @ [TrimSpace (drop 2 t)]) ls
            else next_list_items lab atHeading open out ls)
      else if open \<and> t \<noteq> [] \<and> isListLine (mdText l)
      then next_list_items lab atHeading open (butlast out @ [last out @ '' '' @ t]) ls
      else if lab \<and> t \<noteq> [] then out
      else next_list_items lab atHeading False out ls)"

definition nextListItems :: "mdLine list \<Rightarrow> bool \<Rightarrow> bool \<Rightarrow> string list" where
  "nextListItems body lab atHeading = next_list_items lab atHeading False [] body"

fun label_items :: "mdLine list \<Rightarrow> string list" where
  "label_items [] = []"
| "label_items (l # ls) =
     (if fst (headingLevel l) = 2 then []
      else if \<not> mdInCode l \<and> (nextLabelRe (TrimSpace (mdText l)) \<or> nextPointerRe (TrimSpace (mdText l))) then nextListItems ls True True
      else label_items ls)"

definition NextItems :: "string \<Rightarrow> string list" where
  "NextItems roadmap =
     (let ls = splitLines roadmap in
      label_items ls @ concat (map (\<lambda>s. nextListItems (secBody s) False True) (filter (\<lambda>s. nextHeadingRe (secTitle s)) (h2Sections ls))))"

definition NextFileItems :: "string \<Rightarrow> string list" where
  "NextFileItems doc = nextListItems (splitLines doc) False False"

text \<open>\<open>roadmapNext\<close>, with the two files as the base branch or the working tree holds them.\<close>

definition roadmapNext :: "string option \<Rightarrow> string option \<Rightarrow> string list" where
  "roadmapNext next roadmap =
     dedup_acc [] ((case next of None \<Rightarrow> [] | Some doc \<Rightarrow> NextFileItems doc) @ (case roadmap of None \<Rightarrow> [] | Some doc \<Rightarrow> NextItems doc))"

section \<open>Where Next sits in a roadmap\<close>

record roadmapNextLayout =
  nlLabel :: "nat option"
  nlLabelEnd :: nat
  nlSections :: "(nat \<times> nat) list"
  nlFirstH2 :: nat
  nlPointer :: "nat option"
  nlResidueEnd :: "nat option"

text \<open>The loop of \<open>scanRoadmapNext\<close>; \<open>open\<close> is the section it is in, \<open>n\<close> the number of lines.\<close>

definition scan_step :: "nat \<Rightarrow> roadmapNextLayout \<times> nat option \<Rightarrow> nat \<times> mdLine \<Rightarrow> roadmapNextLayout \<times> nat option" where
  "scan_step n = (\<lambda>(lay, open) (i, ln).
     let (lv, title) = headingLevel ln; t = TrimSpace (mdText ln) in
     if lv > 0 \<and> lv \<le> 2
     then (let lay1 = (case open of None \<Rightarrow> lay | Some o0 \<Rightarrow> lay\<lparr>nlSections := nlSections lay @ [(o0, i)]\<rparr>)
           in if lv = 2 then (lay1\<lparr>nlFirstH2 := min (nlFirstH2 lay1) i\<rparr>, if nextHeadingRe title then Some i else None)
              else (lay1, None))
     else if mdInCode ln \<or> open \<noteq> None then (lay, open)
     else if nlPointer lay = None \<and> nextPointerRe t then (lay\<lparr>nlPointer := Some i\<rparr>, open)
     else if nlLabel lay = None \<and> nlFirstH2 lay = n \<and> nextLabelRe t then (lay\<lparr>nlLabel := Some i\<rparr>, open)
     else (lay, open))"

fun block_end_go :: "nat \<Rightarrow> nat \<Rightarrow> mdLine list \<Rightarrow> nat" where
  "block_end_go e j [] = e"
| "block_end_go e j (l # ls) =
     (if mdInCode l then e
      else if isListLine (mdText l) then block_end_go (j + 1) (j + 1) ls
      else if \<not> blank (mdText l) then e
      else block_end_go e (j + 1) ls)"

definition blockEnd :: "mdLine list \<Rightarrow> nat \<Rightarrow> nat \<Rightarrow> nat" where
  "blockEnd ls from lim = block_end_go (from + 1) (from + 1) (drop (from + 1) (take lim ls))"

definition scanRoadmapNext :: "mdLine list \<Rightarrow> roadmapNextLayout" where
  "scanRoadmapNext ls =
     (let n = length ls;
          (lay, open) = foldl (scan_step n)
            (\<lparr>nlLabel = None, nlLabelEnd = 0, nlSections = [], nlFirstH2 = n, nlPointer = None, nlResidueEnd = None\<rparr>, None) (enumerate 0 ls);
          lay1 = (case open of None \<Rightarrow> lay | Some o0 \<Rightarrow> lay\<lparr>nlSections := nlSections lay @ [(o0, n)]\<rparr>);
          lay2 = (case nlLabel lay1 of None \<Rightarrow> lay1 | Some lab \<Rightarrow> lay1\<lparr>nlLabelEnd := blockEnd ls lab (nlFirstH2 lay1)\<rparr>)
      in case nlPointer lay2 of
           None \<Rightarrow> lay2
         | Some p \<Rightarrow>
             if p < nlFirstH2 lay2 \<and> nlLabel lay2 \<noteq> Some p \<and> blockEnd ls p (nlFirstH2 lay2) > p + 1
             then lay2\<lparr>nlResidueEnd := Some (blockEnd ls p (nlFirstH2 lay2))\<rparr> else lay2)"

definition has_block :: "roadmapNextLayout \<Rightarrow> bool" where
  "has_block lay \<longleftrightarrow> nlLabel lay \<noteq> None \<or> nlSections lay \<noteq> [] \<or> nlResidueEnd lay \<noteq> None"

definition hasNextBlock :: "string \<Rightarrow> bool" where
  "hasNextBlock roadmap = has_block (scanRoadmapNext (splitLines roadmap))"

definition withNextPointer :: "string \<Rightarrow> string" where
  "withNextPointer roadmap =
     (let ls = splitLines roadmap; at = nlFirstH2 (scanRoadmapNext ls); front = trim_end (map mdText (take at ls))
      in Join (front @ (if front \<noteq> [] then [[]] else []) @ [NextPointer] @ (if at < length ls then [[]] else []) @ map mdText (drop at ls)) [LF] @ [LF])"

definition appendNextMD :: "string option \<Rightarrow> string list \<Rightarrow> string" where
  "appendNextMD next new = (case (next, new) of
      (Some doc, []) \<Rightarrow> doc
    | _ \<Rightarrow>
        (let doc = (case next of None \<Rightarrow> nextMDSkeleton | Some d \<Rightarrow> crlf_to_lf d);
             ls = trim_end (split_char LF (TrimRight doc [LF]));
             gap = (if ls \<noteq> [] \<and> (\<not> isListLine (last ls) \<or> \<not> isListLine (hd new)) then [[]] else [])
         in Join (ls @ (if new = [] then [] else gap @ new)) [LF] @ [LF]))"

section \<open>The move\<close>

record nextChunk =
  ckItem :: string
  ckRaw :: "string list"
  ckBlank :: bool

text \<open>\<open>read\<close> of \<open>chunks\<close>: the pieces so far and whether the last one is an item that may go on.\<close>

fun read_chunks :: "bool \<Rightarrow> nextChunk list \<Rightarrow> mdLine list \<Rightarrow> nextChunk list" where
  "read_chunks open out [] = out"
| "read_chunks open out (ln # ls) =
     (let t = TrimSpace (mdText ln) in
      if mdInCode ln then read_chunks False (out @ [\<lparr>ckItem = [], ckRaw = [mdText ln], ckBlank = False\<rparr>]) ls
      else if bullet t
      then read_chunks (TrimSpace (drop 2 t) \<noteq> []) (out @ [\<lparr>ckItem = TrimSpace (drop 2 t), ckRaw = [mdText ln], ckBlank = False\<rparr>]) ls
      else if open \<and> t \<noteq> [] \<and> isListLine (mdText ln)
      then read_chunks open (butlast out @ [(last out)\<lparr>ckItem := ckItem (last out) @ '' '' @ t, ckRaw := ckRaw (last out) @ [mdText ln]\<rparr>]) ls
      else read_chunks False (out @ [\<lparr>ckItem = [], ckRaw = [mdText ln], ckBlank = (t = [])\<rparr>]) ls)"

definition slice :: "nat \<Rightarrow> nat \<Rightarrow> 'a list \<Rightarrow> 'a list" where
  "slice a b xs = drop a (take b xs)"

definition chunks :: "roadmapNextLayout \<Rightarrow> mdLine list \<Rightarrow> nextChunk list" where
  "chunks lay ls =
     (let c1 = (case nlLabel lay of None \<Rightarrow> [] | Some lab \<Rightarrow> read_chunks False [] (slice (lab + 1) (nlLabelEnd lay) ls));
          c2 = (case (nlPointer lay, nlResidueEnd lay) of
                  (Some p, Some e) \<Rightarrow> read_chunks False c1 (slice (p + 1) e ls) | _ \<Rightarrow> c1)
      in foldl (\<lambda>c (a, b). read_chunks False c (slice (a + 1) b ls)) c2 (nlSections lay))"

record outLine =
  olText :: string
  olH2 :: bool
  olBlank :: bool

definition out_line :: "mdLine \<Rightarrow> outLine" where
  "out_line ln = \<lparr>olText = mdText ln, olH2 = (fst (headingLevel ln) = 2), olBlank = (\<not> mdInCode ln \<and> blank (mdText ln))\<rparr>"

definition pointer_line :: outLine where
  "pointer_line = \<lparr>olText = NextPointer, olH2 = False, olBlank = False\<rparr>"

text \<open>
  The loop of \<open>moved\<close> over the numbered lines that are left: \<open>placed\<close> whether the pointer is there, \<open>joined\<close> whether a removal
  just happened. A jump of the index to \<open>e - 1\<close> drops the lines below \<open>e\<close>.
\<close>

function moved_go :: "roadmapNextLayout \<Rightarrow> bool \<Rightarrow> bool \<Rightarrow> outLine list \<Rightarrow> (nat \<times> mdLine) list \<Rightarrow> outLine list \<times> bool \<times> bool" where
  "moved_go lay placed joined out [] = (out, placed, joined)"
| "moved_go lay placed joined out ((i, ln) # rest) =
     (if nlLabel lay = Some i
      then moved_go lay True (if placed then True else joined) (if placed then out else out @ [pointer_line]) (dropWhile (\<lambda>(j, _). j < nlLabelEnd lay) rest)
      else case map_of (rev (nlSections lay)) i of
        Some e \<Rightarrow> moved_go lay placed True out (dropWhile (\<lambda>(j, _). j < e) rest)
      | None \<Rightarrow>
          (case (nlPointer lay = Some i, nlResidueEnd lay) of
             (True, Some e) \<Rightarrow>
               moved_go lay placed True (out @ [\<lparr>olText = mdText ln, olH2 = False, olBlank = False\<rparr>]) (dropWhile (\<lambda>(j, _). j < e) rest)
           | _ \<Rightarrow>
               if joined \<and> olBlank (out_line ln) \<and> (out = [] \<or> olBlank (last out)) then moved_go lay placed joined out rest
               else moved_go lay placed False (out @ [out_line ln]) rest))"
  by pat_completeness auto
termination
  by (relation "measure (\<lambda>(lay, placed, joined, out, rest). length rest)") (auto simp: le_imp_less_Suc length_dropWhile_le)

definition place_pointer :: "outLine list \<Rightarrow> outLine list" where
  "place_pointer out =
     (let front = takeWhile (\<lambda>x. \<not> olH2 x) out; back = dropWhile (\<lambda>x. \<not> olH2 x) out; gap = \<lparr>olText = [], olH2 = False, olBlank = True\<rparr>
      in front @ (if front \<noteq> [] \<and> \<not> olBlank (last front) then [gap] else []) @ [pointer_line]
         @ (if back \<noteq> [] \<and> \<not> olBlank (hd back) then [gap] else []) @ back)"

definition moved :: "roadmapNextLayout \<Rightarrow> mdLine list \<Rightarrow> string" where
  "moved lay ls =
     (let (out, placed, joined) = moved_go lay (nlPointer lay \<noteq> None) False [] (enumerate 0 ls);
          out1 = (if joined then rev (dropWhile olBlank (rev out)) else out);
          out2 = (if placed then out1 else place_pointer out1)
      in Join (map olText out2) [LF] @ [LF])"

record nextMoveResult =
  nmMoved :: "string list"
  nmDuplicates :: "string list"
  nmCreated :: bool
  nmPointerAdded :: bool
  nmPending :: bool
  nmCommit :: string

text \<open>The loop of \<open>planNextMove\<close> over the chunks: items seen, moved and left out, and the lines of the block.\<close>

fun plan_block :: "string list \<Rightarrow> bool \<Rightarrow> nextChunk list \<Rightarrow> string list \<times> string list \<times> string list" where
  "plan_block seen lastBlank [] = ([], [], [])"
| "plan_block seen lastBlank (c # cs) =
     (if ckItem c \<noteq> [] \<and> ckItem c \<in> set seen
      then (case plan_block seen lastBlank cs of (mv, du, bl) \<Rightarrow> (mv, ckItem c # du, bl))
      else if ckItem c = [] \<and> ckBlank c \<and> lastBlank then plan_block seen lastBlank cs
      else (case plan_block (if ckItem c \<noteq> [] then ckItem c # seen else seen) (ckBlank c) cs of
              (mv, du, bl) \<Rightarrow> (if ckItem c \<noteq> [] then ckItem c # mv else mv, du, ckRaw c @ bl)))"

definition planNextMove :: "string \<Rightarrow> string option \<Rightarrow> nextMoveResult \<times> string \<times> string" where
  "planNextMove roadmap next =
     (let ls = splitLines roadmap; lay = scanRoadmapNext ls;
          (mv, du, bl) = plan_block (case next of None \<Rightarrow> [] | Some d \<Rightarrow> NextFileItems d) True (chunks lay ls)
      in (\<lparr>nmMoved = mv, nmDuplicates = du, nmCreated = (next = None), nmPointerAdded = (nlPointer lay = None),
           nmPending = (next = None \<or> nlPointer lay = None \<or> has_block lay), nmCommit = []\<rparr>,
          moved lay ls, appendNextMD next (trim_end bl)))"

section \<open>Commands\<close>

text \<open>The two files on the base branch, or of the working tree outside git.\<close>

record next_world =
  nwRoadmap :: "string option"
  nwNext :: "string option"

text \<open>
  What the commands learn from outside: git, the branch HEAD is on, dirty files, today's date, failing writes and
  commits. \<open>xReady\<close>: what \<open>editOnBranch\<close> refuses before it reads the files; \<open>xHere\<close>: the base branch is checked out here.
  \<open>xUndone\<close>: a refused commit puts the two files back. \<open>xStage\<close>: \<open>git add\<close> of what a squash takes along.
\<close>

record next_env =
  xWorkTree :: bool
  xRecover :: "apex_error option"
  xOnBranch :: "apex_error option"
  xDirty :: "apex_error option"
  xToday :: string
  xBase :: "apex_error + string"
  xRoadmapFirst :: bool
  xWriteRoadmap :: "apex_error option"
  xWriteNext :: "apex_error option"
  xReady :: "apex_error option"
  xHere :: bool
  xEdit :: "apex_error + string"
  xCommit :: "apex_error + string"
  xUndone :: bool
  xStage :: "apex_error option"

text \<open>\<open>nextWrites\<close>: what the roadmap and \<open>next.md\<close> become, \<open>None\<close> where a file is left as it is.\<close>

definition nextWrites :: "string \<Rightarrow> string option \<Rightarrow> string list \<Rightarrow> string option \<times> string option" where
  "nextWrites roadmap next new =
     (if next = None \<and> hasNextBlock roadmap then (Some (AppendNextLines roadmap new), None)
      else (if \<not> hasNextBlock roadmap \<and> nlPointer (scanRoadmapNext (splitLines roadmap)) = None then Some (withNextPointer roadmap) else None,
            Some (appendNextMD next new)))"

definition put_roadmap :: "string option \<Rightarrow> next_world \<Rightarrow> next_world" where
  "put_roadmap d w = (case d of None \<Rightarrow> w | Some x \<Rightarrow> w\<lparr>nwRoadmap := Some x\<rparr>)"

definition put_next :: "string option \<Rightarrow> next_world \<Rightarrow> next_world" where
  "put_next d w = (case d of None \<Rightarrow> w | Some x \<Rightarrow> w\<lparr>nwNext := Some x\<rparr>)"

record nextResult =
  nrLine :: string
  nrInNext :: bool
  nrPointer :: bool
  nrBranch :: string
  nrCommit :: string

definition next_result :: "string \<Rightarrow> string option \<times> string option \<Rightarrow> nextResult" where
  "next_result line files = \<lparr>nrLine = line, nrInNext = (snd files \<noteq> None), nrPointer = (snd files \<noteq> None \<and> fst files \<noteq> None), nrBranch = [], nrCommit = []\<rparr>"

text \<open>The writes of \<open>AddNext\<close> outside git, in the order the map of files is ranged over, up to the first that fails.\<close>

definition write_both :: "next_env \<Rightarrow> string option \<times> string option \<Rightarrow> next_world \<Rightarrow> apex_error option \<times> next_world" where
  "write_both e files w =
     (let er = (if fst files = None then None else xWriteRoadmap e); en = (if snd files = None then None else xWriteNext e) in
      if xRoadmapFirst e
      then (case er of Some x \<Rightarrow> (Some x, w)
            | None \<Rightarrow> (let w1 = put_roadmap (fst files) w in case en of Some x \<Rightarrow> (Some x, w1) | None \<Rightarrow> (None, put_next (snd files) w1)))
      else (case en of Some x \<Rightarrow> (Some x, w)
            | None \<Rightarrow> (let w1 = put_next (snd files) w in case er of Some x \<Rightarrow> (Some x, w1) | None \<Rightarrow> (None, put_roadmap (fst files) w1))))"

text \<open>
  \<open>commitOnBranchAt\<close>: on the branch that is checked out the files are written in the order of their paths, \<open>next.md\<close>
  first, and then committed; elsewhere the commit is made beside the working tree and the branch moves to it, or nothing happens.
\<close>

definition commitOnBranchAt :: "next_env \<Rightarrow> string option \<times> string option \<Rightarrow> next_world \<Rightarrow> (apex_error + string) \<times> next_world" where
  "commitOnBranchAt e files w =
     (if xHere e
      then (case write_both (e\<lparr>xRoadmapFirst := False\<rparr>) files w of
              (Some er, w1) \<Rightarrow> (Inl er, w1)
            | (None, w1) \<Rightarrow> (xEdit e, case xEdit e of Inl _ \<Rightarrow> if xUndone e then w else w1 | Inr _ \<Rightarrow> w1))
      else (xEdit e, case xEdit e of Inl _ \<Rightarrow> w | Inr _ \<Rightarrow> put_next (snd files) (put_roadmap (fst files) w)))"

definition AddNext :: "next_env \<Rightarrow> string \<Rightarrow> string \<Rightarrow> next_world \<Rightarrow> (apex_error + nextResult) \<times> next_world" where
  "AddNext e text0 from0 w =
     (let txt0 = TrimSpace text0; from = TrimSpace from0 in
      if txt0 = [] \<or> CR \<in> set txt0 \<or> LF \<in> set txt0 then (Inl (UsageError ''usage.text''), w)
      else if from \<noteq> [] \<and> \<not> ChangeIDRe from then (Inl (UsageError ''usage.change-id''), w)
      else let line = NextLine (xToday e) txt0 from in
        if \<not> xWorkTree e
        then (case nwRoadmap w of
                None \<Rightarrow> (Inl (fail ''roadmap.missing''), w)
              | Some doc \<Rightarrow> (case write_both e (nextWrites doc (nwNext w) [line]) w of
                              (Some er, w1) \<Rightarrow> (Inl er, w1)
                            | (None, w1) \<Rightarrow> (Inr (next_result line (nextWrites doc (nwNext w) [line])), w1)))
        else (case xBase e of
                Inl er \<Rightarrow> (Inl er, w)
              | Inr base \<Rightarrow>
                  (case xReady e of
                     Some er \<Rightarrow> (Inl er, w)
                   | None \<Rightarrow>
                       (case nwRoadmap w of
                          None \<Rightarrow> (Inl (fail ''roadmap.missing''), w)
                        | Some doc \<Rightarrow>
                            (let files = nextWrites doc (nwNext w) [line] in
                             case commitOnBranchAt e files w of
                               (Inl er, w1) \<Rightarrow> (Inl er, w1)
                             | (Inr sha, w1) \<Rightarrow> (Inr ((next_result line files)\<lparr>nrBranch := base, nrCommit := sha\<rparr>), w1))))))"

definition nextMovePlan :: "next_world \<Rightarrow> apex_error + (nextMoveResult \<times> string \<times> string)" where
  "nextMovePlan w = (case nwRoadmap w of None \<Rightarrow> Inl (fail ''roadmap.missing'') | Some doc \<Rightarrow> Inr (planNextMove doc (nwNext w)))"

definition NextMoveCheck :: "next_world \<Rightarrow> nextMoveResult option \<times> apex_error option" where
  "NextMoveCheck w = (case nextMovePlan w of
      Inl er \<Rightarrow> (None, Some er)
    | Inr (res, _, _) \<Rightarrow> (Some res, when_err (nmPending res) (fail ''next.move-pending'')))"

definition NextMove :: "next_env \<Rightarrow> next_world \<Rightarrow> nextMoveResult option \<times> apex_error option \<times> next_world" where
  "NextMove e w = (case nextMovePlan w of
      Inl er \<Rightarrow> (None, Some er, w)
    | Inr (res, roadmap, next) \<Rightarrow>
        if \<not> nmPending res then (Some res, None, w)
        else (case first_err [when_err (\<not> xWorkTree e) (fail ''git.not-a-repo''), xRecover e, xOnBranch e, xDirty e] of
                Some er \<Rightarrow> (Some res, Some er, w)
              | None \<Rightarrow>
                  (case xWriteRoadmap e of
                     Some er \<Rightarrow> (Some res, Some er, w)
                   | None \<Rightarrow>
                       (let w1 = w\<lparr>nwRoadmap := Some roadmap\<rparr> in
                        case xWriteNext e of
                          Some er \<Rightarrow> (Some res, Some er, w1)
                        | None \<Rightarrow>
                            (let w2 = w1\<lparr>nwNext := Some next\<rparr> in
                             case xCommit e of
                               Inl er \<Rightarrow> (Some res, Some er, if xUndone e then w else w2)
                             | Inr sha \<Rightarrow> (Some (res\<lparr>nmCommit := sha\<rparr>), None, w2))))))"

text \<open>\<open>nextInlineNotices\<close>: the line of the roadmap its Next block starts at and how many items the roadmap still holds.\<close>

definition nextInlineNotices :: "string option \<Rightarrow> (nat \<times> nat) list" where
  "nextInlineNotices roadmap = (case roadmap of
      None \<Rightarrow> []
    | Some doc \<Rightarrow>
        (let ls = splitLines doc; l = scanRoadmapNext ls;
             at = (case nlLabel l of
                     Some k \<Rightarrow> Some k
                   | None \<Rightarrow> (case nlSections l of (a, _) # _ \<Rightarrow> Some a | [] \<Rightarrow> if nlResidueEnd l \<noteq> None then nlPointer l else None))
         in case at of None \<Rightarrow> [] | Some k \<Rightarrow> [(mdN (ls ! k), length (NextItems doc))]))"

section \<open>The items of next.md\<close>

definition days_in :: "nat \<Rightarrow> nat \<Rightarrow> nat" where
  "days_in m y = (if m = 2 then (if y mod 4 = 0 \<and> (y mod 100 \<noteq> 0 \<or> y mod 400 = 0) then 29 else 28)
     else if m \<in> {4, 6, 9, 11} then 30 else 31)"

text \<open>\<open>time.Parse("2006-01-02", s)\<close> succeeds.\<close>

definition real_date :: "string \<Rightarrow> bool" where
  "real_date s \<longleftrightarrow> length s = 10 \<and> list_all is_digit (take 4 s) \<and> s ! 4 = CHR ''-'' \<and> list_all is_digit (take 2 (drop 5 s)) \<and> s ! 7 = CHR ''-''
     \<and> list_all is_digit (drop 8 s)
     \<and> (let y = dec_value (take 4 s); mo = dec_value (take 2 (drop 5 s)); d = dec_value (drop 8 s) in 1 \<le> mo \<and> mo \<le> 12 \<and> 1 \<le> d \<and> d \<le> days_in mo y)"

text \<open>\<open>nextDateRe\<close>: the date and what follows it with its spaces.\<close>

definition match_next_date :: "string \<Rightarrow> (string \<times> string) option" where
  "match_next_date s =
     (let y = takeWhile is_digit s; r1 = drop (length y) s; mo = takeWhile is_digit (tl r1); r2 = drop (length mo) (tl r1);
          d = takeWhile is_digit (tl r2); rest = drop (length d) (tl r2)
      in if 2 \<le> length y \<and> length y \<le> 4 \<and> r1 \<noteq> [] \<and> hd r1 = CHR ''-'' \<and> 1 \<le> length mo \<and> length mo \<le> 2 \<and> r2 \<noteq> [] \<and> hd r2 = CHR ''-''
            \<and> 1 \<le> length d \<and> length d \<le> 2 \<and> (rest = [] \<or> re_space (hd rest))
         then Some (y @ ''-'' @ mo @ ''-'' @ d, dropWhile re_space rest) else None)"

text \<open>\<open>nextFromRe\<close>: the text between the last parenthesis and the one that ends the item.\<close>

definition match_next_from :: "string \<Rightarrow> string option" where
  "match_next_from s =
     (if s \<noteq> [] \<and> last s = CHR '')''
      then (let inner = rev (takeWhile (\<lambda>c. c \<noteq> CHR ''('' \<and> c \<noteq> CHR '')'') (rev (butlast s)));
                front = take (length s - 1 - length inner) s
            in if front \<noteq> [] \<and> last front = CHR ''('' \<and> HasPrefix inner ''from '' then Some (drop 5 inner) else None)
      else None)"

datatype next_fault = NextBadDate string | NextNoText | NextBadFrom string

definition next_fault_of :: "string \<Rightarrow> next_fault option" where
  "next_fault_of item =
     (let f = (case match_next_from item of None \<Rightarrow> None | Some i \<Rightarrow> if ChangeIDRe i then None else Some (NextBadFrom i)) in
      case match_next_date item of
        None \<Rightarrow> f
      | Some (d, rest) \<Rightarrow> if \<not> real_date d then Some (NextBadDate d) else if TrimSpace rest = [] then Some NextNoText else f)"

definition ValidateNextMD :: "string \<Rightarrow> (nat \<times> string \<times> next_fault) list" where
  "ValidateNextMD doc = List.map_filter (\<lambda>l.
      if mdInCode l \<or> \<not> bullet (mdText l) then None
      else (let item = TrimSpace (drop 2 (mdText l)) in map_option (\<lambda>f. (mdN l, item, f)) (next_fault_of item))) (splitLines doc)"

section \<open>What a review noticed\<close>

text \<open>\<open>noticedTitleRe\<close>; in a Unicode fold only the \<open>s\<close> of \<open>scope\<close> has a second lower case, U+017F.\<close>

definition noticedTitleRe :: "string \<Rightarrow> bool" where
  "noticedTitleRe t =
     (let s = to_lower_ascii t; r = drop 7 s; r1 = (if HasPrefix r '','' then drop 1 r else r); r2 = dropWhile re_space r1
      in HasPrefix s ''noticed'' \<and> r2 \<noteq> r1 \<and> (r2 = ''out of scope'' \<or> r2 = ''out of '' @ [CHR 0xC5, CHR 0xBF] @ ''cope''))"

definition noticed_item :: "string \<Rightarrow> bool" where
  "noticed_item item \<longleftrightarrow> item \<noteq> [] \<and> \<not> EqualFold (TrimRight item ''.'') ''none'' \<and> \<not> (7 \<le> length item \<and> EqualFold (take 7 item) ''answer:'')"

fun noticed_go :: "nat \<Rightarrow> mdLine list \<Rightarrow> string list" where
  "noticed_go lvl [] = []"
| "noticed_go lvl (l # ls) =
     (let (lv, title) = headingLevel l in
      if lv > 0
      then noticed_go (if 2 \<le> lv \<and> lv \<le> 4 \<and> noticedTitleRe title then lv else if lv \<le> lvl then 0 else lvl) ls
      else if lvl = 0 \<or> mdInCode l \<or> \<not> bullet (mdText l) then noticed_go lvl ls
      else (let item = TrimSpace (drop 2 (mdText l)) in if noticed_item item then item # noticed_go lvl ls else noticed_go lvl ls))"

definition noticedItems :: "string \<Rightarrow> string list" where
  "noticedItems review = dedup_acc [] (noticed_go 0 (splitLines review))"

text \<open>\<open>appendNoticed\<close>: the findings of the archived change's review, staged with its squash.\<close>

definition appendNoticed :: "next_env \<Rightarrow> string \<Rightarrow> string option \<Rightarrow> next_world \<Rightarrow> apex_error option \<times> next_world" where
  "appendNoticed e i review w = (case review of
      None \<Rightarrow> (None, w)
    | Some r \<Rightarrow>
        (let items = noticedItems r in
         if items = [] then (None, w)
         else case nwRoadmap w of
           None \<Rightarrow> (Some (OtherError ''roadmap.md''), w)
         | Some doc \<Rightarrow>
             (case write_both e (nextWrites doc (nwNext w) (map (\<lambda>it. NextLine (xToday e) it i) items)) w of
                (Some er, w1) \<Rightarrow> (Some er, w1)
              | (None, w1) \<Rightarrow> (xStage e, w1))))"

end
