(* ===== verification/NextFacts.thy ===== *)
theory NextFacts
  imports Next PlanFacts
begin

text \<open>
  Nothing of Next is lost: a line added to \<open>next.md\<close> is read back after what was there, and \<open>ape next move\<close> carries every item
  of the roadmap's block. The items of a file are the state a fold over its lines ends in (\<open>item_step\<close>).
\<close>

section \<open>Items as a fold\<close>

definition item_step :: "bool \<times> string list \<Rightarrow> mdLine \<Rightarrow> bool \<times> string list" where
  "item_step st l =
     (let (open, out) = st; t = TrimSpace (mdText l) in
      if mdInCode l then (open, out)
      else if fst (headingLevel l) > 0 then (False, out)
      else if bullet t then (if TrimSpace (drop 2 t) \<noteq> [] then (True, out @ [TrimSpace (drop 2 t)]) else (open, out))
      else if open \<and> t \<noteq> [] \<and> isListLine (mdText l) then (open, butlast out @ [last out @ '' '' @ t])
      else (False, out))"

lemma items_fold: "next_list_items False False op out ls = snd (foldl item_step (op, out) ls)"
  by (induction ls arbitrary: op out) (simp_all add: item_step_def Let_def)

definition plain :: "string \<Rightarrow> mdLine" where
  "plain x = \<lparr>mdN = 0, mdText = x, mdInCode = False\<rparr>"

lemma item_step_plain: "\<not> mdInCode l \<Longrightarrow> item_step st l = item_step st (plain (mdText l))"
  by (simp add: item_step_def plain_def headingLevel_def split_beta Let_def)

lemma fold_plain:
  "list_all (\<lambda>x. \<not> is_fence (TrimSpace x)) xs \<Longrightarrow> foldl item_step st (split_go i [] xs) = foldl item_step st (map plain xs)"
proof (induction xs arbitrary: st i)
  case (Cons x xs)
  let ?l = "\<lparr>mdN = Suc i, mdText = x, mdInCode = False\<rparr>"
  have "item_step st ?l = item_step st (plain x)" using item_step_plain[of ?l st] by simp
  then show ?case using Cons by (simp add: Let_def)
qed simp

text \<open>A blank line closes the item before it and nothing else.\<close>

lemma blank_not_fence: "blank x \<Longrightarrow> \<not> is_fence (TrimSpace x)"
  by (simp add: blank_def is_fence_def HasPrefix_def)

lemma heading_hash:
  assumes "0 < fst (headingLevel l)"
  obtains r where "mdText l = CHR ''#'' # r"
proof -
  let ?t = "TrimRight (mdText l) [CHR '' '', TAB]"
  have "takeWhile (\<lambda>c. c = CHR ''#'') ?t \<noteq> []" using assms by (auto simp: headingLevel_def Let_def split: if_splits)
  then have t: "?t \<noteq> [] \<and> hd ?t = CHR ''#''" by (cases ?t) (auto split: if_splits)
  obtain w where w: "mdText l = ?t @ w" using TrimRight_decomp[of "mdText l" "[CHR '' '', TAB]"] by blast
  have "mdText l = CHR ''#'' # tl ?t @ w" using t w by (cases ?t) auto
  then show ?thesis by (rule that)
qed

lemma no_heading: "TrimSpace (mdText l) = [] \<or> hd (TrimSpace (mdText l)) \<noteq> CHR ''#'' \<Longrightarrow> fst (headingLevel l) = 0"
proof (rule ccontr)
  assume a: "TrimSpace (mdText l) = [] \<or> hd (TrimSpace (mdText l)) \<noteq> CHR ''#''" and "fst (headingLevel l) \<noteq> 0"
  then obtain r where "mdText l = CHR ''#'' # r" using heading_hash[of l] by auto
  then show False using a TrimSpace_hash[of r] by auto
qed

lemma item_step_blank: "blank (mdText l) \<Longrightarrow> item_step st l = (if mdInCode l then st else (False, snd st))"
  using no_heading[of l] by (simp add: item_step_def blank_def split_beta Let_def bullet_def HasPrefix_def)

lemma blank_items: "list_all blank bs \<Longrightarrow> snd (foldl item_step st (split_go i f bs)) = snd st"
proof (induction bs arbitrary: st i)
  case (Cons b bs)
  let ?l = "\<lambda>c. \<lparr>mdN = Suc i, mdText = b, mdInCode = c\<rparr>"
  have "snd (item_step st (?l c)) = snd st" for c using item_step_blank[of "?l c" st] Cons.prems by simp
  then show ?case using Cons blank_not_fence[of b] by (auto simp: Let_def)
qed simp

lemma blank_fence: "list_all blank bs \<Longrightarrow> fence_after f bs = f"
  by (induction bs) (auto simp: Let_def blank_not_fence)

lemma trim_end_decomp: "\<exists>bs. ls = trim_end ls @ bs \<and> list_all blank bs"
proof -
  have "ls = trim_end ls @ rev (takeWhile blank (rev ls))"
    unfolding trim_end_def by (metis rev_append rev_rev_ident takeWhile_dropWhile_id)
  moreover have "list_all blank (rev (takeWhile blank (rev ls)))" by (auto simp: list_all_iff dest: set_takeWhileD)
  ultimately show ?thesis by blast
qed

section \<open>Adding lines to next.md\<close>

lemma raw_lines_Join:
  assumes "ls \<noteq> []" and "\<forall>l\<in>set ls. LF \<notin> set l \<and> CR \<notin> set l"
  shows "raw_lines (Join ls [LF] @ [LF]) = ls"
proof -
  have "CR \<notin> set (Join ls [LF])" using set_Join_subset[of ls "[LF]"] assms(2) by auto
  then have "crlf_to_lf (Join ls [LF] @ [LF]) = Join ls [LF] @ [LF]" by (intro crlf_to_lf_id) simp
  moreover have "split_char LF (Join ls [LF] @ LF # []) = split_char LF (Join ls [LF]) @ split_char LF []"
    by (rule split_char_append_any)
  moreover have "split_char LF (Join ls [LF]) = ls" using assms by (intro split_char_Join) auto
  ultimately show ?thesis using assms(1) by (simp add: raw_lines_def)
qed

lemma trim_end_TrimRight: "trim_end (split_char LF (TrimRight s [LF])) = trim_end (split_char LF s)"
proof -
  obtain w where w: "s = TrimRight s [LF] @ w" "set w \<subseteq> {LF}" using TrimRight_decomp[of s "[LF]"] by auto
  have "trim_end (split_char LF (t @ w)) = trim_end (split_char LF t)" for t
    using w(2)
  proof (induction w arbitrary: t)
    case (Cons c w)
    then have "trim_end (split_char LF (t @ c # w)) = trim_end (split_char LF ((t @ [LF]) @ w))" by simp
    also have "\<dots> = trim_end (split_char LF (t @ [LF]))" by (rule Cons.IH) (use Cons.prems in simp)
    also have "split_char LF (t @ [LF]) = split_char LF t @ [[]]" using split_char_append_any[of LF t "[]"] by simp
    also have "trim_end (split_char LF t @ [[]]) = trim_end (split_char LF t)" by (simp add: trim_end_def blank_def)
    finally show ?case .
  qed simp
  from this[of "TrimRight s [LF]"] show ?thesis using w(1) by simp
qed

lemma trim_end_raw: "trim_end (raw_lines d) = trim_end (split_char LF (crlf_to_lf d))"
proof -
  have "trim_end (butlast raw) = trim_end raw" if "raw \<noteq> []" "last raw = []" for raw :: "string list"
  proof -
    have "trim_end (butlast raw @ [[]]) = trim_end (butlast raw)" by (simp add: trim_end_def blank_def)
    then show ?thesis using that by (metis append_butlast_last_id)
  qed
  then show ?thesis by (auto simp: raw_lines_def Let_def)
qed

lemma last_file_lines:
  assumes "CR \<notin> set (crlf_to_lf d)"
  shows "\<forall>l\<in>set (trim_end (raw_lines d)). LF \<notin> set l \<and> CR \<notin> set l"
proof
  fix l assume l: "l \<in> set (trim_end (raw_lines d))"
  then have "l \<in> set (raw_lines d)" by (auto simp: trim_end_def dest: set_dropWhileD)
  moreover have "l \<in> set (split_char LF (crlf_to_lf d))" using l unfolding trim_end_raw by (auto simp: trim_end_def dest: set_dropWhileD)
  ultimately show "LF \<notin> set l \<and> CR \<notin> set l" using raw_lines_free Join_part_chars[of l "split_char LF (crlf_to_lf d)" "[LF]"] assms by (auto simp: Join_split_char)
qed

text \<open>The items of a file, and the state of the fold at the end of its last line that is not blank.\<close>

lemma file_items:
  assumes "fence_after [] (raw_lines d) = []"
  shows "fence_after [] (trim_end (raw_lines d)) = []"
    and "snd (foldl item_step (False, []) (split_go 0 [] (trim_end (raw_lines d)))) = NextFileItems d"
proof -
  obtain bs where bs: "raw_lines d = trim_end (raw_lines d) @ bs" "list_all blank bs" using trim_end_decomp by blast
  show f: "fence_after [] (trim_end (raw_lines d)) = []" using assms bs blank_fence[OF bs(2)] by (metis fence_after_append)
  have "NextFileItems d = snd (foldl item_step (False, []) (split_go 0 [] (raw_lines d)))"
    by (simp add: NextFileItems_def nextListItems_def items_fold splitLines_def)
  also have "\<dots> = snd (foldl item_step (False, []) (split_go 0 [] (trim_end (raw_lines d))))"
    by (subst bs(1)) (simp add: split_go_append blank_items[OF bs(2)])
  finally show "snd (foldl item_step (False, []) (split_go 0 [] (trim_end (raw_lines d)))) = NextFileItems d" by simp
qed

definition old_items :: "string option \<Rightarrow> string list" where
  "old_items next = (case next of None \<Rightarrow> [] | Some d \<Rightarrow> NextFileItems d)"

text \<open>A file whose code blocks are all closed and whose lines end in no lone carriage return.\<close>

definition closed_file :: "string option \<Rightarrow> bool" where
  "closed_file next = (case next of None \<Rightarrow> True | Some d \<Rightarrow> fence_after [] (raw_lines d) = [] \<and> CR \<notin> set (crlf_to_lf d))"

definition new_lines_ok :: "string list \<Rightarrow> bool" where
  "new_lines_ok xs \<longleftrightarrow> (\<forall>x\<in>set xs. LF \<notin> set x \<and> CR \<notin> set x \<and> \<not> is_fence (TrimSpace x))"

lemma appendNextMD_items:
  assumes "closed_file next" and "new_lines_ok new" and "new \<noteq> []"
  shows "\<exists>op. NextFileItems (appendNextMD next new) = snd (foldl item_step (op, old_items next) (map plain new))"
proof -
  define d where "d = (case next of None \<Rightarrow> nextMDSkeleton | Some d \<Rightarrow> d)"
  have sk: "fence_after [] (raw_lines nextMDSkeleton) = []" "CR \<notin> set (crlf_to_lf nextMDSkeleton)" "NextFileItems nextMDSkeleton = []"
    "crlf_to_lf nextMDSkeleton = nextMDSkeleton" by code_simp+
  have cl: "fence_after [] (raw_lines d) = []" "CR \<notin> set (crlf_to_lf d)" and old: "NextFileItems d = old_items next"
    using assms(1) sk by (auto simp: closed_file_def d_def old_items_def split: option.splits)
  let ?ls = "trim_end (raw_lines d)"
  have ls: "trim_end (split_char LF (TrimRight (case next of None \<Rightarrow> nextMDSkeleton | Some d \<Rightarrow> crlf_to_lf d) [LF])) = ?ls"
    unfolding trim_end_TrimRight trim_end_raw d_def using sk(4) by (cases "next") simp_all
  define gap where "gap = (if ?ls \<noteq> [] \<and> (\<not> isListLine (last ?ls) \<or> \<not> isListLine (hd new)) then [[]] else [] :: string list)"
  have app: "appendNextMD next new = Join (?ls @ gap @ new) [LF] @ [LF]"
  proof -
    obtain a r where new: "new = a # r" using assms(3) by (cases new) auto
    have "appendNextMD next new =
      (let ls = trim_end (split_char LF (TrimRight (case next of None \<Rightarrow> nextMDSkeleton | Some d \<Rightarrow> crlf_to_lf d) [LF]));
           gp = (if ls \<noteq> [] \<and> (\<not> isListLine (last ls) \<or> \<not> isListLine (hd new)) then [[]] else [])
       in Join (ls @ gp @ new) [LF] @ [LF])"
      by (cases "next") (simp_all add: appendNextMD_def new Let_def)
    then show ?thesis unfolding ls Let_def gap_def .
  qed
  have gap: "new_lines_ok (gap @ new)" using assms(2) by (auto simp: new_lines_ok_def gap_def is_fence_def HasPrefix_def)
  have raw: "raw_lines (appendNextMD next new) = ?ls @ gap @ new"
    unfolding app using last_file_lines[OF cl(2)] gap assms(3) by (intro raw_lines_Join) (auto simp: new_lines_ok_def)
  let ?st = "foldl item_step (False, []) (split_go 0 [] ?ls)"
  have "NextFileItems (appendNextMD next new) = snd (foldl item_step ?st (split_go (length ?ls) [] (gap @ new)))"
    using file_items(1)[OF cl(1)] by (simp add: NextFileItems_def nextListItems_def items_fold splitLines_def raw split_go_append)
  also have "\<dots> = snd (foldl item_step ?st (map plain (gap @ new)))"
    using gap by (subst fold_plain) (auto simp: new_lines_ok_def list_all_iff)
  also have "\<dots> = snd (foldl item_step (foldl item_step ?st (map plain gap)) (map plain new))" by simp
  finally have eq: "NextFileItems (appendNextMD next new) = snd (foldl item_step (foldl item_step ?st (map plain gap)) (map plain new))" .
  have "snd (foldl item_step ?st (map plain gap)) = old_items next"
    using file_items(2)[OF cl(1)] old item_step_blank[of "plain []"] by (simp add: gap_def plain_def blank_def)
  then have "foldl item_step ?st (map plain gap) = (fst (foldl item_step ?st (map plain gap)), old_items next)" by (metis prod.collapse)
  with eq show ?thesis by metis
qed

section \<open>What the move carries\<close>

text \<open>The item a bullet line and the lines that go on with it make.\<close>

definition item_of :: "string \<Rightarrow> string list \<Rightarrow> string" where
  "item_of b conts = foldl (\<lambda>a x. a @ '' '' @ TrimSpace x) (TrimSpace (drop 2 (TrimSpace b))) conts"

definition wf_chunk :: "nextChunk \<Rightarrow> bool" where
  "wf_chunk c \<longleftrightarrow> (case ckRaw c of
      [] \<Rightarrow> False
    | b # conts \<Rightarrow>
        if bullet (TrimSpace b)
        then ckItem c = item_of b conts \<and> \<not> ckBlank c
          \<and> list_all (\<lambda>x. TrimSpace x \<noteq> [] \<and> \<not> bullet (TrimSpace x) \<and> (HasPrefix x '' '' \<or> HasPrefix x [TAB])) conts
        else conts = [] \<and> ckItem c = [] \<and> ckBlank c = blank b)"

lemma strip_all_suffix: "strip us s = [] \<Longrightarrow> s \<noteq> [] \<Longrightarrow> \<exists>u\<in>set us. u \<noteq> [] \<and> (\<exists>p. s = p @ u)"
proof (induction us s rule: strip.induct)
  case (1 us s)
  have k: "lead_len us s \<noteq> 0" using "1.prems" by (auto simp: strip.simps[of us s] split: if_splits)
  then have st: "strip us (drop (lead_len us s) s) = []" using "1.prems" by (simp add: strip.simps[of us s])
  show ?case
  proof (cases "drop (lead_len us s) s = []")
    case True
    from k obtain u where u: "u \<in> set us" "u \<noteq> []" "HasPrefix s u" "lead_len us s = length u" using lead_len_prefix by blast
    then have "s = u" using True by (auto simp: HasPrefix_iff)
    then show ?thesis using u by (intro bexI[of _ u]) auto
  next
    case False
    have "\<not> (s = [] \<or> lead_len us s = 0)" using k "1.prems" by simp
    from "1.IH"[OF this st False] obtain u p where "u \<in> set us" "u \<noteq> []" "drop (lead_len us s) s = p @ u" by blast
    then show ?thesis by (metis append.assoc append_take_drop_id)
  qed
qed

lemma TrimSpace_nil_end:
  assumes "TrimSpace r = []" and "r \<noteq> []"
  shows "lead_len (map rev space_runes) (rev (x @ r)) \<noteq> 0"
proof -
  obtain p where p: "r = p @ strip space_runes r" using strip_suffix by blast
  have "\<exists>u\<in>set space_runes. u \<noteq> [] \<and> (\<exists>q. r = q @ u)"
  proof (cases "strip space_runes r = []")
    case True
    then show ?thesis using strip_all_suffix assms(2) by blast
  next
    case False
    have "strip (map rev space_runes) (rev (strip space_runes r)) = []" using assms(1) by (simp add: TrimSpace_def)
    then have "lead_len (map rev space_runes) (rev (strip space_runes r)) \<noteq> 0"
      using False by (auto simp: strip.simps[of "map rev space_runes"] split: if_splits)
    then obtain u where "u \<in> set space_runes" "u \<noteq> []" "HasPrefix (rev (strip space_runes r)) (rev u)"
      unfolding lead_len_0_iff by auto
    then have "u \<in> set space_runes \<and> u \<noteq> [] \<and> (\<exists>q. strip space_runes r = q @ u)" by (auto simp: HasPrefix_iff) (metis rev_append rev_rev_ident)
    then show ?thesis using p by (metis append.assoc)
  qed
  then obtain u q where u: "u \<in> set space_runes" "u \<noteq> []" "r = q @ u" by blast
  then have "HasPrefix (rev (x @ r)) (rev u)" by (simp add: HasPrefix_iff)
  then show ?thesis using u unfolding lead_len_0_iff by auto
qed

lemma bullet_item: "bullet (TrimSpace b) \<Longrightarrow> TrimSpace (drop 2 (TrimSpace b)) \<noteq> []"
proof
  assume b: "bullet (TrimSpace b)" and nil: "TrimSpace (drop 2 (TrimSpace b)) = []"
  from b obtain c r where t: "TrimSpace b = c # CHR '' '' # r" by (auto simp: bullet_def HasPrefix_iff)
  then have r: "TrimSpace r = []" using nil by simp
  have "r \<noteq> []" using TrimSpace_last[of b] t by auto
  from TrimSpace_nil_end[OF r this, of "[c, CHR '' '']"] have "lead_len (map rev space_runes) (rev (TrimSpace b)) \<noteq> 0" using t by simp
  then show False using TrimSpace_ends(2)[of b] t by simp
qed

lemma item_of_ne: "bullet (TrimSpace b) \<Longrightarrow> item_of b conts \<noteq> []"
  unfolding item_of_def using bullet_item[of b] by (induction conts rule: rev_induct) auto

lemma step_bullet: "bullet (TrimSpace b) \<Longrightarrow> item_step (op, out) (plain b) = (True, out @ [TrimSpace (drop 2 (TrimSpace b))])"
proof -
  assume b: "bullet (TrimSpace b)"
  then have "TrimSpace b \<noteq> [] \<and> hd (TrimSpace b) \<noteq> CHR ''#''" by (auto simp: bullet_def HasPrefix_iff)
  then have "fst (headingLevel (plain b)) = 0" using no_heading[of "plain b"] by (simp add: plain_def)
  then show ?thesis using b bullet_item[OF b] by (simp add: item_step_def Let_def) (simp add: plain_def)
qed

lemma step_cont:
  assumes "TrimSpace x \<noteq> []" and "\<not> bullet (TrimSpace x)" and "HasPrefix x '' '' \<or> HasPrefix x [TAB]"
  shows "item_step (True, out @ [i]) (plain x) = (True, out @ [i @ '' '' @ TrimSpace x])"
proof -
  have "fst (headingLevel (plain x)) = 0"
  proof (rule ccontr)
    assume "fst (headingLevel (plain x)) \<noteq> 0"
    then obtain r where "x = CHR ''#'' # r" using heading_hash[of "plain x"] by (auto simp: plain_def)
    then show False using assms(3) by (auto simp: HasPrefix_def)
  qed
  then show ?thesis using assms by (simp add: item_step_def Let_def isListLine_def) (auto simp: plain_def)
qed

lemma step_other: "\<not> bullet (TrimSpace x) \<Longrightarrow> \<not> isListLine x \<Longrightarrow> item_step (op, out) (plain x) = (False, out)"
  by (simp add: item_step_def plain_def Let_def)

text \<open>A well-formed chunk is read back as its item; any other line must not be an indented one, which would go on with the item above it.\<close>

lemma read_chunk:
  assumes "wf_chunk c" and "ckItem c = [] \<Longrightarrow> \<not> isListLine (hd (ckRaw c))"
  shows "\<exists>op'. foldl item_step (op, out) (map plain (ckRaw c)) = (op', out @ (if ckItem c = [] then [] else [ckItem c]))"
proof -
  obtain b conts where raw: "ckRaw c = b # conts" using assms(1) by (auto simp: wf_chunk_def split: list.splits)
  show ?thesis
  proof (cases "bullet (TrimSpace b)")
    case True
    then have i: "ckItem c = item_of b conts" and
      cs: "list_all (\<lambda>x. TrimSpace x \<noteq> [] \<and> \<not> bullet (TrimSpace x) \<and> (HasPrefix x '' '' \<or> HasPrefix x [TAB])) conts"
      using assms(1) raw by (simp_all add: wf_chunk_def)
    have "foldl item_step (True, out @ [j]) (map plain conts) = (True, out @ [foldl (\<lambda>a x. a @ '' '' @ TrimSpace x) j conts])" for j
      using cs
    proof (induction conts arbitrary: j)
      case (Cons x xs)
      have "item_step (True, out @ [j]) (plain x) = (True, out @ [j @ '' '' @ TrimSpace x])"
        using Cons.prems by (intro step_cont) simp_all
      then show ?case using Cons.IH[of "j @ '' '' @ TrimSpace x"] Cons.prems by simp
    qed simp
    then have "foldl item_step (op, out) (map plain (ckRaw c)) = (True, out @ [ckItem c])"
      by (simp add: raw step_bullet[OF True] i item_of_def)
    then show ?thesis using item_of_ne[OF True, of conts] i by auto
  next
    case False
    then show ?thesis using assms raw step_other[OF False] by (auto simp: wf_chunk_def)
  qed
qed

lemma foldl_chunk_items:
  assumes "\<forall>c\<in>set cs. wf_chunk c \<and> (ckItem c = [] \<longrightarrow> \<not> isListLine (hd (ckRaw c)))"
  shows "plan_block seen lb cs = (mv, du, bl) \<Longrightarrow> snd (foldl item_step (op, out) (map plain bl)) = out @ mv"
  using assms
proof (induction seen lb cs arbitrary: mv du bl op out rule: plan_block.induct)
  case (2 seen lb c cs)
  obtain mv1 du1 bl1 where p1: "plan_block seen lb cs = (mv1, du1, bl1)" by (cases "plan_block seen lb cs")
  let ?seen = "if ckItem c \<noteq> [] then ckItem c # seen else seen"
  obtain mv2 du2 bl2 where p2: "plan_block ?seen (ckBlank c) cs = (mv2, du2, bl2)" by (cases "plan_block ?seen (ckBlank c) cs")
  have rest: "\<forall>c\<in>set cs. wf_chunk c \<and> (ckItem c = [] \<longrightarrow> \<not> isListLine (hd (ckRaw c)))" using "2.prems"(2) by simp
  consider (dup) "ckItem c \<noteq> [] \<and> ckItem c \<in> set seen" | (skip) "\<not> (ckItem c \<noteq> [] \<and> ckItem c \<in> set seen)" "ckItem c = [] \<and> ckBlank c \<and> lb"
    | (kept) "\<not> (ckItem c \<noteq> [] \<and> ckItem c \<in> set seen)" "\<not> (ckItem c = [] \<and> ckBlank c \<and> lb)" by blast
  then show ?case
  proof cases
    case dup
    then show ?thesis using "2.IH"(1)[OF _ p1 rest] "2.prems"(1) p1 by auto
  next
    case skip
    then show ?thesis using "2.IH"(2)[OF _ _ p1 rest] "2.prems"(1) p1 by auto
  next
    case kept
    then have e: "mv = (if ckItem c \<noteq> [] then ckItem c # mv2 else mv2)" "bl = ckRaw c @ bl2" using "2.prems"(1) p2 by auto
    obtain op' where r: "foldl item_step (op, out) (map plain (ckRaw c)) = (op', out @ (if ckItem c = [] then [] else [ckItem c]))"
      using read_chunk[of c op out] "2.prems"(2) by auto
    have "snd (foldl item_step (op', out') (map plain bl2)) = out' @ mv2" for op' out'
      using "2.IH"(3)[OF kept p2 rest] by blast
    then show ?thesis using e r by auto
  qed
qed simp

text \<open>Every item is moved, or was there before.\<close>

lemma plan_block_covers:
  "plan_block seen lb cs = (mv, du, bl) \<Longrightarrow> c \<in> set cs \<Longrightarrow> ckItem c \<noteq> [] \<Longrightarrow> ckItem c \<in> set seen \<union> set mv"
proof (induction seen lb cs arbitrary: mv du bl rule: plan_block.induct)
  case (2 seen lb d cs)
  obtain mv1 du1 bl1 where p1: "plan_block seen lb cs = (mv1, du1, bl1)" by (cases "plan_block seen lb cs")
  let ?seen = "if ckItem d \<noteq> [] then ckItem d # seen else seen"
  obtain mv2 du2 bl2 where p2: "plan_block ?seen (ckBlank d) cs = (mv2, du2, bl2)" by (cases "plan_block ?seen (ckBlank d) cs")
  show ?case
  proof (cases "ckItem d \<noteq> [] \<and> ckItem d \<in> set seen")
    case True
    then show ?thesis using "2.IH"(1)[OF True p1] "2.prems" p1 by auto
  next
    case f: False
    show ?thesis
    proof (cases "ckItem d = [] \<and> ckBlank d \<and> lb")
      case True
      then show ?thesis using "2.IH"(2)[OF f True p1] "2.prems" p1 f by auto
    next
      case False
      then show ?thesis using "2.IH"(3)[OF f False p2] "2.prems" p2 f by (auto split: if_splits)
    qed
  qed
qed simp

definition raw_of :: "nextChunk list \<Rightarrow> string set" where
  "raw_of cs = (\<Union>c\<in>set cs. set (ckRaw c))"

lemma raw_of_simps [simp]: "raw_of [] = {}" "raw_of (xs @ ys) = raw_of xs \<union> raw_of ys" "raw_of (c # cs) = set (ckRaw c) \<union> raw_of cs"
  by (auto simp: raw_of_def)

lemma raw_of_butlast: "out \<noteq> [] \<Longrightarrow> raw_of (butlast out) \<union> set (ckRaw (last out)) = raw_of out"
  by (metis append_butlast_last_id raw_of_simps sup_bot.right_neutral)

lemma plan_block_new:
  "plan_block seen lb cs = (mv, du, bl) \<Longrightarrow> distinct mv \<and> set mv \<inter> set seen = {} \<and> set bl \<subseteq> raw_of cs"
proof (induction seen lb cs arbitrary: mv du bl rule: plan_block.induct)
  case (2 seen lb d cs)
  obtain mv1 du1 bl1 where p1: "plan_block seen lb cs = (mv1, du1, bl1)" by (cases "plan_block seen lb cs")
  let ?seen = "if ckItem d \<noteq> [] then ckItem d # seen else seen"
  obtain mv2 du2 bl2 where p2: "plan_block ?seen (ckBlank d) cs = (mv2, du2, bl2)" by (cases "plan_block ?seen (ckBlank d) cs")
  show ?case
  proof (cases "ckItem d \<noteq> [] \<and> ckItem d \<in> set seen")
    case True
    then show ?thesis using "2.IH"(1)[OF True p1] "2.prems" p1 by auto
  next
    case f: False
    show ?thesis
    proof (cases "ckItem d = [] \<and> ckBlank d \<and> lb")
      case True
      then show ?thesis using "2.IH"(2)[OF f True p1] "2.prems" p1 f by auto
    next
      case False
      then show ?thesis using "2.IH"(3)[OF f False p2] "2.prems" p2 f by (auto split: if_splits)
    qed
  qed
qed simp

section \<open>The chunks of a block\<close>

definition open_ok :: "bool \<Rightarrow> nextChunk list \<Rightarrow> bool" where
  "open_ok op out \<longleftrightarrow> (op \<longrightarrow> out \<noteq> [] \<and> (case ckRaw (last out) of [] \<Rightarrow> False | b # _ \<Rightarrow> bullet (TrimSpace b)))"

lemma read_chunks_wf:
  assumes "list_all (\<lambda>l. \<not> mdInCode l) ls" and "list_all wf_chunk out" and "open_ok op out"
  shows "list_all wf_chunk (read_chunks op out ls) \<and> raw_of (read_chunks op out ls) \<subseteq> raw_of out \<union> mdText ` set ls"
  using assms
proof (induction op out ls rule: read_chunks.induct)
  case (2 op out ln ls)
  let ?t = "TrimSpace (mdText ln)"
  have code: "\<not> mdInCode ln" "list_all (\<lambda>l. \<not> mdInCode l) ls" using "2.prems"(1) by simp_all
  consider (bullet) "bullet ?t" | (cont) "\<not> bullet ?t" "op \<and> ?t \<noteq> [] \<and> isListLine (mdText ln)" | (other) "\<not> bullet ?t" "\<not> (op \<and> ?t \<noteq> [] \<and> isListLine (mdText ln))" by blast
  then show ?case
  proof cases
    case bullet
    let ?c = "\<lparr>ckItem = TrimSpace (drop 2 ?t), ckRaw = [mdText ln], ckBlank = False\<rparr>"
    have "wf_chunk ?c" using bullet by (simp add: wf_chunk_def item_of_def)
    then have ok: "list_all wf_chunk (out @ [?c])" "open_ok (TrimSpace (drop 2 ?t) \<noteq> []) (out @ [?c])"
      using "2.prems"(2) bullet by (simp_all add: open_ok_def)
    have "read_chunks op out (ln # ls) = read_chunks (TrimSpace (drop 2 ?t) \<noteq> []) (out @ [?c]) ls" using code bullet by (simp add: Let_def)
    then show ?thesis using "2.IH"(2)[OF refl code(1) bullet code(2) ok] by auto
  next
    case cont
    let ?c = "(last out)\<lparr>ckItem := ckItem (last out) @ '' '' @ ?t, ckRaw := ckRaw (last out) @ [mdText ln]\<rparr>"
    have ne: "out \<noteq> []" using "2.prems"(3) cont by (simp add: open_ok_def)
    obtain b conts where b: "ckRaw (last out) = b # conts" "bullet (TrimSpace b)"
      using "2.prems"(3) cont by (auto simp: open_ok_def split: list.splits)
    have l: "wf_chunk (last out)" "list_all wf_chunk (butlast out)"
      using "2.prems"(2) ne by (auto simp: list_all_iff dest: in_set_butlastD)
    have "wf_chunk ?c" using l(1) b cont by (auto simp: wf_chunk_def item_of_def isListLine_def Let_def)
    then have ok: "list_all wf_chunk (butlast out @ [?c])" "open_ok op (butlast out @ [?c])" using l(2) b by (simp_all add: open_ok_def)
    have "read_chunks op out (ln # ls) = read_chunks op (butlast out @ [?c]) ls" using code cont by (simp add: Let_def)
    moreover have "raw_of (butlast out @ [?c]) = raw_of out \<union> {mdText ln}" using raw_of_butlast[OF ne] by auto
    ultimately show ?thesis using "2.IH"(3)[OF refl code(1) cont code(2) ok] by simp
  next
    case other
    let ?c = "\<lparr>ckItem = [], ckRaw = [mdText ln], ckBlank = (?t = [])\<rparr>"
    have "wf_chunk ?c" using other by (simp add: wf_chunk_def blank_def)
    then have ok: "list_all wf_chunk (out @ [?c])" "open_ok False (out @ [?c])" using "2.prems"(2) by (simp_all add: open_ok_def)
    have "read_chunks op out (ln # ls) = read_chunks False (out @ [?c]) ls" 
      by (simp only: read_chunks.simps(2) Let_def if_not_P[OF code(1)] if_not_P[OF other(1)] if_not_P[OF other(2)])
    then show ?thesis using "2.IH"(4)[OF refl code(1) other code(2) ok] by auto
  qed
qed simp

text \<open>The lines of the block, in the order they are read.\<close>

definition block_slices :: "roadmapNextLayout \<Rightarrow> mdLine list \<Rightarrow> mdLine list list" where
  "block_slices lay ls =
     (case nlLabel lay of None \<Rightarrow> [] | Some lab \<Rightarrow> [slice (lab + 1) (nlLabelEnd lay) ls])
     @ (case (nlPointer lay, nlResidueEnd lay) of (Some p, Some e) \<Rightarrow> [slice (p + 1) e ls] | _ \<Rightarrow> [])
     @ map (\<lambda>(a, b). slice (a + 1) b ls) (nlSections lay)"

lemma chunks_fold: "chunks lay ls = foldl (read_chunks False) [] (block_slices lay ls)"
proof -
  have "foldl (\<lambda>c (a, b). read_chunks False c (slice (a + 1) b ls)) c0 ss = foldl (read_chunks False) c0 (map (\<lambda>(a, b). slice (a + 1) b ls) ss)" for c0 ss
    by (induction ss arbitrary: c0) auto
  then show ?thesis by (auto simp: chunks_def block_slices_def Let_def split: option.splits)
qed

lemma chunks_wf:
  assumes "\<forall>sl\<in>set sls. list_all (\<lambda>l. \<not> mdInCode l) sl" and "list_all wf_chunk out"
  shows "list_all wf_chunk (foldl (read_chunks False) out sls) \<and> raw_of (foldl (read_chunks False) out sls) \<subseteq> raw_of out \<union> mdText ` \<Union> (set ` set sls)"
  using assms
proof (induction sls arbitrary: out)
  case (Cons sl sls)
  have op: "open_ok False out" by (simp add: open_ok_def)
  have w: "list_all wf_chunk (read_chunks False out sl)" "raw_of (read_chunks False out sl) \<subseteq> raw_of out \<union> mdText ` set sl"
    using read_chunks_wf[OF _ Cons.prems(2) op, of sl] Cons.prems(1) by simp_all
  have ih: "list_all wf_chunk (foldl (read_chunks False) (read_chunks False out sl) sls)"
    "raw_of (foldl (read_chunks False) (read_chunks False out sl) sls) \<subseteq> raw_of (read_chunks False out sl) \<union> mdText ` \<Union> (set ` set sls)"
    using Cons.IH[OF _ w(1)] Cons.prems(1) by simp_all
  have "raw_of (foldl (read_chunks False) (read_chunks False out sl) sls) \<subseteq> (raw_of out \<union> mdText ` set sl) \<union> mdText ` \<Union> (set ` set sls)"
    by (rule subset_trans[OF ih(2)]) (intro Un_mono w(2) order_refl)
  then show ?case using ih(1) by (simp add: image_Un Un_assoc)
qed simp

end
