(* ===== verification/NextKeeps.thy ===== *)
theory NextKeeps
  imports NextFacts
begin

text \<open>
  \<open>ape next move\<close> loses no item: what \<open>NextItems\<close> reads of a roadmap is among the pieces \<open>chunks\<close> cuts the block into, and each
  of those is an item of the \<open>next.md\<close> it writes.
\<close>

section \<open>Pieces and items\<close>

lemma read_chunks_keeps: "set (if op then butlast cs else cs) \<subseteq> set (read_chunks op cs ls)"
proof (induction op cs ls rule: read_chunks.induct)
  case (2 op cs ln ls)
  let ?t = "TrimSpace (mdText ln)"
  have sub: "set (if op then butlast cs else cs) \<subseteq> set cs" by (auto dest: in_set_butlastD)
  consider (code) "mdInCode ln" | (bullet) "\<not> mdInCode ln" "bullet ?t"
    | (cont) "\<not> mdInCode ln" "\<not> bullet ?t" "op \<and> ?t \<noteq> [] \<and> isListLine (mdText ln)"
    | (other) "\<not> mdInCode ln" "\<not> bullet ?t" "\<not> (op \<and> ?t \<noteq> [] \<and> isListLine (mdText ln))" by blast
  then show ?case
  proof cases
    case code
    then show ?thesis using "2.IH"(1)[OF refl code] by (intro subset_trans[OF sub]) (simp add: Let_def)
  next
    case bullet
    then show ?thesis using "2.IH"(2)[OF refl bullet] by (intro subset_trans[OF sub]) (simp add: Let_def split: if_splits)
  next
    case cont
    then show ?thesis using "2.IH"(3)[OF refl cont] by (simp add: Let_def)
  next
    case other
    have "read_chunks op cs (ln # ls) = read_chunks False (cs @ [\<lparr>ckItem = [], ckRaw = [mdText ln], ckBlank = (?t = [])\<rparr>]) ls"
      by (simp only: read_chunks.simps(2) Let_def if_not_P[OF other(1)] if_not_P[OF other(2)] if_not_P[OF other(3)])
    then show ?thesis using "2.IH"(4)[OF refl other] by (intro subset_trans[OF sub]) simp
  qed
qed (auto dest: in_set_butlastD)

definition named :: "nextChunk list \<Rightarrow> string list" where
  "named cs = filter (\<lambda>x. x \<noteq> []) (map ckItem cs)"

lemma named_set: "set (named cs) \<subseteq> ckItem ` set cs"
  by (auto simp: named_def)

lemma named_sub: "named cs = pre @ out \<Longrightarrow> set cs \<subseteq> set ds \<Longrightarrow> set out \<subseteq> ckItem ` set ds"
  by (rule order_trans[OF _ order_trans[OF named_set[of cs] image_mono]]) simp_all

lemma items_in_chunks:
  assumes "list_all (\<lambda>l. \<not> mdInCode l) ls" and "named cs = pre @ out" and "op \<longrightarrow> cs \<noteq> [] \<and> ckItem (last cs) \<noteq> [] \<and> out \<noteq> []"
  shows "set (next_list_items lab True op out ls) \<subseteq> ckItem ` set (read_chunks op cs ls)"
  using assms
proof (induction ls arbitrary: op out cs)
  case Nil
  then show ?case using named_sub[OF Nil(2) order_refl] by simp
next
  case (Cons ln ls)
  let ?t = "TrimSpace (mdText ln)" and ?o = "\<lparr>ckItem = [], ckRaw = [mdText ln], ckBlank = (TrimSpace (mdText ln) = [])\<rparr>"
  have code: "\<not> mdInCode ln" "list_all (\<lambda>l. \<not> mdInCode l) ls" using Cons.prems(1) by simp_all
  have plain: "named (cs @ [?o]) = pre @ out" using Cons.prems(2) by (simp add: named_def)
  have stop: "set out \<subseteq> ckItem ` set (read_chunks False (cs @ [?o]) ls)"
    using read_chunks_keeps[of False "cs @ [?o]" ls] by (intro named_sub[OF plain]) simp
  have other: "read_chunks op cs (ln # ls) = read_chunks False (cs @ [?o]) ls"
    if "\<not> bullet ?t" "\<not> (op \<and> ?t \<noteq> [] \<and> isListLine (mdText ln))"
    by (simp only: read_chunks.simps(2) Let_def if_not_P[OF code(1)] if_not_P[OF that(1)] if_not_P[OF that(2)])
  consider (heading) "fst (headingLevel ln) > 0" | (bullet) "fst (headingLevel ln) = 0" "bullet ?t"
    | (cont) "fst (headingLevel ln) = 0" "\<not> bullet ?t" "op \<and> ?t \<noteq> [] \<and> isListLine (mdText ln)"
    | (rest) "fst (headingLevel ln) = 0" "\<not> bullet ?t" "\<not> (op \<and> ?t \<noteq> [] \<and> isListLine (mdText ln))" by blast
  then show ?case
  proof cases
    case heading
    then obtain r where r: "mdText ln = CHR ''#'' # r" using heading_hash by blast
    then have "hd ?t = CHR ''#''" using TrimSpace_hash[of r] by auto
    then have "\<not> bullet ?t" by (auto simp: bullet_def HasPrefix_iff)
    moreover have "\<not> isListLine (mdText ln)" using calculation r by (simp add: isListLine_def Let_def HasPrefix_def)
    ultimately show ?thesis using heading code other stop by simp
  next
    case bullet
    have ne: "TrimSpace (drop 2 ?t) \<noteq> []" by (rule bullet_item[OF bullet(2)])
    let ?c = "\<lparr>ckItem = TrimSpace (drop 2 ?t), ckRaw = [mdText ln], ckBlank = False\<rparr>"
    have "named (cs @ [?c]) = pre @ (out @ [TrimSpace (drop 2 ?t)])" using Cons.prems(2) ne by (simp add: named_def)
    then show ?thesis using Cons.IH[OF code(2), of "cs @ [?c]" "out @ [TrimSpace (drop 2 ?t)]" True] bullet ne code by (simp add: Let_def)
  next
    case cont
    let ?c = "(last cs)\<lparr>ckItem := ckItem (last cs) @ '' '' @ ?t, ckRaw := ckRaw (last cs) @ [mdText ln]\<rparr>"
    have l: "cs \<noteq> []" "ckItem (last cs) \<noteq> []" "out \<noteq> []" using Cons.prems(3) cont by simp_all
    obtain cs0 o0 x where cs: "cs = cs0 @ [last cs]" and o: "out = o0 @ [x]" using l(1,3) by (metis append_butlast_last_id rev_exhaust)
    have "named (cs0 @ [last cs]) = (pre @ o0) @ [x]" using Cons.prems(2) cs o by simp
    then have n: "named cs0 = pre @ o0" "x = ckItem (last cs)" using l(2) by (simp_all add: named_def)
    have "named (butlast cs) = pre @ butlast out" using cs o n(1) by (metis butlast_snoc)
    moreover have "last out = ckItem (last cs)" using n(2) by (simp only: o last_snoc)
    ultimately have "named (butlast cs @ [?c]) = pre @ (butlast out @ [last out @ '' '' @ ?t])" by (simp add: named_def)
    then show ?thesis
      using Cons.IH[OF code(2), of "butlast cs @ [?c]" "butlast out @ [last out @ '' '' @ ?t]" op] cont code by (simp add: Let_def)
  next
    case rest
    have "set (next_list_items lab True op out (ln # ls)) \<subseteq> set out \<union> set (next_list_items lab True False out ls)"
      using rest code by (auto simp: Let_def)
    moreover have "set (next_list_items lab True False out ls) \<subseteq> ckItem ` set (read_chunks False (cs @ [?o]) ls)"
      by (rule Cons.IH[OF code(2) plain]) simp
    ultimately show ?thesis unfolding other[OF rest(2,3)] using stop by (meson Un_least subset_trans)
  qed
qed

section \<open>Where a list stops\<close>

text \<open>A heading ends a list, and so does text below a label; blank lines before either add nothing.\<close>

lemma heading_not_code: "0 < fst (headingLevel l) \<Longrightarrow> \<not> mdInCode l"
  by (auto simp: headingLevel_def)

lemma stop_heading:
  "w = [] \<or> fst (headingLevel (hd w)) > 0 \<Longrightarrow> next_list_items lab True op out (ys @ w) = next_list_items lab True op out ys"
proof (induction ys arbitrary: op out)
  case Nil
  then show ?case by (cases w) (auto simp: heading_not_code Let_def)
next
  case (Cons y ys)
  have "next_list_items lab True op out (ys @ w) = next_list_items lab True op out ys" for op out using Cons by blast
  then show ?case by (simp only: append_Cons next_list_items.simps)
qed

lemma blank_stop: "list_all blank (map mdText z) \<Longrightarrow> next_list_items lab True op out z = out"
proof (induction z arbitrary: op)
  case (Cons l z)
  then have "TrimSpace (mdText l) = []" by (simp add: blank_def)
  then show ?case using Cons no_heading[of l] by (simp add: Let_def bullet_def HasPrefix_def)
qed simp

lemma stop_text:
  assumes "list_all blank (map mdText z)" and "w = [] \<or> \<not> mdInCode (hd w) \<and> \<not> blank (mdText (hd w)) \<and> \<not> isListLine (mdText (hd w))"
  shows "next_list_items True True op out (ys @ z @ w) = next_list_items True True op out ys"
proof (induction ys arbitrary: op out)
  case Nil
  have "next_list_items True True op out (z @ w) = out" using assms(1)
  proof (induction z arbitrary: op)
    case Nil
    show ?case
    proof (cases w)
      case (Cons l r)
      then have l: "\<not> mdInCode l" "TrimSpace (mdText l) \<noteq> []" "\<not> isListLine (mdText l)"
        using assms(2) by (simp_all add: blank_def)
      then have "\<not> bullet (TrimSpace (mdText l))" by (simp add: isListLine_def Let_def)
      then show ?thesis using Cons l by (simp add: Let_def)
    qed simp
  next
    case (Cons l z)
    then have "TrimSpace (mdText l) = []" by (simp add: blank_def)
    then show ?case using Cons no_heading[of l] by (simp add: Let_def bullet_def HasPrefix_def)
  qed
  then show ?case by simp
next
  case (Cons y ys)
  then show ?case by (simp only: append_Cons next_list_items.simps)
qed

lemma block_end_split:
  assumes "list_all (\<lambda>l. \<not> mdInCode l) xs"
  shows "\<exists>y z w. xs = y @ z @ w \<and> list_all blank (map mdText z) \<and> (w = [] \<or> \<not> blank (mdText (hd w)) \<and> \<not> isListLine (mdText (hd w)))
    \<and> block_end_go e j xs = (if y = [] then e else j + length y)"
  using assms
proof (induction xs arbitrary: e j)
  case (Cons l xs)
  consider (item) "isListLine (mdText l)" | (text0) "\<not> isListLine (mdText l)" "\<not> blank (mdText l)" | (blank) "\<not> isListLine (mdText l)" "blank (mdText l)" by blast
  then show ?case
  proof cases
    case item
    obtain y z w where "xs = y @ z @ w" "list_all blank (map mdText z)" "w = [] \<or> \<not> blank (mdText (hd w)) \<and> \<not> isListLine (mdText (hd w))"
      "block_end_go (j + 1) (j + 1) xs = (if y = [] then j + 1 else j + 1 + length y)"
      using Cons.IH[of "j + 1" "j + 1"] Cons.prems by auto
    then show ?thesis using item Cons.prems by (intro exI[of _ "l # y"] exI[of _ z] exI[of _ w]) simp
  next
    case text0
    then show ?thesis using Cons.prems by (intro exI[of _ "[]"] exI[of _ "[]"] exI[of _ "l # xs"]) simp
  next
    case blank
    obtain y z w where yzw: "xs = y @ z @ w" "list_all blank (map mdText z)" "w = [] \<or> \<not> blank (mdText (hd w)) \<and> \<not> isListLine (mdText (hd w))"
      "block_end_go e (j + 1) xs = (if y = [] then e else j + 1 + length y)"
      using Cons.IH[of e "j + 1"] Cons.prems by auto
    show ?thesis
    proof (cases "y = []")
      case True
      then show ?thesis using yzw blank Cons.prems by (intro exI[of _ "[]"] exI[of _ "l # z"] exI[of _ w]) simp
    next
      case False
      then show ?thesis using yzw blank Cons.prems by (intro exI[of _ "l # y"] exI[of _ z] exI[of _ w]) simp
    qed
  qed
qed simp

lemma block_end_self:
  assumes "list_all (\<lambda>l. \<not> mdInCode l) xs"
  obtains y z w where "xs = y @ z @ w" "list_all blank (map mdText z)" "w = [] \<or> \<not> blank (mdText (hd w)) \<and> \<not> isListLine (mdText (hd w))"
    "block_end_go j j xs = j + length y"
  using block_end_split[OF assms, of j j] that by (metis add.right_neutral list.size(3))

text \<open>The lines \<open>blockEnd\<close> takes below line \<open>k\<close> hold every item the list below it has, when \<open>lim\<close> is a heading or the end.\<close>

lemma block_items:
  assumes "list_all (\<lambda>l. \<not> mdInCode l) ls" and "k < lim" and "lim \<le> length ls" and "lim < length ls \<longrightarrow> fst (headingLevel (ls ! lim)) > 0"
  shows "nextListItems (drop (k + 1) ls) True True = nextListItems (slice (k + 1) (blockEnd ls k lim) ls) True True"
proof -
  let ?xs = "drop (k + 1) (take lim ls)"
  have nocode: "list_all (\<lambda>l. \<not> mdInCode l) ?xs" using assms(1) by (auto simp: list_all_iff dest!: in_set_dropD in_set_takeD)
  obtain y z w where xs: "?xs = y @ z @ w" "list_all blank (map mdText z)" "w = [] \<or> \<not> blank (mdText (hd w)) \<and> \<not> isListLine (mdText (hd w))"
    and e: "blockEnd ls k lim = k + 1 + length y"
    using block_end_self[OF nocode, of "k + 1"] unfolding blockEnd_def by metis
  have split: "drop (k + 1) ls = ?xs @ drop lim ls" using assms(2) assms(3)
    using drop_append[of "k + 1" "take lim ls" "drop lim ls"] by simp
  have "slice (k + 1) (k + 1 + length y) ls = take (length y) (drop (k + 1) ls)" by (simp add: slice_def drop_take)
  also have "\<dots> = y" using split xs(1) by simp
  finally have sl: "slice (k + 1) (blockEnd ls k lim) ls = y" by (simp add: e)
  have "drop lim ls = [] \<or> fst (headingLevel (hd (drop lim ls))) > 0" using assms(3,4) by (cases "lim < length ls") (auto simp: hd_drop_conv_nth)
  then have "next_list_items True True False [] (?xs @ drop lim ls) = next_list_items True True False [] ?xs" by (rule stop_heading)
  also have "\<dots> = next_list_items True True False [] y"
  proof -
    have "w = [] \<or> \<not> mdInCode (hd w)" using nocode unfolding xs(1) by (cases w) simp_all
    then show ?thesis unfolding xs(1) using xs(2,3) by (intro stop_text) auto
  qed
  finally show ?thesis unfolding nextListItems_def split sl .
qed

section \<open>What the scan finds\<close>

definition is_h2 :: "mdLine \<Rightarrow> bool" where
  "is_h2 l \<longleftrightarrow> fst (headingLevel l) = 2"

definition first_at :: "(mdLine \<Rightarrow> bool) \<Rightarrow> nat \<Rightarrow> mdLine list \<Rightarrow> nat option" where
  "first_at P i xs = (if list_ex P xs then Some (i + length (takeWhile (\<lambda>l. \<not> P l) xs)) else None)"

lemma first_at_simps [simp]:
  "first_at P i [] = None" "first_at P i (x # xs) = (if P x then Some i else first_at P (i + 1) xs)"
  by (auto simp: first_at_def)

definition at_label :: "mdLine \<Rightarrow> bool" where
  "at_label l \<longleftrightarrow> nextLabelRe (TrimSpace (mdText l))"

definition at_pointer :: "mdLine \<Rightarrow> bool" where
  "at_pointer l \<longleftrightarrow> nextPointerRe (TrimSpace (mdText l))"

lemma suffix_last: "HasSuffix s (p @ [c]) \<Longrightarrow> s \<noteq> [] \<and> last s = c"
  unfolding HasSuffix_def HasPrefix_iff by (metis append_is_Nil_conv last_rev list.sel(1) not_Cons_self2 rev.simps(2) rev_append rev_is_Nil_conv rev_rev_ident append_Cons hd_append2)

lemma label_not_pointer: "at_label l \<Longrightarrow> \<not> at_pointer l"
proof
  assume "at_label l" "at_pointer l"
  let ?t = "TrimSpace (mdText l)"
  have "?t \<noteq> [] \<and> last ?t = CHR '':''" using \<open>at_label l\<close> suffix_last[of ?t "[]" "CHR '':''"] by (simp add: at_label_def nextLabelRe_def)
  moreover have "to_lower_ascii ?t \<noteq> [] \<and> last (to_lower_ascii ?t) = CHR '')''"
    using \<open>at_pointer l\<close> suffix_last[of "to_lower_ascii ?t" "''](next.md''"] suffix_last[of "to_lower_ascii ?t" "''](./next.md''"] by (auto simp: at_pointer_def nextPointerRe_def)
  ultimately show False by (simp add: to_lower_ascii_def last_map lower_char_def is_upper_def)
qed

lemma heading_no_label: "0 < fst (headingLevel l) \<Longrightarrow> \<not> at_label l \<and> \<not> at_pointer l"
proof -
  assume "0 < fst (headingLevel l)"
  then obtain r where "mdText l = CHR ''#'' # r" by (rule heading_hash)
  then obtain r' where "TrimSpace (mdText l) = CHR ''#'' # r'" using TrimSpace_hash[of r] by (metis list.collapse)
  then have "\<not> nextHeadingRe (TrimSpace (mdText l))" by (simp add: nextHeadingRe_def to_lower_ascii_def numeral_eq_Suc lower_char_def is_upper_def)
  then show ?thesis by (simp add: at_label_def at_pointer_def nextLabelRe_def nextPointerRe_def)
qed

lemma front_step:
  assumes "\<not> mdInCode l" and "\<not> is_h2 l" and "nlFirstH2 lay = n"
  shows "scan_step n (lay, None) (i, l) =
    (lay\<lparr>nlLabel := (if nlLabel lay = None \<and> at_label l then Some i else nlLabel lay),
         nlPointer := (if nlPointer lay = None \<and> at_pointer l then Some i else nlPointer lay)\<rparr>, None)"
proof (cases "0 < fst (headingLevel l) \<and> fst (headingLevel l) \<le> 2")
  case True
  then have "\<not> at_label l" "\<not> at_pointer l" using heading_no_label[of l] by simp_all
  moreover have "scan_step n (lay, None) (i, l) = (lay, None)"
    using True assms(2) by (auto simp: scan_step_def split_beta is_h2_def Let_def)
  ultimately show ?thesis by simp
next
  case False
  then show ?thesis using assms label_not_pointer[of l]
    by (auto simp: scan_step_def split_beta Let_def at_label_def at_pointer_def)
qed

definition or_else :: "'a option \<Rightarrow> 'a option \<Rightarrow> 'a option" where
  "or_else a b = (case a of None \<Rightarrow> b | Some _ \<Rightarrow> a)"

lemma scan_front:
  assumes "list_all (\<lambda>l. \<not> mdInCode l \<and> \<not> is_h2 l) xs" and "nlFirstH2 lay = n"
  shows "foldl (scan_step n) (lay, None) (enumerate i xs) =
    (lay\<lparr>nlLabel := or_else (nlLabel lay) (first_at at_label i xs), nlPointer := or_else (nlPointer lay) (first_at at_pointer i xs)\<rparr>, None)"
  using assms
proof (induction xs arbitrary: lay i)
  case Nil
  show ?case by (simp add: or_else_def split: option.splits)
next
  case (Cons l xs)
  let ?lay = "lay\<lparr>nlLabel := (if nlLabel lay = None \<and> at_label l then Some i else nlLabel lay),
    nlPointer := (if nlPointer lay = None \<and> at_pointer l then Some i else nlPointer lay)\<rparr>"
  have "scan_step n (lay, None) (i, l) = (?lay, None)" using Cons.prems by (intro front_step) simp_all
  moreover have "foldl (scan_step n) (?lay, None) (enumerate (Suc i) xs) =
    (?lay\<lparr>nlLabel := or_else (nlLabel ?lay) (first_at at_label (Suc i) xs), nlPointer := or_else (nlPointer ?lay) (first_at at_pointer (Suc i) xs)\<rparr>, None)"
    using Cons.prems by (intro Cons.IH) simp_all
  ultimately show ?case by (auto simp: or_else_def split: option.splits)
qed

lemma scan_back:
  assumes "nlFirstH2 lay < n" and "nlFirstH2 lay \<le> i" and "foldl (scan_step n) (lay, op) (enumerate i xs) = (lay', op')"
  shows "nlLabel lay' = nlLabel lay \<and> nlFirstH2 lay' = nlFirstH2 lay \<and> (nlPointer lay \<noteq> None \<longrightarrow> nlPointer lay' = nlPointer lay)
    \<and> nlLabelEnd lay' = nlLabelEnd lay \<and> nlResidueEnd lay' = nlResidueEnd lay"
  using assms
proof (induction xs arbitrary: lay op i)
  case (Cons l xs)
  obtain lay1 op1 where s: "scan_step n (lay, op) (i, l) = (lay1, op1)" by (cases "scan_step n (lay, op) (i, l)")
  have k: "nlLabel lay1 = nlLabel lay \<and> nlFirstH2 lay1 = nlFirstH2 lay \<and> (nlPointer lay \<noteq> None \<longrightarrow> nlPointer lay1 = nlPointer lay)
    \<and> nlLabelEnd lay1 = nlLabelEnd lay \<and> nlResidueEnd lay1 = nlResidueEnd lay"
    using s Cons.prems(1,2) by (auto simp: scan_step_def split_beta Let_def split: if_splits option.splits)
  moreover have "foldl (scan_step n) (lay1, op1) (enumerate (Suc i) xs) = (lay', op')" using Cons.prems(3) s by simp
  ultimately show ?case using Cons.IH[of lay1 "Suc i" op1] Cons.prems(1,2) by simp
qed simp

text \<open>The sections of Next, as the lines below each of its headings up to the next heading of level one or two.\<close>

fun next_secs :: "nat \<Rightarrow> mdLine list \<Rightarrow> (nat \<times> nat) list" where
  "next_secs i [] = []"
| "next_secs i (l # ls) =
     (if is_h2 l \<and> nextHeadingRe (snd (headingLevel l)) then [(i, i + 1 + length (takeWhile (\<lambda>x. \<not> top_heading x) ls))] else [])
     @ next_secs (i + 1) ls"

definition closed_secs :: "nat \<Rightarrow> roadmapNextLayout \<times> nat option \<Rightarrow> (nat \<times> nat) list" where
  "closed_secs n = (\<lambda>(lay, op). nlSections lay @ (case op of None \<Rightarrow> [] | Some a \<Rightarrow> [(a, n)]))"

lemma scan_sections:
  "n = i + length xs \<Longrightarrow> closed_secs n (foldl (scan_step n) (lay, op) (enumerate i xs)) =
    nlSections lay @ (case op of None \<Rightarrow> [] | Some a \<Rightarrow> [(a, i + length (takeWhile (\<lambda>x. \<not> top_heading x) xs))]) @ next_secs i xs"
proof (induction xs arbitrary: lay op i)
  case Nil
  then show ?case by (simp add: closed_secs_def split: option.splits)
next
  case (Cons l xs)
  obtain lay1 op1 where s: "scan_step n (lay, op) (i, l) = (lay1, op1)" by (cases "scan_step n (lay, op) (i, l)")
  have "closed_secs n (foldl (scan_step n) (lay1, op1) (enumerate (Suc i) xs)) = nlSections lay1
      @ (case op1 of None \<Rightarrow> [] | Some a \<Rightarrow> [(a, Suc i + length (takeWhile (\<lambda>x. \<not> top_heading x) xs))]) @ next_secs (Suc i) xs"
    using Cons.prems by (intro Cons.IH) simp
  moreover have "nlSections lay1 @ (case op1 of None \<Rightarrow> [] | Some a \<Rightarrow> [(a, Suc i + length (takeWhile (\<lambda>x. \<not> top_heading x) xs))])
    = nlSections lay @ (case op of None \<Rightarrow> [] | Some a \<Rightarrow> [(a, i + length (takeWhile (\<lambda>x. \<not> top_heading x) (l # xs)))])
      @ (if is_h2 l \<and> nextHeadingRe (snd (headingLevel l)) then [(i, i + 1 + length (takeWhile (\<lambda>x. \<not> top_heading x) xs))] else [])"
  proof (cases "top_heading l")
    case True
    then have "lay1 = (let lay0 = (case op of None \<Rightarrow> lay | Some a \<Rightarrow> lay\<lparr>nlSections := nlSections lay @ [(a, i)]\<rparr>)
        in if is_h2 l then lay0\<lparr>nlFirstH2 := min (nlFirstH2 lay0) i\<rparr> else lay0)"
      and "op1 = (if is_h2 l \<and> nextHeadingRe (snd (headingLevel l)) then Some i else None)"
      using s by (cases op; auto simp: scan_step_def split_beta Let_def top_heading_def is_h2_def split: if_splits)+
    then show ?thesis using True by (cases op) (simp_all add: Let_def)
  next
    case False
    then have "nlSections lay1 = nlSections lay \<and> op1 = op \<and> \<not> is_h2 l"
      using s by (auto simp: scan_step_def split_beta Let_def top_heading_def is_h2_def split: if_splits)
    then show ?thesis using False by (cases op) simp_all
  qed
  ultimately show ?case using s by simp
qed

lemma section_of:
  "s \<in> set (sections_spec xs) \<Longrightarrow> \<exists>ys l zs. xs = ys @ l # zs \<and> is_h2 l \<and> secTitle s = snd (headingLevel l) \<and> secBody s = takeWhile (\<lambda>x. \<not> top_heading x) zs"
proof (induction xs rule: sections_spec.induct)
  case (2 l ls)
  show ?case
  proof (cases "is_h2 l")
    case True
    then consider (here) "secTitle s = snd (headingLevel l)" "secBody s = takeWhile (\<lambda>x. \<not> top_heading x) ls"
      | (later) "s \<in> set (sections_spec (dropWhile (\<lambda>x. \<not> top_heading x) ls))" using "2.prems" by (auto simp: is_h2_def)
    then show ?thesis
    proof cases
      case here
      then show ?thesis using True by (intro exI[of _ "[]"]) simp
    next
      case later
      then obtain ys m zs where d: "dropWhile (\<lambda>x. \<not> top_heading x) ls = ys @ m # zs" and r: "is_h2 m"
        "secTitle s = snd (headingLevel m)" "secBody s = takeWhile (\<lambda>x. \<not> top_heading x) zs"
        using "2.IH"(1) True unfolding is_h2_def by blast
      have "l # ls = (l # takeWhile (\<lambda>x. \<not> top_heading x) ls @ ys) @ m # zs" using d by (metis append.assoc append_Cons takeWhile_dropWhile_id)
      then show ?thesis using r by blast
    qed
  next
    case False
    then have "s \<in> set (sections_spec ls)" using "2.prems" by (simp add: is_h2_def)
    then obtain ys m zs where "ls = ys @ m # zs" "is_h2 m" "secTitle s = snd (headingLevel m)" "secBody s = takeWhile (\<lambda>x. \<not> top_heading x) zs"
      using "2.IH"(2) False unfolding is_h2_def by blast
    then show ?thesis by (intro exI[of _ "l # ys"]) auto
  qed
qed simp

lemma next_secs_at:
  "is_h2 l \<Longrightarrow> nextHeadingRe (snd (headingLevel l)) \<Longrightarrow>
    (i + length ys, i + length ys + 1 + length (takeWhile (\<lambda>x. \<not> top_heading x) zs)) \<in> set (next_secs i (ys @ l # zs))"
proof (induction ys arbitrary: i)
  case (Cons y ys)
  then show ?case using Cons.IH[of "i + 1"] by simp
qed simp

section \<open>No item is left behind\<close>

lemma label_items_front:
  "label_items ls = (case first_at (\<lambda>l. at_label l \<or> at_pointer l) 0 (takeWhile (\<lambda>l. \<not> is_h2 l) ls) of
      None \<Rightarrow> [] | Some k \<Rightarrow> nextListItems (drop (k + 1) ls) True True)"
  if "list_all (\<lambda>l. \<not> mdInCode l) ls"
proof -
  have "label_items xs = (case first_at (\<lambda>l. at_label l \<or> at_pointer l) i (takeWhile (\<lambda>l. \<not> is_h2 l) xs) of
      None \<Rightarrow> [] | Some k \<Rightarrow> nextListItems (drop (k + 1 - i) xs) True True)" if "list_all (\<lambda>l. \<not> mdInCode l) xs" for i xs
    using that
  proof (induction xs arbitrary: i)
    case (Cons l xs)
    have "Suc k - i = Suc (k - i)" if "first_at P (Suc i) ys = Some k" for P ys k using that by (auto simp: first_at_def split: if_splits)
    then show ?case using Cons.IH[of "Suc i"] Cons.prems
      by (auto simp: is_h2_def at_label_def at_pointer_def split: option.splits)
  qed simp
  from this[OF that, of 0] show ?thesis by (simp only: minus_nat.diff_0)
qed

lemma scan_result:
  fixes ls
  defines "front \<equiv> takeWhile (\<lambda>l. \<not> is_h2 l) ls"
  assumes "list_all (\<lambda>l. \<not> mdInCode l) ls" and lay: "nlFirstH2 lay = length ls" "nlLabel lay = None" "nlPointer lay = None"
    and f: "foldl (scan_step (length ls)) (lay, None) (enumerate 0 ls) = (lay', op')"
  shows "nlLabel lay' = first_at at_label 0 front"
    and "first_at at_pointer 0 front \<noteq> None \<longrightarrow> nlPointer lay' = first_at at_pointer 0 front"
    and "nlFirstH2 lay' = length front"
proof -
  let ?n = "length ls" and ?h = "length front"
  define rear where "rear = dropWhile (\<lambda>l. \<not> is_h2 l) ls"
  have ls: "ls = front @ rear" by (simp add: front_def rear_def)
  have "list_all (\<lambda>l. \<not> mdInCode l \<and> \<not> is_h2 l) front"
    using assms(2) by (auto simp: front_def list_all_iff dest: set_takeWhileD)
  note fr = scan_front[OF this lay(1), of 0]
  let ?lay = "lay\<lparr>nlLabel := first_at at_label 0 front, nlPointer := first_at at_pointer 0 front\<rparr>"
  have fold: "foldl (scan_step ?n) (?lay, None) (enumerate ?h rear) = (lay', op')"
    using f fr lay(2,3) by (subst (asm) (2) ls) (simp add: enumerate_append_eq or_else_def)
  have goal: "nlLabel lay' = first_at at_label 0 front \<and> (first_at at_pointer 0 front \<noteq> None \<longrightarrow> nlPointer lay' = first_at at_pointer 0 front) \<and> nlFirstH2 lay' = ?h"
  proof (cases rear)
    case Nil
    then show ?thesis using fold lay(1) ls by auto
  next
    case (Cons b bs)
    then have b: "is_h2 b" unfolding rear_def by (metis dropWhile_eq_Cons_conv)
    have n: "?h < ?n" using ls Cons by (metis length_append length_Cons less_add_same_cancel1 zero_less_Suc)
    obtain lay1 op1 where s: "scan_step ?n (?lay, None) (?h, b) = (lay1, op1)" by (cases "scan_step ?n (?lay, None) (?h, b)")
    have l1: "lay1 = ?lay\<lparr>nlFirstH2 := ?h\<rparr>" using s b lay(1) n by (auto simp: scan_step_def split_beta Let_def is_h2_def)
    have "foldl (scan_step ?n) (lay1, op1) (enumerate (Suc ?h) bs) = (lay', op')" using fold Cons s by simp
    from scan_back[OF _ _ this] show ?thesis using l1 n by simp
  qed
  then show "nlLabel lay' = first_at at_label 0 front"
    and "first_at at_pointer 0 front \<noteq> None \<longrightarrow> nlPointer lay' = first_at at_pointer 0 front"
    and "nlFirstH2 lay' = ?h" by blast+
qed

lemma scan_layout:
  fixes ls
  defines "front \<equiv> takeWhile (\<lambda>l. \<not> is_h2 l) ls" and "lay \<equiv> scanRoadmapNext ls"
  assumes "list_all (\<lambda>l. \<not> mdInCode l) ls"
  shows "nlLabel lay = first_at at_label 0 front"
    and "first_at at_pointer 0 front = Some p \<Longrightarrow> nlPointer lay = Some p"
    and "nlFirstH2 lay = length front"
    and "nlSections lay = next_secs 0 ls"
    and "nlLabel lay = Some k \<Longrightarrow> nlLabelEnd lay = blockEnd ls k (length front)"
    and "nlPointer lay = Some p \<Longrightarrow> p < length front \<Longrightarrow> nlLabel lay \<noteq> Some p \<Longrightarrow> blockEnd ls p (length front) > p + 1
         \<Longrightarrow> nlResidueEnd lay = Some (blockEnd ls p (length front))"
proof -
  let ?n = "length ls"
  let ?l0 = "\<lparr>nlLabel = None, nlLabelEnd = 0, nlSections = [], nlFirstH2 = ?n, nlPointer = None, nlResidueEnd = None\<rparr>"
  obtain lay1 op1 where f: "foldl (scan_step ?n) (?l0, None) (enumerate 0 ls) = (lay1, op1)"
    by (cases "foldl (scan_step ?n) (?l0, None) (enumerate 0 ls)")
  have r: "nlLabel lay1 = first_at at_label 0 front" "first_at at_pointer 0 front \<noteq> None \<longrightarrow> nlPointer lay1 = first_at at_pointer 0 front"
    "nlFirstH2 lay1 = length front"
    using scan_result[OF assms(3), of ?l0 lay1 op1] f unfolding front_def by simp_all
  have secs: "closed_secs ?n (lay1, op1) = next_secs 0 ls" using scan_sections[of ?n 0 ls ?l0 None] f by simp
  have lay: "lay = scanRoadmapNext ls" by (simp add: lay_def)
  note unf = scanRoadmapNext_def Let_def f split
  show "nlLabel lay = first_at at_label 0 front" using r by (simp add: lay unf split: option.splits)
  show "nlFirstH2 lay = length front" using r by (simp add: lay unf split: option.splits)
  show "first_at at_pointer 0 front = Some p \<Longrightarrow> nlPointer lay = Some p" using r by (simp add: lay unf split: option.splits)
  show "nlSections lay = next_secs 0 ls" using secs by (simp add: lay unf closed_secs_def split: option.splits)
  show "nlLabel lay = Some k \<Longrightarrow> nlLabelEnd lay = blockEnd ls k (length front)" using r by (auto simp: lay unf split: option.splits if_splits)
  show "nlPointer lay = Some p \<Longrightarrow> p < length front \<Longrightarrow> nlLabel lay \<noteq> Some p \<Longrightarrow> blockEnd ls p (length front) > p + 1
         \<Longrightarrow> nlResidueEnd lay = Some (blockEnd ls p (length front))" using r by (simp add: lay unf split: option.splits if_splits)
qed

lemma first_at_nth: "first_at P i xs = Some k \<Longrightarrow> i \<le> k \<and> k - i < length xs \<and> P (xs ! (k - i))"
proof (induction xs arbitrary: i)
  case (Cons x xs)
  show ?case
  proof (cases "P x")
    case True
    then show ?thesis using Cons.prems by simp
  next
    case False
    then have "Suc i \<le> k" "k - Suc i < length xs" "P (xs ! (k - Suc i))" using Cons.IH[of "Suc i"] Cons.prems by simp_all
    moreover have "k - i = Suc (k - Suc i)" using calculation(1) by simp
    ultimately show ?thesis by simp
  qed
qed simp

lemma first_at_or: "first_at (\<lambda>l. P l \<or> Q l) i xs = Some k \<Longrightarrow> first_at P i xs = Some k \<or> first_at Q i xs = Some k"
  by (induction xs arbitrary: i) (auto split: if_splits)

lemma slice_items:
  assumes "sl \<in> set sls" and "list_all (\<lambda>l. \<not> mdInCode l) sl"
  shows "set (nextListItems sl lab True) \<subseteq> ckItem ` set (foldl (read_chunks False) cs sls)"
proof -
  obtain a b where sls: "sls = a @ sl # b" using assms(1) by (meson split_list)
  let ?c = "foldl (read_chunks False) cs a"
  have keep: "set ds \<subseteq> set (foldl (read_chunks False) ds b)" for ds
  proof (induction b arbitrary: ds)
    case (Cons x b)
    show ?case using read_chunks_keeps[of False ds x] Cons.IH[of "read_chunks False ds x"] by simp
  qed simp
  have "set (nextListItems sl lab True) \<subseteq> ckItem ` set (read_chunks False ?c sl)"
    unfolding nextListItems_def by (rule items_in_chunks[OF assms(2), of ?c "named ?c"]) simp_all
  also have "\<dots> \<subseteq> ckItem ` set (foldl (read_chunks False) cs sls)" unfolding sls using keep by (simp add: image_mono)
  finally show ?thesis .
qed

lemma items_are_chunks:
  assumes "list_all (\<lambda>l. \<not> mdInCode l) (splitLines roadmap)"
  shows "set (NextItems roadmap) \<subseteq> ckItem ` set (chunks (scanRoadmapNext (splitLines roadmap)) (splitLines roadmap))"
proof -
  define ls where "ls = splitLines roadmap"
  define front where "front = takeWhile (\<lambda>l. \<not> is_h2 l) ls"
  let ?lay = "scanRoadmapNext ls" and ?cs = "ckItem ` set (chunks (scanRoadmapNext ls) ls)"
  have nc: "list_all (\<lambda>l. \<not> mdInCode l) ls" using assms by (simp add: ls_def)
  note layout = scan_layout[OF nc, folded front_def]
  have slice: "set (nextListItems sl lab True) \<subseteq> ?cs" if "sl \<in> set (block_slices ?lay ls)" "set sl \<subseteq> set ls" for sl lab
    unfolding chunks_fold using that nc by (intro slice_items) (auto simp: list_all_iff)
  have sub: "set (slice a b ls) \<subseteq> set ls" for a b by (auto simp: slice_def dest: in_set_dropD in_set_takeD)
  have below: "nextListItems (drop (k + 1) ls) True True = nextListItems (slice (k + 1) (blockEnd ls k (length front)) ls) True True" if "k < length front" for k
  proof (rule block_items[OF nc that])
    show "length front \<le> length ls" by (simp add: front_def length_takeWhile_le)
    show "length front < length ls \<longrightarrow> fst (headingLevel (ls ! length front)) > 0"
      unfolding front_def using nth_length_takeWhile[of "\<lambda>l. \<not> is_h2 l" ls] by (auto simp: is_h2_def)
  qed
  have "set (label_items ls) \<subseteq> ?cs"
  proof (cases "first_at (\<lambda>l. at_label l \<or> at_pointer l) 0 front")
    case None
    then show ?thesis using label_items_front[OF nc, folded front_def] by simp
  next
    case (Some k)
    have k: "k < length front" using first_at_nth[OF Some] by simp
    have it: "label_items ls = nextListItems (slice (k + 1) (blockEnd ls k (length front)) ls) True True"
      using label_items_front[OF nc, folded front_def] Some below[OF k] by simp
    from first_at_or[OF Some] show ?thesis
    proof
      assume l: "first_at at_label 0 front = Some k"
      have "slice (k + 1) (blockEnd ls k (length front)) ls \<in> set (block_slices ?lay ls)" using layout(1,5) l by (simp add: block_slices_def)
      then show ?thesis unfolding it using sub by (rule slice)
    next
      assume p: "first_at at_pointer 0 front = Some k"
      have nl: "nlLabel ?lay \<noteq> Some k" using layout(1) first_at_nth[of at_label 0 front k] first_at_nth[OF p] label_not_pointer by auto
      show ?thesis
      proof (cases "blockEnd ls k (length front) > k + 1")
        case True
        have "slice (k + 1) (blockEnd ls k (length front)) ls \<in> set (block_slices ?lay ls)"
          using layout(2)[OF p] layout(6)[OF layout(2)[OF p] k nl True] by (simp add: block_slices_def)
        then show ?thesis unfolding it using sub by (rule slice)
      next
        case False
        then show ?thesis unfolding it by (simp add: slice_def nextListItems_def)
      qed
    qed
  qed
  moreover have "set (nextListItems (secBody s) False True) \<subseteq> ?cs" if s: "s \<in> set (h2Sections ls)" "nextHeadingRe (secTitle s)" for s
  proof -
    obtain ys l zs where d: "ls = ys @ l # zs" "is_h2 l" "secTitle s = snd (headingLevel l)" "secBody s = takeWhile (\<lambda>x. \<not> top_heading x) zs"
      using section_of s(1) unfolding h2Sections_spec by blast
    let ?b = "length ys + 1 + length (takeWhile (\<lambda>x. \<not> top_heading x) zs)"
    have "(length ys, ?b) \<in> set (nlSections ?lay)" using next_secs_at[OF d(2), of 0 ys zs] s(2) d(1,3) layout(4) by simp
    moreover have "slice (length ys + 1) ?b ls = secBody s" by (simp add: d(1,4) slice_def takeWhile_eq_take[symmetric])
    ultimately have "secBody s \<in> set (block_slices ?lay ls)" unfolding block_slices_def by force
    moreover have "set (secBody s) \<subseteq> set ls" using d(1,4) by (auto dest: set_takeWhileD)
    ultimately show ?thesis by (rule slice)
  qed
  ultimately show ?thesis unfolding NextItems_def ls_def[symmetric] Let_def by auto
qed

end
