(* ===== verification/NextSafety.thy ===== *)
theory NextSafety
  imports NextKeeps RoadmapFacts
begin

text \<open>
  What the commands that write Next promise: \<open>ape next move\<close> carries every item and repeats none, and a line \<open>ape next add\<close>
  puts into \<open>next.md\<close> is read back as its last item.
\<close>

section \<open>The move and the added line\<close>

lemma no_fence_lines: "list_all (\<lambda>l. \<not> mdInCode l) (split_go i [] xs) \<Longrightarrow> list_all (\<lambda>x. \<not> is_fence (TrimSpace x)) xs"
  by (induction xs arbitrary: i) (auto simp: Let_def split: if_splits)

text \<open>A roadmap without code blocks and lone carriage returns, whose block has no indented line but those that go on with an item.\<close>

definition plain_block :: "string \<Rightarrow> bool" where
  "plain_block roadmap \<longleftrightarrow> list_all (\<lambda>l. \<not> mdInCode l) (splitLines roadmap) \<and> CR \<notin> set (crlf_to_lf roadmap)
     \<and> list_all (\<lambda>c. ckItem c \<noteq> [] \<or> \<not> isListLine (hd (ckRaw c))) (chunks (scanRoadmapNext (splitLines roadmap)) (splitLines roadmap))"

lemma block_chunks_ok:
  assumes "plain_block roadmap"
  defines "cs \<equiv> chunks (scanRoadmapNext (splitLines roadmap)) (splitLines roadmap)"
  shows "list_all wf_chunk cs" and "set xs \<subseteq> raw_of cs \<Longrightarrow> new_lines_ok xs"
proof -
  let ?ls = "splitLines roadmap" and ?sls = "block_slices (scanRoadmapNext (splitLines roadmap)) (splitLines roadmap)"
  have nc: "list_all (\<lambda>l. \<not> mdInCode l) ?ls" using assms(1) by (simp add: plain_block_def)
  have sub: "set (slice a b ?ls) \<subseteq> set ?ls" for a b by (auto simp: slice_def dest: in_set_dropD in_set_takeD)
  have sls: "set sl \<subseteq> set ?ls" if "sl \<in> set ?sls" for sl using that sub by (auto simp: block_slices_def split: option.splits)
  have ok: "list_all wf_chunk cs \<and> raw_of cs \<subseteq> raw_of [] \<union> mdText ` \<Union> (set ` set ?sls)"
    unfolding cs_def chunks_fold using sls nc by (intro chunks_wf) (auto simp: list_all_iff)
  then show "list_all wf_chunk cs" by simp
  have "mdText ` \<Union> (set ` set ?sls) \<subseteq> set (raw_lines roadmap)"
    using sls map_mdText_split_go[of 0 "[]" "raw_lines roadmap"] unfolding splitLines_def by (metis (no_types, lifting) UN_least image_mono list.set_map)
  then have raw: "raw_of cs \<subseteq> set (raw_lines roadmap)" using ok by (simp only: raw_of_simps Un_empty_left) (rule subset_trans, simp_all)
  assume xs: "set xs \<subseteq> raw_of cs"
  show "new_lines_ok xs" unfolding new_lines_ok_def
  proof
    fix x assume "x \<in> set xs"
    then have x: "x \<in> set (raw_lines roadmap)" using xs raw by blast
    then have "x \<in> set (split_char LF (crlf_to_lf roadmap))" by (auto simp: raw_lines_def Let_def split: if_splits dest: in_set_butlastD)
    then have "CR \<notin> set x" using Join_part_chars[of x "split_char LF (crlf_to_lf roadmap)" "[LF]"] assms(1) by (auto simp: Join_split_char plain_block_def)
    moreover have "\<not> is_fence (TrimSpace x)" using no_fence_lines[of 0 "raw_lines roadmap"] nc x by (simp add: splitLines_def list_all_iff)
    ultimately show "LF \<notin> set x \<and> CR \<notin> set x \<and> \<not> is_fence (TrimSpace x)" using raw_lines_free[OF x] by simp
  qed
qed

lemma list_items_ne: "[] \<notin> set out \<Longrightarrow> [] \<notin> set (next_list_items lab at op out ls)"
proof (induction ls arbitrary: op out)
  case (Cons l ls)
  have "[] \<notin> set (butlast out @ [last out @ '' '' @ t])" for t using Cons.prems by (auto dest: in_set_butlastD)
  then show ?case using Cons by (auto simp: Let_def)
qed simp

lemma next_items_ne: "[] \<notin> set (NextItems roadmap)"
proof -
  have "[] \<notin> set (label_items ls)" for ls by (induction ls) (simp_all add: nextListItems_def list_items_ne)
  then show ?thesis by (auto simp: NextItems_def Let_def nextListItems_def list_items_ne)
qed

lemma empty_append: "NextFileItems (appendNextMD None []) = []"
  by code_simp

lemma move_items:
  assumes plan: "planNextMove roadmap next = (res, rm, nx)" and "closed_file next" and pb: "plain_block roadmap"
  shows "NextFileItems nx = old_items next @ nmMoved res"
    and "distinct (nmMoved res) \<and> set (nmMoved res) \<inter> set (old_items next) = {}"
    and "set (NextItems roadmap) \<subseteq> set (NextFileItems nx)"
proof -
  define cs where "cs = chunks (scanRoadmapNext (splitLines roadmap)) (splitLines roadmap)"
  obtain mv du bl where p: "plan_block (old_items next) True cs = (mv, du, bl)" by (cases "plan_block (old_items next) True cs")
  have res: "nmMoved res = mv" and nx: "nx = appendNextMD next (trim_end bl)"
    using plan p by (auto simp: planNextMove_def old_items_def cs_def Let_def)
  have wf: "\<forall>c\<in>set cs. wf_chunk c \<and> (ckItem c = [] \<longrightarrow> \<not> isListLine (hd (ckRaw c)))"
    using block_chunks_ok(1)[OF pb] pb by (auto simp: cs_def plain_block_def list_all_iff)
  obtain bs where bs: "bl = trim_end bl @ bs" "list_all blank bs" using trim_end_decomp by blast
  have "snd (foldl item_step st (map plain bs)) = snd st" for st
    using blank_items[OF bs(2), of st 0 "[]"] bs(2) fold_plain[of bs st 0] blank_not_fence by (auto simp: list_all_iff)
  then have fold: "snd (foldl item_step (op, old_items next) (map plain (trim_end bl))) = old_items next @ mv" for op
    using foldl_chunk_items[OF wf p, of op "old_items next"] by (subst (asm) bs(1)) simp
  have new: "new_lines_ok (trim_end bl)"
    using plan_block_new[OF p] bs(1) by (intro block_chunks_ok(2)[OF pb, folded cs_def]) (metis Un_subset_iff set_append)
  show items: "NextFileItems nx = old_items next @ nmMoved res"
  proof (cases "trim_end bl = []")
    case True
    then have "mv = []" using fold by simp
    then show ?thesis using nx res True empty_append by (cases "next") (simp_all add: old_items_def appendNextMD_def)
  next
    case False
    then show ?thesis using appendNextMD_items[OF assms(2) new] fold nx res by metis
  qed
  show "distinct (nmMoved res) \<and> set (nmMoved res) \<inter> set (old_items next) = {}" using plan_block_new[OF p] res by blast
  show "set (NextItems roadmap) \<subseteq> set (NextFileItems nx)"
  proof
    fix x assume "x \<in> set (NextItems roadmap)"
    then obtain c where c: "c \<in> set cs" "x = ckItem c" using items_are_chunks[of roadmap] pb by (auto simp: cs_def plain_block_def)
    have "x \<noteq> []" using next_items_ne \<open>x \<in> set (NextItems roadmap)\<close> by metis
    then show "x \<in> set (NextFileItems nx)" using plan_block_covers[OF p c(1)] c(2) items res by auto
  qed
qed

lemma no_block_items:
  assumes "\<not> has_block (scanRoadmapNext (splitLines roadmap))"
  shows "chunks (scanRoadmapNext (splitLines roadmap)) (splitLines roadmap) = []"
  using assms unfolding chunks_fold by (auto simp: has_block_def block_slices_def split: option.splits)

text \<open>C18: a move of the Next: block of a roadmap that succeeds (whatever it found to write) leaves in \<open>next.md\<close> what was there, in its order,
  followed by the items it reports as moved, each of them new there and moved once; and every item that was reported as next before,
  from the roadmap or from the file, is read from \<open>next.md\<close> after: no item is lost. Hypotheses: \<open>next.md\<close> does not end inside a code fence,
  the roadmap has no code fence anywhere, every line of its block that is indented goes on with an item (no bullet without text, no second
  paragraph of an item), and neither file has a carriage return that is not part of a line end.\<close>

theorem next_move_keeps:
  assumes move: "NextMove e w = (Some res, None, w')" and road: "nwRoadmap w = Some roadmap"
    and "closed_file (nwNext w)" and "plain_block roadmap"
  shows "\<exists>nx. nwNext w' = Some nx \<and> NextFileItems nx = old_items (nwNext w) @ nmMoved res
    \<and> distinct (nmMoved res) \<and> set (nmMoved res) \<inter> set (old_items (nwNext w)) = {}
    \<and> set (roadmapNext (nwNext w) (Some roadmap)) \<subseteq> set (NextFileItems nx)"
proof -
  obtain res0 rm nx where plan: "planNextMove roadmap (nwNext w) = (res0, rm, nx)" by (cases "planNextMove roadmap (nwNext w)")
  have mp: "nextMovePlan w = Inr (res0, rm, nx)" using road plan by (simp add: nextMovePlan_def)
  have mv: "nmMoved res = nmMoved res0"
    using move mp by (auto simp: NextMove_def Let_def split: if_splits option.splits sum.splits)
  have new: "\<exists>nx'. nwNext w' = Some nx' \<and> NextFileItems nx' = NextFileItems nx"
  proof (cases "nmPending res0")
    case True
    then show ?thesis using move mp by (auto simp: NextMove_def Let_def split: if_splits option.splits sum.splits)
  next
    case False
    then obtain d where d: "nwNext w = Some d" and nb: "\<not> has_block (scanRoadmapNext (splitLines roadmap))"
      using plan by (auto simp: planNextMove_def Let_def split: prod.splits)
    have "nx = d" using plan d no_block_items[OF nb] by (auto simp: planNextMove_def Let_def appendNextMD_def trim_end_def)
    moreover have "w' = w" using move mp False by (auto simp: NextMove_def)
    ultimately show ?thesis using d by simp
  qed
  have "set (roadmapNext (nwNext w) (Some roadmap)) = set (old_items (nwNext w)) \<union> set (NextItems roadmap)"
    by (simp add: roadmapNext_def set_dedup_acc old_items_def split: option.splits)
  then show ?thesis using new move_items[OF plan assms(3,4)] mv by auto
qed

lemma line_ends:
  assumes "real_date date" and "TrimSpace txt \<noteq> []" and "i \<noteq> [] \<longrightarrow> ChangeIDRe i"
  shows "TrimSpace (NextLine date txt i) = NextLine date txt i" and "TrimSpace (drop 2 (NextLine date txt i)) = drop 2 (NextLine date txt i)"
proof -
  obtain c d where dt: "date = c # d" "is_digit c" using assms(1) by (cases date) (auto simp: real_date_def)
  have c: "c \<notin> hd ` set space_runes" using dt(2) by (auto simp: space_runes_def is_digit_def)
  let ?r = "'' (from '' @ i @ '')''"
  show "TrimSpace (NextLine date txt i) = NextLine date txt i"
  proof (cases "i = []")
    case True
    then show ?thesis using TrimSpace_after[OF _ assms(2), of "''- '' @ date"] by (simp add: NextLine_def space_runes_def)
  next
    case False
    then show ?thesis by (intro TrimSpace_id) (simp_all add: NextLine_def space_runes_def)
  qed
  show "TrimSpace (drop 2 (NextLine date txt i)) = drop 2 (NextLine date txt i)"
  proof (cases "i = []")
    case True
    then show ?thesis using TrimSpace_after[OF _ assms(2), of date] dt(1) c by (simp add: NextLine_def)
  next
    case False
    then show ?thesis using dt(1) c by (intro TrimSpace_id) (simp_all add: NextLine_def space_runes_def)
  qed
qed

lemma line_ok:
  assumes "real_date date" and "CR \<notin> set txt \<and> LF \<notin> set txt" and "TrimSpace txt \<noteq> []" and "i \<noteq> [] \<longrightarrow> ChangeIDRe i"
  shows "new_lines_ok [NextLine date txt i]" and "bullet (TrimSpace (NextLine date txt i))"
proof -
  show b: "bullet (TrimSpace (NextLine date txt i))"
    unfolding line_ends(1)[OF assms(1,3,4)] by (simp add: bullet_def NextLine_def HasPrefix_def)
  have "CR \<notin> set date \<and> LF \<notin> set date"
    using assms(1) by (auto simp: real_date_def numeral_eq_Suc length_Suc_conv is_digit_def)
  moreover have "CR \<notin> set i \<and> LF \<notin> set i"
    using assms(4) by (cases i) (auto simp: ChangeIDRe_def is_lower_def is_digit_def slug_char_def list_all_iff)
  moreover have "\<not> is_fence (TrimSpace (NextLine date txt i))" using b by (auto simp: bullet_def is_fence_def HasPrefix_iff)
  ultimately show "new_lines_ok [NextLine date txt i]" using assms(2) set_TrimSpace[of "txt"] by (auto simp: new_lines_ok_def NextLine_def)
qed

text \<open>C32: what \<open>AddNext\<close> adds to \<open>next.md\<close> is read back: after it returns, the items of the file are the items it had, in their order,
  and the new line without its bullet. Hypotheses: the clock gives a date, and \<open>next.md\<close> does not end inside
  a code fence and has no stray carriage return.\<close>

theorem added_line_read_back:
  assumes add: "AddNext e t i w = (Inr r, w')" and "nrInNext r" and date: "real_date (xToday e)" and "closed_file (nwNext w)"
  shows "\<exists>nx. nwNext w' = Some nx \<and> NextFileItems nx = old_items (nwNext w) @ [drop 2 (nrLine r)]"
proof -
  let ?t = "TrimSpace t" and ?i = "TrimSpace i"
  let ?line = "NextLine (xToday e) ?t ?i"
  have t: "?t \<noteq> []" "CR \<notin> set ?t \<and> LF \<notin> set ?t" and i: "?i \<noteq> [] \<longrightarrow> ChangeIDRe ?i"
    using add by (auto simp: AddNext_def Let_def split: if_splits)
  have "TrimSpace ?t \<noteq> []" using t by simp
  note ok = line_ok[OF date t(2) this i] and ends = line_ends[OF date this i]
  obtain doc where doc: "nwRoadmap w = Some doc" using add by (auto simp: AddNext_def Let_def split: if_splits option.splits sum.splits)
  let ?files = "nextWrites doc (nwNext w) [?line]"
  have r: "nrLine r = ?line" "nrInNext r = (snd ?files \<noteq> None)" and w': "snd ?files \<noteq> None \<longrightarrow> nwNext w' = snd ?files"
    using add doc
    by (auto simp: AddNext_def Let_def next_result_def put_next_def put_roadmap_def write_both_def commitOnBranchAt_def split: if_splits option.splits sum.splits)
  have nx: "snd ?files = Some (appendNextMD (nwNext w) [?line])" using r(2) assms(2) by (auto simp: nextWrites_def split: if_splits)
  obtain op where "NextFileItems (appendNextMD (nwNext w) [?line]) = snd (foldl item_step (op, old_items (nwNext w)) (map plain [?line]))"
    using appendNextMD_items[OF assms(4) ok(1)] by auto
  then have "NextFileItems (appendNextMD (nwNext w) [?line]) = old_items (nwNext w) @ [drop 2 ?line]"
    using step_bullet[OF ok(2)] ends by simp
  then show ?thesis using nx w' r by simp
qed

text \<open>A roadmap with two items in its block, one of them already in \<open>next.md\<close>.\<close>

definition ex_next_roadmap :: string where
  "ex_next_roadmap = Join [''# R'', [], ''Next:'', [], ''- old one'', ''- new one'', ''  goes on'', [], ''## M1: first'', [], ''Status: planned''] [LF] @ [LF]"

definition ex_next_world :: next_world where
  "ex_next_world = \<lparr>nwRoadmap = Some ex_next_roadmap, nwNext = Some (''# Next'' @ [LF, LF] @ ''- old one'' @ [LF])\<rparr>"

definition ex_next_env :: next_env where
  "ex_next_env = \<lparr>xWorkTree = True, xRecover = None, xOnBranch = None, xDirty = None, xToday = ''2026-01-02'', xBase = Inr ''main'',
     xRoadmapFirst = True, xWriteRoadmap = None, xWriteNext = None, xReady = None, xHere = True, xEdit = Inr ''abc'', xCommit = Inr ''abc'',
     xUndone = False, xStage = None\<rparr>"

lemma ex_next_facts:
  "closed_file (nwNext ex_next_world)" "plain_block ex_next_roadmap" "nwRoadmap ex_next_world = Some ex_next_roadmap"
  "real_date (xToday ex_next_env)"
  by code_simp+

lemma ex_next_move:
  "map_option nmMoved (fst (NextMove ex_next_env ex_next_world)) = Some [''new one goes on''] \<and> fst (snd (NextMove ex_next_env ex_next_world)) = None"
  by code_simp

text \<open>
  The condition on indented lines is needed: the second paragraph of an item that is already in \<open>next.md\<close> is moved on its own, to
  the end of the file, where it continues the last item.
\<close>

definition ex_next_paragraphs :: next_world where
  "ex_next_paragraphs = \<lparr>nwRoadmap = Some (Join [''# R'', [], ''Next:'', [], ''- old one'', [], ''  second paragraph'', [], ''## M1: first'', [], ''Status: planned''] [LF] @ [LF]),
     nwNext = Some (''# Next'' @ [LF, LF] @ ''- old one'' @ [LF])\<rparr>"

theorem move_extends_an_item:
  "map_option NextFileItems (nwNext ex_next_paragraphs) = Some [''old one'']
    \<and> (case NextMove ex_next_env ex_next_paragraphs of (res, er, w') \<Rightarrow>
         map_option nmMoved res = Some [] \<and> er = None \<and> map_option NextFileItems (nwNext w') = Some [''old one second paragraph''])"
  by code_simp

lemma ex_next_add:
  "(case fst (AddNext ex_next_env ''seen'' [] ex_next_world) of Inl _ \<Rightarrow> False | Inr r \<Rightarrow> nrInNext r \<and> nrLine r = ''- 2026-01-02 seen'')"
  by code_simp

theorem next_move_keeps_witness:
  "\<exists>res w' nx. NextMove ex_next_env ex_next_world = (Some res, None, w') \<and> nmMoved res = [''new one goes on''] \<and> nwNext w' = Some nx
    \<and> set (roadmapNext (nwNext ex_next_world) (Some ex_next_roadmap)) \<subseteq> set (NextFileItems nx)"
proof -
  obtain res w' where m: "NextMove ex_next_env ex_next_world = (Some res, None, w')" "nmMoved res = [''new one goes on'']"
    using ex_next_move by (cases "NextMove ex_next_env ex_next_world") auto
  from next_move_keeps[OF m(1) ex_next_facts(3,1,2)] show ?thesis using m by blast
qed

theorem added_line_read_back_witness:
  "\<exists>r w' nx. AddNext ex_next_env ''seen'' [] ex_next_world = (Inr r, w') \<and> nwNext w' = Some nx
    \<and> NextFileItems nx = old_items (nwNext ex_next_world) @ [''2026-01-02 seen'']"
proof -
  obtain r w' where m: "AddNext ex_next_env ''seen'' [] ex_next_world = (Inr r, w')" "nrInNext r" "nrLine r = ''- 2026-01-02 seen''"
    using ex_next_add by (cases "AddNext ex_next_env ''seen'' [] ex_next_world") (auto split: sum.splits)
  from added_line_read_back[OF m(1,2) ex_next_facts(4,1)] m show ?thesis by auto
qed

end
