(* ===== verification/RunLock.thy ===== *)
theory RunLock
  imports ChangePlan
begin

text \<open>
  The run lock of a scope, a change or a milestone (\<open>internal/apexv1/runlock.go\<close>): taking it, taking it over, releasing it,
  and the result a run leaves behind. \<open>take_step\<close> is one access to the files by \<open>TakeRunLock\<close>, so that a call alone is
  the steps in a row and calls of several processes are their steps in any order.
\<close>

section \<open>Locks, results and processes\<close>

text \<open>
  \<open>PersonAct\<close> of \<open>personact.go\<close> as a lock or a result records it; its unexported field \<open>granted\<close> is not written.
\<close>

record personAct =
  paAct :: string
  paTarget :: string
  paArgvSHA256 :: string
  paBy :: string
  paPromptTS :: string
  paQuote :: string
  paGrant :: string

record runLock =
  rlID :: string
  rlPID :: int
  rlPGID :: int
  rlPIDStart :: string
  rlVerb :: string
  rlScope :: string
  rlSHA :: string
  rlStarted :: string
  rlLog :: string
  rlPersonAct :: "personAct option"

record runResult =
  rrID :: string
  rrVerb :: string
  rrScope :: string
  rrSHA :: string
  rrStarted :: string
  rrEnded :: string
  rrHeadAfter :: string
  rrExit :: int
  rrSilent :: bool
  rrErr :: string
  rrHuman :: "string \<times> string"
  rrJSON :: "string \<times> string"
  rrReported :: bool
  rrPersonAct :: "personAct option"
  rrTree :: string

text \<open>A file as a reader finds it: what it parses to, or a content that does not parse.\<close>

datatype 'a on_disk = Parsed 'a | Garbled

record lock_fs =
  lfLock :: "runLock on_disk option"
  lfResult :: "runResult on_disk option"

text \<open>\<open>processAlive\<close> and \<open>processStart\<close>.\<close>

record proc_view =
  pvAlive :: "int \<Rightarrow> bool"
  pvStart :: "int \<Rightarrow> string option"

definition ownerAlive :: "proc_view \<Rightarrow> int \<Rightarrow> string \<Rightarrow> bool" where
  "ownerAlive v pid start =
     (if \<not> pvAlive v pid then False
      else if start = [] then True
      else case pvStart v pid of None \<Rightarrow> True | Some cur \<Rightarrow> cur = start)"

definition lock_Alive :: "proc_view \<Rightarrow> runLock \<Rightarrow> bool" where
  "lock_Alive v l = ownerAlive v (rlPID l) (rlPIDStart l)"

definition selfStart :: "proc_view \<Rightarrow> int \<Rightarrow> string" where
  "selfStart v pid = (case pvStart v pid of None \<Rightarrow> [] | Some s \<Rightarrow> s)"

definition LoadRunLock :: "lock_fs \<Rightarrow> runLock option" where
  "LoadRunLock fs = (case lfLock fs of Some (Parsed l) \<Rightarrow> if rlID l = [] then None else Some l | _ \<Rightarrow> None)"

definition LoadRunResult :: "lock_fs \<Rightarrow> runResult option" where
  "LoadRunResult fs = (case lfResult fs of Some (Parsed r) \<Rightarrow> if rrID r = [] then None else Some r | _ \<Rightarrow> None)"

definition CodeRunBusy :: string where
  "CodeRunBusy = ''run.busy''"

definition CodeRunInterrupted :: string where
  "CodeRunInterrupted = ''run.interrupted''"

definition RunBusy :: "runLock \<Rightarrow> apex_error" where
  "RunBusy l = ConflictError CodeRunBusy [rlScope l]"

definition RunGone :: "runLock \<Rightarrow> apex_error" where
  "RunGone l = fail CodeRunInterrupted"

section \<open>Taking the lock\<close>

text \<open>
  Where \<open>TakeRunLock\<close> is: about to link its file with so many tries left, about to read the lock that is there, to stat and
  remove one it could not read, to judge, remove and look for the result of the one it read; or done.
\<close>

datatype take_pc =
    Link nat
  | Load nat
  | Stat nat
  | Unlink nat
  | Judge nat runLock
  | Remove nat runLock
  | Result nat runLock
  | Taken
  | Held runLock
  | TakeErr apex_error

text \<open>What a call learns from outside: the errors of its folder and of its links other than an existing lock, and whether a file can be removed.\<close>

record take_env =
  teMkdir :: "apex_error option"
  teLink :: "nat \<Rightarrow> apex_error option"
  teRemove :: bool

definition removeLock :: "take_env \<Rightarrow> lock_fs \<Rightarrow> lock_fs" where
  "removeLock e fs = (if teRemove e then fs\<lparr>lfLock := None\<rparr> else fs)"

text \<open>\<open>linkLock\<close>: the file appears whole, or one is there.\<close>

definition linkLock :: "runLock \<Rightarrow> lock_fs \<Rightarrow> lock_fs option" where
  "linkLock l fs = (if lfLock fs = None then Some (fs\<lparr>lfLock := Some (Parsed l)\<rparr>) else None)"

fun take_step :: "proc_view \<Rightarrow> take_env \<Rightarrow> runLock \<Rightarrow> take_pc \<times> lock_fs \<Rightarrow> take_pc \<times> lock_fs" where
  "take_step v e l (Link 0, fs) = (TakeErr (fail CodeRunInterrupted), fs)"
| "take_step v e l (Link (Suc k), fs) = (case teLink e k of
      Some er \<Rightarrow> (TakeErr er, fs)
    | None \<Rightarrow> (case linkLock l fs of Some fs' \<Rightarrow> (Taken, fs') | None \<Rightarrow> (Load k, fs)))"
| "take_step v e l (Load k, fs) = (case LoadRunLock fs of None \<Rightarrow> (Stat k, fs) | Some cur \<Rightarrow> (Judge k cur, fs))"
| "take_step v e l (Stat k, fs) = (if lfLock fs \<noteq> None then (Unlink k, fs) else (Link k, fs))"
| "take_step v e l (Unlink k, fs) = (Link k, removeLock e fs)"
| "take_step v e l (Judge k cur, fs) = (if lock_Alive v cur then (Held cur, fs) else (Remove k cur, fs))"
| "take_step v e l (Remove k cur, fs) = (Result k cur, removeLock e fs)"
| "take_step v e l (Result k cur, fs) = (case LoadRunResult fs of
      Some r \<Rightarrow> if rrID r = rlID cur then (Link k, fs) else (TakeErr (RunGone cur), fs)
    | None \<Rightarrow> (TakeErr (RunGone cur), fs))"
| "take_step v e l (Taken, fs) = (Taken, fs)"
| "take_step v e l (Held cur, fs) = (Held cur, fs)"
| "take_step v e l (TakeErr er, fs) = (TakeErr er, fs)"

fun returned :: "take_pc \<Rightarrow> bool" where
  "returned Taken = True"
| "returned (Held cur) = True"
| "returned (TakeErr er) = True"
| "returned pc = False"

fun pc_rank :: "take_pc \<Rightarrow> nat" where
  "pc_rank (Link k) = 6 * k + 1"
| "pc_rank (Unlink k) = 6 * k + 2"
| "pc_rank (Result k cur) = 6 * k + 3"
| "pc_rank (Remove k cur) = 6 * k + 4"
| "pc_rank (Judge k cur) = 6 * k + 5"
| "pc_rank (Stat k) = 6 * k + 5"
| "pc_rank (Load k) = 6 * k + 6"
| "pc_rank pc = 0"

lemma take_step_rank: "\<not> returned pc \<Longrightarrow> pc_rank (fst (take_step v e l (pc, fs))) < pc_rank pc"
  by (cases "(v, e, l, pc, fs)" rule: take_step.cases) (auto split: option.splits)

text \<open>A call that runs alone: its steps until it returns.\<close>

function take_loop :: "proc_view \<Rightarrow> take_env \<Rightarrow> runLock \<Rightarrow> take_pc \<times> lock_fs \<Rightarrow> take_pc \<times> lock_fs" where
  "take_loop v e l s = (if returned (fst s) then s else take_loop v e l (take_step v e l s))"
  by pat_completeness auto
termination
  by (relation "measure (\<lambda>(v, e, l, s). pc_rank (fst s))") (auto intro: take_step_rank)

declare take_loop.simps [simp del]

definition TakeRunLock :: "proc_view \<Rightarrow> take_env \<Rightarrow> runLock \<Rightarrow> lock_fs \<Rightarrow> take_pc \<times> lock_fs" where
  "TakeRunLock v e l fs = (case teMkdir e of Some er \<Rightarrow> (TakeErr er, fs) | None \<Rightarrow> take_loop v e l (Link 3, fs))"

section \<open>The lock of a run\<close>

text \<open>\<open>UpdateRunLock\<close>: the lock as the worker rewrites it, and whether it was; \<open>wr\<close> is the error of the write.\<close>

definition UpdateRunLock :: "proc_view \<Rightarrow> apex_error option \<Rightarrow> runLock \<Rightarrow> lock_fs \<Rightarrow> bool \<times> runLock \<times> lock_fs" where
  "UpdateRunLock v wr l fs = (case LoadRunLock fs of
      None \<Rightarrow> (False, l, fs)
    | Some cur \<Rightarrow>
        if rlID cur \<noteq> rlID l then (False, l, fs)
        else (let l1 = (case pvStart v (rlPID l) of Some s \<Rightarrow> l\<lparr>rlPIDStart := s\<rparr> | None \<Rightarrow> l)
              in if wr = None then (True, l1, fs\<lparr>lfLock := Some (Parsed l1)\<rparr>) else (False, l1, fs)))"

definition ReleaseRunLock :: "take_env \<Rightarrow> runLock \<Rightarrow> lock_fs \<Rightarrow> lock_fs" where
  "ReleaseRunLock e l fs = (case LoadRunLock fs of
      Some cur \<Rightarrow> if rlID cur = rlID l then removeLock e fs else fs
    | None \<Rightarrow> fs)"

definition RemoveStaleRunLock :: "proc_view \<Rightarrow> take_env \<Rightarrow> runLock \<Rightarrow> lock_fs \<Rightarrow> apex_error \<times> lock_fs" where
  "RemoveStaleRunLock v e l fs = (RunGone l, case LoadRunLock fs of
      Some cur \<Rightarrow> if rlID cur = rlID l \<and> \<not> lock_Alive v cur then removeLock e fs else fs
    | None \<Rightarrow> fs)"

definition SaveRunResult :: "apex_error option \<Rightarrow> runResult \<Rightarrow> lock_fs \<Rightarrow> apex_error option \<times> lock_fs" where
  "SaveRunResult wr r fs = (case wr of Some er \<Rightarrow> (Some er, fs) | None \<Rightarrow> (None, fs\<lparr>lfResult := Some (Parsed r)\<rparr>))"

text \<open>\<open>AnyRunLive\<close>: the lock files of a project, one for each scope.\<close>

definition AnyRunLive :: "proc_view \<Rightarrow> lock_fs list \<Rightarrow> bool" where
  "AnyRunLive v scopes = list_ex (\<lambda>fs. case LoadRunLock fs of Some l \<Rightarrow> lock_Alive v l | None \<Rightarrow> False) scopes"

section \<open>Processes that share a scope\<close>

text \<open>
  What a process is doing with the lock. The calls are taken apart into their accesses to the files; \<open>ReleaseRunLock\<close>
  reads the lock and then removes the file.
\<close>

datatype lock_call = NoCall | Taking runLock take_pc | Running runLock | ReleaseLoad runLock | ReleaseRemove runLock

record lock_sys =
  syFS :: lock_fs
  syProcs :: proc_view
  syCall :: "int \<Rightarrow> lock_call"
  syUsed :: "string list"

datatype lock_act = Begin int runLock | Go int take_env | Save int runResult | Finish int | Release int take_env | Die int
  | Handover int int int "apex_error option" | Sweep runLock take_env

text \<open>
  One step of one process, where it can make it. A run's id holds its time, pid and random digits, so it is new. \<open>Handover p q\<close> is the
  worker \<open>q\<close> the call of \<open>p\<close> started, recorded in the lock in place of \<open>p\<close> (\<open>UpdateRunLock\<close>), from when \<open>p\<close> only waits;
  \<open>Sweep\<close> is a waiting call that finds the lock of a dead process (\<open>RemoveStaleRunLock\<close>). These two are whole calls. A
  process id is not used again.
\<close>

fun lock_act_step :: "lock_sys \<Rightarrow> lock_act \<Rightarrow> lock_sys option" where
  "lock_act_step s (Begin p l) =
     (if syCall s p = NoCall \<and> pvAlive (syProcs s) p \<and> rlPID l = p \<and> rlPIDStart l = selfStart (syProcs s) p
         \<and> rlID l \<noteq> [] \<and> rlID l \<notin> set (syUsed s)
      then Some (s\<lparr>syCall := (syCall s)(p := Taking l (Link 3)), syUsed := rlID l # syUsed s\<rparr>) else None)"
| "lock_act_step s (Go p e) = (case syCall s p of
      Taking l pc \<Rightarrow>
        if pvAlive (syProcs s) p
        then (case take_step (syProcs s) e l (pc, syFS s) of
                (pc', fs') \<Rightarrow> Some (s\<lparr>syFS := fs', syCall := (syCall s)(p :=
                    if pc' = Taken then Running l else if returned pc' then NoCall else Taking l pc')\<rparr>))
        else None
    | _ \<Rightarrow> None)"
| "lock_act_step s (Save p r) = (case syCall s p of
      Running l \<Rightarrow> if pvAlive (syProcs s) p \<and> rrID r = rlID l then Some (s\<lparr>syFS := snd (SaveRunResult None r (syFS s))\<rparr>) else None
    | _ \<Rightarrow> None)"
| "lock_act_step s (Finish p) = (case syCall s p of
      Running l \<Rightarrow> if pvAlive (syProcs s) p then Some (s\<lparr>syCall := (syCall s)(p := ReleaseLoad l)\<rparr>) else None
    | _ \<Rightarrow> None)"
| "lock_act_step s (Release p e) =
     (if \<not> pvAlive (syProcs s) p then None
      else case syCall s p of
        ReleaseLoad l \<Rightarrow> Some (s\<lparr>syCall := (syCall s)(p :=
            case LoadRunLock (syFS s) of Some cur \<Rightarrow> if rlID cur = rlID l then ReleaseRemove l else NoCall | None \<Rightarrow> NoCall)\<rparr>)
      | ReleaseRemove l \<Rightarrow> Some (s\<lparr>syFS := removeLock e (syFS s), syCall := (syCall s)(p := NoCall)\<rparr>)
      | _ \<Rightarrow> None)"
| "lock_act_step s (Handover p q g wr) = (case (syCall s p, LoadRunLock (syFS s)) of
      (Running l, Some cur) \<Rightarrow>
        if p \<noteq> q \<and> syCall s q = NoCall \<and> pvAlive (syProcs s) q \<and> rlID cur = rlID l \<and> rlPID cur = p
        then (case UpdateRunLock (syProcs s) wr (cur\<lparr>rlPID := q, rlPGID := g\<rparr>) (syFS s) of
                (True, l1, fs') \<Rightarrow> Some (s\<lparr>syFS := fs', syCall := (syCall s)(p := NoCall, q := Running l1)\<rparr>)
              | (False, _, _) \<Rightarrow> Some s)
        else None
    | _ \<Rightarrow> None)"
| "lock_act_step s (Sweep l e) = Some (s\<lparr>syFS := snd (RemoveStaleRunLock (syProcs s) e l (syFS s))\<rparr>)"
| "lock_act_step s (Die p) = Some (s\<lparr>syProcs := (syProcs s)\<lparr>pvAlive := (pvAlive (syProcs s))(p := False)\<rparr>\<rparr>)"

text \<open>A scope before any run of it: every process of \<open>v\<close> may use it, and there is no lock.\<close>

definition lock_start :: "proc_view \<Rightarrow> lock_sys" where
  "lock_start v = \<lparr>syFS = \<lparr>lfLock = None, lfResult = None\<rparr>, syProcs = v, syCall = (\<lambda>_. NoCall), syUsed = []\<rparr>"

inductive lock_reach :: "proc_view \<Rightarrow> lock_sys \<Rightarrow> bool" for v where
  start: "lock_reach v (lock_start v)"
| step: "lock_reach v s \<Longrightarrow> lock_act_step s a = Some s' \<Longrightarrow> lock_reach v s'"

text \<open>A process that runs under its lock.\<close>

definition runs :: "lock_sys \<Rightarrow> int \<Rightarrow> bool" where
  "runs s p \<longleftrightarrow> pvAlive (syProcs s) p \<and> (\<exists>l. syCall s p = Running l)"

text \<open>A process inside a call: one that died there makes no further access.\<close>

definition in_call :: "lock_sys \<Rightarrow> int \<Rightarrow> bool" where
  "in_call s p \<longleftrightarrow> pvAlive (syProcs s) p \<and> (case syCall s p of NoCall \<Rightarrow> False | Running _ \<Rightarrow> False | _ \<Rightarrow> True)"

definition serial :: "lock_sys \<Rightarrow> bool" where
  "serial s \<longleftrightarrow> (\<forall>p q. in_call s p \<longrightarrow> in_call s q \<longrightarrow> p = q)"

text \<open>Calls one after the other: a whole call is made while no process is inside another one.\<close>

fun whole_call :: "lock_act \<Rightarrow> bool" where
  "whole_call (Handover p q g wr) = True"
| "whole_call (Sweep l e) = True"
| "whole_call _ = False"

inductive serial_reach :: "proc_view \<Rightarrow> lock_sys \<Rightarrow> bool" for v where
  start: "serial_reach v (lock_start v)"
| step: "serial_reach v s \<Longrightarrow> lock_act_step s a = Some s' \<Longrightarrow> serial s' \<Longrightarrow> (whole_call a \<Longrightarrow> \<forall>p. \<not> in_call s p) \<Longrightarrow> serial_reach v s'"

end
