(* ===== verification/RunLockFacts.thy ===== *)
theory RunLockFacts
  imports RunLock
begin

text \<open>
  One run per scope: what a call of \<open>TakeRunLock\<close> returns for each lock it finds, that calls one after the other never
  let two living processes run on a scope, and a schedule of overlapping calls that does.
\<close>

section \<open>A call alone\<close>

lemma take_loop_returned [simp]: "returned pc \<Longrightarrow> take_loop v e l (pc, fs) = (pc, fs)"
  by (simp add: take_loop.simps)

lemma take_loop_step [simp]: "\<not> returned pc \<Longrightarrow> take_loop v e l (pc, fs) = take_loop v e l (take_step v e l (pc, fs))"
  by (subst take_loop.simps) simp

lemma take_returns: "returned (fst (take_loop v e l s))"
proof (induction v e l s rule: take_loop.induct)
  case (1 v e l s)
  then show ?case by (subst take_loop.simps) simp
qed

definition calm :: "take_env \<Rightarrow> bool" where
  "calm e \<longleftrightarrow> teMkdir e = None \<and> (\<forall>k. teLink e k = None) \<and> teRemove e"

lemma take_free: "calm e \<Longrightarrow> lfLock fs = None \<Longrightarrow> take_loop v e l (Link (Suc k), fs) = (Taken, fs\<lparr>lfLock := Some (Parsed l)\<rparr>)"
  by (simp add: calm_def linkLock_def)

definition ended :: "lock_fs \<Rightarrow> runLock \<Rightarrow> bool" where
  "ended fs cur \<longleftrightarrow> (\<exists>r. LoadRunResult fs = Some r \<and> rrID r = rlID cur)"

text \<open>C31: what \<open>TakeRunLock\<close> does on a disk that lets it write, while nobody else acts: no lock or one that cannot be read is taken; the lock of a living
  process is returned as held and left; the lock of a dead process that recorded its result is replaced; the lock of a dead process
  without a result is removed and reported as interrupted.\<close>

theorem TakeRunLock_spec:
  assumes "calm e"
  shows "TakeRunLock v e l fs =
    (case LoadRunLock fs of
       None \<Rightarrow> (Taken, fs\<lparr>lfLock := Some (Parsed l)\<rparr>)
     | Some cur \<Rightarrow>
         if lock_Alive v cur then (Held cur, fs)
         else if ended fs cur then (Taken, fs\<lparr>lfLock := Some (Parsed l)\<rparr>)
         else (TakeErr (RunGone cur), fs\<lparr>lfLock := None\<rparr>))"
proof (cases "lfLock fs")
  case None
  then show ?thesis using take_free[OF assms None, of v l 2] assms by (simp add: TakeRunLock_def calm_def LoadRunLock_def numeral_eq_Suc)
next
  case (Some f)
  have e: "teMkdir e = None" "\<And>k. teLink e k = None" "teRemove e" using assms by (simp_all add: calm_def)
  have link: "linkLock l fs = None" using Some by (simp add: linkLock_def)
  have free: "take_loop v e l (Link 2, fs\<lparr>lfLock := None\<rparr>) = (Taken, fs\<lparr>lfLock := Some (Parsed l)\<rparr>)"
    using take_free[OF assms, of "fs\<lparr>lfLock := None\<rparr>" v l 1] by (simp add: numeral_2_eq_2)
  have load: "TakeRunLock v e l fs = take_loop v e l (Load 2, fs)"
  proof -
    have "take_step v e l (Link 3, fs) = (Load 2, fs)"
      using take_step.simps(2)[of v e l 2 fs] e link by (simp add: numeral_3_eq_3 numeral_2_eq_2)
    then show ?thesis using take_loop_step[of "Link 3" v e l fs] e(1) by (simp add: TakeRunLock_def del: take_loop_step)
  qed
  show ?thesis
  proof (cases "LoadRunLock fs")
    case None
    then show ?thesis using load Some e free by (simp add: removeLock_def del: take_loop_step) (simp add: Some e free removeLock_def)
  next
    case cur: (Some cur)
    have res: "LoadRunResult (fs\<lparr>lfLock := x\<rparr>) = LoadRunResult fs" for x by (simp add: LoadRunResult_def)
    show ?thesis
    proof (cases "lock_Alive v cur")
      case True
      then show ?thesis using load cur by simp
    next
      case False
      then have "TakeRunLock v e l fs = take_loop v e l (Result 2 cur, fs\<lparr>lfLock := None\<rparr>)"
        using load cur e by (simp add: removeLock_def del: take_step.simps(8))
      then show ?thesis using False cur free res by (auto simp: ended_def split: option.splits)
    qed
  qed
qed

section \<open>Calls one after the other\<close>

definition own :: "lock_sys \<Rightarrow> int \<Rightarrow> runLock \<Rightarrow> bool" where
  "own s p l \<longleftrightarrow> rlPID l = p \<and> (pvStart (syProcs s) p = None \<or> rlPIDStart l = selfStart (syProcs s) p) \<and> rlID l \<noteq> []"

lemma own_alive: "own s p l \<Longrightarrow> pvAlive (syProcs s) p \<Longrightarrow> lock_Alive (syProcs s) l"
  by (auto simp: own_def lock_Alive_def ownerAlive_def selfStart_def split: option.splits)

fun pc_ok :: "lock_sys \<Rightarrow> take_pc \<Rightarrow> bool" where
  "pc_ok s (Judge k cur) = (lfLock (syFS s) = Some (Parsed cur))"
| "pc_ok s (Remove k cur) = (lfLock (syFS s) = Some (Parsed cur) \<and> \<not> lock_Alive (syProcs s) cur)"
| "pc_ok s (Stat k) = (LoadRunLock (syFS s) = None)"
| "pc_ok s (Unlink k) = (LoadRunLock (syFS s) = None)"
| "pc_ok s pc = True"

text \<open>What holds of the call of a living process: the lock it runs under is its own and is the one on disk.\<close>

fun call_ok :: "lock_sys \<Rightarrow> int \<Rightarrow> lock_call \<Rightarrow> bool" where
  "call_ok s p NoCall = True"
| "call_ok s p (Taking l pc) = (own s p l \<and> pc_ok s pc)"
| "call_ok s p (Running l) = (own s p l \<and> lfLock (syFS s) = Some (Parsed l))"
| "call_ok s p (ReleaseLoad l) = (own s p l \<and> lfLock (syFS s) = Some (Parsed l))"
| "call_ok s p (ReleaseRemove l) = (own s p l \<and> lfLock (syFS s) = Some (Parsed l))"

definition lock_inv :: "lock_sys \<Rightarrow> bool" where
  "lock_inv s \<longleftrightarrow> (\<forall>p. pvAlive (syProcs s) p \<longrightarrow> call_ok s p (syCall s p))"

lemma load_parsed: "lfLock fs = Some (Parsed l) \<Longrightarrow> rlID l \<noteq> [] \<Longrightarrow> LoadRunLock fs = Some l"
  by (simp add: LoadRunLock_def)

lemma load_is: "LoadRunLock fs = Some cur \<Longrightarrow> lfLock fs = Some (Parsed cur)"
  by (auto simp: LoadRunLock_def split: option.splits on_disk.splits if_splits)

text \<open>In a serial state, a process inside a call is the only one there: every other living process runs or rests.\<close>

lemma others_rest:
  assumes "serial s" and "in_call s p" and "q \<noteq> p" and "pvAlive (syProcs s) q"
  shows "syCall s q = NoCall \<or> (\<exists>l. syCall s q = Running l)"
  using assms by (cases "syCall s q") (auto simp: serial_def in_call_def split: lock_call.splits)

lemma inv_update:
  assumes "lock_inv s" and "call_ok s' p (syCall s' p) \<or> \<not> pvAlive (syProcs s') p" and "syProcs s' = syProcs s"
    and "\<And>q. q \<noteq> p \<Longrightarrow> syCall s' q = syCall s q"
    and "\<And>q l. q \<noteq> p \<Longrightarrow> pvAlive (syProcs s) q \<Longrightarrow> syCall s q = Running l \<Longrightarrow> lfLock (syFS s') = lfLock (syFS s)"
    and "\<And>q. q \<noteq> p \<Longrightarrow> pvAlive (syProcs s) q \<Longrightarrow> syCall s q = NoCall \<or> (\<exists>l. syCall s q = Running l)"
  shows "lock_inv s'"
  unfolding lock_inv_def
proof (intro allI impI)
  fix q assume a: "pvAlive (syProcs s') q"
  show "call_ok s' q (syCall s' q)"
  proof (cases "q = p")
    case True
    then show ?thesis using assms(2) a by simp
  next
    case False
    then have ok: "call_ok s q (syCall s q)" using assms(1,3) a by (simp add: lock_inv_def)
    from assms(6)[OF False] a assms(3) consider "syCall s q = NoCall" | l where "syCall s q = Running l" by auto
    then show ?thesis
    proof cases
      case 1
      then show ?thesis using assms(4)[OF False] by simp
    next
      case (2 l)
      then show ?thesis using ok assms(3) assms(4)[OF False] assms(5)[OF False _ 2] a by (simp add: own_def)
    qed
  qed
qed

lemma go_step:
  assumes inv: "lock_inv s" and ser: "serial s" and c: "syCall s p = Taking l pc" "\<not> returned pc" and a: "pvAlive (syProcs s) p"
    and st: "take_step (syProcs s) e l (pc, syFS s) = (pc', fs')"
  defines "c' \<equiv> (if pc' = Taken then Running l else if returned pc' then NoCall else Taking l pc')"
  shows "lock_inv (s\<lparr>syFS := fs', syCall := (syCall s)(p := c')\<rparr>)" (is "lock_inv ?s'")
proof (rule inv_update[OF inv, of _ p])
  have ok: "own s p l" "pc_ok s pc" using inv a c(1) unfolding lock_inv_def by (metis call_ok.simps(2))+
  have in_call: "in_call s p" using a c(1) by (simp add: in_call_def)
  show rest: "syCall s q = NoCall \<or> (\<exists>l. syCall s q = Running l)" if "q \<noteq> p" "pvAlive (syProcs s) q" for q
    using others_rest[OF ser in_call that] .
  show "lfLock (syFS ?s') = lfLock (syFS s)" if q: "q \<noteq> p" "pvAlive (syProcs s) q" "syCall s q = Running lq" for q lq
  proof -
    have own: "own s q lq" "lfLock (syFS s) = Some (Parsed lq)" using inv q unfolding lock_inv_def by (metis call_ok.simps(3))+
    then have ld: "LoadRunLock (syFS s) = Some lq" by (simp add: load_parsed own_def)
    show ?thesis
    proof (cases pc)
      case (Link k)
      then show ?thesis using st own(2) by (cases k) (auto simp: linkLock_def split: option.splits)
    next
      case (Remove k cur)
      then have "cur = lq" using ok(2) own(2) by simp
      then show ?thesis using ok(2) Remove own_alive[OF own(1) q(2)] by simp
    qed (use st ok(2) ld in \<open>auto split: option.splits if_splits\<close>)
  qed
  have own': "own ?s' p l" using ok(1) by (simp add: own_def)
  show "call_ok ?s' p (syCall ?s' p) \<or> \<not> pvAlive (syProcs ?s') p"
  proof (cases pc)
    case (Link k)
    then show ?thesis using st own' by (cases k) (auto simp: c'_def linkLock_def split: option.splits if_splits)
  next
    case (Load k)
    then show ?thesis using st own' by (auto simp: c'_def load_is split: option.splits)
  next
    case (Judge k cur)
    then show ?thesis using st own' ok(2) by (auto simp: c'_def split: if_splits)
  next
    case (Result k cur)
    then show ?thesis using st own' by (auto simp: c'_def split: option.splits if_splits)
  qed (use st own' ok(2) c(2) in \<open>auto simp: c'_def split: if_splits\<close>)
qed simp_all

lemma unreturned: "lock_reach v s \<Longrightarrow> syCall s p = Taking l pc \<Longrightarrow> \<not> returned pc"
proof (induction arbitrary: p l pc rule: lock_reach.induct)
  case start
  then show ?case by (simp add: lock_start_def)
next
  case (step s a s')
  then show ?case by (cases a) (auto split: lock_call.splits if_splits prod.splits option.splits bool.splits)
qed

lemma serial_is_reach: "serial_reach v s \<Longrightarrow> lock_reach v s"
  by (induction rule: serial_reach.induct) (auto intro: lock_reach.intros)

lemma inv_same_fs:
  assumes "lock_inv s" and "\<And>q. pvAlive (syProcs s') q \<Longrightarrow> pvAlive (syProcs s) q" and "pvStart (syProcs s') = pvStart (syProcs s)"
    and "lfLock (syFS s') = lfLock (syFS s)"
    and "\<And>q. pvAlive (syProcs s') q \<Longrightarrow> syCall s' q = syCall s q \<or> call_ok s' q (syCall s' q)"
  shows "lock_inv s'"
  unfolding lock_inv_def
proof (intro allI impI)
  fix q assume q: "pvAlive (syProcs s') q"
  have dead: "\<not> lock_Alive (syProcs s) cur \<Longrightarrow> \<not> lock_Alive (syProcs s') cur" for cur
    using assms(2,3) by (auto simp: lock_Alive_def ownerAlive_def split: if_splits option.splits)
  have load: "LoadRunLock (syFS s') = LoadRunLock (syFS s)" using assms(4) by (simp add: LoadRunLock_def)
  have own: "own s' q l = own s q l" for l using assms(3) by (simp add: own_def selfStart_def)
  have pc: "pc_ok s pc \<Longrightarrow> pc_ok s' pc" for pc using dead load assms(4) by (cases pc) auto
  have "call_ok s q (syCall s q)" using assms(1,2) q by (simp add: lock_inv_def)
  then have "call_ok s' q (syCall s q)" using own pc assms(4) by (cases "syCall s q") auto
  then show "call_ok s' q (syCall s' q)" using assms(5)[OF q] by auto
qed

lemma at_rest: "\<forall>r. \<not> in_call s r \<Longrightarrow> pvAlive (syProcs s) q \<Longrightarrow> syCall s q = NoCall \<or> (\<exists>l. syCall s q = Running l)"
  by (cases "syCall s q") (auto simp: in_call_def dest!: spec[of _ q])

lemma running_lock:
  assumes "lock_inv s" and "pvAlive (syProcs s) q" and "syCall s q = Running l"
  shows "own s q l" and "LoadRunLock (syFS s) = Some l" and "lfLock (syFS s) = Some (Parsed l)"
proof -
  have ok: "own s q l \<and> lfLock (syFS s) = Some (Parsed l)" using assms unfolding lock_inv_def by (metis call_ok.simps(3))
  then show "own s q l" "lfLock (syFS s) = Some (Parsed l)" by auto
  then show "LoadRunLock (syFS s) = Some l" by (simp add: load_parsed own_def)
qed

lemma sweep_inv:
  assumes inv: "lock_inv s" and rest: "\<forall>r. \<not> in_call s r"
  shows "lock_inv (s\<lparr>syFS := snd (RemoveStaleRunLock (syProcs s) e l (syFS s))\<rparr>)" (is "lock_inv ?s'")
  unfolding lock_inv_def
proof (intro allI impI)
  fix q assume "pvAlive (syProcs ?s') q"
  then have q: "pvAlive (syProcs s) q" by simp
  from at_rest[OF rest q] show "call_ok ?s' q (syCall ?s' q)"
  proof
    assume "\<exists>lq. syCall s q = Running lq"
    then obtain lq where c: "syCall s q = Running lq" by blast
    note r = running_lock[OF inv q c]
    then have "snd (RemoveStaleRunLock (syProcs s) e l (syFS s)) = syFS s"
      using own_alive[OF r(1) q] by (simp add: RemoveStaleRunLock_def)
    then show ?thesis using r c by (simp add: own_def)
  qed simp
qed

lemma handover_inv:
  assumes inv: "lock_inv s" and rest: "\<forall>r. \<not> in_call s r" and st: "lock_act_step s (Handover p q g wr) = Some s'"
  shows "lock_inv s'"
proof -
  obtain l cur where c: "syCall s p = Running l" "LoadRunLock (syFS s) = Some cur" "rlID cur = rlID l" "rlPID cur = p" "p \<noteq> q"
      "syCall s q = NoCall" "pvAlive (syProcs s) q"
    using st by (auto split: lock_call.splits option.splits if_splits)
  define l1 where "l1 = (case pvStart (syProcs s) q of Some t \<Rightarrow> cur\<lparr>rlPID := q, rlPGID := g, rlPIDStart := t\<rparr> | None \<Rightarrow> cur\<lparr>rlPID := q, rlPGID := g\<rparr>)"
  have own: "own s q l1"
    using c(2) by (auto simp: own_def l1_def selfStart_def LoadRunLock_def split: option.splits on_disk.splits if_splits)
  have "UpdateRunLock (syProcs s) wr (cur\<lparr>rlPID := q, rlPGID := g\<rparr>) (syFS s)
      = (if wr = None then (True, l1, (syFS s)\<lparr>lfLock := Some (Parsed l1)\<rparr>) else (False, l1, syFS s))"
    using c(2) by (simp add: UpdateRunLock_def l1_def Let_def split: option.splits)
  then have s': "s' = s \<or> s' = s\<lparr>syFS := (syFS s)\<lparr>lfLock := Some (Parsed l1)\<rparr>, syCall := (syCall s)(p := NoCall, q := Running l1)\<rparr>"
    using st c by (auto split: if_splits)
  have "call_ok s' r (syCall s' r)" if r: "pvAlive (syProcs s) r" "s' \<noteq> s" for r
  proof -
    from s' r(2) have s': "s' = s\<lparr>syFS := (syFS s)\<lparr>lfLock := Some (Parsed l1)\<rparr>, syCall := (syCall s)(p := NoCall, q := Running l1)\<rparr>" by simp
    consider "r = q" | "r = p" | "r \<noteq> q" "r \<noteq> p" by blast
    then show ?thesis
    proof cases
      case 3
      have "\<not> (\<exists>lr. syCall s r = Running lr)"
      proof
        assume "\<exists>lr. syCall s r = Running lr"
        then obtain lr where "syCall s r = Running lr" by blast
        note k = running_lock[OF inv r(1) this]
        then show False using c(2,4) 3(2) by (simp add: own_def)
      qed
      then show ?thesis using at_rest[OF rest r(1)] 3 s' by simp
    qed (use own c(5) s' in \<open>auto simp: own_def\<close>)
  qed
  note ok = this
  show ?thesis
  proof (cases "s' = s")
    case False
    moreover have "syProcs s' = syProcs s" using s' by auto
    ultimately show ?thesis using ok unfolding lock_inv_def by simp
  qed (simp add: inv)
qed

lemma serial_inv: "serial_reach v s \<Longrightarrow> lock_inv s \<and> serial s"
proof (induction rule: serial_reach.induct)
  case start
  show ?case by (simp add: lock_inv_def serial_def in_call_def lock_start_def)
next
  case (step s a s')
  then have inv: "lock_inv s" and ser: "serial s" by simp_all
  have "lock_inv s'"
  proof (cases a)
    case (Begin p l)
    then show ?thesis using step.hyps(2) inv by (intro inv_same_fs[OF inv]) (auto simp: own_def split: if_splits)
  next
    case (Go p e)
    then obtain l pc where c: "syCall s p = Taking l pc" "pvAlive (syProcs s) p"
      using step.hyps(2) by (auto split: lock_call.splits if_splits)
    obtain pc' fs' where st: "take_step (syProcs s) e l (pc, syFS s) = (pc', fs')" by (cases "take_step (syProcs s) e l (pc, syFS s)")
    show ?thesis
      using go_step[OF inv ser c(1) unreturned[OF serial_is_reach[OF step.hyps(1)] c(1)] c(2) st] step.hyps(2) Go c st by simp
  next
    case (Save p r)
    then show ?thesis using step.hyps(2) by (intro inv_same_fs[OF inv]) (auto simp: SaveRunResult_def split: lock_call.splits if_splits)
  next
    case (Finish p)
    then obtain l where c: "syCall s p = Running l" "pvAlive (syProcs s) p" and s': "s' = s\<lparr>syCall := (syCall s)(p := ReleaseLoad l)\<rparr>"
      using step.hyps(2) by (auto split: lock_call.splits if_splits)
    have "call_ok s p (Running l)" using inv c unfolding lock_inv_def by metis
    then show ?thesis unfolding s' by (intro inv_same_fs[OF inv]) (auto simp: own_def)
  next
    case (Release p e)
    then have a: "pvAlive (syProcs s) p" using step.hyps(2) by (auto split: if_splits)
    consider l where "syCall s p = ReleaseLoad l" | l where "syCall s p = ReleaseRemove l"
      using step.hyps(2) Release a by (auto split: lock_call.splits)
    then show ?thesis
    proof cases
      case (1 l)
      have "call_ok s p (ReleaseLoad l)" using inv 1 a unfolding lock_inv_def by metis
      then show ?thesis using step.hyps(2) Release a 1 by (intro inv_same_fs[OF inv]) (auto simp: own_def split: option.splits if_splits)
    next
      case (2 l)
      have ok: "own s p l" "lfLock (syFS s) = Some (Parsed l)" using inv 2 a unfolding lock_inv_def by (metis call_ok.simps(5))+
      have in_call: "in_call s p" using a 2 by (simp add: in_call_def)
      have s': "s' = s\<lparr>syFS := removeLock e (syFS s), syCall := (syCall s)(p := NoCall)\<rparr>" using step.hyps(2) Release a 2 by simp
      show ?thesis
      proof (rule inv_update[OF inv, of _ p])
        show "lfLock (syFS s') = lfLock (syFS s)" if q: "q \<noteq> p" "pvAlive (syProcs s) q" "syCall s q = Running lq" for q lq
        proof -
          have "own s q lq" "lfLock (syFS s) = Some (Parsed lq)" using inv q unfolding lock_inv_def by (metis call_ok.simps(3))+
          then show ?thesis using ok q(1) by (simp add: own_def)
        qed
        show "syCall s q = NoCall \<or> (\<exists>l. syCall s q = Running l)" if "q \<noteq> p" "pvAlive (syProcs s) q" for q
          using others_rest[OF ser in_call that] .
      qed (simp_all add: s')
    qed
  next
    case (Handover p q g wr)
    with step.hyps(3) have "\<forall>r. \<not> in_call s r" using step.hyps(4) by simp
    then show ?thesis using handover_inv[OF inv] step.hyps(2) Handover by blast
  next
    case (Sweep l e)
    with step.hyps(3) have "\<forall>r. \<not> in_call s r" using step.hyps(4) by simp
    then show ?thesis using sweep_inv[OF inv, of e l] step.hyps(2) Sweep by auto
  next
    case (Die p)
    then show ?thesis using step.hyps(2) by (intro inv_same_fs[OF inv]) (auto split: if_splits)
  qed
  then show ?case using step.hyps(3) by simp
qed


section \<open>Calls that overlap\<close>

fun lock_acts :: "lock_act list \<Rightarrow> lock_sys \<Rightarrow> lock_sys option" where
  "lock_acts [] s = Some s"
| "lock_acts (a # as) s = (case lock_act_step s a of None \<Rightarrow> None | Some s' \<Rightarrow> lock_acts as s')"

lemma lock_acts_reach: "lock_reach v s \<Longrightarrow> lock_acts as s = Some s' \<Longrightarrow> lock_reach v s'"
  by (induction as arbitrary: s) (auto split: option.splits intro: lock_reach.step)

definition calm_env :: take_env where
  "calm_env = \<lparr>teMkdir = None, teLink = (\<lambda>_. None), teRemove = True\<rparr>"

definition ex_view :: proc_view where
  "ex_view = \<lparr>pvAlive = (\<lambda>_. True), pvStart = (\<lambda>_. None)\<rparr>"

definition ex_lock :: "int \<Rightarrow> string \<Rightarrow> runLock" where
  "ex_lock p i = \<lparr>rlID = i, rlPID = p, rlPGID = p, rlPIDStart = [], rlVerb = ''change verify'', rlScope = ''c'', rlSHA = [], rlStarted = [],
     rlLog = [], rlPersonAct = None\<rparr>"

text \<open>
  Process 2 finds the lock of process 1 and goes to read it; process 1 ends its run and removes it, so that process 2 reads
  nothing; process 3 takes the lock; process 2 finds a file there, takes it for one it could not read, removes it, and links its own.
\<close>

definition lock_overlap :: "lock_act list" where
  "lock_overlap =
     [Begin 1 (ex_lock 1 ''a''), Go 1 calm_env, Begin 2 (ex_lock 2 ''b''), Go 2 calm_env,
      Finish 1, Release 1 calm_env, Release 1 calm_env, Go 2 calm_env,
      Begin 3 (ex_lock 3 ''c''), Go 3 calm_env, Go 2 calm_env, Go 2 calm_env, Go 2 calm_env]"

lemma overlap_runs:
  "\<exists>s. lock_acts lock_overlap (lock_start ex_view) = Some s \<and> syCall s 2 = Running (ex_lock 2 ''b'') \<and> syCall s 3 = Running (ex_lock 3 ''c'')
    \<and> syProcs s = ex_view"
  by (simp add: lock_overlap_def lock_start_def ex_view_def ex_lock_def selfStart_def calm_env_def linkLock_def LoadRunLock_def removeLock_def numeral_3_eq_3)

text \<open>Without that, two living processes can run in the same scope: a process that read no lock removes by path whatever file is there when it looks
  again, which is then the lock another process has just taken.\<close>

theorem overlapping_calls_share_a_scope:
  "\<exists>v s. (\<forall>p. pvAlive v p) \<and> lock_reach v s \<and> syProcs s = v \<and> runs s 2 \<and> runs s 3"
proof -
  obtain s where s: "lock_acts lock_overlap (lock_start ex_view) = Some s" "syCall s 2 = Running (ex_lock 2 ''b'')" "syCall s 3 = Running (ex_lock 3 ''c'')"
    "syProcs s = ex_view" using overlap_runs by blast
  then have "lock_reach ex_view s" by (intro lock_acts_reach[OF lock_reach.start])
  moreover have "\<forall>p. pvAlive ex_view p" by (simp add: ex_view_def)
  ultimately show ?thesis using s by (intro exI[of _ ex_view] exI[of _ s]) (auto simp: runs_def)
qed

section \<open>Instances\<close>

definition ex_taken :: lock_sys where
  "ex_taken = (lock_start ex_view)\<lparr>syFS := \<lparr>lfLock = Some (Parsed (ex_lock 1 ''a'')), lfResult = None\<rparr>,
     syCall := (\<lambda>_. NoCall)(1 := Running (ex_lock 1 ''a'')), syUsed := [''a'']\<rparr>"

lemma ex_taken_serial: "serial_reach ex_view ex_taken"
proof -
  let ?s = "(lock_start ex_view)\<lparr>syCall := (\<lambda>_. NoCall)(1 := Taking (ex_lock 1 ''a'') (Link 3)), syUsed := [''a'']\<rparr>"
  have "lock_act_step (lock_start ex_view) (Begin 1 (ex_lock 1 ''a'')) = Some ?s"
    by (simp add: lock_start_def ex_view_def ex_lock_def selfStart_def)
  moreover have "serial ?s" by (auto simp: serial_def in_call_def split: if_splits)
  ultimately have "serial_reach ex_view ?s" by (rule serial_reach.step[OF serial_reach.start]) simp
  moreover have "lock_act_step ?s (Go 1 calm_env) = Some ex_taken"
    by (simp add: lock_start_def ex_view_def ex_taken_def calm_env_def linkLock_def numeral_3_eq_3)
  moreover have "serial ex_taken" by (auto simp: serial_def in_call_def ex_taken_def lock_start_def split: if_splits)
  ultimately show ?thesis by (rule serial_reach.step) simp
qed


theorem TakeRunLock_spec_witness:
  "TakeRunLock (ex_view\<lparr>pvAlive := (\<lambda>_. False)\<rparr>) calm_env (ex_lock 2 ''b'') (syFS ex_taken) =
    (TakeErr (fail CodeRunInterrupted), \<lparr>lfLock = None, lfResult = None\<rparr>)"
  by (subst TakeRunLock_spec)
    (simp_all add: calm_def calm_env_def ex_taken_def LoadRunLock_def ex_lock_def lock_Alive_def ownerAlive_def ended_def LoadRunResult_def RunGone_def)

end
