(* ===== verification/Journal.thy ===== *)
theory Journal
  imports RunLock
begin

text \<open>
  The journal of an archive and the rollback of one that crashed (\<open>internal/apexv1/journal.go\<close>), with the git commands the
  squash of \<open>archive.go\<close> runs in their order. Git is a parameter: \<open>'r\<close> is a repository with its working tree and \<open>'r git\<close> the
  commands the code calls; what it relies on is \<open>git_ok\<close>.
\<close>

section \<open>The journal\<close>

definition CodeArchiveInterrupted :: string where
  "CodeArchiveInterrupted = ''archive.interrupted''"

definition JournalRebase :: string where
  "JournalRebase = ''rebase''"

definition JournalSquash :: string where
  "JournalSquash = ''squash''"

record archiveJournal =
  ajID :: string
  ajBase :: string
  ajBaseSHA :: string
  ajBranch :: string
  ajBranchTip :: string
  ajStep :: string
  ajWritten :: "string list"
  ajPID :: int
  ajAt :: string

definition LoadArchiveJournal :: "archiveJournal on_disk option \<Rightarrow> archiveJournal option" where
  "LoadArchiveJournal f = (case f of Some (Parsed j) \<Rightarrow> if ajID j = [] then None else Some j | _ \<Rightarrow> None)"

definition journal_Running :: "proc_view \<Rightarrow> int \<Rightarrow> archiveJournal \<Rightarrow> bool" where
  "journal_Running v self j \<longleftrightarrow> ajPID j > 0 \<and> ajPID j \<noteq> self \<and> pvAlive v (ajPID j)"

section \<open>Git\<close>

text \<open>A branch that does not exist has the empty tip; \<open>gCurrent\<close> is empty when HEAD is detached; \<open>gSwitch\<close> says whether it succeeded.\<close>

record 'r git =
  gRebasing :: "'r \<Rightarrow> bool"
  gRebaseAbort :: "'r \<Rightarrow> 'r"
  gCherryQuit :: "'r \<Rightarrow> 'r"
  gCurrent :: "'r \<Rightarrow> string"
  gTip :: "'r \<Rightarrow> string \<Rightarrow> string"
  gParent :: "'r \<Rightarrow> string \<Rightarrow> string option"
  gChange :: "'r \<Rightarrow> string \<Rightarrow> string"
  gResetHard :: "'r \<Rightarrow> string option \<Rightarrow> 'r"
  gMoveBranch :: "'r \<Rightarrow> string \<Rightarrow> string \<Rightarrow> string \<Rightarrow> 'r"
  gNewBranch :: "'r \<Rightarrow> string \<Rightarrow> string \<Rightarrow> 'r"
  gSetRef :: "'r \<Rightarrow> string \<Rightarrow> string \<Rightarrow> 'r"
  gDropRef :: "'r \<Rightarrow> string \<Rightarrow> 'r"
  gSwitch :: "'r \<Rightarrow> string \<Rightarrow> 'r \<times> bool"
  gDirty :: "'r \<Rightarrow> bool"
  gClean :: "'r \<Rightarrow> string list \<Rightarrow> 'r"
  gRmdir :: "'r \<Rightarrow> string \<Rightarrow> 'r"
  gMergeSquash :: "'r \<Rightarrow> string \<Rightarrow> 'r"
  gCommit :: "'r \<Rightarrow> string \<Rightarrow> 'r"
  gDropBranch :: "'r \<Rightarrow> string \<Rightarrow> 'r"

definition archiveRef :: "string \<Rightarrow> string" where
  "archiveRef i = ''refs/apex/archive/'' @ i"

section \<open>Rolling back\<close>

datatype did =
    AbortedRebase
  | UndidSquash string
  | BaseMovedOn
  | DroppedHalfSquash
  | RestoredBranch
  | ResetBranch
  | CouldNotCheckOut
  | CheckedOut
  | NothingChanged

definition isSquashOf :: "'r git \<Rightarrow> 'r \<Rightarrow> string \<Rightarrow> archiveJournal \<Rightarrow> bool" where
  "isSquashOf g r sha j = (case gParent g r sha of
      None \<Rightarrow> False
    | Some parent \<Rightarrow> parent = ajBaseSHA j \<and> TrimSpace (gChange g r sha) = ajID j)"

definition spec_dir :: "string \<Rightarrow> string" where
  "spec_dir w = take (length w - 8) w"

definition cleanWritten :: "'r git \<Rightarrow> string list \<Rightarrow> 'r \<Rightarrow> 'r" where
  "cleanWritten g written r =
     (if written = [] then r
      else foldl (\<lambda>r w. if HasSuffix w ''/spec.md'' then gRmdir g r (spec_dir w) else r) (gClean g r written) written)"

text \<open>The base branch: its squash commit undone, its half squash dropped.\<close>

definition roll_base :: "'r git \<Rightarrow> archiveJournal \<Rightarrow> string \<Rightarrow> 'r \<Rightarrow> did list \<times> 'r" where
  "roll_base g j cur r =
     (let baseTip = gTip g r (ajBase j);
          (did1, r1) =
            (if baseTip = [] \<or> ajBaseSHA j = [] \<or> baseTip = ajBaseSHA j then ([], r)
             else if isSquashOf g r baseTip j
             then ([UndidSquash baseTip], if cur = ajBase j then gResetHard g r (Some (ajBaseSHA j)) else gMoveBranch g r (ajBase j) (ajBaseSHA j) baseTip)
             else ([BaseMovedOn], r))
      in if cur = ajBase j \<and> gDirty g r1
         then (did1 @ [DroppedHalfSquash], cleanWritten g (ajWritten j) (gResetHard g r1 None))
         else (did1, r1))"

text \<open>The change's branch: back at its recorded tip, checked out.\<close>

definition roll_branch :: "'r git \<Rightarrow> archiveJournal \<Rightarrow> string \<Rightarrow> 'r \<Rightarrow> did list \<times> 'r" where
  "roll_branch g j cur r =
     (let tip = gTip g r (ajBranch j);
          (did1, r1) =
            (if tip = [] then ([RestoredBranch], gNewBranch g r (ajBranch j) (ajBranchTip j))
             else if tip \<noteq> ajBranchTip j
             then ([ResetBranch], if cur = ajBranch j then gResetHard g r (Some (ajBranchTip j)) else gMoveBranch g r (ajBranch j) (ajBranchTip j) tip)
             else ([], r));
          r2 = (if ajStep j = JournalSquash then gDropRef g r1 (archiveRef (ajID j)) else r1)
      in if gCurrent g r2 \<noteq> ajBranch j
         then (case gSwitch g r2 (ajBranch j) of (r3, ok) \<Rightarrow> (did1 @ [if ok then CheckedOut else CouldNotCheckOut], r3))
         else (did1, r2))"

definition rollBack :: "'r git \<Rightarrow> archiveJournal \<Rightarrow> 'r \<Rightarrow> did list \<times> 'r" where
  "rollBack g j r =
     (let did0 = (if gRebasing g r then [AbortedRebase] else []);
          r1 = gCherryQuit g (if gRebasing g r then gRebaseAbort g r else r);
          cur = gCurrent g r1;
          (did2, r2) = roll_base g j cur r1;
          (did3, r3) = roll_branch g j cur r2;
          all = did0 @ did2 @ did3
      in (if all = [] then [NothingChanged] else all, r3))"

text \<open>
  \<open>recoverArchive\<close>: the journal file, the lock of the journal's change as it is on disk, and whether there is a work tree;
  the error it returns, whether the journal is still there, and the repository.
\<close>

definition recoverArchive ::
    "'r git \<Rightarrow> proc_view \<Rightarrow> int \<Rightarrow> archiveJournal on_disk option \<Rightarrow> (string \<Rightarrow> lock_fs) \<Rightarrow> bool \<Rightarrow> 'r \<Rightarrow> apex_error option \<times> bool \<times> 'r" where
  "recoverArchive g v self f locks workTree r = (case LoadArchiveJournal f of
      None \<Rightarrow> (None, f \<noteq> None, r)
    | Some j \<Rightarrow>
        if journal_Running v self j then (None, True, r)
        else if (case LoadRunLock (locks (ajID j)) of None \<Rightarrow> False | Some l \<Rightarrow> rlPID l \<noteq> self \<and> lock_Alive v l) then (None, True, r)
        else if \<not> workTree then (None, False, r)
        else (Some (fail CodeArchiveInterrupted), False, snd (rollBack g j r)))"

section \<open>The squash, command by command\<close>

text \<open>
  What \<open>squashOntoBase\<close> does to the repository, one command after the other, once its journal is written. \<open>writes\<close> are the files it
  writes and stages between the merge and the commit, \<open>msg\<close> the squash message. A failure before the commit undoes it in the
  process (\<open>undo\<close>); a crash stops after any of them.
\<close>

definition squash_commands :: "'r git \<Rightarrow> archiveJournal \<Rightarrow> ('r \<Rightarrow> 'r) list \<Rightarrow> string \<Rightarrow> ('r \<Rightarrow> 'r) list" where
  "squash_commands g j writes msg =
     [\<lambda>r. fst (gSwitch g r (ajBase j)), \<lambda>r. gMergeSquash g r (ajBranch j)] @ writes @
     [\<lambda>r. gCommit g r msg, \<lambda>r. gSetRef g r (archiveRef (ajID j)) (ajBranchTip j), \<lambda>r. gDropBranch g r (ajBranch j)]"

text \<open>\<open>undo\<close>, with the commit the base branch was at when it was checked out.\<close>

definition squash_undo :: "'r git \<Rightarrow> archiveJournal \<Rightarrow> string \<Rightarrow> 'r \<Rightarrow> 'r" where
  "squash_undo g j baseSHA r = fst (gSwitch g (cleanWritten g (ajWritten j) (gResetHard g r (Some baseSHA))) (ajBranch j))"

section \<open>What the code relies on\<close>

text \<open>A command of git that leaves every branch and HEAD where they are.\<close>

definition keeps_branches :: "'r git \<Rightarrow> ('r \<Rightarrow> 'r) \<Rightarrow> bool" where
  "keeps_branches g f \<longleftrightarrow> (\<forall>r b. gTip g (f r) b = gTip g r b) \<and> (\<forall>r. gCurrent g (f r) = gCurrent g r)"

text \<open>
  Documented behaviour of git. Aborting a rebase puts HEAD back and moves no branch; commits do not change. A hard reset to a commit
  moves the branch that is checked out, and \<open>update-ref\<close> with the old value the one it names.
\<close>

definition git_ok :: "'r git \<Rightarrow> bool" where
  "git_ok g \<longleftrightarrow>
     (\<forall>r b. gTip g (gRebaseAbort g r) b = gTip g r b)
   \<and> (\<forall>r sha. gParent g (gRebaseAbort g r) sha = gParent g r sha \<and> gChange g (gRebaseAbort g r) sha = gChange g r sha)
   \<and> (\<forall>r sha. gParent g (gCherryQuit g r) sha = gParent g r sha \<and> gChange g (gCherryQuit g r) sha = gChange g r sha)
   \<and> keeps_branches g (gCherryQuit g) \<and> keeps_branches g (\<lambda>r. gResetHard g r None)
   \<and> (\<forall>ws. keeps_branches g (\<lambda>r. gClean g r ws)) \<and> (\<forall>d. keeps_branches g (\<lambda>r. gRmdir g r d))
   \<and> (\<forall>ref. keeps_branches g (\<lambda>r. gDropRef g r ref))
   \<and> (\<forall>r sha b. gCurrent g r \<noteq> [] \<longrightarrow> gTip g (gResetHard g r (Some sha)) b = (if b = gCurrent g r then sha else gTip g r b))
   \<and> (\<forall>r sha. gCurrent g (gResetHard g r (Some sha)) = gCurrent g r)
   \<and> (\<forall>r b new b'. gTip g (gMoveBranch g r b new (gTip g r b)) b' = (if b' = b then new else gTip g r b'))
   \<and> (\<forall>r b new old. gCurrent g (gMoveBranch g r b new old) = gCurrent g r)
   \<and> (\<forall>r b sha b'. gTip g r b = [] \<longrightarrow> gTip g (gNewBranch g r b sha) b' = (if b' = b then sha else gTip g r b'))
   \<and> (\<forall>r b sha. gCurrent g (gNewBranch g r b sha) = gCurrent g r)
   \<and> (\<forall>r b b'. gTip g (fst (gSwitch g r b)) b' = gTip g r b')
   \<and> (\<forall>r b. snd (gSwitch g r b) \<longrightarrow> gCurrent g (fst (gSwitch g r b)) = b)"

end
