(* ===== verification/JournalFacts.thy ===== *)
theory JournalFacts
  imports Journal
begin

text \<open>
  What a rollback does to the branches, whatever it finds, and that an archive killed after any of its git commands is rolled
  back to where it started.
\<close>

section \<open>The rollback\<close>

lemma keepsD: "keeps_branches g f \<Longrightarrow> gTip g (f r) b = gTip g r b" "keeps_branches g f \<Longrightarrow> gCurrent g (f r) = gCurrent g r"
  by (simp_all add: keeps_branches_def)

lemma git_okD:
  assumes "git_ok g"
  shows "gTip g (gRebaseAbort g r) b = gTip g r b"
    and "gParent g (gRebaseAbort g r) sha = gParent g r sha" and "gChange g (gRebaseAbort g r) sha = gChange g r sha"
    and "gParent g (gCherryQuit g r) sha = gParent g r sha" and "gChange g (gCherryQuit g r) sha = gChange g r sha"
    and "gTip g (gCherryQuit g r) b = gTip g r b"
    and "keeps_branches g (\<lambda>r. gResetHard g r None)" and "keeps_branches g (\<lambda>r. gClean g r ws)" and "keeps_branches g (\<lambda>r. gRmdir g r d)"
    and "gTip g (gDropRef g r ref) b = gTip g r b" and "gCurrent g (gDropRef g r ref) = gCurrent g r"
    and "gCurrent g r \<noteq> [] \<Longrightarrow> gTip g (gResetHard g r (Some sha)) b = (if b = gCurrent g r then sha else gTip g r b)"
    and "gCurrent g (gResetHard g r (Some sha)) = gCurrent g r"
    and "gTip g (gMoveBranch g r b' sha (gTip g r b')) b = (if b = b' then sha else gTip g r b)"
    and "gCurrent g (gMoveBranch g r b' sha old) = gCurrent g r"
    and "gTip g r b' = [] \<Longrightarrow> gTip g (gNewBranch g r b' sha) b = (if b = b' then sha else gTip g r b)"
    and "gTip g (fst (gSwitch g r b')) b = gTip g r b"
    and "snd (gSwitch g r b') \<Longrightarrow> gCurrent g (fst (gSwitch g r b')) = b'"
  using assms by (simp_all add: git_ok_def keeps_branches_def)

lemma cleanWritten_keeps: "git_ok g \<Longrightarrow> keeps_branches g (cleanWritten g ws)"
proof -
  assume g: "git_ok g"
  have "gTip g (foldl (\<lambda>r w. if HasSuffix w ''/spec.md'' then gRmdir g r (spec_dir w) else r) r vs) b = gTip g r b
      \<and> gCurrent g (foldl (\<lambda>r w. if HasSuffix w ''/spec.md'' then gRmdir g r (spec_dir w) else r) r vs) = gCurrent g r" for vs r b
    by (induction vs arbitrary: r) (simp_all add: keepsD[OF git_okD(9)[OF g]])
  then show ?thesis by (simp add: keeps_branches_def cleanWritten_def keepsD[OF git_okD(8)[OF g]])
qed

text \<open>The squash commit the rollback finds on the base branch.\<close>

definition squash_found :: "'r git \<Rightarrow> archiveJournal \<Rightarrow> 'r \<Rightarrow> bool" where
  "squash_found g j r \<longleftrightarrow> gTip g r (ajBase j) \<noteq> [] \<and> ajBaseSHA j \<noteq> [] \<and> gTip g r (ajBase j) \<noteq> ajBaseSHA j
     \<and> isSquashOf g r (gTip g r (ajBase j)) j"

lemma roll_base_effect:
  assumes g: "git_ok g" and j: "ajBase j \<noteq> []" and r: "roll_base g j (gCurrent g r) r = (ds, r')"
  shows "gTip g r' b = (if b = ajBase j \<and> squash_found g j r then ajBaseSHA j else gTip g r b)" and "gCurrent g r' = gCurrent g r"
proof -
  define r1 where "r1 = (if squash_found g j r
    then if gCurrent g r = ajBase j then gResetHard g r (Some (ajBaseSHA j)) else gMoveBranch g r (ajBase j) (ajBaseSHA j) (gTip g r (ajBase j))
    else r)"
  have cur: "gCurrent g r1 = gCurrent g r" by (simp add: r1_def git_okD[OF g])
  have tip: "gTip g r1 b = (if b = ajBase j \<and> squash_found g j r then ajBaseSHA j else gTip g r b)"
    using j by (auto simp: r1_def git_okD(14)[OF g] git_okD(12)[OF g])
  have "r' = r1 \<or> r' = cleanWritten g (ajWritten j) (gResetHard g r1 None)"
    using r by (auto simp: roll_base_def Let_def r1_def squash_found_def split: if_splits)
  then show "gTip g r' b = (if b = ajBase j \<and> squash_found g j r then ajBaseSHA j else gTip g r b)" and "gCurrent g r' = gCurrent g r"
    using cur tip keepsD[OF cleanWritten_keeps[OF g]] keepsD[OF git_okD(7)[OF g]] by auto
qed

lemma roll_branch_effect:
  assumes g: "git_ok g" and j: "ajBranch j \<noteq> []" and r: "roll_branch g j (gCurrent g r) r = (ds, r')"
  shows "gTip g r' b = (if b = ajBranch j then ajBranchTip j else gTip g r b)" and "gCurrent g r' = ajBranch j \<or> CouldNotCheckOut \<in> set ds"
proof -
  define r1 where "r1 = (if gTip g r (ajBranch j) = [] then gNewBranch g r (ajBranch j) (ajBranchTip j)
    else if gTip g r (ajBranch j) \<noteq> ajBranchTip j
    then if gCurrent g r = ajBranch j then gResetHard g r (Some (ajBranchTip j)) else gMoveBranch g r (ajBranch j) (ajBranchTip j) (gTip g r (ajBranch j))
    else r)"
  define r2 where "r2 = (if ajStep j = JournalSquash then gDropRef g r1 (archiveRef (ajID j)) else r1)"
  have "gTip g r1 b' = (if b' = ajBranch j then ajBranchTip j else gTip g r b')" for b'
    using j by (auto simp: r1_def git_okD(12,14,16)[OF g])
  then have tip: "gTip g r2 b' = (if b' = ajBranch j then ajBranchTip j else gTip g r b')" for b' by (simp add: r2_def git_okD(10)[OF g])
  have r': "r' = (if gCurrent g r2 \<noteq> ajBranch j then fst (gSwitch g r2 (ajBranch j)) else r2)"
    and ds: "gCurrent g r2 \<noteq> ajBranch j \<Longrightarrow> (if snd (gSwitch g r2 (ajBranch j)) then CheckedOut else CouldNotCheckOut) \<in> set ds"
    using r by (auto simp: roll_branch_def Let_def r1_def r2_def split: if_splits prod.splits)
  show "gTip g r' b = (if b = ajBranch j then ajBranchTip j else gTip g r b)" using tip by (simp add: r' git_okD(17)[OF g])
  show "gCurrent g r' = ajBranch j \<or> CouldNotCheckOut \<in> set ds" using ds git_okD(18)[OF g, of r2 "ajBranch j"] by (auto simp: r' split: if_splits)
qed

lemma rollBack_effect:
  assumes g: "git_ok g" and j: "ajBase j \<noteq> []" "ajBranch j \<noteq> []" "ajBase j \<noteq> ajBranch j" and r: "rollBack g j r = (ds, r')"
  shows "gTip g r' b = (if b = ajBranch j then ajBranchTip j else if b = ajBase j \<and> squash_found g j r then ajBaseSHA j else gTip g r b)"
    and "gCurrent g r' = ajBranch j \<or> CouldNotCheckOut \<in> set ds"
proof -
  define r1 where "r1 = gCherryQuit g (if gRebasing g r then gRebaseAbort g r else r)"
  obtain d2 r2 where 2: "roll_base g j (gCurrent g r1) r1 = (d2, r2)" by (cases "roll_base g j (gCurrent g r1) r1")
  obtain d3 r3 where 3: "roll_branch g j (gCurrent g r2) r2 = (d3, r3)" by (cases "roll_branch g j (gCurrent g r2) r2")
  have same: "gTip g r1 b = gTip g r b" "gParent g r1 sha = gParent g r sha" "gChange g r1 sha = gChange g r sha" for b sha
    by (simp_all add: r1_def git_okD[OF g])
  then have found: "squash_found g j r1 = squash_found g j r" by (simp add: squash_found_def isSquashOf_def cong: option.case_cong)
  have cur: "gCurrent g r2 = gCurrent g r1" by (rule roll_base_effect(2)[OF g j(1) 2])
  have ds: "set d3 \<subseteq> set ds" "r' = r3" using r 2 3 cur by (auto simp: rollBack_def r1_def Let_def split: if_splits)
  show "gTip g r' b = (if b = ajBranch j then ajBranchTip j else if b = ajBase j \<and> squash_found g j r then ajBaseSHA j else gTip g r b)"
    unfolding ds(2) roll_branch_effect(1)[OF g j(2) 3] roll_base_effect(1)[OF g j(1) 2] found same ..
  show "gCurrent g r' = ajBranch j \<or> CouldNotCheckOut \<in> set ds" using roll_branch_effect(2)[OF g j(2) 3] ds by auto
qed

section \<open>A crash anywhere\<close>

text \<open>
  Documented behaviour of the commands of the squash: a merge with \<open>--squash\<close>, a write and a ref of its own move no branch; a commit fails and moves nothing, or moves
  the branch that is checked out to a new commit on its tip, which holds the trailers of its message; deleting a branch deletes that branch only.
\<close>

definition squash_ok :: "'r git \<Rightarrow> ('r \<Rightarrow> 'r) list \<Rightarrow> string \<Rightarrow> string \<Rightarrow> bool" where
  "squash_ok g writes msg i \<longleftrightarrow>
     (\<forall>b. keeps_branches g (\<lambda>r. gMergeSquash g r b)) \<and> list_all (keeps_branches g) writes
   \<and> (\<forall>ref sha. keeps_branches g (\<lambda>r. gSetRef g r ref sha))
   \<and> (\<forall>r ref sha c. gParent g (gSetRef g r ref sha) c = gParent g r c \<and> gChange g (gSetRef g r ref sha) c = gChange g r c)
   \<and> (\<forall>r b c. gParent g (gDropBranch g r b) c = gParent g r c \<and> gChange g (gDropBranch g r b) c = gChange g r c)
   \<and> (\<forall>r b b'. b' \<noteq> b \<longrightarrow> gTip g (gDropBranch g r b) b' = gTip g r b')
   \<and> (\<forall>r b. b \<noteq> gCurrent g r \<longrightarrow> gTip g (gCommit g r msg) b = gTip g r b)
   \<and> (\<forall>r. gCurrent g r \<noteq> [] \<longrightarrow> (let c = gTip g (gCommit g r msg) (gCurrent g r) in
        c = gTip g r (gCurrent g r) \<or> c \<noteq> [] \<and> gParent g (gCommit g r msg) c = Some (gTip g r (gCurrent g r)) \<and> TrimSpace (gChange g (gCommit g r msg) c) = i))"

definition run_commands :: "('r \<Rightarrow> 'r) list \<Rightarrow> 'r \<Rightarrow> 'r" where
  "run_commands cs r = foldl (\<lambda>r f. f r) r cs"

lemma run_commands_simps [simp]:
  "run_commands [] r = r" "run_commands (f # fs) r = run_commands fs (f r)" "run_commands (fs @ gs) r = run_commands gs (run_commands fs r)"
  by (simp_all add: run_commands_def)

lemma run_keeps: "list_all (keeps_branches g) fs \<Longrightarrow> gTip g (run_commands fs r) b = gTip g r b \<and> gCurrent g (run_commands fs r) = gCurrent g r"
  by (induction fs arbitrary: r) (simp_all add: keepsD)

text \<open>What a crash can leave: only the two branches of the archive moved, and the base branch only by its squash.\<close>

definition crash_state :: "'r git \<Rightarrow> archiveJournal \<Rightarrow> 'r \<Rightarrow> 'r \<Rightarrow> bool" where
  "crash_state g j r0 r \<longleftrightarrow> (\<forall>b. b \<noteq> ajBase j \<longrightarrow> b \<noteq> ajBranch j \<longrightarrow> gTip g r b = gTip g r0 b)
     \<and> (gTip g r (ajBase j) = ajBaseSHA j \<or> gTip g r (ajBase j) \<noteq> [] \<and> isSquashOf g r (gTip g r (ajBase j)) j)"

lemma isSquashOf_same:
  "gParent g r' sha = gParent g r sha \<Longrightarrow> gChange g r' sha = gChange g r sha \<Longrightarrow> isSquashOf g r' sha j = isSquashOf g r sha j"
  by (simp add: isSquashOf_def cong: option.case_cong)

lemma crash_keep:
  assumes "crash_state g j r0 r" and "ajBase j \<noteq> ajBranch j" and "\<And>b. b \<noteq> ajBranch j \<Longrightarrow> gTip g r' b = gTip g r b"
    and "\<And>c. gParent g r' c = gParent g r c" and "\<And>c. gChange g r' c = gChange g r c"
  shows "crash_state g j r0 r'"
  using assms(1-3) isSquashOf_same[OF assms(4,5)] by (auto simp: crash_state_def)

lemma crash_states:
  assumes sq: "squash_ok g writes msg (ajID j)" and g: "git_ok g" and j: "ajBase j \<noteq> []" "ajBase j \<noteq> ajBranch j"
    and r0: "gTip g r0 (ajBase j) = ajBaseSHA j" "snd (gSwitch g r0 (ajBase j))"
  shows "crash_state g j r0 (run_commands (take n (squash_commands g j writes msg)) r0)"
proof -
  let ?pre = "(\<lambda>r. gMergeSquash g r (ajBranch j)) # writes"
  let ?r1 = "fst (gSwitch g r0 (ajBase j))"
  have keep: "list_all (keeps_branches g) (take m ?pre)" for m
    using sq by (auto simp: squash_ok_def list_all_iff dest!: in_set_takeD)
  have pre: "gTip g (run_commands (take m ?pre) ?r1) b = gTip g r0 b" "gCurrent g (run_commands (take m ?pre) ?r1) = ajBase j" for m b
    using run_keeps[OF keep] git_okD(17,18)[OF g] r0(2) by auto
  let ?r2 = "run_commands ?pre ?r1" and ?c = "gCommit g (run_commands ?pre ?r1) msg"
  have p2: "gTip g ?r2 b = gTip g r0 b" "gCurrent g ?r2 = ajBase j" for b using pre[where m = "length ?pre"] by simp_all
  let ?s = "gTip g ?c (ajBase j)"
  have "b \<noteq> ajBase j \<Longrightarrow> gTip g ?c b = gTip g r0 b" for b using sq p2 by (simp add: squash_ok_def)
  moreover have "?s = ajBaseSHA j \<or> ?s \<noteq> [] \<and> gParent g ?c ?s = Some (ajBaseSHA j) \<and> TrimSpace (gChange g ?c ?s) = ajID j"
  proof -
    have "gCurrent g ?r2 \<noteq> []" using p2(2) j(1) by simp
    then have "(let c = gTip g ?c (gCurrent g ?r2) in c = gTip g ?r2 (gCurrent g ?r2) \<or>
        c \<noteq> [] \<and> gParent g ?c c = Some (gTip g ?r2 (gCurrent g ?r2)) \<and> TrimSpace (gChange g ?c c) = ajID j)"
      using sq unfolding squash_ok_def by blast
    then show ?thesis unfolding p2(2) Let_def p2(1) r0(1) .
  qed
  ultimately have c: "crash_state g j r0 ?c" by (auto simp: crash_state_def isSquashOf_def)
  let ?d = "gSetRef g ?c (archiveRef (ajID j)) (ajBranchTip j)"
  have keep_ref: "keeps_branches g (\<lambda>r. gSetRef g r ref sha)" for ref sha using sq by (simp add: squash_ok_def)
  have d: "crash_state g j r0 ?d"
    using sq by (intro crash_keep[OF c j(2)] keepsD(1)[OF keep_ref]) (simp_all add: squash_ok_def)
  have e: "crash_state g j r0 (gDropBranch g ?d (ajBranch j))" using sq by (intro crash_keep[OF d j(2)]) (simp_all add: squash_ok_def)
  show ?thesis
  proof (cases "n \<le> 1 + length ?pre")
    case True
    then have "run_commands (take n (squash_commands g j writes msg)) r0 = (if n = 0 then r0 else run_commands (take (n - 1) ?pre) ?r1)"
      by (cases n) (simp_all add: squash_commands_def take_Cons')
    then show ?thesis using pre[of "n - 1"] r0(1) by (simp add: crash_state_def)
  next
    case False
    then obtain m where n: "n = 2 + length ?pre + m" by (metis add_Suc le_iff_add not_less_eq_eq one_add_one plus_1_eq_Suc)
    then consider "m = 0" | "m = 1" | "m \<ge> 2" by linarith
    then show ?thesis using c d e by cases (simp_all add: n squash_commands_def numeral_2_eq_2 take_Cons')
  qed
qed

text \<open>C11: an archive killed after any git command of its squash (the switch, the merge, any write, the commit, the reference,
  the removal of the branch) is rolled back: every branch points where it pointed before the squash, the base branch included, and the change's
  branch is checked out or the report says that it could not be. The hypotheses on git are what each of its commands leaves alone
  (\<open>git_ok\<close>, \<open>squash_ok\<close>), and that the journal recorded the tips of both branches.\<close>

theorem crash_rolls_back:
  assumes g: "git_ok g" "squash_ok g writes msg (ajID j)" and j: "ajBase j \<noteq> []" "ajBranch j \<noteq> []" "ajBase j \<noteq> ajBranch j" "ajBaseSHA j \<noteq> []"
    and r0: "gTip g r0 (ajBase j) = ajBaseSHA j" "gTip g r0 (ajBranch j) = ajBranchTip j" "snd (gSwitch g r0 (ajBase j))"
    and crash: "rollBack g j (run_commands (take n (squash_commands g j writes msg)) r0) = (ds, r')"
  shows "gTip g r' = gTip g r0 \<and> (gCurrent g r' = ajBranch j \<or> CouldNotCheckOut \<in> set ds)"
proof -
  let ?r = "run_commands (take n (squash_commands g j writes msg)) r0"
  have c: "crash_state g j r0 ?r" by (rule crash_states[OF g(2,1) j(1,3) r0(1,3)])
  have "gTip g r' b = gTip g r0 b" for b
    using rollBack_effect(1)[OF g(1) j(1-3) crash, of b] c r0(1,2) j(4) by (cases "b = ajBase j") (auto simp: crash_state_def squash_found_def)
  then show ?thesis using rollBack_effect(2)[OF g(1) j(1-3) crash] by blast
qed

text \<open>A squash that fails before its commit undoes itself.\<close>

lemma failed_squash_undone:
  assumes g: "git_ok g" and sq: "squash_ok g writes msg i" and j: "ajBase j \<noteq> []" and r0: "snd (gSwitch g r0 (ajBase j))"
    and r: "r = run_commands (take n ((\<lambda>r. gMergeSquash g r (ajBranch j)) # writes)) (fst (gSwitch g r0 (ajBase j)))"
  shows "gTip g (squash_undo g j (gTip g (fst (gSwitch g r0 (ajBase j))) (ajBase j)) r) b = gTip g r0 b"
proof -
  have "list_all (keeps_branches g) (take n ((\<lambda>r. gMergeSquash g r (ajBranch j)) # writes))"
    using sq by (auto simp: squash_ok_def list_all_iff dest!: in_set_takeD)
  note keep = run_keeps[OF this, of "fst (gSwitch g r0 (ajBase j))", folded r]
  have cur: "gCurrent g r = ajBase j" using keep git_okD(18)[OF g r0] by simp
  have tip: "gTip g r b' = gTip g r0 b'" for b' using keep git_okD(17)[OF g] by simp
  have "gTip g (gResetHard g r (Some (gTip g r0 (ajBase j)))) b = gTip g r0 b" using git_okD(12)[OF g, of r] cur j tip by simp
  then show ?thesis by (simp add: squash_undo_def git_okD(17)[OF g] keepsD(1)[OF cleanWritten_keeps[OF g]])
qed

text \<open>
  A base branch that others moved is left alone.
\<close>

lemma rollback_keeps_others:
  assumes "git_ok g" and "ajBase j \<noteq> []" "ajBranch j \<noteq> []" "ajBase j \<noteq> ajBranch j" and "rollBack g j r = (ds, r')"
    and "b \<noteq> ajBranch j" and "b = ajBase j \<longrightarrow> \<not> isSquashOf g r (gTip g r b) j"
  shows "gTip g r' b = gTip g r b"
  using rollBack_effect(1)[OF assms(1-5), of b] assms(6,7) by (auto simp: squash_found_def)

section \<open>A repository\<close>

text \<open>A repository for the instances: branches, commits with parent and trailer, HEAD, and whether the tree differs from it.\<close>

record ex_repo =
  erTips :: "(string \<times> string) list"
  erCommits :: "(string \<times> string \<times> string) list"
  erHead :: string
  erDirty :: bool

definition er_tip :: "ex_repo \<Rightarrow> string \<Rightarrow> string" where
  "er_tip r b = (case map_of (erTips r) b of None \<Rightarrow> [] | Some s \<Rightarrow> s)"

definition er_set :: "ex_repo \<Rightarrow> string \<Rightarrow> string \<Rightarrow> ex_repo" where
  "er_set r b s = r\<lparr>erTips := (b, s) # erTips r\<rparr>"

text \<open>A commit's name is made of its parent's.\<close>

definition ex_git :: "string \<Rightarrow> ex_repo git" where
  "ex_git i = \<lparr>gRebasing = (\<lambda>_. False), gRebaseAbort = (\<lambda>r. r), gCherryQuit = (\<lambda>r. r), gCurrent = erHead, gTip = er_tip,
     gParent = (\<lambda>r s. map_option fst (map_of (erCommits r) s)),
     gChange = (\<lambda>r s. case map_of (erCommits r) s of None \<Rightarrow> [] | Some (_, t) \<Rightarrow> t),
     gResetHard = (\<lambda>r t. case t of None \<Rightarrow> r\<lparr>erDirty := False\<rparr> | Some s \<Rightarrow> (er_set r (erHead r) s)\<lparr>erDirty := False\<rparr>),
     gMoveBranch = (\<lambda>r b new old. if er_tip r b = old then er_set r b new else r),
     gNewBranch = er_set, gSetRef = (\<lambda>r ref s. r), gDropRef = (\<lambda>r ref. r),
     gSwitch = (\<lambda>r b. if erDirty r then (r, False) else (r\<lparr>erHead := b\<rparr>, True)),
     gDirty = erDirty, gClean = (\<lambda>r ws. r), gRmdir = (\<lambda>r d. r),
     gMergeSquash = (\<lambda>r b. r\<lparr>erDirty := True\<rparr>),
     gCommit = (\<lambda>r m. let c = er_tip r (erHead r) @ ''+''
                in (er_set r (erHead r) c)\<lparr>erCommits := (c, er_tip r (erHead r), i) # erCommits r, erDirty := False\<rparr>),
     gDropBranch = (\<lambda>r b. er_set r b [])\<rparr>"

lemma ex_git_ok: "git_ok (ex_git i)"
  by (auto simp: git_ok_def keeps_branches_def ex_git_def er_set_def er_tip_def split: if_splits option.splits)

lemma ex_squash_ok: "squash_ok (ex_git ''c'') [\<lambda>r. r\<lparr>erDirty := True\<rparr>] msg ''c''"
proof -
  have "TrimSpace ''c'' = ''c''" by code_simp
  then show ?thesis by (auto simp: squash_ok_def keeps_branches_def ex_git_def er_set_def er_tip_def Let_def split: if_splits option.splits)
qed

definition ex_journal :: archiveJournal where
  "ex_journal = \<lparr>ajID = ''c'', ajBase = ''main'', ajBaseSHA = ''m'', ajBranch = ''change/c'', ajBranchTip = ''t'', ajStep = JournalSquash,
     ajWritten = [''archive/changes/2026-01-02-c''], ajPID = 7, ajAt = []\<rparr>"

definition ex_before :: ex_repo where
  "ex_before = \<lparr>erTips = [(''main'', ''m''), (''change/c'', ''t'')], erCommits = [], erHead = ''change/c'', erDirty = False\<rparr>"

lemma ex_before_facts:
  "gTip (ex_git ''c'') ex_before (ajBase ex_journal) = ajBaseSHA ex_journal" "gTip (ex_git ''c'') ex_before (ajBranch ex_journal) = ajBranchTip ex_journal"
  "snd (gSwitch (ex_git ''c'') ex_before (ajBase ex_journal))"
  by (simp_all add: ex_git_def ex_before_def ex_journal_def er_tip_def)

text \<open>Killed right after the commit.\<close>

theorem crash_rolls_back_witness:
  "gTip (ex_git ''c'') (snd (rollBack (ex_git ''c'') ex_journal
      (run_commands (take 4 (squash_commands (ex_git ''c'') ex_journal [\<lambda>r. r\<lparr>erDirty := True\<rparr>] [])) ex_before))) = gTip (ex_git ''c'') ex_before"
proof -
  let ?b = "rollBack (ex_git ''c'') ex_journal
      (run_commands (take 4 (squash_commands (ex_git ''c'') ex_journal [\<lambda>r. r\<lparr>erDirty := True\<rparr>] [])) ex_before)"
  have "squash_ok (ex_git ''c'') [\<lambda>r. r\<lparr>erDirty := True\<rparr>] [] (ajID ex_journal)" using ex_squash_ok by (simp add: ex_journal_def)
  moreover have "ajBase ex_journal \<noteq> []" "ajBranch ex_journal \<noteq> []" "ajBase ex_journal \<noteq> ajBranch ex_journal" "ajBaseSHA ex_journal \<noteq> []"
    by (simp_all add: ex_journal_def)
  ultimately show ?thesis using crash_rolls_back[OF ex_git_ok _ _ _ _ _ ex_before_facts, of _ _ 4 "fst ?b" "snd ?b"] by simp
qed

end
