(* ===== verification/ArchiveLayout.thy ===== *)
theory ArchiveLayout
  imports ChangePlan
begin

text \<open>
  The two layouts of the archive and the move from the older to the newer one (\<open>internal/apexv1/archivelayout.go\<close>), and that the move
  keeps every archived change.
\<close>

section \<open>Reading both layouts\<close>

definition archivedChangesSub :: string where
  "archivedChangesSub = ''changes''"

text \<open>\<open>datedFolderRe\<close>: the id of a folder named \<open>YYYY-MM-DD-id\<close>.\<close>

definition datedFolderRe :: "string \<Rightarrow> string option" where
  "datedFolderRe s =
     (if 11 < length s \<and> list_all is_digit (take 4 s) \<and> s ! 4 = CHR ''-'' \<and> list_all is_digit (take 2 (drop 5 s)) \<and> s ! 7 = CHR ''-''
         \<and> list_all is_digit (take 2 (drop 8 s)) \<and> s ! 10 = CHR ''-'' \<and> LF \<notin> set (drop 11 s)
      then Some (drop 11 s) else None)"

definition dated_add :: "(string \<rightharpoonup> string) \<Rightarrow> string \<Rightarrow> (string \<rightharpoonup> string)" where
  "dated_add m name = (case datedFolderRe name of None \<Rightarrow> m | Some i \<Rightarrow> m(i \<mapsto> name))"

definition datedFolders :: "string list \<Rightarrow> (string \<rightharpoonup> string)" where
  "datedFolders names = foldl dated_add Map.empty (sort names)"

definition archivedLayout :: "string list \<Rightarrow> string list \<Rightarrow> (string \<rightharpoonup> string)" where
  "archivedLayout legacy nested =
     datedFolders legacy ++ (\<lambda>i. map_option (\<lambda>name. archivedChangesSub @ ''/'' @ name) (datedFolders nested i))"

text \<open>
  The archive: the folders directly in it, those of its \<open>changes\<close> folder, the other names there that are taken, and the \<open>state.json\<close> of a folder
  by its path in the archive.
\<close>

record archive_fs =
  afLegacy :: "string list"
  afNested :: "string list"
  afOther :: "string list"
  afState :: "string \<Rightarrow> string option"

definition ArchivedIDs :: "archive_fs \<Rightarrow> (string \<rightharpoonup> string)" where
  "ArchivedIDs fs = archivedLayout (afLegacy fs) (afNested fs)"

section \<open>The move\<close>

text \<open>A move by its id and the folder's name; its two paths in the project, below the archive's \<open>ar\<close>.\<close>

record archiveMove =
  amID :: string
  amName :: string

definition amFrom :: "string \<Rightarrow> archiveMove \<Rightarrow> string" where
  "amFrom ar mv = ar @ ''/'' @ amName mv"

definition amTo :: "string \<Rightarrow> archiveMove \<Rightarrow> string" where
  "amTo ar mv = ar @ ''/'' @ archivedChangesSub @ ''/'' @ amName mv"

definition legacyArchiveMoves :: "archive_fs \<Rightarrow> archiveMove list" where
  "legacyArchiveMoves fs = List.map_filter (\<lambda>name. map_option (\<lambda>i. \<lparr>amID = i, amName = name\<rparr>) (datedFolderRe name)) (afLegacy fs)"

definition ArchiveLayoutCheck :: "archive_fs \<Rightarrow> archiveMove list \<times> apex_error option" where
  "ArchiveLayoutCheck fs = (legacyArchiveMoves fs, when_err (legacyArchiveMoves fs \<noteq> []) (fail ''archive.legacy-layout''))"

text \<open>\<open>strings.NewReplacer\<close>: from left to right, the first of the pairs that starts there.\<close>

function replace_pairs :: "(string \<times> string) list \<Rightarrow> string \<Rightarrow> string" where
  "replace_pairs ps s = (case s of
      [] \<Rightarrow> []
    | c # r \<Rightarrow> (case find (\<lambda>(old, new). old \<noteq> [] \<and> HasPrefix s old) ps of
                Some (old, new) \<Rightarrow> new @ replace_pairs ps (drop (length old) s)
              | None \<Rightarrow> c # replace_pairs ps r))"
  by pat_completeness auto
termination
  by (relation "measure (\<lambda>(ps, s). length s)") (auto simp: find_Some_iff)

declare replace_pairs.simps [simp del]

definition quote :: string where
  "quote = [CHR 0x22]"

text \<open>\<open>rewriteArchivedPaths\<close> on the content of a \<open>state.json\<close>: the new content where it changed. \<open>parse\<close> is \<open>parseState\<close>, \<open>wr\<close> the error of the write.\<close>

definition rewriteArchivedPaths :: "(string \<Rightarrow> apex_error option) \<Rightarrow> apex_error option \<Rightarrow> string option \<Rightarrow> string \<Rightarrow> string \<Rightarrow> apex_error + string option" where
  "rewriteArchivedPaths parse wr content from to = (case content of
      None \<Rightarrow> Inr None
    | Some data \<Rightarrow>
        (let s = replace_pairs [(quote @ from @ quote, quote @ to @ quote), (quote @ from @ ''/'', quote @ to @ ''/'')] data in
         if s = data then Inr None
         else case parse s of Some er \<Rightarrow> Inl er | None \<Rightarrow> (case wr of Some er \<Rightarrow> Inl er | None \<Rightarrow> Inr (Some s))))"

text \<open>What the command learns from outside, for each folder by its name: whether git tracks it, errors of its move, of reading and of writing its state.\<close>

record layout_env =
  leRel :: string
  leWorkTree :: bool
  leRecover :: "apex_error option"
  leOnBranch :: "apex_error option"
  leStatus :: "apex_error + bool"
  leMkdir :: "apex_error option"
  leTracked :: "string \<Rightarrow> bool"
  leMove :: "string \<Rightarrow> apex_error option"
  leRead :: "string \<Rightarrow> apex_error option"
  leParse :: "string \<Rightarrow> apex_error option"
  leWriteState :: "string \<Rightarrow> apex_error option"
  leCommit :: "apex_error + string"

definition move_folder :: "string \<Rightarrow> archiveMove \<Rightarrow> archive_fs \<Rightarrow> archive_fs" where
  "move_folder ar mv fs = fs\<lparr>afLegacy := remove1 (amName mv) (afLegacy fs), afNested := afNested fs @ [amName mv],
     afState := (afState fs)(amTo ar mv := afState fs (amFrom ar mv), amFrom ar mv := None)\<rparr>"

text \<open>The loop over the moves: those done, the states rewritten, the archive and the error that stopped it.\<close>

fun move_all :: "layout_env \<Rightarrow> archiveMove list \<Rightarrow> string list \<Rightarrow> archive_fs \<Rightarrow> archiveMove list \<Rightarrow> archiveMove list \<times> string list \<times> archive_fs \<times> apex_error option" where
  "move_all e done0 rw fs [] = (done0, rw, fs, None)"
| "move_all e done0 rw fs (mv # mvs) =
     (case leMove e (amName mv) of
        Some er \<Rightarrow> (done0, rw, fs, Some er)
      | None \<Rightarrow>
          (let fs1 = move_folder (leRel e) mv fs; done1 = done0 @ [mv] in
           case leRead e (amName mv) of
             Some er \<Rightarrow> (done1, rw, fs1, Some er)
           | None \<Rightarrow>
               (case rewriteArchivedPaths (leParse e) (leWriteState e (amName mv)) (afState fs1 (amTo (leRel e) mv)) (amFrom (leRel e) mv) (amTo (leRel e) mv) of
                  Inl er \<Rightarrow> (done1, rw, fs1, Some er)
                | Inr None \<Rightarrow> move_all e done1 rw fs1 mvs
                | Inr (Some s) \<Rightarrow>
                    move_all e done1 (rw @ [amTo (leRel e) mv @ ''/state.json'']) (fs1\<lparr>afState := (afState fs1)(amTo (leRel e) mv := Some s)\<rparr>) mvs)))"

text \<open>
  \<open>undo\<close>: the folders back in their places, and what git tracks as HEAD has it, which is as it was; the state of a folder git does not
  track stays as it was rewritten.
\<close>

definition undo_moves :: "layout_env \<Rightarrow> archive_fs \<Rightarrow> archiveMove list \<Rightarrow> archive_fs \<Rightarrow> archive_fs" where
  "undo_moves e fs0 dn fs = fs0\<lparr>afState := (\<lambda>f.
      if \<exists>mv\<in>set dn. f = amFrom (leRel e) mv \<and> \<not> leTracked e (amName mv)
      then afState fs (amTo (leRel e) (the (find (\<lambda>mv. f = amFrom (leRel e) mv) dn)))
      else afState fs0 f)\<rparr>"

record layoutResult =
  lrMoved :: "archiveMove list"
  lrRewritten :: "string list"
  lrCommit :: string

definition ArchiveLayout :: "layout_env \<Rightarrow> archive_fs \<Rightarrow> layoutResult \<times> apex_error option \<times> archive_fs" where
  "ArchiveLayout e fs =
     (let mvs = legacyArchiveMoves fs; res = \<lparr>lrMoved = mvs, lrRewritten = [], lrCommit = []\<rparr> in
      if mvs = [] then (res, None, fs)
      else case first_err
         [when_err (\<not> leWorkTree e) (fail ''git.not-a-repo''), leRecover e, leOnBranch e,
          (case leStatus e of Inl _ \<Rightarrow> Some (fail ''git.status-failed'') | Inr dirty \<Rightarrow> when_err dirty (fail ''tree.dirty'')),
          when_err (list_ex (\<lambda>mv. amName mv \<in> set (afNested fs) \<or> amName mv \<in> set (afOther fs)) mvs) (ConflictError ''archive.folder-exists'' []),
          leMkdir e] of
         Some er \<Rightarrow> (res, Some er, fs)
       | None \<Rightarrow>
           (case move_all e [] [] fs mvs of
              (dn, rw, fs1, Some er) \<Rightarrow> (res\<lparr>lrRewritten := rw\<rparr>, Some (fail ''git.commit-failed''), undo_moves e fs dn fs1)
            | (dn, rw, fs1, None) \<Rightarrow>
                (case leCommit e of
                   Inl er \<Rightarrow> (res\<lparr>lrRewritten := rw\<rparr>, Some (fail ''git.commit-failed''), undo_moves e fs dn fs1)
                 | Inr sha \<Rightarrow> (res\<lparr>lrRewritten := rw, lrCommit := sha\<rparr>, None, fs1))))"

section \<open>The move keeps every change\<close>

lemma dom_dated: "dom (datedFolders names) = {i. \<exists>n\<in>set names. datedFolderRe n = Some i}"
proof -
  have "dom (foldl dated_add m ns) = dom m \<union> {i. \<exists>n\<in>set ns. datedFolderRe n = Some i}" for m ns
    by (induction ns arbitrary: m) (auto simp: dated_add_def split: option.splits)
  then show ?thesis by (simp add: datedFolders_def)
qed

lemma dom_ArchivedIDs: "dom (ArchivedIDs fs) = {i. \<exists>n\<in>set (afLegacy fs) \<union> set (afNested fs). datedFolderRe n = Some i}"
proof -
  have "dom (\<lambda>i. map_option f (m i)) = dom m" for f :: "string \<Rightarrow> string" and m :: "string \<rightharpoonup> string" by (auto simp: dom_def)
  then show ?thesis by (auto simp: ArchivedIDs_def archivedLayout_def dom_dated)
qed

definition dated :: "string \<Rightarrow> bool" where
  "dated n \<longleftrightarrow> datedFolderRe n \<noteq> None"

lemma moves_names: "map amName (legacyArchiveMoves fs) = filter dated (afLegacy fs)"
proof -
  have "map amName (List.map_filter (\<lambda>name. map_option (\<lambda>i. \<lparr>amID = i, amName = name\<rparr>) (datedFolderRe name)) ns) = filter dated ns" for ns
    by (induction ns) (auto simp: List.map_filter_simps dated_def split: option.splits)
  then show ?thesis by (simp add: legacyArchiveMoves_def)
qed

lemma move_all_names:
  "move_all e dn rw fs mvs = (dn', rw', fs', None) \<Longrightarrow>
    afLegacy fs' = foldl (\<lambda>ns n. remove1 n ns) (afLegacy fs) (map amName mvs) \<and> afNested fs' = afNested fs @ map amName mvs"
proof (induction e dn rw fs mvs rule: move_all.induct)
  case (2 e dn rw fs mv mvs)
  show ?case
  proof (cases "leMove e (amName mv) = None \<and> leRead e (amName mv) = None")
    case True
    let ?fs1 = "move_folder (leRel e) mv fs"
    obtain x where rw: "rewriteArchivedPaths (leParse e) (leWriteState e (amName mv)) (afState ?fs1 (amTo (leRel e) mv)) (amFrom (leRel e) mv) (amTo (leRel e) mv) = Inr x"
      using "2.prems" True by (auto simp: Let_def split: sum.splits)
    show ?thesis
    proof (cases x)
      case None
      then show ?thesis using "2.IH"(1)[OF _ refl refl _ rw None] "2.prems" True rw by (simp add: move_folder_def)
    next
      case (Some s)
      then show ?thesis using "2.IH"(2)[OF _ refl refl _ rw Some] "2.prems" True rw by (simp add: move_folder_def)
    qed
  next
    case False
    then show ?thesis using "2.prems" by (auto simp: Let_def split: option.splits)
  qed
qed simp

lemma remove_all: "distinct ns \<Longrightarrow> set (foldl (\<lambda>ns n. remove1 n ns) ns ms) = set ns - set ms"
  by (induction ms arbitrary: ns) auto

text \<open>C27: a successful \<open>ArchiveLayout\<close> loses no archived change: the same ids are archived as before, every one is now found under
  \<open>changes/\<close>, and nothing is left to move.\<close>

theorem ArchiveLayout_keeps_ids:
  assumes "ArchiveLayout e fs = (res, None, fs')" and "distinct (afLegacy fs)"
  shows "dom (ArchivedIDs fs') = dom (ArchivedIDs fs) \<and> legacyArchiveMoves fs' = []
    \<and> (\<forall>i. ArchivedIDs fs' i = map_option (\<lambda>name. archivedChangesSub @ ''/'' @ name) (datedFolders (afNested fs') i))"
proof -
  have left: "set (afLegacy fs') = {n \<in> set (afLegacy fs). \<not> dated n}" and nest: "set (afNested fs') = set (afNested fs) \<union> {n \<in> set (afLegacy fs). dated n}"
  proof -
    have "fs' = fs \<and> legacyArchiveMoves fs = [] \<or> (\<exists>dn rw. move_all e [] [] fs (legacyArchiveMoves fs) = (dn, rw, fs', None))"
      using assms(1) by (auto simp: ArchiveLayout_def Let_def split: if_splits option.splits prod.splits sum.splits)
    then consider "fs' = fs" "legacyArchiveMoves fs = []" | dn rw where "move_all e [] [] fs (legacyArchiveMoves fs) = (dn, rw, fs', None)" by blast
    then have "set (afLegacy fs') = {n \<in> set (afLegacy fs). \<not> dated n} \<and> set (afNested fs') = set (afNested fs) \<union> {n \<in> set (afLegacy fs). dated n}"
    proof cases
      case 1
      then have "filter dated (afLegacy fs) = []" using moves_names[of fs] by simp
      then show ?thesis using 1(1) by (auto simp: filter_empty_conv)
    next
      case (2 dn rw)
      then show ?thesis using move_all_names[OF 2] remove_all[OF assms(2)] by (auto simp: moves_names)
    qed
    then show "set (afLegacy fs') = {n \<in> set (afLegacy fs). \<not> dated n}" "set (afNested fs') = set (afNested fs) \<union> {n \<in> set (afLegacy fs). dated n}" by simp_all
  qed
  have "dom (ArchivedIDs fs') = dom (ArchivedIDs fs)" unfolding dom_ArchivedIDs left nest by (auto simp: dated_def)
  moreover have "legacyArchiveMoves fs' = []"
  proof -
    have "map amName (legacyArchiveMoves fs') = []" using left by (simp add: moves_names filter_empty_conv)
    then show ?thesis by simp
  qed
  moreover have "datedFolders (afLegacy fs') = Map.empty"
  proof -
    have "dom (datedFolders (afLegacy fs')) = {}" using left by (auto simp: dom_dated dated_def)
    then show ?thesis by simp
  qed
  ultimately show ?thesis by (simp add: ArchivedIDs_def archivedLayout_def)
qed

text \<open>An undone move leaves every folder where it was.\<close>

lemma ArchiveLayout_undone:
  "ArchiveLayout e fs = (res, Some er, fs') \<Longrightarrow> afLegacy fs' = afLegacy fs \<and> afNested fs' = afNested fs \<and> (\<forall>f. (\<forall>n. leTracked e n) \<longrightarrow> afState fs' f = afState fs f)"
  by (auto simp: ArchiveLayout_def Let_def undo_moves_def split: if_splits option.splits prod.splits sum.splits)

definition ex_layout_env :: layout_env where
  "ex_layout_env = \<lparr>leRel = ''archive'', leWorkTree = True, leRecover = None, leOnBranch = None, leStatus = Inr False, leMkdir = None,
     leTracked = (\<lambda>_. True), leMove = (\<lambda>_. None), leRead = (\<lambda>_. None), leParse = (\<lambda>_. None), leWriteState = (\<lambda>_. None), leCommit = Inr ''abc''\<rparr>"

definition ex_archive :: archive_fs where
  "ex_archive = \<lparr>afLegacy = [''2026-01-02-one'', ''changes'', ''milestones''], afNested = [''2026-02-03-two''], afOther = [],
     afState = (\<lambda>f. if f = ''archive/2026-01-02-one'' then Some (quote @ ''archive/2026-01-02-one/v.png'' @ quote) else None)\<rparr>"

lemma ex_layout_runs:
  "map_option lrRewritten (case ArchiveLayout ex_layout_env ex_archive of (res, None, fs') \<Rightarrow> Some res | _ \<Rightarrow> None) = Some [''archive/changes/2026-01-02-one/state.json'']
   \<and> ArchivedIDs (snd (snd (ArchiveLayout ex_layout_env ex_archive))) ''one'' = Some ''changes/2026-01-02-one''"
  by code_simp

theorem ArchiveLayout_keeps_ids_witness:
  "dom (ArchivedIDs (snd (snd (ArchiveLayout ex_layout_env ex_archive)))) = dom (ArchivedIDs ex_archive)"
proof -
  obtain res fs' where "ArchiveLayout ex_layout_env ex_archive = (res, None, fs')"
    using ex_layout_runs by (cases "ArchiveLayout ex_layout_env ex_archive") (auto split: option.splits)
  moreover have "distinct (afLegacy ex_archive)" by (simp add: ex_archive_def)
  ultimately show ?thesis using ArchiveLayout_keeps_ids[of ex_layout_env ex_archive res fs'] by simp
qed

text \<open>
  The undo of a failed move puts a folder git does not track back with the \<open>state.json\<close> the move rewrote: it names the place the folder did not
  move to.
\<close>

lemma layout_undo_keeps_rewrite:
  "(case ArchiveLayout (ex_layout_env\<lparr>leTracked := \<lambda>_. False, leCommit := Inl (fail ''x'')\<rparr>) ex_archive of (res, er, fs') \<Rightarrow>
      er \<noteq> None \<and> afLegacy fs' = afLegacy ex_archive \<and>
      afState fs' ''archive/2026-01-02-one'' = Some (quote @ ''archive/changes/2026-01-02-one/v.png'' @ quote))"
  by code_simp

end
