(* ===== verification/Decision.thy ===== *)
theory Decision
  imports ChangePlan
begin

text \<open>
  Decision records, ADRs (\<open>internal/apexv1/decision.go\<close>, with \<open>ValidateDecision\<close> of \<open>project.go\<close> and
  \<open>recordAcceptedDecision\<close> of \<open>approval.go\<close>): proposing, superseding and accepting one, and the digest that fixes the text of an accepted one.
\<close>

section \<open>Names and numbers\<close>

definition ADRProposed :: string where "ADRProposed = ''proposed''"
definition ADRAccepted :: string where "ADRAccepted = ''accepted''"

text \<open>\<open>adrFileRe\<close>: the number and the slug.\<close>

definition adrFileRe :: "string \<Rightarrow> (string \<times> string) option" where
  "adrFileRe name =
     (let num = take 4 name; slug = take (length name - 8) (drop 5 name) in
      if 8 < length name \<and> list_all is_digit num \<and> name ! 4 = CHR ''-'' \<and> HasSuffix name ''.md''
         \<and> slug_char (hd slug) \<and> list_all (\<lambda>c. slug_char c \<or> c = CHR ''-'') (tl slug)
      then Some (num, slug) else None)"

text \<open>
  The decisions folder, its entries by name (a folder has no content), and the committed records. \<open>srSHA\<close> is the digest of the bytes
  of ADR-0001 when ape wrote it, \<open>srRemoved\<close> the files (with their ids) the standard's writes removed.
\<close>

record standardRecord =
  srVersion :: string
  srSHA :: string
  srRemoved :: "(string \<times> string) list option"

record decisionRecord =
  drAcceptedAt :: string
  drBy :: string
  drBodySHA256 :: string
  drStandard :: "standardRecord option"

record dec_world =
  dwFiles :: "(string \<times> string option) list"
  dwRecords :: "string \<rightharpoonup> decisionRecord"

text \<open>The pattern of \<open>filepath.Glob\<close> in \<open>adrFile\<close>: the number, a hyphen, anything, \<open>.md\<close>.\<close>

definition adr_glob :: "string \<Rightarrow> string \<Rightarrow> bool" where
  "adr_glob num name \<longleftrightarrow> HasPrefix name (num @ ''-'') \<and> HasSuffix name ''.md'' \<and> length num + 4 \<le> length name"

definition adr_matches :: "dec_world \<Rightarrow> string \<Rightarrow> string list" where
  "adr_matches w num = filter (adr_glob num) (map fst (dwFiles w))"

definition adrFile :: "dec_world \<Rightarrow> string \<Rightarrow> string option" where
  "adrFile w i = (if \<not> adrIDRe i then None else case adr_matches w (drop 4 i) of [f] \<Rightarrow> Some f | _ \<Rightarrow> None)"

definition decisionExists :: "dec_world \<Rightarrow> string \<Rightarrow> bool" where
  "decisionExists w i \<longleftrightarrow> adr_matches w (if HasPrefix i ''ADR-'' then drop 4 i else i) \<noteq> []"

definition dec_read :: "dec_world \<Rightarrow> string \<Rightarrow> apex_error + string" where
  "dec_read w name = (case map_of (dwFiles w) name of Some (Some doc) \<Rightarrow> Inr doc | _ \<Rightarrow> Inl (OtherError name))"

section \<open>The Status line\<close>

text \<open>\<open>adrStatusLineRe\<close> is a line that starts with \<open>Status:\<close>; it matches it to its end.\<close>

definition adr_status_line :: "string \<Rightarrow> bool" where
  "adr_status_line l = HasPrefix l ''Status:''"

definition adrStatus :: "string \<Rightarrow> string" where
  "adrStatus doc = (case find adr_status_line (split_char LF doc) of None \<Rightarrow> [] | Some l \<Rightarrow> TrimSpace (drop 7 l))"

definition put_status :: "string \<Rightarrow> string \<Rightarrow> string" where
  "put_status t doc = Join (map (\<lambda>l. if adr_status_line l then t else l) (split_char LF doc)) [LF]"

definition withADRStatus :: "string \<Rightarrow> string \<Rightarrow> string" where
  "withADRStatus doc status = put_status (''Status: '' @ status) doc"

text \<open>\<open>sha\<close> is \<open>sha256\<close> in hexadecimal.\<close>

definition adrBodyDigest :: "(string \<Rightarrow> string) \<Rightarrow> string \<Rightarrow> string" where
  "adrBodyDigest sha doc = sha (TrimRight (put_status ''Status:'' (crlf_to_lf doc)) [LF])"

section \<open>Well-formed decisions\<close>

definition four_digits :: "string \<Rightarrow> bool" where
  "four_digits s \<longleftrightarrow> length s = 4 \<and> list_all is_digit s"

definition adrStatusRe :: "string \<Rightarrow> bool" where
  "adrStatusRe t \<longleftrightarrow> HasPrefix t ''Status:'' \<and>
     (let r = dropWhile re_space (drop 7 t) in r = ADRProposed \<or> r = ADRAccepted \<or> HasPrefix r ''superseded by ADR-'' \<and> four_digits (drop 18 r))"

definition adrDateRe :: "string \<Rightarrow> bool" where
  "adrDateRe t \<longleftrightarrow> HasPrefix t ''Date:'' \<and>
     (let r = dropWhile re_space (drop 5 t) in length r = 10 \<and> four_digits (take 4 r) \<and> r ! 4 = CHR ''-'' \<and> list_all is_digit (take 2 (drop 5 r))
        \<and> r ! 7 = CHR ''-'' \<and> list_all is_digit (drop 8 r))"

definition adrEnforceRe :: "string \<Rightarrow> bool" where
  "adrEnforceRe t \<longleftrightarrow> HasPrefix t ''Enforced by:'' \<and> dropWhile re_space (drop 12 t) \<noteq> []"

text \<open>\<open>adrTitleRe\<close>: the number in the title.\<close>

definition adrTitleRe :: "string \<Rightarrow> string option" where
  "adrTitleRe t = (if HasPrefix t ''ADR-'' \<and> four_digits (take 4 (drop 4 t)) \<and> HasPrefix (drop 8 t) '':'' \<and> dropWhile re_space (drop 9 t) \<noteq> []
     then Some (take 4 (drop 4 t)) else None)"

datatype adr_fault = AdrName | AdrTitle | AdrStatus | AdrDate | AdrEnforced | AdrSection string

text \<open>\<open>strings.ToLower\<close> as far as it can give an ASCII letter: besides the ASCII capitals, U+0130 falls on \<open>i\<close> and U+212A on \<open>k\<close>.\<close>

fun to_lower_title :: "string \<Rightarrow> string" where
  "to_lower_title [] = []"
| "to_lower_title (c # s) =
     (if c = CHR 0xC4 \<and> HasPrefix s [CHR 0xB0] then CHR ''i'' # to_lower_title (drop 1 s)
      else if c = CHR 0xE2 \<and> HasPrefix s [CHR 0x84, CHR 0xAA] then CHR ''k'' # to_lower_title (drop 2 s)
      else lower_char c # to_lower_title s)"

definition ValidateDecision :: "string \<Rightarrow> string \<Rightarrow> adr_fault list" where
  "ValidateDecision name doc = (case adrFileRe name of
      None \<Rightarrow> [AdrName]
    | Some (num, _) \<Rightarrow>
        (let ls = splitLines doc; body = filter (\<lambda>l. \<not> mdInCode l) ls; texts = map (\<lambda>l. TrimSpace (mdText l)) body;
             title = (case find (\<lambda>l. fst (headingLevel l) = 1 \<and> snd (headingLevel l) \<noteq> []) body of None \<Rightarrow> [] | Some l \<Rightarrow> snd (headingLevel l));
             have = map (\<lambda>s. to_lower_title (secTitle s)) (h2Sections ls)
         in (if adrTitleRe title = Some num then [] else [AdrTitle])
            @ (if list_ex adrStatusRe texts then [] else [AdrStatus])
            @ (if list_ex adrDateRe texts then [] else [AdrDate])
            @ (if list_ex adrEnforceRe texts then [] else [AdrEnforced])
            @ map AdrSection (filter (\<lambda>want. to_lower_ascii want \<notin> set have) [''Context'', ''Decision'', ''Consequences''])))"

definition adrPlaceholders :: "string list" where
  "adrPlaceholders = [''<!-- the forces at play -->'', ''<!-- what we decided -->'', ''<!-- what becomes easier or harder -->'']"

definition adrPlaceholdersIn :: "string \<Rightarrow> string list" where
  "adrPlaceholdersIn doc = dedup_acc [] (concat (map (\<lambda>l. filter (Contains (mdText l)) adrPlaceholders) (filter (\<lambda>l. \<not> mdInCode l) (splitLines doc))))"

text \<open>The ids of accepted decisions that still hold a placeholder.\<close>

definition decisionPlaceholderNotices :: "dec_world \<Rightarrow> (string \<times> string list) list" where
  "decisionPlaceholderNotices w = List.map_filter (\<lambda>(name, content). case (adrFileRe name, content) of
      (Some (num, _), Some doc) \<Rightarrow>
        if adrStatus doc = ADRAccepted \<and> adrPlaceholdersIn doc \<noteq> [] then Some (''ADR-'' @ num, adrPlaceholdersIn doc) else None
    | _ \<Rightarrow> None) (dwFiles w)"

section \<open>Proposing\<close>

text \<open>
  What the commands learn from outside. \<open>ddWriteNew\<close>: the write of a new file fails and leaves a part of it; \<open>ddUndone\<close>: a refused commit
  puts the files back; \<open>ddFirst\<close>: the file as git first committed it accepted.
\<close>

record dec_env =
  ddSha :: "string \<Rightarrow> string"
  ddPerson :: "apex_error option"
  ddRecover :: "apex_error option"
  ddOnBranch :: "apex_error option"
  ddToday :: string
  ddStamp :: string
  ddMkdir :: "apex_error option"
  ddCreate :: "apex_error option"
  ddWriteNew :: "(apex_error \<times> string) option"
  ddWrite :: "apex_error option"
  ddSave :: "apex_error option"
  ddCommit :: "apex_error + string"
  ddUndone :: bool
  ddFirst :: "string \<Rightarrow> string option"

record decisionResult =
  deID :: string
  dePath :: string
  deStatus :: string
  deSupersedes :: string
  deCommit :: string

text \<open>\<open>fmt.Sprintf("%04d", n)\<close>.\<close>

definition pad4 :: "nat \<Rightarrow> string" where
  "pad4 n = replicate (4 - length (Itoa n)) (CHR ''0'') @ Itoa n"

text \<open>The loop over the entries: the largest number, or the file that has the slug.\<close>

fun next_adr :: "string \<Rightarrow> nat \<Rightarrow> string list \<Rightarrow> string + nat" where
  "next_adr slug maxN [] = Inr maxN"
| "next_adr slug maxN (name # ns) = (case adrFileRe name of
      None \<Rightarrow> next_adr slug maxN ns
    | Some (num, sl) \<Rightarrow> if sl = slug then Inl name else next_adr slug (max maxN (dec_value num)) ns)"

definition adr_skeleton :: "string \<Rightarrow> string \<Rightarrow> string \<Rightarrow> string \<Rightarrow> string" where
  "adr_skeleton i title today supersedes =
     ''# '' @ i @ '': '' @ title @ [LF] @ ''Status: '' @ ADRProposed @ [LF] @ ''Date: '' @ today @ [LF]
     @ (if supersedes \<noteq> [] then ''Supersedes: '' @ supersedes @ [LF] else []) @ [LF]
     @ ''## Context'' @ [LF] @ adrPlaceholders ! 0 @ [LF, LF] @ ''## Decision'' @ [LF] @ adrPlaceholders ! 1 @ [LF, LF]
     @ ''## Consequences'' @ [LF] @ adrPlaceholders ! 2 @ [LF, LF] @ ''Enforced by: review'' @ [LF]"

definition put_file :: "string \<Rightarrow> string \<Rightarrow> dec_world \<Rightarrow> dec_world" where
  "put_file name doc w = w\<lparr>dwFiles :=
     (if name \<in> fst ` set (dwFiles w) then map (\<lambda>(n, c). if n = name then (n, Some doc) else (n, c)) (dwFiles w)
      else dwFiles w @ [(name, Some doc)])\<rparr>"

text \<open>The decision a new one supersedes: its file and content, when it is one that can be.\<close>

definition superseded_file :: "dec_world \<Rightarrow> string \<Rightarrow> apex_error + (string \<times> string) option" where
  "superseded_file w supersedes =
     (if supersedes = [] then Inr None
      else case adrFile w supersedes of
        None \<Rightarrow> Inl (fail ''decision.not-found'')
      | Some f \<Rightarrow> (case dec_read w f of
            Inl er \<Rightarrow> Inl er
          | Inr doc \<Rightarrow> if adrStatus doc \<noteq> ADRAccepted \<and> adrStatus doc \<noteq> ADRProposed then Inl (fail ''decision.not-supersedable'') else Inr (Some (f, doc))))"

definition NewDecision :: "dec_env \<Rightarrow> string \<Rightarrow> string \<Rightarrow> string \<Rightarrow> dec_world \<Rightarrow> decisionResult option \<times> apex_error option \<times> dec_world" where
  "NewDecision e slug title0 supersedes w = (case first_err [ddRecover e, when_err (\<not> slugRe slug) (UsageError ''usage.decision-slug'')] of
      Some er \<Rightarrow> (None, Some er, w)
    | None \<Rightarrow>
      (case superseded_file w supersedes of
         Inl er \<Rightarrow> (None, Some er, w)
       | Inr old \<Rightarrow>
         (case next_adr slug 0 (map fst (dwFiles w)) of
            Inl _ \<Rightarrow> (None, Some (fail ''decision.slug-taken''), w)
          | Inr maxN \<Rightarrow>
            (let num = pad4 (maxN + 1); i = ''ADR-'' @ num; title = (if title0 = [] then titleFromSlug slug else title0);
                 name = num @ ''-'' @ slug @ ''.md'' in
             case ddMkdir e of
               Some er \<Rightarrow> (None, Some er, w)
             | None \<Rightarrow>
               if ddCreate e \<noteq> None \<or> name \<in> fst ` set (dwFiles w) then (None, Some (fail ''decision.write-failed''), w)
               else (case ddWriteNew e of
                   Some (er, part) \<Rightarrow> (None, Some er, put_file name part w)
                 | None \<Rightarrow>
                   (let w1 = put_file name (adr_skeleton i title (ddToday e) supersedes) w;
                        res = \<lparr>deID = i, dePath = name, deStatus = ADRProposed, deSupersedes = supersedes, deCommit = []\<rparr> in
                    case (old, ddWrite e) of
                      (Some _, Some er) \<Rightarrow> (Some res, Some er, w1)
                    | _ \<Rightarrow>
                      (let w2 = (case old of None \<Rightarrow> w1 | Some (f, doc) \<Rightarrow> put_file f (withADRStatus doc (''superseded by '' @ i)) w1) in
                       case ddCommit e of
                         Inl er \<Rightarrow> (Some res, Some er, if ddUndone e then w else w2)
                       | Inr sha \<Rightarrow> (Some (res\<lparr>deCommit := sha\<rparr>), None, w2))))))))"

section \<open>Accepting\<close>

definition StandardADRID :: string where "StandardADRID = ''ADR-0001''"

definition standardADRUnchanged :: "(string \<Rightarrow> string) \<Rightarrow> string \<Rightarrow> string \<Rightarrow> decisionRecord \<Rightarrow> bool" where
  "standardADRUnchanged sha i doc rec \<longleftrightarrow> i = StandardADRID \<and> (case drStandard rec of None \<Rightarrow> False | Some s \<Rightarrow> srSHA s = sha doc)"

definition acceptedBodyChanged :: "dec_env \<Rightarrow> string \<Rightarrow> string \<Rightarrow> string \<Rightarrow> dec_world \<Rightarrow> bool" where
  "acceptedBodyChanged e i f doc w =
     (if adrStatus doc \<noteq> ADRAccepted \<and> \<not> HasPrefix (adrStatus doc) ''superseded by '' then False
      else case dwRecords w i of
        Some rec \<Rightarrow> drBodySHA256 rec \<noteq> adrBodyDigest (ddSha e) doc \<and> \<not> standardADRUnchanged (ddSha e) i doc rec
      | None \<Rightarrow> (case ddFirst e f of
            None \<Rightarrow> False
          | Some first \<Rightarrow> first \<noteq> [] \<and> adrBodyDigest (ddSha e) first \<noteq> adrBodyDigest (ddSha e) doc))"

definition put_record :: "dec_env \<Rightarrow> string \<Rightarrow> string \<Rightarrow> string \<Rightarrow> dec_world \<Rightarrow> dec_world" where
  "put_record e i by0 doc w = w\<lparr>dwRecords := (dwRecords w)(i \<mapsto>
     \<lparr>drAcceptedAt = ddStamp e, drBy = by0, drBodySHA256 = adrBodyDigest (ddSha e) doc, drStandard = None\<rparr>)\<rparr>"

definition accepted_result :: "string \<Rightarrow> string \<Rightarrow> decisionResult" where
  "accepted_result i f = \<lparr>deID = i, dePath = f, deStatus = ADRAccepted, deSupersedes = [], deCommit = []\<rparr>"

text \<open>The commit both ways of accepting end in: \<open>w0\<close> is the world before the edits, \<open>w1\<close> the one after.\<close>

definition commit_decision :: "dec_env \<Rightarrow> decisionResult \<Rightarrow> dec_world \<Rightarrow> dec_world \<Rightarrow> decisionResult option \<times> apex_error option \<times> dec_world" where
  "commit_decision e res w0 w1 = (case ddCommit e of
      Inl er \<Rightarrow> (Some res, Some er, if ddUndone e then w0 else w1)
    | Inr sha \<Rightarrow> (Some (res\<lparr>deCommit := sha\<rparr>), None, w1))"

definition recordAcceptedDecision :: "dec_env \<Rightarrow> string \<Rightarrow> string \<Rightarrow> string \<Rightarrow> string \<Rightarrow> dec_world \<Rightarrow> decisionResult option \<times> apex_error option \<times> dec_world" where
  "recordAcceptedDecision e i f doc by0 w =
     (if acceptedBodyChanged e i f doc w then (None, Some (fail ''decision.accepted-edited''), w)
      else case ddSave e of
        Some er \<Rightarrow> (None, Some er, w)
      | None \<Rightarrow> commit_decision e (accepted_result i f) w (put_record e i by0 doc w))"

definition AcceptDecision :: "dec_env \<Rightarrow> string \<Rightarrow> string \<Rightarrow> dec_world \<Rightarrow> decisionResult option \<times> apex_error option \<times> dec_world" where
  "AcceptDecision e i by0 w = (case first_err [ddPerson e, ddRecover e, when_err (TrimSpace by0 = []) (UsageError ''usage.by''), ddOnBranch e] of
      Some er \<Rightarrow> (None, Some er, w)
    | None \<Rightarrow>
      (case adrFile w i of
         None \<Rightarrow> (None, Some (fail ''decision.not-found''), w)
       | Some f \<Rightarrow>
         (case dec_read w f of
            Inl er \<Rightarrow> (None, Some er, w)
          | Inr doc \<Rightarrow>
            if adrStatus doc \<noteq> ADRProposed
            then (if adrStatus doc = ADRAccepted \<and> dwRecords w i = None then recordAcceptedDecision e i f doc (TrimSpace by0) w
                  else (None, Some (fail ''decision.not-proposed''), w))
            else if ValidateDecision f doc \<noteq> [] then (None, Some (fail ''decision.malformed''), w)
            else if adrPlaceholdersIn doc \<noteq> [] then (None, Some (fail ''decision.placeholder''), w)
            else case ddWrite e of
              Some er \<Rightarrow> (None, Some er, w)
            | None \<Rightarrow>
              (let accepted = withADRStatus doc ADRAccepted; w1 = put_file f accepted w in
               case ddSave e of
                 Some er \<Rightarrow> (None, Some er, w1)
               | None \<Rightarrow> commit_decision e (accepted_result i f) w (put_record e i (TrimSpace by0) accepted w1)))))"

end
