(* ===== verification/Standard.thy ===== *)
theory Standard
  imports Decision
begin

text \<open>
  The standard ADR-0001 (\<open>internal/apexv1/standard.go\<close>): the framework's own decision, which \<open>ape project init\<close> writes and
  \<open>ape decision standard\<close> brings to the installed text, removing the proposed decisions that superseded what it
  replaces; and \<open>RecordLiftedDecisions\<close> of \<open>approval.go\<close>. The lines that cite a removed decision and the scenarios left stale are
  reports and left out, as is the lift itself, which converts a project once.
\<close>

section \<open>Inputs\<close>

text \<open>
  \<open>sdPayload\<close> is the installed payload's copy of the standard and \<open>sdVersion\<close> its version, \<open>sdEmbedded\<close> ape's own copy;
  \<open>sdRemove\<close> says why a file cannot be removed (one that is gone already is no error).
\<close>

record std_env =
  sdDec :: dec_env
  sdPayload :: "string option"
  sdVersion :: string
  sdEmbedded :: string
  sdWorkTree :: bool
  sdDirty :: "apex_error option"
  sdRemove :: "string \<Rightarrow> apex_error option"

record installedStandard =
  isDoc :: string
  isFromApe :: bool
  isVersion :: string

definition standardByPrefix :: string where "standardByPrefix = ''APEX standard''"

definition StandardBy :: "string \<Rightarrow> string" where
  "StandardBy cmd = standardByPrefix @ '' ('' @ cmd @ '')''"

definition StandardADRFile :: string where "StandardADRFile = ''0001-record-architecture-decisions.md''"

definition standardADR :: "std_env \<Rightarrow> installedStandard" where
  "standardADR e = (case sdPayload e of
      Some d \<Rightarrow> if ValidateDecision StandardADRFile d \<noteq> [] \<or> adrStatus d \<noteq> ADRAccepted
                then \<lparr>isDoc = sdEmbedded e, isFromApe = True, isVersion = []\<rparr>
                else \<lparr>isDoc = d, isFromApe = False, isVersion = sdVersion e\<rparr>
    | None \<Rightarrow> \<lparr>isDoc = sdEmbedded e, isFromApe = True, isVersion = []\<rparr>)"

definition isStandardText :: "(string \<Rightarrow> string) \<Rightarrow> string \<Rightarrow> string \<Rightarrow> bool" where
  "isStandardText sha doc std \<longleftrightarrow> adrBodyDigest sha doc = adrBodyDigest sha std"

section \<open>Patterns\<close>

text \<open>\<open>adrSupersedesRe\<close> on one line: the id it names.\<close>

definition blank_tab :: "char \<Rightarrow> bool" where
  "blank_tab c \<longleftrightarrow> c = CHR '' '' \<or> c = CHR 0x09"

definition adrSupersedesRe :: "string \<Rightarrow> string option" where
  "adrSupersedesRe l =
     (if HasPrefix l ''Supersedes:''
      then let r = dropWhile blank_tab (drop 11 l); i = take 8 r in
           if HasPrefix i ''ADR-'' \<and> four_digits (drop 4 i) \<and> list_all blank_tab (drop 8 r) then Some i else None
      else None)"

text \<open>\<open>liftedV0StandardRe\<close>: a line that says the file was lifted from the apex-v0 governance standard.\<close>

definition v0_source :: "string \<Rightarrow> bool" where
  "v0_source r = list_ex (\<lambda>k. list_all (\<lambda>c. \<not> re_space c) (take k r) \<and> HasPrefix (drop k r) ''adr-'' \<and>
     (let s = drop (k + 4) r; n = length (takeWhile is_digit s) in 0 < n \<and> HasPrefix (drop n s) ''_use-markdown-adrs.md at ''))
     [0..<length r]"

definition lifted_line :: "string \<Rightarrow> bool" where
  "lifted_line l \<longleftrightarrow> HasPrefix l ''Lifted from: ADR-'' \<and>
     (let s = drop 17 l; n = length (takeWhile is_digit s) in 0 < n \<and> HasPrefix (drop n s) '', '' \<and> v0_source (drop (n + 2) s))"

definition liftedV0StandardRe :: "string \<Rightarrow> bool" where
  "liftedV0StandardRe doc = list_ex lifted_line (split_char LF doc)"

section \<open>The plan\<close>

datatype standard_action = StandardCreated | StandardReplaced | StandardKept | StandardOptedOut | StandardDiffers

text \<open>\<open>spOld\<close> is the file of ADR-0001 as it is; \<open>spProposed\<close> and \<open>spRemoved\<close> hold ids and files.\<close>

record standardPlan =
  spAction :: standard_action
  spStd :: installedStandard
  spOld :: "string option"
  spDoc :: string
  spOptedOutBy :: "string list"
  spProposed :: "(string \<times> string) list"
  spRemoved :: "(string \<times> string) list"

definition adr0001Files :: "dec_world \<Rightarrow> string list" where
  "adr0001Files w = adr_matches w ''0001''"

definition frameworkOwnedADR0001 :: "dec_world \<Rightarrow> string \<Rightarrow> bool" where
  "frameworkOwnedADR0001 w doc \<longleftrightarrow> liftedV0StandardRe doc \<or>
     (case dwRecords w StandardADRID of None \<Rightarrow> False | Some rec \<Rightarrow> drStandard rec \<noteq> None \<or> HasPrefix (drBy rec) standardByPrefix)"

text \<open>The other decisions whose \<open>Supersedes:\<close> line names ADR-0001: id, file and status.\<close>

definition supersedersOfStandard :: "dec_world \<Rightarrow> (string \<times> string \<times> string) list" where
  "supersedersOfStandard w = List.map_filter (\<lambda>name. case (adrFileRe name, dec_read w name) of
      (Some (num, _), Inr doc) \<Rightarrow>
        if num \<noteq> ''0001'' \<and> list_ex (\<lambda>l. adrSupersedesRe l = Some StandardADRID) (split_char LF doc)
        then Some (''ADR-'' @ num, name, adrStatus doc) else None
    | _ \<Rightarrow> None) (map fst (dwFiles w))"

definition readFileOrEmpty :: "dec_world \<Rightarrow> string \<Rightarrow> string" where
  "readFileOrEmpty w f = (case dec_read w f of Inl _ \<Rightarrow> [] | Inr doc \<Rightarrow> doc)"

definition planStandardADR :: "std_env \<Rightarrow> dec_world \<Rightarrow> standardPlan" where
  "planStandardADR e w =
     (let files = adr0001Files w; std = standardADR e;
          old = (case files of [] \<Rightarrow> None | f # _ \<Rightarrow> Some f);
          doc = (case old of None \<Rightarrow> [] | Some f \<Rightarrow> readFileOrEmpty w f);
          standard = (old \<noteq> None \<and> isStandardText (ddSha (sdDec e)) doc (isDoc std));
          pl = \<lparr>spAction = StandardDiffers, spStd = std, spOld = old, spDoc = doc, spOptedOutBy = [], spProposed = [], spRemoved = []\<rparr>
      in if 1 < length files \<or> (old \<noteq> None \<and> \<not> standard \<and> \<not> frameworkOwnedADR0001 w doc) then pl
         else let sup = supersedersOfStandard w;
                  out = map fst (filter (\<lambda>(_, _, st). st = ADRAccepted) sup);
                  prop = map (\<lambda>(i, f, _). (i, f)) (filter (\<lambda>(_, _, st). st = ADRProposed) sup)
              in pl\<lparr>spOptedOutBy := out, spProposed := prop,
                    spAction := (if out \<noteq> [] then StandardOptedOut else if old = None then StandardCreated
                                 else if standard then StandardKept else StandardReplaced)\<rparr>)"

definition Due :: "standardPlan \<Rightarrow> bool" where
  "Due pl \<longleftrightarrow> spAction pl = StandardCreated \<or> spAction pl = StandardReplaced"

definition planRemovals :: "standardPlan \<Rightarrow> standardPlan" where
  "planRemovals pl = (if spAction pl \<noteq> StandardReplaced \<or> \<not> liftedV0StandardRe (spDoc pl) then pl
     else pl\<lparr>spRemoved := spProposed pl\<rparr>)"

section \<open>Writing it\<close>

definition remove_file :: "string \<Rightarrow> dec_world \<Rightarrow> dec_world" where
  "remove_file name w = w\<lparr>dwFiles := filter (\<lambda>(n, _). n \<noteq> name) (dwFiles w)\<rparr>"

text \<open>The old file when its name is not the standard's.\<close>

definition old_file :: "standardPlan \<Rightarrow> string option" where
  "old_file pl = (case spOld pl of None \<Rightarrow> None | Some f \<Rightarrow> if f = StandardADRFile then None else Some f)"

definition removals :: "standardPlan \<Rightarrow> (string \<times> string) list" where
  "removals pl = (case old_file pl of None \<Rightarrow> [] | Some f \<Rightarrow> [(f, StandardADRID)]) @ map (\<lambda>(i, f). (f, i)) (spRemoved pl)"

fun add_removals :: "(string \<times> string) list \<Rightarrow> (string \<times> string) list \<Rightarrow> (string \<times> string) list" where
  "add_removals out [] = out"
| "add_removals out (r # rs) = add_removals (if fst r \<in> fst ` set out then out else out @ [r]) rs"

definition mergeRemovals :: "(string \<times> string) list option \<Rightarrow> (string \<times> string) list \<Rightarrow> (string \<times> string) list option" where
  "mergeRemovals prev now = Some (sort_key fst (add_removals (case prev of None \<Rightarrow> [] | Some p \<Rightarrow> p) now))"

definition recordStandardADR ::
  "std_env \<Rightarrow> installedStandard \<Rightarrow> string \<Rightarrow> (string \<times> string) list option \<Rightarrow> dec_world \<Rightarrow> apex_error option \<times> dec_world" where
  "recordStandardADR e std cmd removed w =
     (let old = (case dwRecords w StandardADRID of None \<Rightarrow> None | Some rec \<Rightarrow> (case drStandard rec of None \<Rightarrow> None | Some s \<Rightarrow> srRemoved s));
          prev = (case removed of None \<Rightarrow> old | Some now \<Rightarrow> mergeRemovals old now);
          d = sdDec e
      in case ddSave d of
           Some er \<Rightarrow> (Some er, w)
         | None \<Rightarrow> (None, w\<lparr>dwRecords := (dwRecords w)(StandardADRID \<mapsto>
             \<lparr>drAcceptedAt = ddStamp d, drBy = StandardBy cmd, drBodySHA256 = adrBodyDigest (ddSha d) (isDoc std),
              drStandard = Some \<lparr>srVersion = isVersion std, srSHA = ddSha d (isDoc std), srRemoved = prev\<rparr>\<rparr>)\<rparr>))"

definition writeStandardADR ::
  "std_env \<Rightarrow> installedStandard \<Rightarrow> string \<Rightarrow> (string \<times> string) list option \<Rightarrow> dec_world \<Rightarrow> apex_error option \<times> dec_world" where
  "writeStandardADR e std cmd removed w = (case first_err [ddMkdir (sdDec e), ddWrite (sdDec e)] of
      Some er \<Rightarrow> (Some er, w)
    | None \<Rightarrow> recordStandardADR e std cmd removed (put_file StandardADRFile (isDoc std) w))"

definition applyStandardADR :: "std_env \<Rightarrow> standardPlan \<Rightarrow> string \<Rightarrow> dec_world \<Rightarrow> apex_error option \<times> dec_world" where
  "applyStandardADR e pl cmd w =
     (if \<not> Due pl then (None, w)
      else case old_file pl of
             None \<Rightarrow> writeStandardADR e (spStd pl) cmd (Some (removals pl)) w
           | Some f \<Rightarrow> (case sdRemove e f of
                Some er \<Rightarrow> (Some er, w)
              | None \<Rightarrow> writeStandardADR e (spStd pl) cmd (Some (removals pl)) (remove_file f w)))"

fun remove_all :: "std_env \<Rightarrow> string list \<Rightarrow> dec_world \<Rightarrow> apex_error option \<times> dec_world" where
  "remove_all e [] w = (None, w)"
| "remove_all e (f # fs) w = (case sdRemove e f of Some er \<Rightarrow> (Some er, w) | None \<Rightarrow> remove_all e fs (remove_file f w))"

text \<open>\<open>initStandardADR\<close>: creates an absent ADR-0001, records one that is the standard, leaves any other.\<close>

definition initStandardADR :: "std_env \<Rightarrow> dec_world \<Rightarrow> standard_action \<times> apex_error option \<times> dec_world" where
  "initStandardADR e w =
     (let pl = planStandardADR e w; cmd = ''ape project init'' in
      case spAction pl of
        StandardCreated \<Rightarrow> (StandardCreated, writeStandardADR e (spStd pl) cmd None w)
      | StandardKept \<Rightarrow> (StandardKept, if dwRecords w StandardADRID \<noteq> None then (None, w)
                                  else recordStandardADR e ((spStd pl)\<lparr>isDoc := spDoc pl\<rparr>) cmd None w)
      | _ \<Rightarrow> (StandardDiffers, (None, w)))"

definition DecisionStandardCheck :: "std_env \<Rightarrow> dec_world \<Rightarrow> standardPlan \<times> apex_error option" where
  "DecisionStandardCheck e w = (let pl = planRemovals (planStandardADR e w) in
     (pl, when_err (Due pl) (fail ''decision.standard-pending'')))"

definition DecisionStandard :: "std_env \<Rightarrow> dec_world \<Rightarrow> standard_action \<times> apex_error option \<times> dec_world" where
  "DecisionStandard e w =
     (let pl = planRemovals (planStandardADR e w); d = sdDec e in
      if \<not> Due pl then (spAction pl, None, w)
      else case first_err [when_err (\<not> sdWorkTree e) (fail ''git.not-a-repo''), ddRecover d, ddOnBranch d, sdDirty e] of
             Some er \<Rightarrow> (spAction pl, Some er, w)
           | None \<Rightarrow>
               (case applyStandardADR e pl ''ape decision standard'' w of
                  (Some er, w1) \<Rightarrow> (spAction pl, Some er, w1)
                | (None, w1) \<Rightarrow>
                    (case remove_all e (map snd (spRemoved pl)) w1 of
                       (Some er, w2) \<Rightarrow> (spAction pl, Some er, w2)
                     | (None, w2) \<Rightarrow>
                         (case ddCommit d of
                            Inl er \<Rightarrow> (spAction pl, Some er, if ddUndone d then w else w2)
                          | Inr _ \<Rightarrow> (spAction pl, None, w2)))))"

text \<open>\<open>standardADRNotices\<close>: what project check says of ADR-0001.\<close>

definition standardADRNotices :: "std_env \<Rightarrow> dec_world \<Rightarrow> string list" where
  "standardADRNotices e w = (let pl = planStandardADR e w in case spAction pl of
      StandardDiffers \<Rightarrow> [''decision.standard-differs'']
    | StandardOptedOut \<Rightarrow> map (\<lambda>_. ''decision.standard-superseded'') (spOptedOutBy pl)
    | StandardKept \<Rightarrow> []
    | _ \<Rightarrow> [''decision.standard-stale''])"

section \<open>Decisions the lift records\<close>

definition LiftBy :: string where "LiftBy = ''lift''"

text \<open>The records with the lifted ids added, or the first refusal.\<close>

fun lifted_records ::
  "dec_env \<Rightarrow> dec_world \<Rightarrow> string list \<Rightarrow> (string \<rightharpoonup> decisionRecord) \<Rightarrow> apex_error + (string \<rightharpoonup> decisionRecord)" where
  "lifted_records e w [] recs = Inr recs"
| "lifted_records e w (i # is) recs = (case adrFile w i of
      None \<Rightarrow> Inl (fail ''decision.not-found'')
    | Some f \<Rightarrow> (case dec_read w f of
         Inl er \<Rightarrow> Inl er
       | Inr doc \<Rightarrow> if adrStatus doc \<noteq> ADRAccepted then Inl (OtherError (i @ '' is not accepted''))
                   else lifted_records e w is (recs(i \<mapsto>
                     \<lparr>drAcceptedAt = ddStamp e, drBy = LiftBy, drBodySHA256 = adrBodyDigest (ddSha e) doc, drStandard = None\<rparr>))))"

definition RecordLiftedDecisions :: "dec_env \<Rightarrow> string list \<Rightarrow> dec_world \<Rightarrow> apex_error option \<times> dec_world" where
  "RecordLiftedDecisions e ids w = (case lifted_records e w ids (dwRecords w) of
      Inl er \<Rightarrow> (Some er, w)
    | Inr recs \<Rightarrow> (case ddSave e of Some er \<Rightarrow> (Some er, w) | None \<Rightarrow> (None, w\<lparr>dwRecords := recs\<rparr>)))"

end
