(* ===== verification/DecisionFacts.thy ===== *)
theory DecisionFacts
  imports Standard RoadmapFacts
begin

text \<open>
  The text of an accepted decision is fixed: whatever commands run after its acceptance, superseding it, writing the standard
  ADR-0001 or recording lifted ones included, its file and its record keep the text that was accepted.
\<close>

section \<open>The Status line and the digest\<close>

definition strip_cr :: "string \<Rightarrow> string" where
  "strip_cr l = (if l \<noteq> [] \<and> last l = CR then butlast l else l)"

fun chomp :: "string list \<Rightarrow> string list" where
  "chomp [] = []"
| "chomp [x] = [x]"
| "chomp (x # y # ys) = strip_cr x # chomp (y # ys)"

lemma crlf_line: "LF \<notin> set x \<Longrightarrow> crlf_to_lf (x @ LF # r) = strip_cr x @ LF # crlf_to_lf r"
proof (induction x rule: crlf_to_lf.induct)
  case (2 c)
  then show ?case by (auto simp: strip_cr_def crlf_to_lf_Cons)
next
  case (3 c d s)
  then show ?case by (auto simp: strip_cr_def crlf_to_lf_Cons)
qed (simp add: strip_cr_def crlf_to_lf_Cons)

lemma crlf_last_line: "LF \<notin> set x \<Longrightarrow> crlf_to_lf x = x"
  by (induction x rule: crlf_to_lf.induct) auto

lemma chomp_ne: "chomp ls = [] \<longleftrightarrow> ls = []"
  by (cases ls rule: chomp.cases) auto

lemma crlf_Join: "\<forall>l\<in>set ls. LF \<notin> set l \<Longrightarrow> crlf_to_lf (Join ls [LF]) = Join (chomp ls) [LF]"
proof (induction ls rule: chomp.induct)
  case (2 x)
  then show ?case by (simp add: crlf_last_line)
next
  case (3 x y ys)
  have "crlf_to_lf (Join (x # y # ys) [LF]) = strip_cr x @ LF # crlf_to_lf (Join (y # ys) [LF])"
    using 3(2) crlf_line[of x "Join (y # ys) [LF]"] by simp
  also have "\<dots> = Join (strip_cr x # chomp (y # ys)) [LF]" using 3 by (cases "chomp (y # ys)") (simp_all add: chomp_ne)
  finally show ?case by simp
qed simp

lemma strip_cr_set: "set (strip_cr l) \<subseteq> set l"
  by (auto simp: strip_cr_def dest: in_set_butlastD)

lemma chomp_free: "\<forall>l\<in>set ls. LF \<notin> set l \<Longrightarrow> \<forall>l\<in>set (chomp ls). LF \<notin> set l"
proof (induction ls rule: chomp.induct)
  case (3 x y ys)
  then show ?case using strip_cr_set[of x] by auto
qed simp_all

lemma lines_free: "\<forall>l\<in>set (split_char LF doc). LF \<notin> set l"
  using split_char_free[of LF doc] by blast

lemma adr_status_new [simp]: "adr_status_line (CHR ''S'' # CHR ''t'' # CHR ''a'' # CHR ''t'' # CHR ''u'' # CHR ''s'' # CHR '':'' # s)"
  by (simp add: adr_status_line_def)

lemma status_strip: "adr_status_line (strip_cr l) = adr_status_line l"
proof -
  have "adr_status_line (butlast l) = adr_status_line l" if "l \<noteq> []" "last l = CR"
  proof -
    define b where "b = butlast l"
    have l: "l = b @ [CR]" using append_butlast_last_id[OF that(1)] that(2) by (simp add: b_def)
    have "HasPrefix (b @ [CR]) ''Status:'' = HasPrefix b ''Status:''"
    proof
      assume "HasPrefix (b @ [CR]) ''Status:''"
      then show "HasPrefix b ''Status:''" by (rule HasPrefix_stop[rotated]) simp
    next
      assume "HasPrefix b ''Status:''"
      then show "HasPrefix (b @ [CR]) ''Status:''" unfolding HasPrefix_iff by (elim exE) simp
    qed
    then show ?thesis by (simp add: adr_status_line_def l)
  qed
  then show ?thesis by (simp add: strip_cr_def)
qed

text \<open>Whatever the Status line says, the body is the same.\<close>

lemma chomp_map:
  assumes "\<And>l. adr_status_line l \<Longrightarrow> adr_status_line (f l)" and "\<And>l. \<not> adr_status_line l \<Longrightarrow> f l = l"
  shows "map (\<lambda>l. if adr_status_line l then t else l) (chomp (map f ls)) = map (\<lambda>l. if adr_status_line l then t else l) (chomp ls)"
proof (induction ls rule: chomp.induct)
  case (2 x)
  then show ?case using assms[of x] by (cases "adr_status_line x") auto
next
  case (3 x y ys)
  then show ?case using assms[of x] by (cases "adr_status_line x") (auto simp: status_strip)
qed simp

lemma digest_status:
  assumes "LF \<notin> set st"
  shows "adrBodyDigest sha (withADRStatus doc st) = adrBodyDigest sha doc"
proof -
  let ?f = "\<lambda>l. if adr_status_line l then ''Status: '' @ st else l" and ?g = "\<lambda>l. if adr_status_line l then ''Status:'' else l"
  let ?ls = "split_char LF doc"
  have free: "\<forall>l\<in>set (map ?f ?ls). LF \<notin> set l" using lines_free[of doc] assms by auto
  have body: "put_status ''Status:'' (crlf_to_lf (Join ls [LF])) = Join (map ?g (chomp ls)) [LF]" if "\<forall>l\<in>set ls. LF \<notin> set l" "ls \<noteq> []" for ls
  proof -
    have "split_char LF (Join (chomp ls) [LF]) = chomp ls" using chomp_free[OF that(1)] that(2) by (intro split_char_Join) (auto simp: chomp_ne)
    then show ?thesis by (simp add: put_status_def crlf_Join[OF that(1)])
  qed
  have ne: "?ls \<noteq> []" by (cases doc) (auto split: list.splits)
  have "put_status ''Status:'' (crlf_to_lf (withADRStatus doc st)) = Join (map ?g (chomp (map ?f ?ls))) [LF]"
    unfolding withADRStatus_def put_status_def[of "''Status: '' @ st"] using body[OF free] ne by simp
  also have "\<dots> = Join (map ?g (chomp ?ls)) [LF]"
    by (subst chomp_map) (simp_all add: status_line_def HasPrefix_def)
  also have "\<dots> = put_status ''Status:'' (crlf_to_lf doc)" using body[OF lines_free ne] by (simp add: Join_split_char)
  finally show ?thesis by (simp add: adrBodyDigest_def)
qed

lemma status_reads_back:
  assumes "LF \<notin> set st" and "find adr_status_line (split_char LF doc) \<noteq> None"
  shows "adrStatus (withADRStatus doc st) = TrimSpace st"
proof -
  let ?f = "\<lambda>l. if adr_status_line l then ''Status: '' @ st else l"
  have "\<forall>l\<in>set (map ?f (split_char LF doc)). LF \<notin> set l" using lines_free[of doc] assms by auto
  then have "split_char LF (withADRStatus doc st) = map ?f (split_char LF doc)"
    unfolding withADRStatus_def put_status_def by (intro split_char_Join) (cases doc, auto split: list.splits)
  moreover have "find adr_status_line (map ?f ls) = Some (''Status: '' @ st)" if "find adr_status_line ls \<noteq> None" for ls
    using that by (induction ls) (auto simp: status_line_def HasPrefix_def split: if_splits)
  ultimately show ?thesis using assms(2) by (simp add: adrStatus_def TrimSpace_blank_front)
qed

section \<open>Accepted decisions keep their text\<close>

lemma names_put: "map fst (dwFiles (put_file n d w)) = (if n \<in> fst ` set (dwFiles w) then map fst (dwFiles w) else map fst (dwFiles w) @ [n])"
  by (auto simp: put_file_def)

lemma map_of_put: "map_of (map (\<lambda>(m, c). if m = n then (m, Some d) else (m, c)) fs) f = (if f = n \<and> n \<in> fst ` set fs then Some (Some d) else map_of fs f)"
proof (induction fs)
  case (Cons a fs)
  obtain m c where a: "a = (m, c)" by (cases a)
  show ?case
  proof (cases "f = m")
    case True
    then show ?thesis by (simp add: a)
  next
    case False
    then show ?thesis using Cons.IH by (cases "m = n") (simp_all add: a)
  qed
qed simp

lemma read_put: "map_of (dwFiles (put_file n d w)) f = (if f = n then Some (Some d) else map_of (dwFiles w) f)"
proof (cases "n \<in> fst ` set (dwFiles w)")
  case True
  then show ?thesis by (simp add: put_file_def map_of_put)
next
  case False
  then have "map_of (dwFiles w) n = None" by (simp add: map_of_eq_None_iff)
  then show ?thesis using False by (simp add: put_file_def map_add_def split: option.splits)
qed

lemma records_put [simp]: "dwRecords (put_file n d w) = dwRecords w"
  by (simp add: put_file_def)

lemma matches_put: "adr_matches (put_file n d w) num = adr_matches w num @ (if n \<notin> fst ` set (dwFiles w) \<and> adr_glob num n then [n] else [])"
  by (simp add: adr_matches_def names_put)

lemma adrFile_Some: "adrFile w i = Some f \<longleftrightarrow> adrIDRe i \<and> adr_matches w (drop 4 i) = [f]"
  by (auto simp: adrFile_def split: list.splits)

lemma body_digest: "adrBodyDigest sha doc = sha (adrBodyDigest id doc)"
  by (simp add: adrBodyDigest_def)

text \<open>
  \<open>i\<close> was accepted with the text \<open>b\<close> in the file \<open>f\<close>: the record has its digest, the file is there with that text under whatever
  status, and it is no proposal.
\<close>

definition fixed :: "(string \<Rightarrow> string) \<Rightarrow> string \<Rightarrow> string \<Rightarrow> string \<Rightarrow> dec_world \<Rightarrow> bool" where
  "fixed sha i f b w \<longleftrightarrow> (\<exists>rec doc. dwRecords w i = Some rec \<and> drBodySHA256 rec = sha b \<and> map_of (dwFiles w) f = Some (Some doc)
     \<and> adrBodyDigest id doc = b \<and> adrStatus doc \<noteq> ADRProposed)"

lemma fixed_put: "n \<noteq> f \<Longrightarrow> fixed sha i f b (put_file n d w) = fixed sha i f b w"
  by (simp add: fixed_def read_put)

lemma fixed_restatus:
  assumes "fixed sha i f b w" and "map_of (dwFiles w) f = Some (Some doc)" and "LF \<notin> set st" and "TrimSpace st \<noteq> ADRProposed"
    and "adrStatus doc \<noteq> []"
  shows "fixed sha i f b (put_file f (withADRStatus doc st) w)"
proof -
  have "find adr_status_line (split_char LF doc) \<noteq> None" using assms(5) by (cases "find adr_status_line (split_char LF doc)") (simp_all add: adrStatus_def)
  then show ?thesis
    using assms(1,2,4) digest_status[OF assms(3), of id doc] status_reads_back[OF assms(3), of doc] by (auto simp: fixed_def read_put)
qed

lemma map_of_remove: "n \<noteq> f \<Longrightarrow> map_of (filter (\<lambda>(m, _). m \<noteq> n) fs) f = map_of fs f"
  by (induction fs) auto

lemma fixed_remove: "n \<noteq> f \<Longrightarrow> fixed sha i f b (remove_file n w) = fixed sha i f b w"
  by (simp add: fixed_def remove_file_def map_of_remove)

lemma fixed_records: "recs i = dwRecords w i \<Longrightarrow> fixed sha i f b (w\<lparr>dwRecords := recs\<rparr>) = fixed sha i f b w"
  by (simp add: fixed_def)

lemma fixed_file:
  assumes "fixed sha i f b w" and "adr_glob (drop 4 i) f"
  shows "f \<in> set (adr_matches w (drop 4 i))" and "f \<in> fst ` set (dwFiles w)"
proof -
  obtain doc where "map_of (dwFiles w) f = Some (Some doc)" using assms(1) by (auto simp: fixed_def)
  then show "f \<in> fst ` set (dwFiles w)" by (metis fst_conv image_eqI map_of_SomeD)
  then show "f \<in> set (adr_matches w (drop 4 i))" using assms(2) by (auto simp: adr_matches_def)
qed

lemma adrID_number: "adrIDRe j \<Longrightarrow> length (drop 4 j) = 4 \<and> j = ''ADR-'' @ drop 4 j"
proof -
  assume "adrIDRe j"
  then have "length j = 8" "take 4 j = ''ADR-''" by (simp_all add: adrIDRe_def HasPrefix_def numeral_eq_Suc)
  moreover have "j = take 4 j @ drop 4 j" by simp
  ultimately show ?thesis by auto
qed

lemma adrID_standard: "adrIDRe ''ADR-0001''" and standard_name: "adr_glob ''0001'' StandardADRFile"
  by code_simp+

lemma same_number:
  assumes "adrIDRe i" "adrIDRe j" "adr_glob (drop 4 i) f" "adr_glob (drop 4 j) f"
  shows "i = j"
proof -
  have num: "n = take 4 f" if "length n = 4" "adr_glob n f" for n :: string
  proof -
    have "take 5 f = n @ ''-''" using that by (simp add: adr_glob_def HasPrefix_def)
    then have "take 4 (take 5 f) = n" using that(1) by simp
    then show ?thesis by (simp add: min_def)
  qed
  note a = adrID_number[OF assms(1)] adrID_number[OF assms(2)]
  have "drop 4 i = drop 4 j" using num[of "drop 4 i"] num[of "drop 4 j"] a assms(3,4) by metis
  then show ?thesis using a by metis
qed

lemma pad4_no_lf: "LF \<notin> set (pad4 n)"
proof -
  have "\<not> is_digit LF" by (simp add: is_digit_def)
  then show ?thesis using Itoa_digits(1)[of n] by (auto simp: pad4_def list_all_iff)
qed

lemma dec_read_Inr: "dec_read w f = Inr doc \<longleftrightarrow> map_of (dwFiles w) f = Some (Some doc)"
  by (auto simp: dec_read_def split: option.splits)

lemma superseded_not_proposed: "TrimSpace (''superseded by ADR-'' @ pad4 n) \<noteq> ADRProposed"
proof -
  have "Itoa n \<noteq> []" "list_all is_digit (Itoa n)" using Itoa_digits[of n] by auto
  then have "is_word_char (last (''superseded by ADR-'' @ pad4 n))" by (auto simp: pad4_def list_all_iff digit_word)
  moreover have "is_word_char (CHR ''s'')" by code_simp
  ultimately have "TrimSpace (''superseded by ADR-'' @ pad4 n) = ''superseded by ADR-'' @ pad4 n" by (intro TrimSpace_word) simp_all
  then show ?thesis by (simp add: ADRProposed_def)
qed

lemma NewDecision_fixed:
  assumes "NewDecision e slug title sp w = (res, er, w')" and "fixed sha i f b w" and "adr_glob (drop 4 i) f"
  shows "fixed sha i f b w'"
proof (cases "w' = w")
  case False
  then obtain old maxN where o: "superseded_file w sp = Inr old" "next_adr slug 0 (map fst (dwFiles w)) = Inr maxN"
    using assms(1) by (auto simp: NewDecision_def Let_def split: option.splits sum.splits if_splits)
  let ?num = "pad4 (maxN + 1)" and ?n = "pad4 (maxN + 1) @ ''-'' @ slug @ ''.md''"
  have n: "?n \<notin> fst ` set (dwFiles w)" and w': "(\<exists>d. w' = put_file ?n d w) \<or> (\<exists>d g doc. old = Some (g, doc) \<and> w' = put_file g (withADRStatus doc (''superseded by ADR-'' @ ?num)) (put_file ?n d w))"
    using assms(1) False o by (auto simp: NewDecision_def Let_def split: option.splits sum.splits if_splits)
  have ne: "?n \<noteq> f" using n fixed_file(2)[OF assms(2,3)] by metis
  from w' show ?thesis
  proof (elim disjE exE conjE)
    fix d assume "w' = put_file ?n d w"
    then show ?thesis using fixed_put[OF ne] assms(2) by simp
  next
    fix d g doc assume old: "old = Some (g, doc)"
      and w': "w' = put_file g (withADRStatus doc (''superseded by ADR-'' @ ?num)) (put_file ?n d w)"
    have g: "map_of (dwFiles w) g = Some (Some doc)" "adrStatus doc = ADRAccepted \<or> adrStatus doc = ADRProposed"
      using o(1) old by (auto simp: superseded_file_def dec_read_Inr split: if_splits option.splits sum.splits)
    then have st: "adrStatus doc \<noteq> []" by (auto simp: ADRAccepted_def ADRProposed_def)
    have w1: "fixed sha i f b (put_file ?n d w)" using fixed_put[OF ne] assms(2) by simp
    show ?thesis
    proof (cases "g = f")
      case True
      have "map_of (dwFiles (put_file ?n d w)) f = Some (Some doc)" using g(1) ne True by (simp add: read_put)
      then show ?thesis unfolding w' True using pad4_no_lf[of "maxN + 1"] superseded_not_proposed
        by (intro fixed_restatus[OF w1 _ _ _ st]) auto
    next
      case False
      then show ?thesis unfolding w' using fixed_put[OF False] w1 by simp
    qed
  qed
qed (use assms in simp)

lemma AcceptDecision_fixed:
  assumes "AcceptDecision e j by0 w = (res, er, w')" and "fixed sha i f b w" and "adrIDRe i" and "adr_glob (drop 4 i) f"
  shows "fixed sha i f b w'"
proof (cases "w' = w")
  case False
  then obtain g doc where g: "adrFile w j = Some g" "map_of (dwFiles w) g = Some (Some doc)"
    and ok: "adrStatus doc = ADRProposed \<or> dwRecords w j = None"
    and w': "w' = put_record e j (TrimSpace by0) doc w \<or> w' = put_file g (withADRStatus doc ADRAccepted) w
      \<or> w' = put_record e j (TrimSpace by0) (withADRStatus doc ADRAccepted) (put_file g (withADRStatus doc ADRAccepted) w)"
    using assms(1) by (auto simp: AcceptDecision_def recordAcceptedDecision_def commit_decision_def Let_def dec_read_Inr[symmetric]
        split: option.splits sum.splits if_splits)
  have gj: "adrIDRe j" "adr_matches w (drop 4 j) = [g]" using g(1) by (simp_all add: adrFile_Some)
  have "j \<noteq> i"
  proof
    assume ji: "j = i"
    then have "g = f" using fixed_file(1)[OF assms(2,4)] gj(2) by simp
    then show False using g(2) ok ji assms(2) by (auto simp: fixed_def)
  qed
  moreover have "g \<noteq> f"
  proof
    assume gf: "g = f"
    have "g \<in> set (adr_matches w (drop 4 j))" using gj(2) by simp
    then have "adr_glob (drop 4 j) f" using gf by (simp add: adr_matches_def)
    then show False using same_number[OF assms(3) gj(1) assms(4)] \<open>j \<noteq> i\<close> by simp
  qed
  ultimately show ?thesis
    using w' assms(2) by (auto simp: put_record_def fixed_records fixed_put)
qed (use assms in simp)

lemma standard_file: "adrIDRe i \<Longrightarrow> i \<noteq> ''ADR-0001'' \<Longrightarrow> adr_glob (drop 4 i) f \<Longrightarrow> adr_glob ''0001'' g \<Longrightarrow> g \<noteq> f"
  using same_number[of i "''ADR-0001''" f] adrID_standard by auto

lemma record_fixed: "i \<noteq> ''ADR-0001'' \<Longrightarrow> fixed sha i f b (snd (recordStandardADR e std cmd removed w)) = fixed sha i f b w"
  by (simp add: recordStandardADR_def Let_def StandardADRID_def fixed_records split: option.split)

lemma write_fixed:
  assumes "adrIDRe i" "i \<noteq> ''ADR-0001''" "adr_glob (drop 4 i) f"
  shows "fixed sha i f b (snd (writeStandardADR e std cmd removed w)) = fixed sha i f b w"
proof -
  have "StandardADRFile \<noteq> f" using standard_file[OF assms] by (auto simp: standard_name)
  then show ?thesis by (simp add: writeStandardADR_def record_fixed[OF assms(2)] fixed_put split: option.split)
qed

lemma remove_all_fixed: "f \<notin> set fs \<Longrightarrow> fixed sha i f b (snd (remove_all e fs w)) = fixed sha i f b w"
proof (induction fs arbitrary: w)
  case (Cons g gs)
  then show ?case using fixed_remove[of g f] by (cases "sdRemove e g") auto
qed simp

text \<open>Only proposals are removed.\<close>

lemma superseder_file:
  assumes "(j, g, st) \<in> set (supersedersOfStandard w)"
  shows "\<exists>doc. map_of (dwFiles w) g = Some (Some doc) \<and> adrStatus doc = st"
proof -
  have some: "\<exists>y\<in>set xs. h y = Some x" if "x \<in> set (List.map_filter h xs)" for h :: "'a \<Rightarrow> 'b option" and x xs
    using that by (auto simp: List.map_filter_def)
  from some[OF assms[unfolded supersedersOfStandard_def]] obtain name where "(case (adrFileRe name, dec_read w name) of
      (Some (num, _), Inr doc) \<Rightarrow>
        if num \<noteq> ''0001'' \<and> list_ex (\<lambda>l. adrSupersedesRe l = Some StandardADRID) (split_char LF doc)
        then Some (''ADR-'' @ num, name, adrStatus doc) else None
    | _ \<Rightarrow> None) = Some (j, g, st)" by blast
  then show ?thesis by (auto simp: dec_read_Inr split: option.splits sum.splits prod.splits if_splits)
qed

lemma plan_files:
  assumes "pl = planRemovals (planStandardADR e w)"
  shows "(j, g) \<in> set (spRemoved pl) \<Longrightarrow> \<exists>doc. map_of (dwFiles w) g = Some (Some doc) \<and> adrStatus doc = ADRProposed"
    and "old_file pl = Some g \<Longrightarrow> adr_glob ''0001'' g"
proof -
  have old: "spOld pl = (case adr0001Files w of [] \<Rightarrow> None | f # _ \<Rightarrow> Some f)"
    and rem: "set (spRemoved pl) \<subseteq> {(j, g). (j, g, ADRProposed) \<in> set (supersedersOfStandard w)}"
    unfolding assms by (auto simp: planRemovals_def planStandardADR_def Let_def)
  show "\<exists>doc. map_of (dwFiles w) g = Some (Some doc) \<and> adrStatus doc = ADRProposed" if "(j, g) \<in> set (spRemoved pl)"
    using rem that superseder_file by blast
  show "adr_glob ''0001'' g" if "old_file pl = Some g"
  proof -
    have "g \<in> set (adr0001Files w)" using that old by (auto simp: old_file_def split: option.splits list.splits if_splits)
    then show ?thesis by (simp add: adr0001Files_def adr_matches_def)
  qed
qed

lemma DecisionStandard_fixed:
  assumes "DecisionStandard e w = (act, er, w')" and "fixed sha i f b w"
    and "adrIDRe i" and "i \<noteq> ''ADR-0001''" and "adr_glob (drop 4 i) f"
  shows "fixed sha i f b w'"
proof -
  define pl where "pl = planRemovals (planStandardADR e w)"
  have rem: "f \<notin> set (map snd (spRemoved pl))"
  proof
    assume "f \<in> set (map snd (spRemoved pl))"
    then obtain doc where "map_of (dwFiles w) f = Some (Some doc)" "adrStatus doc = ADRProposed"
      using plan_files(1)[OF pl_def] by force
    then show False using assms(2) by (auto simp: fixed_def)
  qed
  have ap: "fixed sha i f b (snd (applyStandardADR e pl cmd w))" for cmd
    using assms(2) plan_files(2)[OF pl_def] standard_file[OF assms(3-5)]
    by (auto simp: applyStandardADR_def write_fixed[OF assms(3-5)] fixed_remove split: option.split)
  obtain er1 w1 where a: "applyStandardADR e pl ''ape decision standard'' w = (er1, w1)" by (rule prod.exhaust)
  obtain er2 w2 where r: "remove_all e (map snd (spRemoved pl)) w1 = (er2, w2)" by (rule prod.exhaust)
  have "fixed sha i f b w1" using ap[of "''ape decision standard''"] a by simp
  moreover from this have "fixed sha i f b w2" using remove_all_fixed[OF rem, of sha i b e w1] r by simp
  moreover have "w' \<in> {w, w1, w2}"
    using assms(1) a r by (auto simp: DecisionStandard_def Let_def pl_def[symmetric] split: if_splits option.splits sum.splits)
  ultimately show ?thesis using assms(2) by auto
qed

lemma init_fixed:
  assumes "initStandardADR e w = (act, er, w')" and "fixed sha i f b w" and "adrIDRe i" and "i \<noteq> ''ADR-0001''" and "adr_glob (drop 4 i) f"
  shows "fixed sha i f b w'"
proof -
  have "w' = snd (snd (initStandardADR e w))" by (simp add: assms(1))
  then show ?thesis
    using assms(2) by (simp add: initStandardADR_def Let_def write_fixed[OF assms(3-5)] record_fixed[OF assms(4)] split: standard_action.split)
qed

lemma lifted_records_fixed:
  assumes "lifted_records e w ids recs = Inr recs'" and "fixed (ddSha e) i f b w" and "adr_glob (drop 4 i) f"
    and "\<exists>rec. recs i = Some rec \<and> drBodySHA256 rec = ddSha e b"
  shows "\<exists>rec. recs' i = Some rec \<and> drBodySHA256 rec = ddSha e b"
  using assms
proof (induction e w ids recs rule: lifted_records.induct)
  case (2 e w j js recs)
  obtain g doc where g: "adrFile w j = Some g" "dec_read w g = Inr doc"
      "lifted_records e w js (recs(j \<mapsto> \<lparr>drAcceptedAt = ddStamp e, drBy = LiftBy, drBodySHA256 = adrBodyDigest (ddSha e) doc, drStandard = None\<rparr>)) = Inr recs'"
      "adrStatus doc = ADRAccepted"
    using 2(2) by (auto split: option.splits sum.splits if_splits)
  have "drBodySHA256 \<lparr>drAcceptedAt = ddStamp e, drBy = LiftBy, drBodySHA256 = adrBodyDigest (ddSha e) doc, drStandard = None\<rparr> = ddSha e b" if "j = i"
  proof -
    have "g = f" using g(1) that fixed_file(1)[OF 2(3,4)] by (simp add: adrFile_Some)
    then show ?thesis using g(2) 2(3) body_digest[of "ddSha e" doc] by (auto simp: dec_read_Inr fixed_def)
  qed
  then show ?case using 2(1)[OF g(1,2) _ g(3) 2(3,4)] g(4) 2(5) by auto
qed simp

lemma lifted_fixed:
  assumes "RecordLiftedDecisions e ids w = (er, w')" and "fixed (ddSha e) i f b w" and "adr_glob (drop 4 i) f"
  shows "fixed (ddSha e) i f b w'"
proof (cases "w' = w")
  case False
  then obtain recs where r: "lifted_records e w ids (dwRecords w) = Inr recs" "w' = w\<lparr>dwRecords := recs\<rparr>"
    using assms(1) by (auto simp: RecordLiftedDecisions_def split: sum.splits option.splits)
  from lifted_records_fixed[OF r(1) assms(2,3)] show ?thesis using assms(2) by (auto simp: fixed_def r(2))
qed (use assms in simp)

text \<open>The commands that write decisions or their records, in any order and with any outcome.\<close>

inductive dec_path :: "(string \<Rightarrow> string) \<Rightarrow> dec_world \<Rightarrow> dec_world \<Rightarrow> bool" for sha w where
  none: "dec_path sha w w"
| new: "dec_path sha w w1 \<Longrightarrow> NewDecision e slug title sp w1 = (res, er, w2) \<Longrightarrow> dec_path sha w w2"
| accept: "dec_path sha w w1 \<Longrightarrow> AcceptDecision e j by0 w1 = (res, er, w2) \<Longrightarrow> dec_path sha w w2"
| standard: "dec_path sha w w1 \<Longrightarrow> DecisionStandard se w1 = (act, er, w2) \<Longrightarrow> dec_path sha w w2"
| init: "dec_path sha w w1 \<Longrightarrow> initStandardADR se w1 = (act, er, w2) \<Longrightarrow> dec_path sha w w2"
| lifted: "dec_path sha w w1 \<Longrightarrow> ddSha e = sha \<Longrightarrow> RecordLiftedDecisions e ids w1 = (er, w2) \<Longrightarrow> dec_path sha w w2"

lemma path_fixed:
  assumes "dec_path sha w w'" and "adrIDRe i" and "i \<noteq> ''ADR-0001''" and "adr_glob (drop 4 i) f" and "fixed sha i f b w"
  shows "fixed sha i f b w'"
  using assms(1)
proof (induction rule: dec_path.induct)
  case none
  then show ?case using assms(5) .
next
  case new
  then show ?case using NewDecision_fixed assms(4) by blast
next
  case accept
  then show ?case using AcceptDecision_fixed assms(2,4) by blast
next
  case standard
  then show ?case using DecisionStandard_fixed assms(2-4) by blast
next
  case init
  then show ?case using init_fixed assms(2-4) by blast
next
  case (lifted w1 e ids er w2)
  then show ?case using lifted_fixed[of e ids w1 er w2 i f b] assms(4) by simp
qed

lemma AcceptDecision_fixes:
  assumes "AcceptDecision e i by0 w0 = (res, None, w)"
  obtains f doc rec where "adrFile w i = Some f" "dec_read w f = Inr doc" "dwRecords w i = Some rec"
    "drBodySHA256 rec = adrBodyDigest (ddSha e) doc" "adrStatus doc = ADRAccepted"
proof -
  obtain f doc where f: "adrFile w0 i = Some f" "map_of (dwFiles w0) f = Some (Some doc)"
    and w: "(adrStatus doc = ADRAccepted \<and> w = put_record e i (TrimSpace by0) doc w0) \<or> (adrStatus doc = ADRProposed
      \<and> w = put_record e i (TrimSpace by0) (withADRStatus doc ADRAccepted) (put_file f (withADRStatus doc ADRAccepted) w0))"
    using assms by (auto simp: AcceptDecision_def recordAcceptedDecision_def commit_decision_def Let_def dec_read_Inr[symmetric]
        split: option.splits sum.splits if_splits)
  have same: "adrFile (put_record e i b d x) = adrFile x" for b d x
    by (simp add: put_record_def adr_matches_def adrFile_def fun_eq_iff)
  from w show ?thesis
  proof (elim disjE conjE)
    assume "adrStatus doc = ADRAccepted" "w = put_record e i (TrimSpace by0) doc w0"
    then show ?thesis using f by (intro that[of f doc]) (auto simp: same, auto simp: put_record_def dec_read_Inr)
  next
    let ?d = "withADRStatus doc ADRAccepted"
    assume st: "adrStatus doc = ADRProposed" and w: "w = put_record e i (TrimSpace by0) ?d (put_file f ?d w0)"
    have "f \<in> fst ` set (dwFiles w0)" using f(2) by (metis fst_conv image_eqI map_of_SomeD)
    then have a: "adrFile (put_file f ?d w0) i = Some f" using f(1) by (simp add: adrFile_Some matches_put)
    have "find adr_status_line (split_char LF doc) \<noteq> None"
      using st by (cases "find adr_status_line (split_char LF doc)") (simp_all add: adrStatus_def ADRProposed_def)
    then have "adrStatus ?d = TrimSpace ADRAccepted" by (intro status_reads_back) (simp add: ADRAccepted_def)
    moreover have "TrimSpace ADRAccepted = ADRAccepted" by code_simp
    ultimately show ?thesis
      using a by (intro that[of f ?d]) (auto simp: w same, auto simp: put_record_def dec_read_Inr read_put)
  qed
qed


text \<open>A proposed decision, accepted.\<close>

definition ex_dec_env :: dec_env where
  "ex_dec_env = \<lparr>ddSha = id, ddPerson = None, ddRecover = None, ddOnBranch = None, ddToday = ''2026-01-02'', ddStamp = ''T'', ddMkdir = None,
     ddCreate = None, ddWriteNew = None, ddWrite = None, ddSave = None, ddCommit = Inr ''c1'', ddUndone = True, ddFirst = \<lambda>_. None\<rparr>"

definition ex_adr :: "string \<Rightarrow> string" where
  "ex_adr status = Join [''# ADR-0002: Cache'', ''Status: '' @ status, ''Date: 2026-01-02'', [], ''## Context'', ''c'', ''## Decision'', ''d'',
     ''## Consequences'', ''q'', [], ''Enforced by: review'', []] [LF]"

definition ex_dec :: dec_world where
  "ex_dec = \<lparr>dwFiles = [(''0002-cache.md'', Some (ex_adr ''proposed''))], dwRecords = Map.empty\<rparr>"

definition ex_accepted :: dec_world where
  "ex_accepted = \<lparr>dwFiles = [(''0002-cache.md'', Some (ex_adr ''accepted''))], dwRecords = [''ADR-0002'' \<mapsto>
     \<lparr>drAcceptedAt = ''T'', drBy = ''ann'', drBodySHA256 = adrBodyDigest id (ex_adr ''accepted''), drStandard = None\<rparr>]\<rparr>"

lemma ex_accept_checks:
  "adrFile ex_dec ''ADR-0002'' = Some ''0002-cache.md''" "dec_read ex_dec ''0002-cache.md'' = Inr (ex_adr ''proposed'')"
  "adrStatus (ex_adr ''proposed'') = ADRProposed" "ValidateDecision ''0002-cache.md'' (ex_adr ''proposed'') = []"
  "adrPlaceholdersIn (ex_adr ''proposed'') = []" "withADRStatus (ex_adr ''proposed'') ADRAccepted = ex_adr ''accepted''" "TrimSpace ''ann'' = ''ann''"
  by code_simp+

lemma ex_accept: "AcceptDecision ex_dec_env ''ADR-0002'' ''ann'' ex_dec = (Some (accepted_result ''ADR-0002'' ''0002-cache.md'' \<lparr>deCommit := ''c1''\<rparr>), None, ex_accepted)"
proof -
  have e: "ddPerson ex_dec_env = None" "ddRecover ex_dec_env = None" "ddOnBranch ex_dec_env = None" "ddWrite ex_dec_env = None" "ddSave ex_dec_env = None"
    "ddCommit ex_dec_env = Inr ''c1''" by (simp_all add: ex_dec_env_def)
  have "put_record ex_dec_env ''ADR-0002'' ''ann'' (ex_adr ''accepted'') (put_file ''0002-cache.md'' (ex_adr ''accepted'') ex_dec) = ex_accepted"
    by (simp add: put_record_def put_file_def ex_dec_env_def ex_dec_def ex_accepted_def)
  then show ?thesis by (simp add: AcceptDecision_def e ex_accept_checks commit_decision_def when_err_def)
qed

text \<open>The accepted decision after another one supersedes it and the standard ADR-0001 is written.\<close>

definition ex_std_env :: std_env where
  "ex_std_env = \<lparr>sdDec = ex_dec_env, sdPayload = None, sdVersion = [], sdEmbedded = ''# ADR-0001: Record'' @ [LF] @ ''Status: accepted'',
     sdWorkTree = True, sdDirty = None, sdRemove = (\<lambda>_. None)\<rparr>"

definition ex_superseded :: dec_world where
  "ex_superseded = snd (snd (NewDecision ex_dec_env ''cache-two'' [] ''ADR-0002'' ex_accepted))"

definition ex_standard :: dec_world where
  "ex_standard = snd (snd (DecisionStandard ex_std_env ex_superseded))"

lemma ex_standard_files:
  "map fst (dwFiles ex_standard) = [''0002-cache.md'', ''0003-cache-two.md'', ''0001-record-architecture-decisions.md'']"
  "dec_read ex_standard ''0002-cache.md'' = Inr (ex_adr ''superseded by ADR-0003'')"
  by code_simp+


end
