(* ===== verification/PersonWords.thy ===== *)
theory PersonWords
  imports RunLock GateScript
begin

text \<open>
  The words of a person (\<open>internal/apexv1/personact.go\<close>): the acts only a person may do, the phrase each is asked for with, the
  matcher that finds the phrase in a prompt, the kinds of prompts and the transcript of a session. The Unicode tables, \<open>strings.ToLower\<close> and the
  decoding of a transcript line are parameters.
\<close>

section \<open>The acts\<close>

definition ActMilestoneApprove :: string where "ActMilestoneApprove = ''milestone approve''"
definition ActTweakApprove :: string where "ActTweakApprove = ''change approve''"
definition ActAnswer :: string where "ActAnswer = ''change answer''"
definition ActAcceptTask :: string where "ActAcceptTask = ''change accept''"
definition ActAcceptConfig :: string where "ActAcceptConfig = ''project accept-config''"
definition ActAcceptRed :: string where "ActAcceptRed = ''milestone close --accept-red''"
definition ActAllowPendingHuman :: string where "ActAllowPendingHuman = ''change archive --allow-pending-human''"
definition ActDecisionAccept :: string where "ActDecisionAccept = ''decision accept''"
definition ActQuestionAnswer :: string where "ActQuestionAnswer = ''question answer''"

lemmas act_defs = ActMilestoneApprove_def ActTweakApprove_def ActAnswer_def ActAcceptTask_def ActAcceptConfig_def ActAcceptRed_def
  ActAllowPendingHuman_def ActDecisionAccept_def ActQuestionAnswer_def

text \<open>\<open>PersonActs\<close>: the acts and whether a run of it is long. The texts of the command and of the phrase are for help pages.\<close>

definition PersonActs :: "(string \<times> bool) list" where
  "PersonActs =
     [(ActMilestoneApprove, True), (ActTweakApprove, False), (ActAnswer, False), (ActAcceptTask, False), (ActAcceptConfig, False),
      (ActAcceptRed, True), (ActAllowPendingHuman, True), (ActDecisionAccept, False), (ActQuestionAnswer, False)]"

definition actionAcceptConfig :: string where
  "actionAcceptConfig = ''accept the config''"

record personCall =
  kAct :: string
  kTarget :: string
  kTask :: string
  kText :: string
  kBy :: string
  kArgvSHA256 :: string
  kLiteral :: bool

definition call_Long :: "personCall \<Rightarrow> bool" where
  "call_Long c = (case map_of PersonActs (kAct c) of None \<Rightarrow> False | Some b \<Rightarrow> b)"

definition call_Phrase :: "personCall \<Rightarrow> string" where
  "call_Phrase c =
     (if kAct c = ActMilestoneApprove \<or> kAct c = ActTweakApprove then ''approve '' @ kTarget c
      else if kAct c = ActAnswer \<or> kAct c = ActQuestionAnswer then ''answer '' @ kTarget c @ '': '' @ kText c
      else if kAct c = ActAcceptTask then ''accept '' @ kTask c @ '' of '' @ kTarget c
      else if kAct c = ActAcceptConfig then actionAcceptConfig
      else if kAct c = ActAcceptRed then ''accept red on '' @ kTarget c
      else if kAct c = ActAllowPendingHuman then ''allow pending human on '' @ kTarget c
      else if kAct c = ActDecisionAccept then ''accept '' @ kTarget c
      else [])"

definition answerLike :: "personCall \<Rightarrow> bool" where
  "answerLike c \<longleftrightarrow> kAct c = ActAnswer \<or> kAct c = ActQuestionAnswer"

definition call_words :: "(string \<Rightarrow> string) \<Rightarrow> personCall \<Rightarrow> string list" where
  "call_words low c = Fields (low (if answerLike c then ''answer '' @ kTarget c else call_Phrase c))"

definition targetKey :: "personCall \<Rightarrow> string" where
  "targetKey c = kAct c @ [CHR 0x00] @ kTarget c @ [CHR 0x00] @ kTask c"

definition ArgvSHA256 :: "(string \<Rightarrow> string) \<Rightarrow> string list \<Rightarrow> string" where
  "ArgvSHA256 sha argv = sha (Join argv [CHR 0x00])"

definition sameAct :: "personAct option \<Rightarrow> personCall \<Rightarrow> bool" where
  "sameAct a c = (case a of None \<Rightarrow> False | Some a \<Rightarrow> paAct a = kAct c \<and> paTarget a = kTarget c \<and> paArgvSHA256 a = kArgvSHA256 c)"

section \<open>The matcher\<close>

definition negations :: "string list" where
  "negations = [''not'', ''no'', ''never'', ''dont'', ''don'' @ [CHR 0x27] @ ''t'', ''wait'', ''hold'', ''cannot'', ''nope'', ''stop'']"

definition isNegation :: "string \<Rightarrow> bool" where
  "isNegation w \<longleftrightarrow> w \<in> set negations \<or> HasSuffix w (''n'' @ [CHR 0x27] @ ''t'')"

text \<open>A word of a prompt with the bytes it spans.\<close>

record ptoken =
  tkS :: string
  tkStart :: nat
  tkEnd :: nat

text \<open>The straight and the two curly single quotes.\<close>

definition apostrophes :: "string list" where
  "apostrophes = [[CHR 0x27], [CHR 0xE2, CHR 0x80, CHR 0x99], [CHR 0xE2, CHR 0x80, CHR 0x98]]"

definition wordRune :: "unicode_lib \<Rightarrow> rune \<Rightarrow> bool" where
  "wordRune uc r \<longleftrightarrow> ucLetter uc r \<or> ucDigit uc r \<or> r \<in> {0x2D, 0x5F, 0x27, 0x2019, 0x2018}"

definition tokenWord :: "(string \<Rightarrow> string) \<Rightarrow> string \<Rightarrow> string" where
  "tokenWord low w =
     (let t = rev (strip (map rev apostrophes) (rev (strip apostrophes w))); q = [CHR 0x27]
      in low (ReplaceAll (ReplaceAll t (apostrophes ! 1) q) (apostrophes ! 2) q))"

definition front_rune :: "string \<Rightarrow> rune \<times> nat" where
  "front_rune s = (case decode_rune (map of_char (take 4 s)) of (r, w) \<Rightarrow> (r, max 1 w))"

lemma front_rune_pos [simp]: "0 < snd (front_rune s)"
  by (auto simp: front_rune_def max_def split: prod.splits)

text \<open>The bytes of the word runes at the front.\<close>

function word_len :: "unicode_lib \<Rightarrow> string \<Rightarrow> nat" where
  "word_len uc s =
     (if s = [] \<or> \<not> wordRune uc (fst (front_rune s)) then 0
      else min (length s) (snd (front_rune s)) + word_len uc (drop (snd (front_rune s)) s))"
  by pat_completeness auto
termination
  by (relation "measure (\<lambda>(uc, s). length s)") simp_all

declare word_len.simps [simp del]

lemma word_len_le: "word_len uc s \<le> length s"
proof (induction uc s rule: word_len.induct)
  case (1 uc s)
  then show ?case by (subst word_len.simps) (auto simp: min_def)
qed

text \<open>\<open>promptTokens\<close>, at the byte \<open>i\<close> of the text.\<close>

function prompt_tokens :: "unicode_lib \<Rightarrow> (string \<Rightarrow> string) \<Rightarrow> nat \<Rightarrow> string \<Rightarrow> ptoken list" where
  "prompt_tokens uc low i s =
     (let n = word_len uc s; w = snd (front_rune s) in
      if s = [] then []
      else if n = 0 then prompt_tokens uc low (i + w) (drop w s)
      else \<lparr>tkS = tokenWord low (take n s), tkStart = i, tkEnd = i + n\<rparr> # prompt_tokens uc low (i + n) (drop n s))"
  by pat_completeness auto
termination
  by (relation "measure (\<lambda>(uc, low, i, s). length s)") simp_all

declare prompt_tokens.simps [simp del]

definition promptTokens :: "unicode_lib \<Rightarrow> (string \<Rightarrow> string) \<Rightarrow> string \<Rightarrow> ptoken list" where
  "promptTokens uc low text0 = prompt_tokens uc low 0 text0"

definition sentenceEnds :: string where
  "sentenceEnds = ''.!?;'' @ [LF]"

definition normSpace :: "string \<Rightarrow> string" where
  "normSpace s = Join (Fields s) '' ''"

definition clip :: "string \<Rightarrow> nat \<Rightarrow> string" where
  "clip s n = (if length (runes s) \<le> n then s else concat (map encode_rune (take (n - 1) (runes s))) @ [CHR 0xE2, CHR 0x80, CHR 0xA6])"

definition quoteMax :: nat where
  "quoteMax = 160"

text \<open>Where the sentence of a word starts, and where the one after a word ends.\<close>

definition sentence_start :: "string \<Rightarrow> nat \<Rightarrow> nat" where
  "sentence_start s k = k - length (takeWhile (\<lambda>c. c \<notin> set sentenceEnds) (rev (take k s)))"

definition sentence_end :: "string \<Rightarrow> nat \<Rightarrow> nat" where
  "sentence_end s k = k + length (takeWhile (\<lambda>c. c \<notin> set sentenceEnds) (drop k s))"

text \<open>The body of the loop of \<open>matchAct\<close> at the token \<open>i\<close>: the raw sentence when the act is asked for there.\<close>

definition match_at :: "string \<Rightarrow> ptoken list \<Rightarrow> string list \<Rightarrow> personCall \<Rightarrow> nat \<Rightarrow> string option" where
  "match_at s toks want c i =
     (let ws = take (length want) (drop i toks); first = hd ws; lst = last ws;
          start = sentence_start s (tkStart first); stop = (if answerLike c then length s else sentence_end s (tkEnd lst));
          ans = normSpace (kText c)
      in if map tkS ws \<noteq> want then None
         else if \<not> answerLike c \<and> stop < length s \<and> s ! stop = CHR ''?'' then None
         else if list_ex (\<lambda>t. start \<le> tkStart t \<and> tkEnd t \<le> tkStart first \<and> isNegation (tkS t)) toks then None
         else if \<not> answerLike c
                 \<and> list_ex (\<lambda>t. isNegation (tkS t)) (take 3 (takeWhile (\<lambda>t. tkEnd t \<le> stop) (drop (i + length want) toks))) then None
         else if answerLike c \<and> (ans = [] \<or> \<not> Contains (normSpace (drop (tkEnd lst) s)) ans) then None
         else Some (TrimSpace (drop start (take stop s))))"

text \<open>\<open>matchAct\<close>: the quote and the raw sentence.\<close>

definition matchAct :: "unicode_lib \<Rightarrow> (string \<Rightarrow> string) \<Rightarrow> string \<Rightarrow> personCall \<Rightarrow> (string \<times> string) option" where
  "matchAct uc low s c =
     (let toks = promptTokens uc low s; want = call_words low c in
      if want = [] then None
      else case List.map_filter (match_at s toks want c) [0..<length toks + 1 - length want] of
             [] \<Rightarrow> None
           | raw # _ \<Rightarrow> Some (clip raw quoteMax, raw))"

section \<open>Kinds of prompts\<close>

definition promptTyped :: string where "promptTyped = ''typed''"
definition promptNotification :: string where "promptNotification = ''notification''"
definition promptDelivery :: string where "promptDelivery = ''delivery''"

definition DeliveryTag :: string where
  "DeliveryTag = ''<ape-delivery ''"

definition harnessTagPrefixes :: "string list" where
  "harnessTagPrefixes = [''<task-notification>'', ''<system-reminder>'', ''<local-command-'', DeliveryTag]"

definition tagName :: "string \<Rightarrow> bool" where
  "tagName n = (case n of [] \<Rightarrow> True
     | c # r \<Rightarrow> (is_lower c \<or> is_upper c) \<and> list_all (\<lambda>c. is_lower c \<or> is_upper c \<or> is_digit c \<or> c \<in> set ''-_:.'') r)"

text \<open>The loop of \<open>tagBlocksOnly\<close> with its count of blocks.\<close>

function tag_blocks :: "nat \<Rightarrow> string \<Rightarrow> bool" where
  "tag_blocks n s0 =
     (let s = TrimSpace s0; head0 = takeWhile (\<lambda>c. c \<noteq> CHR ''>'') s; name = takeWhile (\<lambda>c. c \<noteq> CHR '' '') (drop 1 head0);
          rest = drop (length head0 + 1) s; closing = ''</'' @ name @ ''>'' in
      if s = [] then n > 0
      else if \<not> HasPrefix s ''<'' \<or> CHR ''>'' \<notin> set s \<or> length head0 < 2 \<or> name = [] \<or> \<not> tagName name then False
      else case Index rest closing of None \<Rightarrow> False | Some k \<Rightarrow> tag_blocks (n + 1) (drop (k + length closing) rest))"
  by pat_completeness auto
termination
proof (relation "measure (\<lambda>(n, s). length s)", simp, goal_cases)
  case (1 n s0 s hd0 nm rest cl k)
  have "length s \<le> length s0" using 1(1) length_TrimSpace_le by simp
  moreover have "0 < length s" using 1(6) by simp
  moreover have "length (drop (k + length cl) rest) = length s - Suc (k + length cl + length hd0)" using 1(4) by simp
  ultimately show ?case by (metis diff_less less_le_trans zero_less_Suc in_measure case_prod_conv)
qed

declare tag_blocks.simps [simp del]

definition tagBlocksOnly :: "string \<Rightarrow> bool" where
  "tagBlocksOnly s = tag_blocks 0 s"

definition promptKindOf :: "string \<Rightarrow> string" where
  "promptKindOf prompt =
     (let s = TrimSpace prompt in
      if Contains s DeliveryTag then promptDelivery
      else if list_ex (HasPrefix s) harnessTagPrefixes \<or> tagBlocksOnly s then promptNotification
      else promptTyped)"

record promptRecord =
  prTS :: string
  prSession :: string
  prTranscript :: string
  prPrompt :: string
  prID :: string
  prKind :: string

definition rec_notification :: "promptRecord \<Rightarrow> bool" where
  "rec_notification r \<longleftrightarrow> prKind r = promptNotification \<or> prKind r = promptDelivery"

definition rec_delivery :: "promptRecord \<Rightarrow> bool" where
  "rec_delivery r \<longleftrightarrow> prKind r = promptDelivery"

section \<open>The transcript\<close>

definition originHuman :: string where
  "originHuman = ''human''"

text \<open>A line of a transcript as \<open>encoding/json\<close> decodes it: its content a string, blocks with type and text, or neither.\<close>

datatype tcontent = TText string | TBlocks "(string \<times> string) list" | TOther

record tentry =
  tnType :: string
  tnMeta :: bool
  tnSidechain :: bool
  tnPromptID :: string
  tnOrigin :: string
  tnRole :: string
  tnContent :: tcontent

record transcriptPrompt =
  tpPromptID :: string
  tpOrigin :: string
  tpText :: string

definition userMessage :: "(string \<Rightarrow> tentry option) \<Rightarrow> string \<Rightarrow> transcriptPrompt option" where
  "userMessage json line = (case json line of
      None \<Rightarrow> None
    | Some e \<Rightarrow>
        if tnType e \<noteq> ''user'' \<or> tnMeta e \<or> tnSidechain e \<or> tnPromptID e = [] \<or> tnRole e \<noteq> ''user'' then None
        else (case tnContent e of
                TText t \<Rightarrow> Some \<lparr>tpPromptID = tnPromptID e, tpOrigin = tnOrigin e, tpText = t\<rparr>
              | TBlocks bs \<Rightarrow>
                  if list_all (\<lambda>(ty, _). ty = ''text'') bs
                  then Some \<lparr>tpPromptID = tnPromptID e, tpOrigin = tnOrigin e, tpText = concat (map (\<lambda>(_, t). t @ [LF]) bs)\<rparr> else None
              | TOther \<Rightarrow> None))"

text \<open>
  The transcripts by their path: the lines \<open>readLine\<close> gives, or no file. \<open>scanTranscript\<close> as the list of the messages it visits; \<open>ids\<close> is never
  nil here.
\<close>

record transcripts =
  trLines :: "string \<Rightarrow> string list option"
  trJSON :: "string \<Rightarrow> tentry option"

definition scanTranscript :: "transcripts \<Rightarrow> string \<Rightarrow> string list \<Rightarrow> transcriptPrompt list" where
  "scanTranscript tr path ids =
     (let needles = filter (\<lambda>i. i \<noteq> []) ids in
      if \<not> HasPrefix path ''/'' \<or> needles = [] then []
      else case trLines tr path of
        None \<Rightarrow> []
      | Some ls \<Rightarrow> List.map_filter (\<lambda>l. if l \<noteq> [] \<and> list_ex (Contains l) needles then userMessage (trJSON tr) l else None) ls)"

text \<open>\<open>commandNameRe\<close> at the front of a string, and its leftmost match.\<close>

definition command_name_at :: "string \<Rightarrow> string option" where
  "command_name_at s =
     (if HasPrefix s ''<command-name>''
      then (let r = dropWhile re_space (drop 14 s); name = takeWhile (\<lambda>c. c \<noteq> CHR ''<'' \<and> \<not> re_space c) r
            in if HasPrefix name ''/'' \<and> 2 \<le> length name \<and> HasPrefix (dropWhile re_space (drop (length name) r)) ''</command-name>''
               then Some name else None)
      else None)"

fun command_name :: "string \<Rightarrow> string option" where
  "command_name [] = None"
| "command_name (c # s) = (case command_name_at (c # s) of Some n \<Rightarrow> Some n | None \<Rightarrow> command_name s)"

definition command_args :: "string \<Rightarrow> string option" where
  "command_args s = (case Index s ''<command-args>'' of
      None \<Rightarrow> None
    | Some k \<Rightarrow> (let r = drop (k + 14) s in map_option (\<lambda>n. take n r) (Index r ''</command-args>'')))"

definition slashCommandLine :: "string \<Rightarrow> string option" where
  "slashCommandLine s = map_option (\<lambda>name. case command_args s of
      Some a \<Rightarrow> if TrimSpace a \<noteq> [] then name @ '' '' @ TrimSpace a else name
    | None \<Rightarrow> name) (command_name s)"

definition holdsClause :: "(string \<Rightarrow> string) \<Rightarrow> string \<Rightarrow> string \<Rightarrow> bool" where
  "holdsClause low s want \<longleftrightarrow> Contains (low (normSpace s)) want
     \<or> (case slashCommandLine s of None \<Rightarrow> False | Some line \<Rightarrow> Contains (low (normSpace line)) want)"

definition transcriptHolds :: "(string \<Rightarrow> string) \<Rightarrow> transcripts \<Rightarrow> string \<Rightarrow> string \<Rightarrow> string \<Rightarrow> bool" where
  "transcriptHolds low tr path promptID clause =
     list_ex (\<lambda>m. tpPromptID m = promptID \<and> tpOrigin m = originHuman \<and> holdsClause low (tpText m) (low (normSpace clause)))
       (scanTranscript tr path [promptID])"

definition origin_step :: "(string \<rightharpoonup> string) \<Rightarrow> transcriptPrompt \<Rightarrow> (string \<rightharpoonup> string)" where
  "origin_step m p = (case m (tpPromptID p) of
      None \<Rightarrow> m(tpPromptID p \<mapsto> tpOrigin p)
    | Some k \<Rightarrow> if k \<noteq> originHuman \<and> tpOrigin p = originHuman then m(tpPromptID p \<mapsto> tpOrigin p) else m)"

definition transcriptOrigins :: "transcripts \<Rightarrow> string \<Rightarrow> string list \<Rightarrow> (string \<rightharpoonup> string)" where
  "transcriptOrigins tr path ids = (if path = [] \<or> ids = [] then Map.empty else foldl origin_step Map.empty (scanTranscript tr path ids))"

end
