(* ===== verification/PersonAct.thy ===== *)
theory PersonAct
  imports PersonWords
begin

text \<open>
  Person acts in a model session (\<open>internal/apexv1/personact.go\<close>, \<open>session.go\<close>, \<open>internal/apecmd/v1_personact.go\<close>): the prompts a hook records, the
  grant another hook writes when the person's own words ask for an act, and the command that consumes it. A time is a number of nanoseconds.
\<close>

section \<open>Records\<close>

record grant =
  grSession :: string
  grPromptID :: string
  grPromptTS :: string
  grAct :: string
  grTarget :: string
  grTask :: string
  grArgvSHA256 :: string
  grQuote :: string
  grExpires :: "int option"

text \<open>
  The files below the state folder: the prompt logs by their name, the grants, the issued markers and the consumed grants by theirs. A grant,
  a marker and a consumed grant have the time of their last write.
\<close>

record grants_fs =
  gfPrompts :: "string \<Rightarrow> promptRecord on_disk list"
  gfGrants :: "string \<Rightarrow> (grant on_disk \<times> int) option"
  gfIssued :: "string \<Rightarrow> int option"
  gfConsumed :: "string \<Rightarrow> (grant on_disk \<times> int) option"

text \<open>
  What a hook or a command learns from outside. \<open>aRedact\<close>: the secret scan of a text; \<open>aText\<close>: a string after JSON, which replaces what is not
  UTF-8; \<open>aName\<close>: the time and the random digits of a consumed grant's name; \<open>aRename\<close>: whether a rename succeeds.
\<close>

record grant_env =
  aUC :: unicode_lib
  aLower :: "string \<Rightarrow> string"
  aSha :: "string \<Rightarrow> string"
  aRedact :: "string \<Rightarrow> string option"
  aText :: "string \<Rightarrow> string"
  aTranscripts :: transcripts
  aNow :: int
  aStamp :: string
  aV1 :: bool
  aApeSession :: bool
  aClaudeCode :: bool
  aSessionID :: string
  aUserName :: string
  aHead :: string
  aProcs :: proc_view
  aLocks :: "string \<Rightarrow> lock_fs"
  aAppend :: "apex_error option"
  aMkdir :: "apex_error option"
  aWriteIssued :: "apex_error option"
  aWriteGrant :: "apex_error option"
  aRename :: bool
  aName :: string

text \<open>The payload of a hook.\<close>

record hookPayload =
  hpSession :: string
  hpTranscript :: string
  hpPrompt :: string
  hpPromptID :: string
  hpMonitor :: bool

section \<open>Recording prompts\<close>

definition key_char :: "rune \<Rightarrow> bool" where
  "key_char r \<longleftrightarrow> r < 128 \<and> (let c = char_of r in is_lower c \<or> is_upper c \<or> is_digit c \<or> c \<in> set ''._-'')"

definition sanitizeKey :: "string \<Rightarrow> string" where
  "sanitizeKey s = map (\<lambda>r. if key_char r then char_of r else CHR ''_'') (runes s)"

definition promptLogPath :: "string \<Rightarrow> string" where
  "promptLogPath sid = (if sanitizeKey sid = [] then ''no-session'' else sanitizeKey sid)"

definition promptMax :: nat where
  "promptMax = 64 * 1024"

definition prompt_record :: "grant_env \<Rightarrow> hookPayload \<Rightarrow> promptRecord" where
  "prompt_record e h =
     \<lparr>prTS = aStamp e, prSession = hpSession h, prTranscript = hpTranscript h, prPrompt = aText e (take promptMax (hpPrompt h)),
      prID = hpPromptID h, prKind = promptKindOf (hpPrompt h)\<rparr>"

definition RecordPrompt :: "grant_env \<Rightarrow> hookPayload \<Rightarrow> grants_fs \<Rightarrow> apex_error option \<times> grants_fs" where
  "RecordPrompt e h fs =
     (if aApeSession e \<or> \<not> aV1 e then (None, fs)
      else case first_err [aMkdir e, aAppend e] of
        Some er \<Rightarrow> (Some er, fs)
      | None \<Rightarrow> (None, fs\<lparr>gfPrompts := (gfPrompts fs)(promptLogPath (hpSession h) :=
                   gfPrompts fs (promptLogPath (hpSession h)) @ [Parsed (prompt_record e h)])\<rparr>))"

definition promptRecords :: "grants_fs \<Rightarrow> string \<Rightarrow> promptRecord list" where
  "promptRecords fs sid = List.map_filter (\<lambda>l. case l of Parsed r \<Rightarrow> if prSession r = sid then Some r else None | Garbled \<Rightarrow> None)
     (gfPrompts fs (promptLogPath sid))"

definition lastRecord :: "promptRecord list \<Rightarrow> string \<Rightarrow> promptRecord option" where
  "lastRecord recs i = find (\<lambda>r. prID r = i) (rev recs)"

definition promptRecord_of :: "grants_fs \<Rightarrow> string \<Rightarrow> string \<Rightarrow> promptRecord option" where
  "promptRecord_of fs sid i = lastRecord (promptRecords fs sid) i"

section \<open>Turns\<close>

text \<open>Why an act is denied.\<close>

datatype deny =
    DenyMonitor | DenyMany | DenyNotLiteral | DenyBusy | DenyByMismatch | DenyNoPrompt | DenyDelivery | DenyNoRecord | DenyNoTyped
  | DenyNotRightAfter | DenyNotAsked | DenyNotHuman | DenyNotShown | DenyUsed | DenyWrite

datatype decision = Allow | Deny deny

text \<open>\<open>turnOpener\<close>: the person, something else, or a turn that grants nothing.\<close>

datatype opener = PersonOpened | OtherOpened | Refused deny

definition turnOpener :: "promptRecord option \<Rightarrow> string option \<Rightarrow> opener" where
  "turnOpener rec origin =
     (if (case rec of Some r \<Rightarrow> rec_delivery r | None \<Rightarrow> False) then Refused DenyDelivery
      else if (case origin of Some kind \<Rightarrow> kind \<noteq> [] \<and> kind \<noteq> originHuman | None \<Rightarrow> False) then OtherOpened
      else case rec of Some r \<Rightarrow> if rec_notification r then OtherOpened else PersonOpened | None \<Rightarrow> Refused DenyNoRecord)"

definition latestTyped :: "promptRecord list \<Rightarrow> string \<Rightarrow> string \<Rightarrow> (string \<rightharpoonup> string) \<Rightarrow> promptRecord option" where
  "latestTyped recs skip transcript origins =
     find (\<lambda>r. prID r \<noteq> skip \<and> \<not> rec_notification r \<and> prTranscript r = transcript \<and> origins (prID r) = Some originHuman) (rev recs)"

definition turnRightAfter :: "promptRecord list \<Rightarrow> string \<Rightarrow> string \<Rightarrow> bool" where
  "turnRightAfter recs typed prompt = (case dropWhile (\<lambda>r. prID r \<noteq> prompt) (rev recs) of
      [] \<Rightarrow> False
    | _ # before \<Rightarrow> (case dropWhile (\<lambda>r. prID r = prompt) before of [] \<Rightarrow> False | r # _ \<Rightarrow> prID r = typed))"

section \<open>Grants\<close>

definition GrantTTL :: int where
  "GrantTTL = 120 * 10 ^ 9"

definition day :: int where
  "day = 24 * 60 * 60 * 10 ^ 9"

definition issuedPath :: "grant_env \<Rightarrow> string \<Rightarrow> string \<Rightarrow> personCall \<Rightarrow> string" where
  "issuedPath e sid pid c = ArgvSHA256 (aSha e) [sid, pid, targetKey c]"

definition loadGrant :: "(grant on_disk \<times> int) option \<Rightarrow> grant option" where
  "loadGrant f = (case f of Some (Parsed g, _) \<Rightarrow> if grArgvSHA256 g = [] then None else Some g | _ \<Rightarrow> None)"

definition grant_live :: "int \<Rightarrow> grant \<Rightarrow> bool" where
  "grant_live t g = (case grExpires g of None \<Rightarrow> False | Some x \<Rightarrow> t < x)"

definition grant_matches :: "grant \<Rightarrow> personCall \<Rightarrow> bool" where
  "grant_matches g c \<longleftrightarrow> grAct g = kAct c \<and> grTarget g = kTarget c \<and> grTask g = kTask c \<and> grArgvSHA256 g = kArgvSHA256 c"

definition ownSession :: "grant_env \<Rightarrow> grant \<Rightarrow> bool" where
  "ownSession e g \<longleftrightarrow> aSessionID e \<noteq> [] \<and> grSession g = aSessionID e"

definition HasGrant :: "grant_env \<Rightarrow> personCall \<Rightarrow> grants_fs \<Rightarrow> bool" where
  "HasGrant e c fs = (case loadGrant (gfGrants fs (sanitizeKey (kArgvSHA256 c))) of
      None \<Rightarrow> False
    | Some g \<Rightarrow> grant_matches g c \<and> grant_live (aNow e) g \<and> ownSession e g)"

definition backing :: "grant_env \<Rightarrow> grant \<Rightarrow> personCall \<Rightarrow> grants_fs \<Rightarrow> (promptRecord \<times> string) option" where
  "backing e g c fs =
     (if grSession g = [] \<or> grPromptID g = [] then None
      else case promptRecord_of fs (grSession g) (grPromptID g) of
        None \<Rightarrow> None
      | Some rec \<Rightarrow>
          if rec_notification rec then None
          else (case matchAct (aUC e) (aLower e) (prPrompt rec) c of
                  None \<Rightarrow> None
                | Some (quote0, raw) \<Rightarrow>
                    if prTranscript rec = [] \<or> \<not> transcriptHolds (aLower e) (aTranscripts e) (prTranscript rec) (grPromptID g) raw then None
                    else Some (rec, quote0)))"

definition control_rune :: "rune \<Rightarrow> bool" where
  "control_rune r \<longleftrightarrow> r < 0x20 \<or> 0x7F \<le> r \<and> r < 0xA0"

definition quoteFor :: "grant_env \<Rightarrow> string \<Rightarrow> string" where
  "quoteFor e clause = (case aRedact e clause of
      None \<Rightarrow> ''(quote withheld: the secret scan could not run)''
    | Some s \<Rightarrow> clip (concat (map (\<lambda>r. if r = 0x23 then encode_rune 0xFF03 else if control_rune r then [] else encode_rune r) (runes (normSpace s)))) quoteMax)"

text \<open>\<open>ConsumeGrant\<close>: the act, without its \<open>By\<close>, and the files.\<close>

definition ConsumeGrant :: "grant_env \<Rightarrow> personCall \<Rightarrow> grants_fs \<Rightarrow> personAct option \<times> grants_fs" where
  "ConsumeGrant e c fs =
     (let path = sanitizeKey (kArgvSHA256 c) in
      case loadGrant (gfGrants fs path) of
        None \<Rightarrow> (None, fs)
      | Some g \<Rightarrow>
          if \<not> grant_matches g c then (None, fs)
          else if \<not> grant_live (aNow e) g then (None, fs\<lparr>gfGrants := (gfGrants fs)(path := None)\<rparr>)
          else if \<not> ownSession e g then (None, fs)
          else case backing e g c fs of
            None \<Rightarrow> (None, fs)
          | Some (rec, quote0) \<Rightarrow>
              if aMkdir e \<noteq> None \<or> \<not> aRename e then (None, fs)
              else (let name = path @ ''-'' @ aName e @ ''.json'' in
                    (Some \<lparr>paAct = kAct c, paTarget = kTarget c, paArgvSHA256 = kArgvSHA256 c, paBy = [], paPromptTS = prTS rec,
                           paQuote = quoteFor e quote0, paGrant = name\<rparr>,
                     fs\<lparr>gfGrants := (gfGrants fs)(path := None), gfConsumed := (gfConsumed fs)(name := gfGrants fs path)\<rparr>)))"

definition prune :: "int \<Rightarrow> (string \<Rightarrow> ('a \<times> int) option) \<Rightarrow> string \<Rightarrow> ('a \<times> int) option" where
  "prune t m k = (case m k of Some (x, written) \<Rightarrow> if written < t - day then None else m k | None \<Rightarrow> None)"

definition pruneGrants :: "int \<Rightarrow> grants_fs \<Rightarrow> grants_fs" where
  "pruneGrants t fs = fs\<lparr>gfGrants := prune t (gfGrants fs), gfConsumed := prune t (gfConsumed fs),
     gfIssued := (\<lambda>k. case gfIssued fs k of Some written \<Rightarrow> if written < t - day then None else Some written | None \<Rightarrow> None)\<rparr>"

section \<open>The pre-tool hook\<close>

text \<open>The record whose words are judged, or why none is.\<close>

definition judged_record :: "grant_env \<Rightarrow> hookPayload \<Rightarrow> grants_fs \<Rightarrow> deny + promptRecord" where
  "judged_record e h fs =
     (let recs = promptRecords fs (hpSession h); rec = lastRecord recs (hpPromptID h);
          origins = transcriptOrigins (aTranscripts e) (hpTranscript h) (hpPromptID h # map prID recs)
      in case turnOpener rec (origins (hpPromptID h)) of
           Refused d \<Rightarrow> Inl d
         | PersonOpened \<Rightarrow> (case rec of Some r \<Rightarrow> Inr r | None \<Rightarrow> Inl DenyNoRecord)
         | OtherOpened \<Rightarrow>
             (case latestTyped recs (hpPromptID h) (hpTranscript h) origins of
                None \<Rightarrow> Inl DenyNoTyped
              | Some r \<Rightarrow> if turnRightAfter recs (prID r) (hpPromptID h) then Inr r else Inl DenyNotRightAfter))"

definition not_shown :: "grant_env \<Rightarrow> hookPayload \<Rightarrow> grants_fs \<Rightarrow> promptRecord \<Rightarrow> deny" where
  "not_shown e h fs rec =
     (if transcriptOrigins (aTranscripts e) (hpTranscript h) (hpPromptID h # map prID (promptRecords fs (hpSession h))) (prID rec) = Some []
      then DenyNotHuman else DenyNotShown)"

definition new_grant :: "grant_env \<Rightarrow> hookPayload \<Rightarrow> promptRecord \<Rightarrow> string \<Rightarrow> personCall \<Rightarrow> grant" where
  "new_grant e h rec quote0 c =
     \<lparr>grSession = hpSession h, grPromptID = prID rec, grPromptTS = prTS rec, grAct = kAct c, grTarget = kTarget c, grTask = kTask c,
      grArgvSHA256 = kArgvSHA256 c, grQuote = quoteFor e quote0, grExpires = Some (aNow e + GrantTTL)\<rparr>"

definition write_grant :: "grant_env \<Rightarrow> hookPayload \<Rightarrow> promptRecord \<Rightarrow> string \<Rightarrow> personCall \<Rightarrow> grants_fs \<Rightarrow> decision \<times> grants_fs" where
  "write_grant e h rec quote0 c fs =
     (case aMkdir e of
        Some _ \<Rightarrow> (Deny DenyWrite, fs)
      | None \<Rightarrow>
          (let fs1 = pruneGrants (aNow e) fs in
           case aWriteIssued e of
             Some _ \<Rightarrow> (Deny DenyWrite, fs1)
           | None \<Rightarrow>
               (let fs2 = fs1\<lparr>gfIssued := (gfIssued fs1)(issuedPath e (hpSession h) (prID rec) c \<mapsto> aNow e)\<rparr> in
                case aWriteGrant e of
                  Some _ \<Rightarrow> (Deny DenyWrite, fs2)
                | None \<Rightarrow> (Allow, fs2\<lparr>gfGrants := (gfGrants fs2)(sanitizeKey (kArgvSHA256 c) \<mapsto> (Parsed (new_grant e h rec quote0 c), aNow e))\<rparr>))))"

definition grantVerdict :: "grant_env \<Rightarrow> hookPayload \<Rightarrow> personCall \<Rightarrow> grants_fs \<Rightarrow> decision \<times> grants_fs" where
  "grantVerdict e h c fs =
     (if hpPromptID h = [] \<or> hpSession h = [] then (Deny DenyNoPrompt, fs)
      else case judged_record e h fs of
        Inl d \<Rightarrow> (Deny d, fs)
      | Inr rec \<Rightarrow>
          (case matchAct (aUC e) (aLower e) (prPrompt rec) c of
             None \<Rightarrow> (Deny DenyNotAsked, fs)
           | Some (quote0, raw) \<Rightarrow>
               if hpTranscript h = [] \<or> prTranscript rec \<noteq> hpTranscript h
                  \<or> \<not> transcriptHolds (aLower e) (aTranscripts e) (hpTranscript h) (prID rec) raw
               then (Deny (not_shown e h fs rec), fs)
               else if (case loadGrant (gfGrants fs (sanitizeKey (kArgvSHA256 c))) of
                          None \<Rightarrow> False
                        | Some g \<Rightarrow> grant_live (aNow e) g \<and> grant_matches g c \<and> grSession g = hpSession h \<and> grPromptID g = prID rec)
               then (Allow, fs)
               else if gfIssued fs (issuedPath e (hpSession h) (prID rec) c) \<noteq> None then (Deny DenyUsed, fs)
               else write_grant e h rec quote0 c fs))"

definition longVerb :: "string \<Rightarrow> string" where
  "longVerb act = (if act = ActAcceptRed then ''milestone close'' else if act = ActAllowPendingHuman then ''change archive'' else act)"

text \<open>\<open>attachVerdict\<close>: \<open>None\<close> when a grant is needed.\<close>

definition attachVerdict :: "grant_env \<Rightarrow> personCall \<Rightarrow> decision option" where
  "attachVerdict e c =
     (let fs = aLocks e (kTarget c); verb = longVerb (kAct c) in
      case LoadRunLock fs of
        Some l \<Rightarrow>
          if lock_Alive (aProcs e) l
          then Some (if rlVerb l = verb \<and> sameAct (rlPersonAct l) c then Allow else Deny DenyBusy)
          else (case LoadRunResult fs of
                  Some r \<Rightarrow> if \<not> rrReported r \<and> rrVerb r = verb \<and> sameAct (rrPersonAct r) c \<and> rrHeadAfter r = aHead e then Some Allow else None
                | None \<Rightarrow> None)
      | None \<Rightarrow>
          (case LoadRunResult fs of
             Some r \<Rightarrow> if \<not> rrReported r \<and> rrVerb r = verb \<and> sameAct (rrPersonAct r) c \<and> rrHeadAfter r = aHead e then Some Allow else None
           | None \<Rightarrow> None))"

definition PersonActGate :: "grant_env \<Rightarrow> hookPayload \<Rightarrow> personCall list \<Rightarrow> grants_fs \<Rightarrow> decision \<times> grants_fs" where
  "PersonActGate e h calls fs =
     (case calls of
        [] \<Rightarrow> (Allow, fs)
      | c # rest \<Rightarrow>
          if aApeSession e \<or> \<not> aV1 e then (Allow, fs)
          else if hpMonitor h then (Deny DenyMonitor, fs)
          else if rest \<noteq> [] then (Deny DenyMany, fs)
          else if \<not> kLiteral c then (Deny DenyNotLiteral, fs)
          else case (if call_Long c then attachVerdict e c else None) of
            Some d \<Rightarrow> (d, fs)
          | None \<Rightarrow>
              if kBy c \<noteq> [] \<and> aUserName e \<noteq> [] \<and> kBy c \<noteq> aUserName e then (Deny DenyByMismatch, fs)
              else grantVerdict e h c fs)"

section \<open>The command\<close>

definition ModelSession :: "grant_env \<Rightarrow> string" where
  "ModelSession e = (if aApeSession e then ''APE_SESSION'' else if aClaudeCode e then ''CLAUDECODE'' else [])"

text \<open>The act a command's context carries, and whether it is granted.\<close>

type_synonym act_ctx = "(personAct \<times> bool) option"

definition CodePersonOnly :: string where
  "CodePersonOnly = ''session.person-only''"

definition requirePerson :: "grant_env \<Rightarrow> act_ctx \<Rightarrow> string \<Rightarrow> apex_error option" where
  "requirePerson e ctx act =
     (if ModelSession e = [] \<or> ModelSession e = ''CLAUDECODE'' \<and> (case ctx of Some (a, granted) \<Rightarrow> granted \<and> paAct a = act | None \<Rightarrow> False)
      then None else Some (UsageError CodePersonOnly))"

definition RequirePersonFlag :: "grant_env \<Rightarrow> apex_error option" where
  "RequirePersonFlag e = when_err (ModelSession e \<noteq> []) (UsageError CodePersonOnly)"

definition PersonBy :: "string \<Rightarrow> string \<Rightarrow> string \<Rightarrow> string" where
  "PersonBy name ts quote0 = name @ '' (prompt '' @ ts @ '': '' @ [CHR 0x22] @ quote0 @ [CHR 0x22] @ '')''"

text \<open>\<open>takePersonAct\<close>: the context of the call's body, or the refusal.\<close>

definition takePersonAct :: "grant_env \<Rightarrow> personCall \<Rightarrow> grants_fs \<Rightarrow> (apex_error + act_ctx) \<times> grants_fs" where
  "takePersonAct e c fs =
     (if ModelSession e = []
      then (Inr (Some (\<lparr>paAct = kAct c, paTarget = kTarget c, paArgvSHA256 = kArgvSHA256 c, paBy = kBy c, paPromptTS = [], paQuote = [], paGrant = []\<rparr>, False)), fs)
      else if ModelSession e \<noteq> ''CLAUDECODE'' then (Inr None, fs)
      else if \<not> HasGrant e c fs then (Inl (UsageError CodePersonOnly), fs)
      else if aUserName e = [] then (Inl (UsageError CodePersonOnly), fs)
      else if kBy c \<noteq> [] \<and> kBy c \<noteq> aUserName e then (Inl (fail ''session.by-mismatch''), fs)
      else case ConsumeGrant e c fs of
        (None, fs1) \<Rightarrow> (Inl (UsageError CodePersonOnly), fs1)
      | (Some a, fs1) \<Rightarrow> (Inr (Some (a\<lparr>paBy := PersonBy (aUserName e) (paPromptTS a) (paQuote a)\<rparr>, True)), fs1))"

definition LockPersonAct :: "grant_env \<Rightarrow> runLock option \<Rightarrow> personCall \<Rightarrow> grants_fs \<Rightarrow> act_ctx" where
  "LockPersonAct e l c fs = (case l of
      None \<Rightarrow> None
    | Some l \<Rightarrow>
        (case rlPersonAct l of
           None \<Rightarrow> None
         | Some a \<Rightarrow>
             if paArgvSHA256 a \<noteq> kArgvSHA256 c then None
             else if ModelSession e \<noteq> ''CLAUDECODE'' then Some (a, False)
             else if paGrant a = [] \<or> CHR ''/'' \<in> set (paGrant a) \<or> CHR 0x5C \<in> set (paGrant a) then None
             else (case loadGrant (gfConsumed fs (paGrant a)) of
                     None \<Rightarrow> None
                   | Some g \<Rightarrow>
                       if grArgvSHA256 g \<noteq> kArgvSHA256 c \<or> grAct g \<noteq> paAct a \<or> grTarget g \<noteq> paTarget a \<or> \<not> grant_matches g c \<or> \<not> ownSession e g
                          \<or> backing e g c fs = None
                       then None else Some (a, True))))"

end
