(* ===== verification/PersonActFacts.thy ===== *)
theory PersonActFacts
  imports PersonAct
begin

text \<open>
  What person acts in a model session show: an act a command carries out there rests on words a person typed, and the words of one prompt carry out
  an act on a target once.
\<close>

section \<open>The words behind an act\<close>

lemma lastRecord_Some: "lastRecord recs i = Some r \<Longrightarrow> r \<in> set recs \<and> prID r = i"
proof -
  assume "lastRecord recs i = Some r"
  then obtain k where "k < length (rev recs)" "prID (rev recs ! k) = i" "r = rev recs ! k" by (auto simp: lastRecord_def find_Some_iff)
  then show ?thesis using nth_mem[of k "rev recs"] by simp
qed

text \<open>
  The phrase of the act stands at a word \<open>i\<close> of the prompt: no negation before it in its sentence, its sentence no question and none of the three words
  after it a negation; for an answer, its text follows. \<open>raw\<close> is the sentence.
\<close>

definition asks_at :: "string \<Rightarrow> ptoken list \<Rightarrow> string list \<Rightarrow> personCall \<Rightarrow> string \<Rightarrow> nat \<Rightarrow> bool" where
  "asks_at s toks want c raw i \<longleftrightarrow>
     (let ws = take (length want) (drop i toks); start = sentence_start s (tkStart (hd ws));
          stop = (if answerLike c then length s else sentence_end s (tkEnd (last ws))) in
      map tkS ws = want \<and> raw = TrimSpace (drop start (take stop s))
      \<and> (\<forall>t\<in>set toks. start \<le> tkStart t \<longrightarrow> tkEnd t \<le> tkStart (hd ws) \<longrightarrow> \<not> isNegation (tkS t))
      \<and> (if answerLike c then Contains (normSpace (drop (tkEnd (last ws)) s)) (normSpace (kText c)) \<and> normSpace (kText c) \<noteq> []
         else (stop < length s \<longrightarrow> s ! stop \<noteq> CHR ''?'')
           \<and> (\<forall>t\<in>set (take 3 (takeWhile (\<lambda>t. tkEnd t \<le> stop) (drop (i + length want) toks))). \<not> isNegation (tkS t))))"

definition asks :: "unicode_lib \<Rightarrow> (string \<Rightarrow> string) \<Rightarrow> string \<Rightarrow> personCall \<Rightarrow> string \<Rightarrow> bool" where
  "asks uc low s c raw \<longleftrightarrow> call_words low c \<noteq> [] \<and> (\<exists>i. asks_at s (promptTokens uc low s) (call_words low c) c raw i)"

lemma match_at_asks: "match_at s toks want c i = Some raw \<longleftrightarrow> asks_at s toks want c raw i"
  by (auto simp: match_at_def asks_at_def Let_def list_ex_iff)

lemma matchAct_asks:
  assumes "matchAct uc low s c = Some (q, raw)"
  shows "asks uc low s c raw \<and> q = clip raw quoteMax"
proof -
  let ?toks = "promptTokens uc low s" and ?want = "call_words low c"
  have w: "?want \<noteq> []" using assms by (auto simp: matchAct_def Let_def)
  then obtain xs where "List.map_filter (match_at s ?toks ?want c) [0..<length ?toks + 1 - length ?want] = raw # xs" and q: "q = clip raw quoteMax"
    using assms by (auto simp: matchAct_def Let_def split: list.splits)
  then have "raw \<in> set (List.map_filter (match_at s ?toks ?want c) [0..<length ?toks + 1 - length ?want])" by simp
  then obtain i where "match_at s ?toks ?want c i = Some raw" by (auto simp: map_filter_def)
  then show ?thesis using w q by (auto simp: asks_def match_at_asks)
qed

text \<open>A prompt a person typed in the session, shown by the session's transcript as the person's, that asks for the act.\<close>

definition attested :: "grant_env \<Rightarrow> personCall \<Rightarrow> grants_fs \<Rightarrow> bool" where
  "attested e c fs \<longleftrightarrow> (\<exists>rec raw m. rec \<in> set (promptRecords fs (aSessionID e)) \<and> \<not> rec_notification rec
     \<and> asks (aUC e) (aLower e) (prPrompt rec) c raw
     \<and> m \<in> set (scanTranscript (aTranscripts e) (prTranscript rec) [prID rec]) \<and> tpPromptID m = prID rec \<and> tpOrigin m = originHuman
     \<and> holdsClause (aLower e) (tpText m) (aLower e (normSpace raw)))"

lemma backing_attested:
  assumes "backing e g c fs \<noteq> None" and "ownSession e g"
  shows "attested e c fs"
proof -
  from assms(1) obtain rec q raw where rec: "promptRecord_of fs (grSession g) (grPromptID g) = Some rec" "\<not> rec_notification rec"
    "matchAct (aUC e) (aLower e) (prPrompt rec) c = Some (q, raw)"
    "transcriptHolds (aLower e) (aTranscripts e) (prTranscript rec) (grPromptID g) raw"
    by (auto simp: backing_def split: if_splits option.splits prod.splits)
  have r: "rec \<in> set (promptRecords fs (aSessionID e))" "prID rec = grPromptID g"
    using lastRecord_Some[of _ _ rec] rec(1) assms(2) by (auto simp: promptRecord_of_def ownSession_def)
  from rec(4) obtain m where "m \<in> set (scanTranscript (aTranscripts e) (prTranscript rec) [prID rec])" "tpPromptID m = prID rec"
    "tpOrigin m = originHuman" "holdsClause (aLower e) (tpText m) (aLower e (normSpace raw))"
    by (auto simp: transcriptHolds_def list_ex_iff r(2))
  then show ?thesis unfolding attested_def using r(1) rec(2) matchAct_asks[OF rec(3)] by blast
qed

lemma ConsumeGrant_Some:
  assumes "ConsumeGrant e c fs = (Some a, fs')"
  obtains g w where "gfGrants fs (sanitizeKey (kArgvSHA256 c)) = Some (Parsed g, w)" "grant_matches g c" "grant_live (aNow e) g" "ownSession e g"
    "backing e g c fs \<noteq> None" "paAct a = kAct c" "gfIssued fs' = gfIssued fs" "gfPrompts fs' = gfPrompts fs"
    "gfGrants fs' = (gfGrants fs)(sanitizeKey (kArgvSHA256 c) := None)"
proof -
  from assms obtain g where g: "loadGrant (gfGrants fs (sanitizeKey (kArgvSHA256 c))) = Some g"
    by (auto simp: ConsumeGrant_def Let_def split: option.splits)
  then obtain w where w: "gfGrants fs (sanitizeKey (kArgvSHA256 c)) = Some (Parsed g, w)"
    by (auto simp: loadGrant_def split: option.splits on_disk.splits if_splits prod.splits)
  show ?thesis using assms g by (intro that[OF w]) (auto simp: ConsumeGrant_def Let_def split: if_splits option.splits prod.splits)
qed

lemma act_attested:
  assumes "ModelSession e \<noteq> []"
    and "fst (takePersonAct e c fs) = Inr ctx \<or> LockPersonAct e l c fs = ctx"
    and "requirePerson e ctx act = None"
  shows "\<not> aApeSession e \<and> act = kAct c \<and> attested e c fs"
proof -
  have m: "ModelSession e = ''CLAUDECODE''" and ctx: "\<exists>a. ctx = Some (a, True) \<and> paAct a = act"
    using assms(1,3) by (auto simp: requirePerson_def split: if_splits option.splits)
  from m have "\<not> aApeSession e" by (auto simp: ModelSession_def split: if_splits)
  moreover from ctx obtain a where a: "ctx = Some (a, True)" "paAct a = act" by blast
  from assms(2) have "act = kAct c \<and> attested e c fs"
  proof
    assume t: "fst (takePersonAct e c fs) = Inr ctx"
    then obtain a0 fs1 where "ConsumeGrant e c fs = (Some a0, fs1)" "paAct a = paAct a0"
      using a m by (auto simp: takePersonAct_def split: if_splits option.splits prod.splits)
    then show ?thesis using a(2) by (elim ConsumeGrant_Some) (auto intro: backing_attested)
  next
    assume "LockPersonAct e l c fs = ctx"
    then obtain g where "backing e g c fs \<noteq> None" "ownSession e g" "grAct g = paAct a" "grant_matches g c"
      using a m by (auto simp: LockPersonAct_def split: if_splits option.splits)
    then show ?thesis using a(2) backing_attested[of e g c fs] by (simp add: grant_matches_def)
  qed
  ultimately show ?thesis by simp
qed

section \<open>Hooks and commands in any order\<close>

text \<open>
  The files, the clock and what was carried out: for every act its key (session, prompt, act, target, task), when its grant was written and when it was
  consumed. The files change by the hooks and the commands only.
\<close>

type_synonym act_key = "string \<times> string \<times> string \<times> string \<times> string"

definition grant_key :: "grant \<Rightarrow> act_key" where
  "grant_key g = (grSession g, grPromptID g, grAct g, grTarget g, grTask g)"

record person_sys =
  psFS :: grants_fs
  psTime :: int
  psTaken :: "(act_key \<times> int \<times> int) list"

definition taken_now :: "grant_env \<Rightarrow> personCall \<Rightarrow> grants_fs \<Rightarrow> (act_key \<times> int \<times> int) list" where
  "taken_now e c fs = (case (fst (ConsumeGrant e c fs), gfGrants fs (sanitizeKey (kArgvSHA256 c))) of
      (Some _, Some (Parsed g, w)) \<Rightarrow> [(grant_key g, w, aNow e)] | _ \<Rightarrow> [])"

inductive person_reach :: "(string \<Rightarrow> string) \<Rightarrow> (string \<Rightarrow> string) \<Rightarrow> person_sys \<Rightarrow> bool" for sha js where
  start: "gfPrompts fs = (\<lambda>_. []) \<Longrightarrow> gfGrants fs = Map.empty \<Longrightarrow> gfIssued fs = Map.empty \<Longrightarrow>
    person_reach sha js \<lparr>psFS = fs, psTime = t, psTaken = []\<rparr>"
| prompt: "person_reach sha js s \<Longrightarrow> psTime s \<le> aNow e \<Longrightarrow> aText e = js \<Longrightarrow> RecordPrompt e h (psFS s) = (er, fs') \<Longrightarrow>
    person_reach sha js (s\<lparr>psFS := fs', psTime := aNow e\<rparr>)"
| tool: "person_reach sha js s \<Longrightarrow> psTime s \<le> aNow e \<Longrightarrow> aSha e = sha \<Longrightarrow> PersonActGate e h calls (psFS s) = (d, fs') \<Longrightarrow>
    person_reach sha js (s\<lparr>psFS := fs', psTime := aNow e\<rparr>)"
| take: "person_reach sha js s \<Longrightarrow> psTime s \<le> aNow e \<Longrightarrow> ConsumeGrant e c (psFS s) = (a, fs') \<Longrightarrow>
    person_reach sha js (s\<lparr>psFS := fs', psTime := aNow e, psTaken := psTaken s @ taken_now e c (psFS s)\<rparr>)"

text \<open>\<open>takePersonAct\<close> changes the files as \<open>ConsumeGrant\<close> does, or not at all.\<close>

lemma takePersonAct_files: "snd (takePersonAct e c fs) = fs \<or> snd (takePersonAct e c fs) = snd (ConsumeGrant e c fs)"
  by (auto simp: takePersonAct_def split: prod.splits option.splits)

section \<open>Recorded prompts\<close>

lemma gate_files:
  assumes "PersonActGate e h calls fs = (d, fs')"
  shows "fs' = fs \<or> (\<exists>c rec q. snd (write_grant e h rec q c fs) = fs' \<and> gfIssued fs (issuedPath e (hpSession h) (prID rec) c) = None)"
proof -
  have g: "snd (grantVerdict e h c fs) = fs \<or> (\<exists>rec q. snd (write_grant e h rec q c fs) = snd (grantVerdict e h c fs)
      \<and> gfIssued fs (issuedPath e (hpSession h) (prID rec) c) = None)" for c
    unfolding grantVerdict_def by (auto split: sum.splits option.splits prod.splits if_splits)
  have "fs' = fs \<or> (\<exists>c. grantVerdict e h c fs = (d, fs'))"
    using assms by (auto simp: PersonActGate_def split: list.splits if_splits option.splits)
  then show ?thesis using g by (metis snd_conv)
qed

definition typed_ok :: "(string \<Rightarrow> string) \<Rightarrow> promptRecord \<Rightarrow> bool" where
  "typed_ok js r \<longleftrightarrow> (\<exists>p. prPrompt r = js (take promptMax p) \<and> prKind r = promptKindOf p)"

lemma gate_prompts: "PersonActGate e h calls fs = (d, fs') \<Longrightarrow> gfPrompts fs' = gfPrompts fs"
  by (drule gate_files) (auto simp: write_grant_def pruneGrants_def Let_def split: option.splits)

lemma consume_prompts: "ConsumeGrant e c fs = (a, fs') \<Longrightarrow> gfPrompts fs' = gfPrompts fs \<and> gfIssued fs' = gfIssued fs"
  by (auto simp: ConsumeGrant_def Let_def split: option.splits if_splits prod.splits)

lemma reach_prompts: "person_reach sha js s \<Longrightarrow> Parsed r \<in> set (gfPrompts (psFS s) k) \<Longrightarrow> typed_ok js r"
proof (induction arbitrary: k rule: person_reach.induct)
  case (prompt s e h er fs')
  have "typed_ok js (prompt_record e h)" using prompt.hyps(3) by (auto simp: prompt_record_def typed_ok_def)
  then show ?case using prompt by (auto simp: RecordPrompt_def split: if_splits option.splits)
next
  case (tool s e h calls d fs')
  then show ?case using gate_prompts by fastforce
next
  case (take s e c a fs')
  then show ?case using consume_prompts by fastforce
qed simp

lemma reach_typed:
  assumes "person_reach sha js s" and "r \<in> set (promptRecords (psFS s) sid)" and "\<not> rec_notification r"
  shows "\<exists>p. prPrompt r = js (take promptMax p) \<and> promptKindOf p = promptTyped"
proof -
  have "Parsed r \<in> set (gfPrompts (psFS s) (promptLogPath sid))"
    using assms(2) by (auto simp: promptRecords_def map_filter_def split: on_disk.splits if_splits)
  then obtain p where p: "prPrompt r = js (take promptMax p)" "prKind r = promptKindOf p" using reach_prompts[OF assms(1)] by (auto simp: typed_ok_def)
  then have "promptKindOf p = promptTyped" using assms(3) by (auto simp: rec_notification_def promptKindOf_def Let_def split: if_splits)
  then show ?thesis using p(1) by blast
qed

text \<open>C10: in a model session an act that rests on a grant or on a run's lock is carried out only on a person's own words. In every state the hooks and
  commands reach, when the check of a command's body lets an act pass with the context that \<open>takePersonAct\<close> gave it for a grant it consumed, or with the one
  \<open>LockPersonAct\<close> read from the lock of the run it belongs to, then the session is none that ape started and its log holds a
  prompt recorded as typed, never a notification or a delivery, whose text asks for this act and its target: its words in order, no negation before them in
  their sentence, the sentence no question; and the session's transcript holds a message of that prompt, marked as a human's, with that sentence.
  The third source of such a context, an act \<open>ape conductor act\<close> carries out under a person's standing orders (\<open>conductor.go\<close>), is not among these.\<close>

theorem model_session_act_attested:
  assumes "person_reach sha js s" and "ModelSession e \<noteq> []"
    and "fst (takePersonAct e c (psFS s)) = Inr ctx \<or> LockPersonAct e l c (psFS s) = ctx"
    and "requirePerson e ctx act = None"
  shows "\<not> aApeSession e \<and> act = kAct c \<and> (\<exists>rec p raw m. rec \<in> set (promptRecords (psFS s) (aSessionID e))
     \<and> prPrompt rec = js (take promptMax p) \<and> promptKindOf p = promptTyped \<and> asks (aUC e) (aLower e) (prPrompt rec) c raw
     \<and> m \<in> set (scanTranscript (aTranscripts e) (prTranscript rec) [prID rec]) \<and> tpPromptID m = prID rec \<and> tpOrigin m = originHuman
     \<and> holdsClause (aLower e) (tpText m) (aLower e (normSpace raw)))"
proof -
  have a: "\<not> aApeSession e" "act = kAct c" "attested e c (psFS s)" using act_attested[OF assms(2-4)] by blast+
  then show ?thesis using reach_typed[OF assms(1)] unfolding attested_def by metis
qed

section \<open>Once\<close>

definition marker :: "(string \<Rightarrow> string) \<Rightarrow> act_key \<Rightarrow> string" where
  "marker sha = (\<lambda>(sid, pid, act, target, task). ArgvSHA256 sha [sid, pid, act @ [CHR 0x00] @ target @ [CHR 0x00] @ task])"

text \<open>A grant that was written still has its marker, and no other grant has its key.\<close>

definition grants_ok :: "(string \<Rightarrow> string) \<Rightarrow> int \<Rightarrow> grants_fs \<Rightarrow> bool" where
  "grants_ok sha t fs \<longleftrightarrow>
     (\<forall>k g w. gfGrants fs k = Some (Parsed g, w) \<longrightarrow> w \<le> t \<and> grExpires g = Some (w + GrantTTL) \<and> gfIssued fs (marker sha (grant_key g)) = Some w)
   \<and> (\<forall>k k' g g' w w'. gfGrants fs k = Some (Parsed g, w) \<longrightarrow> gfGrants fs k' = Some (Parsed g', w') \<longrightarrow> grant_key g = grant_key g' \<longrightarrow> k = k')"

text \<open>What is left of an act that was carried out: its marker, or nothing after a day, or the marker of a grant written more than a day later.\<close>

definition spent :: "(string \<Rightarrow> string) \<Rightarrow> int \<Rightarrow> grants_fs \<Rightarrow> act_key \<times> int \<times> int \<Rightarrow> bool" where
  "spent sha now0 fs = (\<lambda>(k, w, t). w \<le> t \<and> t < w + GrantTTL \<and>
     (case gfIssued fs (marker sha k) of
        None \<Rightarrow> w + day < now0
      | Some w' \<Rightarrow> w + day < w' \<or> w' = w \<and> (\<forall>p g v. gfGrants fs p = Some (Parsed g, v) \<longrightarrow> grant_key g \<noteq> k)))"

definition apart :: "act_key \<times> int \<times> int \<Rightarrow> act_key \<times> int \<times> int \<Rightarrow> bool" where
  "apart = (\<lambda>(k, w, t) (k', w', t'). k = k' \<longrightarrow> w + day < w')"

definition person_inv :: "(string \<Rightarrow> string) \<Rightarrow> person_sys \<Rightarrow> bool" where
  "person_inv sha s \<longleftrightarrow> grants_ok sha (psTime s) (psFS s) \<and> (\<forall>x\<in>set (psTaken s). spent sha (psTime s) (psFS s) x) \<and> sorted_wrt apart (psTaken s)"

lemma inv_fewer:
  assumes "person_inv sha s" and "psTime s \<le> t" and "gfGrants fs \<subseteq>\<^sub>m gfGrants (psFS s)" and "gfIssued fs = gfIssued (psFS s)"
  shows "person_inv sha (s\<lparr>psFS := fs, psTime := t\<rparr>)"
proof -
  have sub: "gfGrants (psFS s) k = Some x" if "gfGrants fs k = Some x" for k x using assms(3) that by (metis map_le_def domI)
  have "grants_ok sha t fs"
    using assms(1,2) sub unfolding person_inv_def grants_ok_def assms(4) by (meson order_trans)
  moreover have "spent sha t fs x" if "spent sha (psTime s) (psFS s) x" for x
  proof (cases x rule: prod_cases3)
    case (fields k w u)
    have keys: "\<forall>p g v. gfGrants fs p = Some (Parsed g, v) \<longrightarrow> grant_key g \<noteq> k"
      if "\<forall>p g v. gfGrants (psFS s) p = Some (Parsed g, v) \<longrightarrow> grant_key g \<noteq> k" using that sub by blast
    then show ?thesis using that assms(2) fields by (auto simp: spent_def assms(4) split: option.splits)
  qed
  ultimately show ?thesis using assms(1) by (simp add: person_inv_def)
qed

lemma inv_prune:
  assumes "person_inv sha s" and "psTime s \<le> t"
  shows "person_inv sha (s\<lparr>psFS := pruneGrants t (psFS s), psTime := t\<rparr>)"
proof -
  let ?fs = "pruneGrants t (psFS s)"
  have g: "gfGrants ?fs k = Some (x, w) \<longleftrightarrow> gfGrants (psFS s) k = Some (x, w) \<and> t - day \<le> w" for k x w
    by (auto simp: pruneGrants_def prune_def split: option.splits)
  have i: "gfIssued ?fs k = Some w \<longleftrightarrow> gfIssued (psFS s) k = Some w \<and> t - day \<le> w" for k w
    by (auto simp: pruneGrants_def split: option.splits)
  have ok: "grants_ok sha (psTime s) (psFS s)" using assms(1) by (simp add: person_inv_def)
  have "grants_ok sha t ?fs" using ok assms(2) unfolding grants_ok_def g i by (meson order_trans)
  moreover have "spent sha t ?fs x" if x: "spent sha (psTime s) (psFS s) x" for x
  proof (cases x rule: prod_cases3)
    case (fields k w u)
    show ?thesis
    proof (cases "gfIssued ?fs (marker sha k)")
      case None
      have "v < t - day" if "gfIssued (psFS s) (marker sha k) = Some v" for v using None i[of "marker sha k" v] that by auto
      moreover have "0 < day" by (simp add: day_def)
      ultimately have "w + day < t"
        using x fields assms(2) by (cases "gfIssued (psFS s) (marker sha k)") (fastforce simp: spent_def)+
      then show ?thesis using None x fields by (simp add: spent_def)
    next
      case (Some v)
      then have "gfIssued (psFS s) (marker sha k) = Some v" using i by blast
      then show ?thesis using x fields Some g by (simp add: spent_def) blast
    qed
  qed
  ultimately show ?thesis using assms(1) by (simp add: person_inv_def)
qed

lemma inv_mark:
  assumes "person_inv sha s" and "gfIssued (psFS s) p = None"
  shows "person_inv sha (s\<lparr>psFS := psFS s\<lparr>gfIssued := (gfIssued (psFS s))(p \<mapsto> psTime s)\<rparr>\<rparr>)"
proof -
  have "grants_ok sha (psTime s) (psFS s)" using assms(1) by (simp add: person_inv_def)
  then have "grants_ok sha (psTime s) (psFS s\<lparr>gfIssued := (gfIssued (psFS s))(p \<mapsto> psTime s)\<rparr>)"
    using assms(2) by (fastforce simp: grants_ok_def)
  moreover have "spent sha (psTime s) (psFS s\<lparr>gfIssued := (gfIssued (psFS s))(p \<mapsto> psTime s)\<rparr>) x" if "spent sha (psTime s) (psFS s) x" for x
    using that assms(2) by (cases x rule: prod_cases3, cases "gfIssued (psFS s) (marker sha (fst x))") (auto simp: spent_def)
  ultimately show ?thesis using assms(1) by (simp add: person_inv_def)
qed

lemma inv_grant:
  assumes "person_inv sha s" and "gfIssued (psFS s) (marker sha (grant_key g)) = None" and "grExpires g = Some (psTime s + GrantTTL)"
  shows "person_inv sha (s\<lparr>psFS := psFS s\<lparr>gfIssued := (gfIssued (psFS s))(marker sha (grant_key g) \<mapsto> psTime s),
    gfGrants := (gfGrants (psFS s))(p \<mapsto> (Parsed g, psTime s))\<rparr>\<rparr>)"
proof -
  let ?m = "marker sha (grant_key g)"
  let ?fs = "psFS s\<lparr>gfIssued := (gfIssued (psFS s))(?m \<mapsto> psTime s), gfGrants := (gfGrants (psFS s))(p \<mapsto> (Parsed g, psTime s))\<rparr>"
  have ok: "grants_ok sha (psTime s) (psFS s)" using assms(1) by (simp add: person_inv_def)
  have none: "marker sha (grant_key g') \<noteq> ?m" if "gfGrants (psFS s) k = Some (Parsed g', w)" for k g' w
    using ok assms(2) that by (metis grants_ok_def option.distinct(1))
  have files: "gfGrants ?fs k = Some (Parsed g', w) \<longleftrightarrow> (if k = p then g' = g \<and> w = psTime s else gfGrants (psFS s) k = Some (Parsed g', w))" for k g' w
    by auto
  have "grants_ok sha (psTime s) ?fs"
    unfolding grants_ok_def files
  proof (intro conjI allI impI)
    fix k g' w assume k: "if k = p then g' = g \<and> w = psTime s else gfGrants (psFS s) k = Some (Parsed g', w)"
    have "w \<le> psTime s \<and> grExpires g' = Some (w + GrantTTL) \<and> gfIssued ?fs (marker sha (grant_key g')) = Some w"
    proof (cases "k = p")
      case True
      then show ?thesis using k assms(3) by simp
    next
      case False
      then have "gfGrants (psFS s) k = Some (Parsed g', w)" using k by simp
      then show ?thesis using ok none unfolding grants_ok_def by simp
    qed
    then show "w \<le> psTime s" "grExpires g' = Some (w + GrantTTL)" "gfIssued ?fs (marker sha (grant_key g')) = Some w" by blast+
  next
    fix k k' g1 g2 w1 w2
    assume "if k = p then g1 = g \<and> w1 = psTime s else gfGrants (psFS s) k = Some (Parsed g1, w1)"
      "if k' = p then g2 = g \<and> w2 = psTime s else gfGrants (psFS s) k' = Some (Parsed g2, w2)" "grant_key g1 = grant_key g2"
    then show "k = k'" using none[of k g1 w1] none[of k' g2 w2] ok unfolding grants_ok_def by (metis (full_types))
  qed
  moreover have "spent sha (psTime s) ?fs x" if x: "spent sha (psTime s) (psFS s) x" for x
  proof (cases x rule: prod_cases3)
    case (fields k w u)
    have new: "marker sha k \<noteq> ?m \<Longrightarrow> k \<noteq> grant_key g" by auto
    show ?thesis
    proof (cases "gfIssued (psFS s) (marker sha k)")
      case None
      then show ?thesis using x fields by (simp add: spent_def)
    next
      case (Some v)
      then have ne: "marker sha k \<noteq> ?m" using assms(2) by auto
      then have "\<forall>p' g' v. gfGrants ?fs p' = Some (Parsed g', v) \<longrightarrow> grant_key g' \<noteq> k"
        if "\<forall>p' g' v. gfGrants (psFS s) p' = Some (Parsed g', v) \<longrightarrow> grant_key g' \<noteq> k" using that new by (auto split: if_splits)
      then show ?thesis using Some ne x fields by (simp add: spent_def) blast
    qed
  qed
  ultimately show ?thesis using assms(1) by (simp add: person_inv_def)
qed

lemma key_of_new: "marker (aSha e) (grant_key (new_grant e h rec q c)) = issuedPath e (hpSession h) (prID rec) c"
  by (simp add: marker_def grant_key_def new_grant_def issuedPath_def targetKey_def)

lemma inv_write:
  assumes "person_inv (aSha e) s" and "psTime s \<le> aNow e" and "gfIssued (psFS s) (issuedPath e (hpSession h) (prID rec) c) = None"
  shows "person_inv (aSha e) (s\<lparr>psFS := snd (write_grant e h rec q c (psFS s)), psTime := aNow e\<rparr>)"
proof -
  let ?s = "s\<lparr>psFS := pruneGrants (aNow e) (psFS s), psTime := aNow e\<rparr>"
  let ?g = "new_grant e h rec q c" and ?p = "issuedPath e (hpSession h) (prID rec) c"
  have pr: "person_inv (aSha e) ?s" by (rule inv_prune[OF assms(1,2)])
  have none: "gfIssued (psFS ?s) ?p = None" using assms(3) by (simp add: pruneGrants_def)
  have same: "person_inv (aSha e) (s\<lparr>psFS := psFS s, psTime := aNow e\<rparr>)" by (rule inv_fewer[OF assms(1,2)]) simp_all
  have ex: "grExpires ?g = Some (psTime ?s + GrantTTL)" by (simp add: new_grant_def)
  show ?thesis
    using same pr inv_mark[OF pr none] inv_grant[OF pr _ ex, unfolded key_of_new, OF none]
    by (auto simp: write_grant_def Let_def person_inv_def split: option.splits)
qed

lemma inv_take:
  assumes inv: "person_inv sha s" and t: "psTime s \<le> aNow e" and c: "ConsumeGrant e c (psFS s) = (a, fs')"
  shows "person_inv sha (s\<lparr>psFS := fs', psTime := aNow e, psTaken := psTaken s @ taken_now e c (psFS s)\<rparr>)"
proof -
  have "gfGrants fs' = gfGrants (psFS s) \<or> gfGrants fs' = (gfGrants (psFS s))(sanitizeKey (kArgvSHA256 c) := None)"
    using c by (auto simp: ConsumeGrant_def Let_def split: option.splits if_splits prod.splits)
  then have "gfGrants fs' \<subseteq>\<^sub>m gfGrants (psFS s)" by (metis map_le_refl upd_None_map_le)
  then have less: "person_inv sha (s\<lparr>psFS := fs', psTime := aNow e\<rparr>)" using inv_fewer[OF inv t] consume_prompts[OF c] by blast
  show ?thesis
  proof (cases a)
    case None
    then show ?thesis using less c by (simp add: taken_now_def)
  next
    case (Some act)
    let ?k = "sanitizeKey (kArgvSHA256 c)"
    obtain g w where g: "gfGrants (psFS s) ?k = Some (Parsed g, w)" "grant_live (aNow e) g" "gfIssued fs' = gfIssued (psFS s)"
      "gfGrants fs' = (gfGrants (psFS s))(?k := None)"
      using ConsumeGrant_Some[of e c "psFS s" act fs'] c Some by metis
    have ok: "grants_ok sha (psTime s) (psFS s)" using inv by (simp add: person_inv_def)
    have w: "w \<le> psTime s" "aNow e < w + GrantTTL" and mk: "gfIssued (psFS s) (marker sha (grant_key g)) = Some w"
      using ok g(1,2) by (auto simp: grants_ok_def grant_live_def)
    have "\<forall>p g' v. gfGrants fs' p = Some (Parsed g', v) \<longrightarrow> grant_key g' \<noteq> grant_key g"
      using ok g(1) unfolding g(4) grants_ok_def by (auto split: if_splits)
    then have new: "spent sha (aNow e) fs' (grant_key g, w, aNow e)" using w t mk g(3) by (simp add: spent_def)
    have "apart x (grant_key g, w, aNow e)" if "x \<in> set (psTaken s)" for x
    proof (cases x rule: prod_cases3)
      case (fields k w0 u)
      have "spent sha (psTime s) (psFS s) x" using inv that by (simp add: person_inv_def)
      moreover have "\<not> (\<forall>p g' v. gfGrants (psFS s) p = Some (Parsed g', v) \<longrightarrow> grant_key g' \<noteq> grant_key g)" using g(1) by blast
      ultimately show ?thesis using fields mk by (cases "k = grant_key g") (simp_all add: spent_def apart_def, blast)
    qed
    moreover have "taken_now e c (psFS s) = [(grant_key g, w, aNow e)]" using c Some g(1) by (simp add: taken_now_def)
    ultimately show ?thesis using less new by (simp add: person_inv_def sorted_wrt_append)
  qed
qed

lemma reach_inv: "person_reach sha js s \<Longrightarrow> person_inv sha s"
proof (induction rule: person_reach.induct)
  case (start fs t)
  then show ?case by (simp add: person_inv_def grants_ok_def)
next
  case (prompt s e h er fs')
  then show ?case by (intro inv_fewer) (auto simp: RecordPrompt_def split: if_splits option.splits)
next
  case (tool s e h calls d fs')
  have "person_inv sha (s\<lparr>psFS := psFS s, psTime := aNow e\<rparr>)" using tool by (intro inv_fewer) simp_all
  then show ?case using gate_files[OF tool.hyps(4)] inv_write tool.IH tool.hyps(2,3) by fastforce
next
  case (take s e c a fs')
  then show ?case using inv_take by blast
qed

text \<open>C12: one prompt carries out an act on a target once: two acts that rest on the same words of the same prompt are more than a day less the life
  of a grant apart, whatever hooks and commands run between them and whichever command lines ask. (The markers of used words are cleared after a day, so that
  the bound is met by a turn that outlasts it.)\<close>

theorem prompt_grants_once:
  assumes "person_reach sha js s" and "i < j" and "j < length (psTaken s)"
    and "psTaken s ! i = (k, w, t)" and "psTaken s ! j = (k, w', t')"
  shows "t + (day - GrantTTL) < t'"
proof -
  have inv: "person_inv sha s" by (rule reach_inv[OF assms(1)])
  then have "apart (k, w, t) (k, w', t')" using assms(2-5) sorted_wrt_nth_less[of apart "psTaken s" i j] by (simp add: person_inv_def)
  moreover have "spent sha (psTime s) (psFS s) (k, w, t)" "spent sha (psTime s) (psFS s) (k, w', t')"
    using inv assms(2-5) nth_mem[of i "psTaken s"] nth_mem[of j "psTaken s"] by (simp_all add: person_inv_def)
  ultimately show ?thesis by (auto simp: apart_def spent_def)
qed

end
