(* ===== verification/PersonPhrase.thy ===== *)
theory PersonPhrase
  imports PersonActFacts RoadmapFacts
begin

text \<open>
  The phrase a denial names grants the act: a person who types it, in a session whose transcript shows it, has the model's next call of
  the command allowed, and the command carries the act out.
\<close>

section \<open>Plain words\<close>

text \<open>The characters of ids: a letter, a digit, a hyphen or an underscore.\<close>

definition id_char :: "char \<Rightarrow> bool" where
  "id_char c \<longleftrightarrow> is_lower c \<or> is_upper c \<or> is_digit c \<or> c = CHR ''-'' \<or> c = CHR ''_''"

definition plain_word :: "string \<Rightarrow> bool" where
  "plain_word w \<longleftrightarrow> w \<noteq> [] \<and> list_all id_char w"

text \<open>What the code relies on of \<open>unicode\<close> and \<open>strings.ToLower\<close>: their behaviour on ASCII.\<close>

definition ascii_tables :: "unicode_lib \<Rightarrow> (string \<Rightarrow> string) \<Rightarrow> bool" where
  "ascii_tables uc low \<longleftrightarrow>
     (\<forall>c. of_char c < (128 :: nat) \<longrightarrow> ucLetter uc (of_char c) = (is_lower c \<or> is_upper c) \<and> ucDigit uc (of_char c) = is_digit c)
   \<and> (\<forall>s. list_all (\<lambda>c. of_char c < (128 :: nat)) s \<longrightarrow> low s = to_lower_ascii s)"

lemma id_char_ascii: "id_char c \<Longrightarrow> of_char c < (128 :: nat)"
  by (auto simp: id_char_def is_lower_def is_upper_def is_digit_def)

lemma lower_id: "id_char c \<Longrightarrow> id_char (lower_char c)"
proof -
  assume c: "id_char c"
  show ?thesis
  proof (cases "is_upper c")
    case True
    then show ?thesis by (auto simp: lower_char_def id_char_def is_lower_def is_upper_def of_char_of)
  next
    case False
    then show ?thesis using c by (simp add: lower_char_def)
  qed
qed

lemma plain_lower: "plain_word w \<Longrightarrow> plain_word (to_lower_ascii w)"
  by (auto simp: plain_word_def to_lower_ascii_def list_all_iff lower_id)

lemma front_ascii: "of_char c < (128 :: nat) \<Longrightarrow> front_rune (c # s) = (of_char c, 1)"
  by (simp add: front_rune_def decode_rune_def)

lemma id_wordRune: "ascii_tables uc low \<Longrightarrow> id_char c \<Longrightarrow> wordRune uc (of_char c)"
  using id_char_ascii[of c] by (auto simp: ascii_tables_def id_char_def wordRune_def)

section \<open>Tokens\<close>

text \<open>What follows a word: nothing, or an ASCII character that ends it.\<close>

definition word_stop :: "unicode_lib \<Rightarrow> string \<Rightarrow> bool" where
  "word_stop uc rest \<longleftrightarrow> rest = [] \<or> (of_char (hd rest) < (128 :: nat) \<and> \<not> wordRune uc (of_char (hd rest)))"

lemma word_len_stop: "word_stop uc rest \<Longrightarrow> word_len uc rest = 0"
  by (cases rest) (auto simp: word_stop_def word_len.simps front_ascii)

lemma word_len_word:
  assumes "ascii_tables uc low" and "list_all id_char w" and "word_stop uc rest"
  shows "word_len uc (w @ rest) = length w"
  using assms(2)
proof (induction w)
  case Nil
  then show ?case using word_len_stop[OF assms(3)] by simp
next
  case (Cons c w)
  then have "front_rune (c # w @ rest) = (of_char c, 1)" "wordRune uc (of_char c)"
    using front_ascii id_char_ascii id_wordRune[OF assms(1)] by auto
  then show ?case using Cons by (simp add: word_len.simps[of uc "c # w @ rest"])
qed

lemma ReplaceAll_absent: "old \<noteq> [] \<Longrightarrow> hd old \<notin> set s \<Longrightarrow> ReplaceAll s old new = s"
  by (induction s) (auto simp: HasPrefix_iff neq_Nil_conv)

lemma strip_word: "s \<noteq> [] \<Longrightarrow> (\<forall>u\<in>set us. u \<noteq> [] \<and> hd u \<noteq> hd s) \<Longrightarrow> strip us s = s"
proof -
  assume a: "s \<noteq> []" "\<forall>u\<in>set us. u \<noteq> [] \<and> hd u \<noteq> hd s"
  have "lead_len us s = 0" unfolding lead_len_0_iff
  proof (intro ballI disjI2 notI)
    fix u assume u: "u \<in> set us" "HasPrefix s u"
    then obtain r where "s = u @ r" by (auto simp: HasPrefix_iff)
    moreover have "u \<noteq> []" "hd u \<noteq> hd s" using a(2) u(1) by blast+
    ultimately show False by simp
  qed
  then show ?thesis by (subst strip.simps) simp
qed

lemma tokenWord_plain:
  assumes "ascii_tables uc low" and "plain_word w"
  shows "tokenWord low w = to_lower_ascii w"
proof -
  have ids: "id_char (hd w)" "id_char (last w)" "w \<noteq> []" using assms(2) by (auto simp: plain_word_def list_all_iff)
  have no: "\<not> id_char (CHR 0x27)" "\<not> id_char (CHR 0xE2)" "\<not> id_char (CHR 0x99)" "\<not> id_char (CHR 0x98)"
    by (simp_all add: id_char_def is_lower_def is_upper_def is_digit_def)
  have "strip apostrophes w = w" using ids no by (intro strip_word) (auto simp: apostrophes_def)
  moreover have "strip (map rev apostrophes) (rev w) = rev w" using ids no by (intro strip_word) (auto simp: apostrophes_def hd_rev)
  moreover have "CHR 0xE2 \<notin> set w" using assms(2) no by (auto simp: plain_word_def list_all_iff)
  moreover have "low w = to_lower_ascii w" using assms id_char_ascii by (auto simp: ascii_tables_def plain_word_def list_all_iff)
  ultimately show ?thesis by (simp add: tokenWord_def Let_def ReplaceAll_absent apostrophes_def)
qed

fun word_tokens :: "nat \<Rightarrow> string list \<Rightarrow> ptoken list" where
  "word_tokens i [] = []"
| "word_tokens i (w # ws) = \<lparr>tkS = to_lower_ascii w, tkStart = i, tkEnd = i + length w\<rparr> # word_tokens (i + length w + 1) ws"

lemma prompt_tokens_word:
  assumes "ascii_tables uc low" and "plain_word w" and "word_stop uc rest"
  shows "prompt_tokens uc low i (w @ rest) = \<lparr>tkS = to_lower_ascii w, tkStart = i, tkEnd = i + length w\<rparr> # prompt_tokens uc low (i + length w) rest"
  using word_len_word[OF assms(1) _ assms(3)] assms(2) tokenWord_plain[OF assms(1,2)]
  by (subst prompt_tokens.simps) (simp add: plain_word_def Let_def)

lemma ascii_stop:
  assumes "ascii_tables uc low" and "c = CHR '' '' \<or> c = CHR '':''"
  shows "word_stop uc (c # s)"
proof -
  have "of_char c < (128 :: nat) \<longrightarrow> ucLetter uc (of_char c) = (is_lower c \<or> is_upper c) \<and> ucDigit uc (of_char c) = is_digit c"
    using assms(1) by (simp add: ascii_tables_def)
  then show ?thesis using assms(2) by (auto simp: word_stop_def wordRune_def is_lower_def is_upper_def is_digit_def)
qed

lemma space_stop: "ascii_tables uc low \<Longrightarrow> word_stop uc (CHR '' '' # s)"
  by (rule ascii_stop) simp_all

lemma prompt_tokens_skip: "word_stop uc (c # s) \<Longrightarrow> prompt_tokens uc low i (c # s) = prompt_tokens uc low (i + 1) s"
  using word_len_stop[of uc "c # s"] by (subst prompt_tokens.simps) (simp add: word_stop_def front_ascii Let_def)

lemma prompt_tokens_words:
  assumes "ascii_tables uc low" and "ws \<noteq> []" and "list_all plain_word ws" and "word_stop uc rest"
  shows "prompt_tokens uc low i (Join ws '' '' @ rest) = word_tokens i ws @ prompt_tokens uc low (i + length (Join ws '' '')) rest"
  using assms(2,3)
proof (induction ws arbitrary: i)
  case (Cons w ws)
  show ?case
  proof (cases "ws = []")
    case True
    then show ?thesis using Cons.prems prompt_tokens_word[OF assms(1) _ assms(4)] by simp
  next
    case False
    then have "prompt_tokens uc low i (Join (w # ws) '' '' @ rest)
        = \<lparr>tkS = to_lower_ascii w, tkStart = i, tkEnd = i + length w\<rparr> # prompt_tokens uc low (i + length w + 1) (Join ws '' '' @ rest)"
      using Cons.prems prompt_tokens_word[OF assms(1) _ space_stop[OF assms(1)]] prompt_tokens_skip[OF space_stop[OF assms(1)]]
      by (simp add: Join_Cons)
    then show ?thesis using Cons False by (simp add: Join_Cons add.assoc)
  qed
qed simp

lemma token_ends: "t \<in> set (prompt_tokens uc low i s) \<Longrightarrow> i < tkEnd t"
proof (induction uc low i s rule: prompt_tokens.induct)
  case (1 uc low i s)
  show ?case
  proof (cases "s = []")
    case True
    then show ?thesis using "1.prems" by (simp add: prompt_tokens.simps)
  next
    case False
    then show ?thesis using "1.IH" "1.prems" by (subst (asm) (3) prompt_tokens.simps) (fastforce simp: Let_def split: if_splits)
  qed
qed

lemma word_tokens_facts:
  "map tkS (word_tokens i ws) = map to_lower_ascii ws" "length (word_tokens i ws) = length ws"
  "ws \<noteq> [] \<Longrightarrow> tkStart (hd (word_tokens i ws)) = i" "ws \<noteq> [] \<Longrightarrow> tkEnd (last (word_tokens i ws)) = i + length (Join ws '' '')"
proof -
  show "map tkS (word_tokens i ws) = map to_lower_ascii ws" "length (word_tokens i ws) = length ws" by (induction ws arbitrary: i) simp_all
  show "ws \<noteq> [] \<Longrightarrow> tkStart (hd (word_tokens i ws)) = i" by (cases ws) simp_all
  show "ws \<noteq> [] \<Longrightarrow> tkEnd (last (word_tokens i ws)) = i + length (Join ws '' '')"
  proof (induction ws arbitrary: i)
    case (Cons w ws)
    show ?case
    proof (cases "ws = []")
      case False
      then have "word_tokens (i + length w + 1) ws \<noteq> []" by (cases ws) simp_all
      then show ?thesis using Cons.IH[OF False, of "i + length w + 1"] False by (simp add: Join_Cons)
    qed simp
  qed simp
qed

section \<open>The phrase is matched\<close>

lemma id_not_space: "id_char c \<Longrightarrow> c \<notin> hd ` set space_runes \<and> c \<notin> last ` set space_runes"
  by (auto simp: space_runes_def id_char_def is_lower_def is_upper_def is_digit_def)

lemma fields_from_word: "list_all id_char w \<Longrightarrow> fields_from acc (w @ rest) = fields_from (rev w @ acc) rest"
proof (induction w arbitrary: acc)
  case (Cons c w)
  have "lead_len space_runes (c # w @ rest) = 0" unfolding lead_len_0_iff
  proof (intro ballI disjCI notI)
    fix u assume u: "u \<in> set space_runes" "\<not> \<not> HasPrefix (c # w @ rest) u"
    show "u = []"
    proof (rule ccontr)
      assume "u \<noteq> []"
      then have "hd u = c" using u(2) by (auto simp: HasPrefix_iff Cons_eq_append_conv)
      then show False using id_not_space[of c] Cons.prems u(1) by auto
    qed
  qed
  then show ?case using Cons by (subst fields_from.simps) simp
qed simp

lemma fields_from_space: "fields_from acc (CHR '' '' # s) = (if acc = [] then [] else [rev acc]) @ fields_from [] s"
  by (subst fields_from.simps) (simp add: space_runes_def)

lemma Fields_words: "list_all plain_word ws \<Longrightarrow> Fields (Join ws '' '') = ws"
proof (induction ws)
  case Nil
  then show ?case by (simp add: Fields_def fields_from.simps)
next
  case (Cons w ws)
  then have w: "list_all id_char w" "w \<noteq> []" by (simp_all add: plain_word_def)
  show ?case
  proof (cases "ws = []")
    case True
    then show ?thesis using fields_from_word[OF w(1), of "[]" "[]"] w(2) by (simp add: Fields_def fields_from.simps)
  next
    case False
    then show ?thesis using Cons fields_from_word[OF w(1), of "[]" "'' '' @ Join ws '' ''"] w(2) by (simp add: Fields_def Join_Cons fields_from_space)
  qed
qed

lemma lower_Join: "to_lower_ascii (Join ws '' '') = Join (map to_lower_ascii ws) '' ''"
proof (induction ws)
  case (Cons w ws)
  then show ?case by (cases ws) (simp_all add: to_lower_ascii_def lower_char_def is_upper_def)
qed (simp add: to_lower_ascii_def)

lemma words_ascii: "list_all plain_word ws \<Longrightarrow> list_all (\<lambda>c. of_char c < (128 :: nat)) (Join ws '' '')"
proof (induction ws)
  case (Cons w ws)
  then show ?case by (cases ws) (auto simp: plain_word_def list_all_iff id_char_ascii)
qed simp

lemma Contains_append: "Contains (a @ b @ c) b"
proof (induction a)
  case Nil
  have "HasPrefix (b @ c) b" by simp
  then show ?case by (cases "b @ c") (auto simp: Contains_def)
next
  case (Cons x a)
  then show ?case by (auto simp: Contains_def)
qed

text \<open>The words of a call's phrase, and the shape of a call that can be asked for.\<close>

definition phrase_words :: "personCall \<Rightarrow> string list" where
  "phrase_words c =
     (if kAct c = ActMilestoneApprove \<or> kAct c = ActTweakApprove then [''approve'', kTarget c]
      else if answerLike c then [''answer'', kTarget c]
      else if kAct c = ActAcceptTask then [''accept'', kTask c, ''of'', kTarget c]
      else if kAct c = ActAcceptConfig then [''accept'', ''the'', ''config'']
      else if kAct c = ActAcceptRed then [''accept'', ''red'', ''on'', kTarget c]
      else if kAct c = ActAllowPendingHuman then [''allow'', ''pending'', ''human'', ''on'', kTarget c]
      else [''accept'', kTarget c])"

definition plain_call :: "personCall \<Rightarrow> bool" where
  "plain_call c \<longleftrightarrow> kAct c \<in> set (map fst PersonActs) \<and> plain_word (kTarget c) \<and> (kAct c = ActAcceptTask \<longrightarrow> plain_word (kTask c))
     \<and> (answerLike c \<longrightarrow> TrimSpace (kText c) = kText c \<and> normSpace (kText c) \<noteq> [] \<and> CHR ''<'' \<notin> set (kText c))"

lemma phrase_shape:
  assumes "plain_call c"
  shows "call_Phrase c = Join (phrase_words c) '' '' @ (if answerLike c then '': '' @ kText c else [])"
    and "list_all plain_word (phrase_words c)" and "phrase_words c \<noteq> []"
proof -
  show "call_Phrase c = Join (phrase_words c) '' '' @ (if answerLike c then '': '' @ kText c else [])"
    using assms by (auto simp: plain_call_def call_Phrase_def phrase_words_def answerLike_def actionAcceptConfig_def PersonActs_def act_defs)
  have "plain_word ''approve''" "plain_word ''answer''" "plain_word ''accept''" "plain_word ''of''" "plain_word ''the''" "plain_word ''config''"
    "plain_word ''red''" "plain_word ''on''" "plain_word ''allow''" "plain_word ''pending''" "plain_word ''human''" by code_simp+
  then show "list_all plain_word (phrase_words c)" "phrase_words c \<noteq> []" using assms by (auto simp: phrase_words_def plain_call_def)
qed

lemma call_words_phrase:
  assumes "ascii_tables uc low" and "plain_call c"
  shows "call_words low c = map to_lower_ascii (phrase_words c)"
proof -
  have j: "(if answerLike c then ''answer '' @ kTarget c else call_Phrase c) = Join (phrase_words c) '' ''"
    using phrase_shape(1)[OF assms(2)] by (auto simp: phrase_words_def answerLike_def act_defs)
  have "low (Join (phrase_words c) '' '') = Join (map to_lower_ascii (phrase_words c)) '' ''"
    using assms(1) words_ascii[OF phrase_shape(2)[OF assms(2)]] by (simp add: ascii_tables_def lower_Join)
  moreover have "list_all plain_word (map to_lower_ascii (phrase_words c))"
    using phrase_shape(2)[OF assms(2)] by (auto simp: list_all_iff plain_lower)
  ultimately show ?thesis unfolding call_words_def j using Fields_words by metis
qed

lemma plain_ends: "plain_word w \<Longrightarrow> TrimSpace w = w"
  using id_not_space[of "hd w"] id_not_space[of "last w"] by (intro TrimSpace_id) (auto simp: plain_word_def list_all_iff)

lemma words_trim: "ws \<noteq> [] \<Longrightarrow> list_all plain_word ws \<Longrightarrow> TrimSpace (Join ws '' '') = Join ws '' ''"
proof (induction ws)
  case (Cons w ws)
  have w: "w \<noteq> []" "hd w \<notin> hd ` set space_runes" using Cons.prems(2) id_not_space[of "hd w"] by (auto simp: plain_word_def list_all_iff)
  show ?case
  proof (cases "ws = []")
    case True
    then show ?thesis using Cons.prems(2) plain_ends by simp
  next
    case False
    moreover have "Join ws '' '' \<noteq> []" using False Cons.prems(2) by (cases ws; cases "tl ws") (auto simp: plain_word_def)
    ultimately show ?thesis using Cons TrimSpace_after[OF _ _ w, of "Join ws '' ''"] by (simp add: Join_Cons)
  qed
qed simp

lemma phrase_trim:
  assumes "plain_call c"
  shows "TrimSpace (call_Phrase c) = call_Phrase c"
proof (cases "answerLike c")
  case True
  let ?p = "Join (phrase_words c) '' '' @ '':''"
  have t: "TrimSpace (kText c) = kText c" "kText c \<noteq> []"
    using assms True by (auto simp: plain_call_def normSpace_def Fields_def fields_from.simps)
  have "phrase_words c = [''answer'', kTarget c]" using True by (auto simp: phrase_words_def answerLike_def act_defs)
  then have "?p \<noteq> []" "hd ?p \<notin> hd ` set space_runes" by (simp_all add: space_runes_def)
  then show ?thesis using TrimSpace_after[OF t, of ?p] phrase_shape(1)[OF assms] True by simp
next
  case False
  then show ?thesis using words_trim[OF phrase_shape(3,2)[OF assms]] phrase_shape(1)[OF assms] by simp
qed

lemma answer_follows: "Contains (normSpace ('': '' @ t)) (normSpace t)"
proof -
  have "lead_len space_runes ('': '' @ t) = 0" by (simp add: space_runes_def)
  then have "Fields ('': '' @ t) = '':'' # Fields t"
    by (simp add: Fields_def fields_from.simps[of "[]" "CHR '':'' # CHR '' '' # t"] fields_from_space)
  then have f: "normSpace ('': '' @ t) = (if Fields t = [] then '':'' else '': '' @ normSpace t)" by (simp add: normSpace_def Join_Cons)
  show ?thesis
  proof (cases "Fields t = []")
    case True
    then show ?thesis using Contains_append[of "[]" "[]" "'':''"] f by (simp add: normSpace_def)
  next
    case False
    then show ?thesis using Contains_append[of "'': ''" "normSpace t" "[]"] f by simp
  qed
qed

lemma sentence_whole: "sentence_start s 0 = 0" "sentence_end s (length s) = length s"
  by (simp_all add: sentence_start_def sentence_end_def)

lemma matchAct_phrase:
  assumes uc: "ascii_tables uc low" and c: "plain_call c"
  shows "matchAct uc low (call_Phrase c) c = Some (clip (call_Phrase c) quoteMax, call_Phrase c)"
proof -
  let ?s = "call_Phrase c" and ?ws = "phrase_words c" and ?rest = "if answerLike c then '': '' @ kText c else []"
  let ?toks = "promptTokens uc low ?s" and ?want = "call_words low c"
  note sh = phrase_shape[OF c]
  have stop: "word_stop uc ?rest" using ascii_stop[OF uc, of "CHR '':''" "'' '' @ kText c"] by (simp add: word_stop_def)
  have toks: "?toks = word_tokens 0 ?ws @ prompt_tokens uc low (length (Join ?ws '' '')) ?rest"
    unfolding promptTokens_def sh(1) using prompt_tokens_words[OF uc sh(3,2) stop, of 0] by simp
  have want: "?want = map to_lower_ascii ?ws" by (rule call_words_phrase[OF uc c])
  have ws: "take (length ?want) (drop 0 ?toks) = word_tokens 0 ?ws" using toks want word_tokens_facts(2) by simp
  have ends: "tkStart (hd (word_tokens 0 ?ws)) = 0" "tkEnd (last (word_tokens 0 ?ws)) = length (Join ?ws '' '')"
    using word_tokens_facts(3,4)[OF sh(3), of 0] by simp_all
  have after: "drop (0 + length ?want) ?toks = []" if "\<not> answerLike c" using that toks want word_tokens_facts(2) by (simp add: prompt_tokens.simps)
  have none: "\<forall>t\<in>set ?toks. \<not> tkEnd t \<le> 0" using token_ends[of _ uc low 0 ?s] by (fastforce simp: promptTokens_def)
  have "asks_at ?s ?toks ?want c ?s 0"
  proof (cases "answerLike c")
    case True
    have "drop (length (Join ?ws '' '')) ?s = '': '' @ kText c" using sh(1) True by simp
    then show ?thesis unfolding asks_at_def Let_def ws
      using True ends none phrase_trim[OF c] c answer_follows[of "kText c"] want word_tokens_facts(1)
      by (auto simp: sentence_whole plain_call_def)
  next
    case False
    then have "length ?s = length (Join ?ws '' '')" using sh(1) by simp
    then show ?thesis unfolding asks_at_def Let_def ws
      using False ends none phrase_trim[OF c] after want word_tokens_facts(1) sentence_whole(2)[of ?s] by (auto simp: sentence_whole(1))
  qed
  then have 0: "match_at ?s ?toks ?want c 0 = Some ?s" by (simp only: match_at_asks)
  have "length ?want \<le> length ?toks" "?want \<noteq> []" using toks want word_tokens_facts(2) sh(3) by simp_all
  then have "[0..<length ?toks + 1 - length ?want] = 0 # [1..<length ?toks + 1 - length ?want]" by (simp add: upt_conv_Cons)
  then show ?thesis using 0 \<open>?want \<noteq> []\<close> by (simp add: matchAct_def Let_def map_filter_simps)
qed

section \<open>Typed, granted, carried out\<close>

lemma Index_chars: "Index s sub = Some i \<Longrightarrow> set sub \<subseteq> set s"
proof (induction s arbitrary: i)
  case (Cons c s)
  show ?case
  proof (cases "HasPrefix (c # s) sub")
    case True
    then obtain r where "c # s = sub @ r" by (auto simp: HasPrefix_iff)
    then show ?thesis by (metis set_append Un_upper1)
  next
    case False
    then obtain j where "Index s sub = Some j" using Cons.prems by auto
    then show ?thesis using Cons.IH by auto
  qed
qed (auto split: if_splits)

lemma typed_phrase:
  assumes "plain_call c"
  shows "promptKindOf (call_Phrase c) = promptTyped"
proof -
  let ?s = "call_Phrase c"
  have ids: "CHR ''<'' \<notin> set w" if "plain_word w" for w
    using that by (auto simp: plain_word_def list_all_iff id_char_def is_lower_def is_upper_def is_digit_def)
  have "CHR ''<'' \<notin> set (Join (phrase_words c) '' '')"
    using set_Join_subset[of "phrase_words c" "'' ''"] ids phrase_shape(2)[OF assms] by (auto simp: list_all_iff)
  then have no: "CHR ''<'' \<notin> set ?s" using assms phrase_shape(1)[OF assms] by (auto simp: plain_call_def)
  have ne: "?s \<noteq> []" using phrase_shape[OF assms] by (cases "phrase_words c"; cases "tl (phrase_words c)") (auto simp: plain_word_def)
  have "\<not> Contains ?s DeliveryTag" using no Index_chars[of ?s DeliveryTag] by (cases "Index ?s DeliveryTag") (auto simp: Contains_def DeliveryTag_def)
  moreover have "\<not> HasPrefix ?s (CHR ''<'' # r)" for r using no by (auto simp: HasPrefix_iff)
  moreover have "\<not> tagBlocksOnly ?s" using \<open>\<And>r. \<not> HasPrefix ?s (CHR ''<'' # r)\<close> ne phrase_trim[OF assms] by (simp add: tagBlocksOnly_def tag_blocks.simps)
  ultimately show ?thesis by (simp add: promptKindOf_def phrase_trim[OF assms] harnessTagPrefixes_def DeliveryTag_def)
qed

text \<open>The transcript of the session shows the prompt as the person's.\<close>

definition shows_prompt :: "transcripts \<Rightarrow> hookPayload \<Rightarrow> bool" where
  "shows_prompt tr h \<longleftrightarrow> HasPrefix (hpTranscript h) ''/'' \<and> hpPromptID h \<noteq> [] \<and>
     (\<exists>ls l. trLines tr (hpTranscript h) = Some ls \<and> l \<in> set ls \<and> Contains l (hpPromptID h) \<and>
        userMessage (trJSON tr) l = Some \<lparr>tpPromptID = hpPromptID h, tpOrigin = originHuman, tpText = hpPrompt h\<rparr>)"

lemma shown_message:
  assumes "shows_prompt tr h" and "hpPromptID h \<in> set ids"
  shows "\<lparr>tpPromptID = hpPromptID h, tpOrigin = originHuman, tpText = hpPrompt h\<rparr> \<in> set (scanTranscript tr (hpTranscript h) ids)"
proof -
  from assms(1) obtain ls l where l: "trLines tr (hpTranscript h) = Some ls" "l \<in> set ls" "Contains l (hpPromptID h)"
    "userMessage (trJSON tr) l = Some \<lparr>tpPromptID = hpPromptID h, tpOrigin = originHuman, tpText = hpPrompt h\<rparr>" and p: "hpPromptID h \<noteq> []"
    "HasPrefix (hpTranscript h) ''/''" by (auto simp: shows_prompt_def)
  have ne: "l \<noteq> []" using l(3) p(1) by (auto simp: Contains_def)
  have "hpPromptID h \<in> set (filter (\<lambda>i. i \<noteq> []) ids)" using assms(2) p(1) by simp
  then have "filter (\<lambda>i. i \<noteq> []) ids \<noteq> []" "list_ex (Contains l) (filter (\<lambda>i. i \<noteq> []) ids)" using l(3) by (force simp: list_ex_iff)+
  then show ?thesis using l ne p(2) by (force simp: scanTranscript_def Let_def map_filter_def)
qed

lemma origins_human: "m i = Some originHuman \<Longrightarrow> foldl origin_step m ps i = Some originHuman"
proof (induction ps arbitrary: m)
  case (Cons p ps)
  then have "origin_step m p i = Some originHuman" by (auto simp: origin_step_def split: option.splits)
  then show ?case using Cons.IH by simp
qed simp

lemma origins_shown:
  assumes "\<lparr>tpPromptID = i, tpOrigin = originHuman, tpText = t\<rparr> \<in> set ps"
  shows "foldl origin_step m ps i = Some originHuman"
  using assms
proof (induction ps arbitrary: m)
  case (Cons p ps)
  show ?case
  proof (cases "p = \<lparr>tpPromptID = i, tpOrigin = originHuman, tpText = t\<rparr>")
    case True
    then have "origin_step m p i = Some originHuman" by (auto simp: origin_step_def split: option.splits)
    then show ?thesis using origins_human by simp
  next
    case False
    then show ?thesis using Cons by simp
  qed
qed simp

text \<open>A prompt of a person's own session that is recorded, a call of the act alone in its turn, and a disk that lets ape write.\<close>

definition asked_session :: "grant_env \<Rightarrow> hookPayload \<Rightarrow> personCall \<Rightarrow> bool" where
  "asked_session e h c \<longleftrightarrow>
     ascii_tables (aUC e) (aLower e) \<and> plain_call c \<and> kLiteral c \<and> kArgvSHA256 c \<noteq> [] \<and> (kBy c = [] \<or> kBy c = aUserName e) \<and> aUserName e \<noteq> []
   \<and> hpPrompt h = call_Phrase c \<and> length (hpPrompt h) \<le> promptMax \<and> aText e (hpPrompt h) = hpPrompt h \<and> hpSession h \<noteq> [] \<and> \<not> hpMonitor h
   \<and> shows_prompt (aTranscripts e) h \<and> \<not> aApeSession e \<and> aClaudeCode e \<and> aV1 e \<and> aSessionID e = hpSession h
   \<and> aMkdir e = None \<and> aAppend e = None \<and> aWriteIssued e = None \<and> aWriteGrant e = None \<and> aRename e
   \<and> (call_Long c \<longrightarrow> attachVerdict e c = None)"

lemma recorded:
  assumes "asked_session e h c" and "RecordPrompt e h fs = (er, fs1)"
  shows "er = None" and "lastRecord (promptRecords fs1 (hpSession h)) (hpPromptID h) = Some (prompt_record e h)"
    and "gfGrants fs1 = gfGrants fs" and "gfIssued fs1 = gfIssued fs" and "prPrompt (prompt_record e h) = call_Phrase c"
    and "\<not> rec_notification (prompt_record e h)"
proof -
  let ?k = "promptLogPath (hpSession h)"
  have fs1: "er = None" "fs1 = fs\<lparr>gfPrompts := (gfPrompts fs)(?k := gfPrompts fs ?k @ [Parsed (prompt_record e h)])\<rparr>"
    using assms by (auto simp: RecordPrompt_def asked_session_def)
  have "promptRecords fs1 (hpSession h) = promptRecords fs (hpSession h) @ [prompt_record e h]"
    by (simp add: fs1(2) promptRecords_def map_filter_def prompt_record_def)
  then show "lastRecord (promptRecords fs1 (hpSession h)) (hpPromptID h) = Some (prompt_record e h)"
    by (simp add: lastRecord_def prompt_record_def)
  show "prPrompt (prompt_record e h) = call_Phrase c" using assms(1) by (auto simp: asked_session_def prompt_record_def)
  have "prKind (prompt_record e h) = promptTyped" using assms(1) typed_phrase by (simp add: asked_session_def prompt_record_def)
  then show "\<not> rec_notification (prompt_record e h)" by (simp add: rec_notification_def promptTyped_def promptNotification_def promptDelivery_def)
qed (use assms in \<open>auto simp: RecordPrompt_def asked_session_def\<close>)

lemma phrase_shown:
  assumes "asked_session e h c"
  shows "transcriptHolds (aLower e) (aTranscripts e) (hpTranscript h) (hpPromptID h) (call_Phrase c)"
proof -
  have "shows_prompt (aTranscripts e) h" "hpPrompt h = call_Phrase c" using assms by (simp_all add: asked_session_def)
  moreover have "Contains (aLower e (normSpace (call_Phrase c))) (aLower e (normSpace (call_Phrase c)))"
    using Contains_append[of "[]" "aLower e (normSpace (call_Phrase c))" "[]"] by simp
  ultimately show ?thesis unfolding transcriptHolds_def list_ex_iff
    using shown_message[of "aTranscripts e" h "[hpPromptID h]"] by (auto simp: holdsClause_def intro!: bexI)
qed

lemma typed_turn:
  assumes "asked_session e h c" and "RecordPrompt e h fs = (er, fs1)"
  shows "judged_record e h fs1 = Inr (prompt_record e h)"
proof -
  let ?recs = "promptRecords fs1 (hpSession h)" and ?ids = "hpPromptID h # map prID (promptRecords fs1 (hpSession h))"
  have sh: "shows_prompt (aTranscripts e) h" using assms(1) by (simp add: asked_session_def)
  then have "hpTranscript h \<noteq> []" by (auto simp: shows_prompt_def)
  then have o: "transcriptOrigins (aTranscripts e) (hpTranscript h) ?ids (hpPromptID h) = Some originHuman"
    using origins_shown[OF shown_message[OF sh, of ?ids]] by (simp add: transcriptOrigins_def)
  have "\<not> rec_delivery (prompt_record e h)" using recorded(6)[OF assms] by (simp add: rec_delivery_def rec_notification_def)
  then show ?thesis using recorded(2,6)[OF assms] o by (simp add: judged_record_def Let_def turnOpener_def)
qed

lemma phrase_allowed:
  assumes "asked_session e h c" and "RecordPrompt e h fs = (er, fs1)"
    and "gfGrants fs (sanitizeKey (kArgvSHA256 c)) = None" and "gfIssued fs (issuedPath e (hpSession h) (hpPromptID h) c) = None"
  shows "PersonActGate e h [c] fs1 = write_grant e h (prompt_record e h) (clip (call_Phrase c) quoteMax) c fs1"
proof -
  note a = assms(1)[unfolded asked_session_def]
  have m: "matchAct (aUC e) (aLower e) (prPrompt (prompt_record e h)) c = Some (clip (call_Phrase c) quoteMax, call_Phrase c)"
    using matchAct_phrase recorded(5)[OF assms(1,2)] a by simp
  have p: "prTranscript (prompt_record e h) = hpTranscript h" "prID (prompt_record e h) = hpPromptID h" by (simp_all add: prompt_record_def)
  have t: "hpTranscript h \<noteq> []" "hpPromptID h \<noteq> []" using a by (auto simp: shows_prompt_def)
  have g: "loadGrant (gfGrants fs1 (sanitizeKey (kArgvSHA256 c))) = None" "gfIssued fs1 (issuedPath e (hpSession h) (prID (prompt_record e h)) c) = None"
    using assms(3,4) recorded(3,4)[OF assms(1,2)] p(2) by (simp_all add: loadGrant_def)
  have "grantVerdict e h c fs1 = write_grant e h (prompt_record e h) (clip (call_Phrase c) quoteMax) c fs1"
    unfolding grantVerdict_def typed_turn[OF assms(1,2)] using m p t g a phrase_shown[OF assms(1)] by simp
  then show ?thesis using a by (auto simp: PersonActGate_def split: option.splits)
qed

lemma phrase_taken:
  assumes asked: "asked_session e h c" and rec: "RecordPrompt e h fs = (er, fs1)"
    and fresh: "gfGrants fs (sanitizeKey (kArgvSHA256 c)) = None" "gfIssued fs (issuedPath e (hpSession h) (hpPromptID h) c) = None"
    and gate: "PersonActGate e h [c] fs1 = (d, fs2)"
    and soon: "t < aNow e + GrantTTL"
  shows "er = None \<and> d = Allow \<and> (\<exists>ctx fs3. takePersonAct (e\<lparr>aNow := t\<rparr>) c fs2 = (Inr ctx, fs3) \<and> requirePerson (e\<lparr>aNow := t\<rparr>) ctx (kAct c) = None)"
proof -
  note a = asked[unfolded asked_session_def]
  let ?r = "prompt_record e h" and ?e = "e\<lparr>aNow := t\<rparr>" and ?k = "sanitizeKey (kArgvSHA256 c)"
  let ?q = "clip (call_Phrase c) quoteMax"
  let ?g = "new_grant e h ?r ?q c"
  have w: "(d, fs2) = write_grant e h ?r ?q c fs1" using phrase_allowed[OF asked rec fresh] gate by simp
  have d: "d = Allow" and fs2: "gfGrants fs2 ?k = Some (Parsed ?g, aNow e)" "gfPrompts fs2 = gfPrompts fs1"
    using w a by (simp_all add: write_grant_def Let_def pruneGrants_def)
  have p: "hpTranscript h \<noteq> []" "hpPromptID h \<noteq> []" using a by (auto simp: shows_prompt_def)
  have load: "loadGrant (gfGrants fs2 ?k) = Some ?g" using fs2(1) a by (simp add: loadGrant_def new_grant_def)
  have live: "grant_matches ?g c" "grant_live t ?g" "ownSession ?e ?g"
    using soon a by (simp_all add: grant_matches_def new_grant_def grant_live_def ownSession_def)
  have "promptRecord_of fs2 (hpSession h) (hpPromptID h) = Some ?r"
    using recorded(2)[OF asked rec] fs2(2) by (simp add: promptRecord_of_def promptRecords_def)
  then have bk: "backing ?e ?g c fs2 = Some (?r, ?q)"
    using matchAct_phrase[of "aUC e" "aLower e" c] a recorded(5,6)[OF asked rec] phrase_shown[OF asked] p
    by (simp add: backing_def new_grant_def prompt_record_def)
  obtain act fs3 where act: "ConsumeGrant ?e c fs2 = (Some act, fs3)" "paAct act = kAct c"
    using load live bk a by (simp add: ConsumeGrant_def Let_def)
  have "HasGrant ?e c fs2" using load live by (simp add: HasGrant_def)
  then have "takePersonAct ?e c fs2 = (Inr (Some (act\<lparr>paBy := PersonBy (aUserName e) (paPromptTS act) (paQuote act)\<rparr>, True)), fs3)"
    using act(1) a by (simp add: takePersonAct_def ModelSession_def)
  moreover have "requirePerson ?e (Some (act\<lparr>paBy := PersonBy (aUserName e) (paPromptTS act) (paQuote act)\<rparr>, True)) (kAct c) = None"
    using act(2) a by (simp add: requirePerson_def ModelSession_def)
  ultimately show ?thesis using d recorded(1)[OF asked rec] by blast
qed

text \<open>C26: typing the phrase that a denial names grants the act. When a person types the phrase of a call in their own session, the session's transcript shows
  it as theirs, the call is literal and names ids, and files can be written, then the hook allows the call, and the command run in that session before
  the grant ends carries the act out: the check of its body passes. Hypotheses on Unicode and \<open>strings.ToLower\<close> are their behaviour on ASCII.\<close>

theorem typed_phrase_grants:
  assumes "asked_session e h c" and "RecordPrompt e h fs = (er, fs1)"
    and "gfGrants fs (sanitizeKey (kArgvSHA256 c)) = None" and "gfIssued fs (issuedPath e (hpSession h) (hpPromptID h) c) = None"
    and "PersonActGate e h [c] fs1 = (d, fs2)" and "t < aNow e + GrantTTL"
  shows "er = None \<and> d = Allow \<and> (\<exists>ctx fs3. takePersonAct (e\<lparr>aNow := t\<rparr>) c fs2 = (Inr ctx, fs3) \<and> requirePerson (e\<lparr>aNow := t\<rparr>) ctx (kAct c) = None)"
  using phrase_taken[OF assms] .

section \<open>A session\<close>

definition ex_uc :: unicode_lib where
  "ex_uc = \<lparr>ucLetter = (\<lambda>r. 97 \<le> r \<and> r \<le> 122 \<or> 65 \<le> r \<and> r \<le> 90), ucDigit = (\<lambda>r. 48 \<le> r \<and> r \<le> 57)\<rparr>"

lemma ex_tables: "ascii_tables ex_uc to_lower_ascii"
  by (simp add: ascii_tables_def ex_uc_def is_lower_def is_upper_def is_digit_def)

definition ex_entry :: "string \<Rightarrow> tentry" where
  "ex_entry t = \<lparr>tnType = ''user'', tnMeta = False, tnSidechain = False, tnPromptID = ''p1'', tnOrigin = originHuman, tnRole = ''user'', tnContent = TText t\<rparr>"

definition ex_act_env :: "string \<Rightarrow> int \<Rightarrow> grant_env" where
  "ex_act_env t n = \<lparr>aUC = ex_uc, aLower = to_lower_ascii, aSha = id, aRedact = Some, aText = id,
     aTranscripts = \<lparr>trLines = (\<lambda>path. if path = ''/t'' then Some [''p1'' @ [LF]] else None), trJSON = (\<lambda>_. Some (ex_entry t))\<rparr>,
     aNow = n, aStamp = ''T'', aV1 = True, aApeSession = False, aClaudeCode = True, aSessionID = ''s1'', aUserName = ''ann'', aHead = [],
     aProcs = \<lparr>pvAlive = (\<lambda>_. False), pvStart = (\<lambda>_. None)\<rparr>, aLocks = (\<lambda>_. \<lparr>lfLock = None, lfResult = None\<rparr>),
     aAppend = None, aMkdir = None, aWriteIssued = None, aWriteGrant = None, aRename = True, aName = Itoa (nat n)\<rparr>"

definition ex_call :: "string \<Rightarrow> personCall" where
  "ex_call i = \<lparr>kAct = ActMilestoneApprove, kTarget = i, kTask = [], kText = [], kBy = [], kArgvSHA256 = ''x'' @ i, kLiteral = True\<rparr>"

definition ex_payload :: "string \<Rightarrow> hookPayload" where
  "ex_payload t = \<lparr>hpSession = ''s1'', hpTranscript = ''/t'', hpPrompt = t, hpPromptID = ''p1'', hpMonitor = False\<rparr>"

definition ex_empty :: grants_fs where
  "ex_empty = \<lparr>gfPrompts = (\<lambda>_. []), gfGrants = Map.empty, gfIssued = Map.empty, gfConsumed = Map.empty\<rparr>"

lemma ex_asked: "asked_session (ex_act_env ''approve M2'' 5) (ex_payload ''approve M2'') (ex_call ''M2'')"
proof -
  have t: "ascii_tables (aUC (ex_act_env ''approve M2'' 5)) (aLower (ex_act_env ''approve M2'' 5))" using ex_tables by (simp add: ex_act_env_def)
  have c: "plain_call (ex_call ''M2'')" by code_simp
  have s: "shows_prompt (aTranscripts (ex_act_env ''approve M2'' 5)) (ex_payload ''approve M2'')"
  proof -
    have "Contains (''p1'' @ [LF]) ''p1''" by code_simp
    then show ?thesis by (simp add: shows_prompt_def ex_act_env_def ex_payload_def userMessage_def ex_entry_def)
  qed
  have "call_Phrase (ex_call ''M2'') = ''approve M2''" "attachVerdict (ex_act_env ''approve M2'' 5) (ex_call ''M2'') = None"
    "length (hpPrompt (ex_payload ''approve M2'')) \<le> promptMax" by code_simp+
  then show ?thesis using t c s by (simp add: asked_session_def) (simp add: ex_act_env_def ex_payload_def ex_call_def)
qed

theorem typed_phrase_grants_witness:
  "fst (PersonActGate (ex_act_env ''approve M2'' 5) (ex_payload ''approve M2'') [ex_call ''M2'']
      (snd (RecordPrompt (ex_act_env ''approve M2'' 5) (ex_payload ''approve M2'') ex_empty))) = Allow"
proof -
  let ?e = "ex_act_env ''approve M2'' 5" and ?h = "ex_payload ''approve M2''" and ?c = "ex_call ''M2''"
  have "gfGrants ex_empty k = None" "gfIssued ex_empty k = None" for k by (simp_all add: ex_empty_def)
  moreover have "(5 :: int) < aNow ?e + GrantTTL" by (simp add: ex_act_env_def GrantTTL_def)
  ultimately show ?thesis using typed_phrase_grants[OF ex_asked prod.collapse[symmetric] _ _ prod.collapse[symmetric], of ex_empty 5] by simp
qed

text \<open>One prompt names two milestones, and its turn outlasts a day: the second act's grant clears the marker of the first, and the same words grant it again.\<close>

definition ex_words :: string where
  "ex_words = ''approve M2 and approve M3''"

definition ex_gate :: "string \<Rightarrow> int \<Rightarrow> person_sys \<Rightarrow> person_sys" where
  "ex_gate i n s = s\<lparr>psFS := snd (PersonActGate (ex_act_env ex_words n) (ex_payload ex_words) [ex_call i] (psFS s)), psTime := n\<rparr>"

definition ex_take :: "string \<Rightarrow> int \<Rightarrow> person_sys \<Rightarrow> person_sys" where
  "ex_take i n s = s\<lparr>psFS := snd (ConsumeGrant (ex_act_env ex_words n) (ex_call i) (psFS s)), psTime := n,
     psTaken := psTaken s @ taken_now (ex_act_env ex_words n) (ex_call i) (psFS s)\<rparr>"

definition ex_typed :: person_sys where
  "ex_typed = \<lparr>psFS = snd (RecordPrompt (ex_act_env ex_words 0) (ex_payload ex_words) ex_empty), psTime = 0, psTaken = []\<rparr>"

definition ex_granted :: person_sys where
  "ex_granted = ex_gate ''M2'' 0 ex_typed"

definition ex_again :: person_sys where
  "ex_again = ex_take ''M2'' (day + 2) (ex_gate ''M2'' (day + 1) (ex_gate ''M3'' (day + 1) (ex_take ''M2'' 1 ex_granted)))"

definition ex_rec :: promptRecord where
  "ex_rec = \<lparr>prTS = ''T'', prSession = ''s1'', prTranscript = ''/t'', prPrompt = ex_words, prID = ''p1'', prKind = ''typed''\<rparr>"

definition ex_key :: "string \<Rightarrow> act_key" where
  "ex_key i = (''s1'', ''p1'', ActMilestoneApprove, i, [])"

lemma ex_env_fields:
  "aUC (ex_act_env t n) = ex_uc" "aLower (ex_act_env t n) = to_lower_ascii" "aNow (ex_act_env t n) = n" "aSha (ex_act_env t n) = id" "aText (ex_act_env t n) = id"
  "aMkdir (ex_act_env t n) = None" "aWriteIssued (ex_act_env t n) = None" "aWriteGrant (ex_act_env t n) = None" "aRename (ex_act_env t n)"
  "aSessionID (ex_act_env t n) = ''s1''" "aUserName (ex_act_env t n) = ''ann''" "\<not> aApeSession (ex_act_env t n)" "aClaudeCode (ex_act_env t n)"
  by (simp_all add: ex_act_env_def)

lemma ex_words_match:
  "matchAct ex_uc to_lower_ascii ex_words (ex_call ''M2'') = Some (ex_words, ex_words)"
  "matchAct ex_uc to_lower_ascii ex_words (ex_call ''M3'') = Some (ex_words, ex_words)"
proof -
  let ?ws = "[''approve'', ''M2'', ''and'', ''approve'', ''M3'']"
  have "list_all plain_word ?ws" by code_simp
  then have toks: "promptTokens ex_uc to_lower_ascii ex_words = word_tokens 0 ?ws"
    using prompt_tokens_words[OF ex_tables _ _ , of ?ws "[]" 0] by (simp add: promptTokens_def ex_words_def word_stop_def prompt_tokens.simps[of _ _ _ "[]"])
  have ok: "plain_call (ex_call ''M2'')" "plain_call (ex_call ''M3'')" by code_simp+
  have "clip ex_words quoteMax = ex_words" by code_simp
  moreover have "match_at ex_words (word_tokens 0 ?ws) (map to_lower_ascii (phrase_words (ex_call ''M2''))) (ex_call ''M2'') 0 = Some ex_words"
    "match_at ex_words (word_tokens 0 ?ws) (map to_lower_ascii (phrase_words (ex_call ''M3''))) (ex_call ''M3'') 0 = None"
    "match_at ex_words (word_tokens 0 ?ws) (map to_lower_ascii (phrase_words (ex_call ''M3''))) (ex_call ''M3'') 1 = None"
    "match_at ex_words (word_tokens 0 ?ws) (map to_lower_ascii (phrase_words (ex_call ''M3''))) (ex_call ''M3'') 2 = None"
    "match_at ex_words (word_tokens 0 ?ws) (map to_lower_ascii (phrase_words (ex_call ''M3''))) (ex_call ''M3'') 3 = Some ex_words"
    by code_simp+
  moreover have "length (phrase_words (ex_call i)) = 2" "phrase_words (ex_call i) \<noteq> []" for i by (simp_all add: phrase_words_def ex_call_def)
  moreover have "[0..<length (word_tokens 0 ?ws) + 1 - 2] = [0, 1, 2, 3]" by code_simp
  ultimately show "matchAct ex_uc to_lower_ascii ex_words (ex_call ''M2'') = Some (ex_words, ex_words)"
    "matchAct ex_uc to_lower_ascii ex_words (ex_call ''M3'') = Some (ex_words, ex_words)"
    using call_words_phrase[OF ex_tables ok(1)] call_words_phrase[OF ex_tables ok(2)]
    by (simp_all only: matchAct_def Let_def toks length_map map_is_Nil_conv map_filter_simps option.case list.case if_False refl)
qed

lemma ex_words_shown:
  "transcriptHolds to_lower_ascii (aTranscripts (ex_act_env ex_words n)) ''/t'' ''p1'' ex_words"
  "transcriptOrigins (aTranscripts (ex_act_env ex_words n)) ''/t'' [''p1'', ''p1''] ''p1'' = Some originHuman"
  unfolding ex_act_env_def by (simp, code_simp)+

lemma ex_names: "sanitizeKey ''xM2'' = ''xM2''" "sanitizeKey ''xM3'' = ''xM3''" "promptLogPath ''s1'' = ''s1''" "promptKindOf ex_words = ''typed''"
  by code_simp+

lemma ex_typed_files:
  "gfPrompts (psFS ex_typed) ''s1'' = [Parsed ex_rec]" "gfGrants (psFS ex_typed) = Map.empty" "gfIssued (psFS ex_typed) = Map.empty"
proof -
  have "length ex_words \<le> promptMax" by code_simp
  then show "gfPrompts (psFS ex_typed) ''s1'' = [Parsed ex_rec]" "gfGrants (psFS ex_typed) = Map.empty" "gfIssued (psFS ex_typed) = Map.empty"
    by (simp_all add: ex_typed_def RecordPrompt_def ex_act_env_def ex_empty_def ex_payload_def ex_names prompt_record_def ex_rec_def)
qed

lemma ex_judged: "gfPrompts fs ''s1'' = [Parsed ex_rec] \<Longrightarrow> judged_record (ex_act_env ex_words n) (ex_payload ex_words) fs = Inr ex_rec"
  using ex_words_shown(2)[of n]
  by (simp add: judged_record_def promptRecords_def map_filter_def ex_payload_def ex_names ex_rec_def lastRecord_def turnOpener_def rec_delivery_def
      rec_notification_def promptDelivery_def promptNotification_def)

text \<open>The gate on a fresh act, and the command on its grant.\<close>

lemma ex_gate_step:
  assumes "gfPrompts (psFS s) ''s1'' = [Parsed ex_rec]" and "i = ''M2'' \<or> i = ''M3''" and "gfGrants (psFS s) (''x'' @ i) = None"
    and "gfIssued (psFS s) (marker id (ex_key i)) = None"
  shows "gfPrompts (psFS (ex_gate i n s)) ''s1'' = [Parsed ex_rec]"
    and "gfGrants (psFS (ex_gate i n s)) = (prune n (gfGrants (psFS s)))(''x'' @ i \<mapsto> (Parsed (new_grant (ex_act_env ex_words n) (ex_payload ex_words) ex_rec ex_words (ex_call i)), n))"
    and "gfIssued (psFS (ex_gate i n s)) = (gfIssued (pruneGrants n (psFS s)))(marker id (ex_key i) \<mapsto> n)"
    and "psTaken (ex_gate i n s) = psTaken s"
proof -
  let ?e = "ex_act_env ex_words n" and ?h = "ex_payload ex_words" and ?c = "ex_call i"
  have path: "sanitizeKey (kArgvSHA256 ?c) = ''x'' @ i" using assms(2) ex_names by (auto simp: ex_call_def)
  have mk: "issuedPath ?e ''s1'' ''p1'' ?c = marker id (ex_key i)" by (simp add: issuedPath_def ex_act_env_def ex_call_def marker_def ex_key_def targetKey_def)
  have m: "matchAct (aUC ?e) (aLower ?e) ex_words ?c = Some (ex_words, ex_words)" using ex_words_match assms(2) by (auto simp: ex_act_env_def)
  have sh: "transcriptHolds (aLower ?e) (aTranscripts ?e) ''/t'' ''p1'' ex_words" using ex_words_shown(1)[of n] by (simp add: ex_act_env_def)
  have h: "hpPromptID ?h = ''p1''" "hpSession ?h = ''s1''" "hpTranscript ?h = ''/t''" "\<not> hpMonitor ?h" by (simp_all add: ex_payload_def)
  have rc: "prPrompt ex_rec = ex_words" "prTranscript ex_rec = ''/t''" "prID ex_rec = ''p1''" by (simp_all add: ex_rec_def)
  have v: "grantVerdict ?e ?h ?c (psFS s) = write_grant ?e ?h ex_rec ex_words ?c (psFS s)"
    using assms(3,4) m sh by (simp add: grantVerdict_def ex_judged[OF assms(1)] h rc path mk loadGrant_def)
  have "attachVerdict ?e ?c = None" by (simp add: attachVerdict_def Let_def ex_act_env_def LoadRunLock_def LoadRunResult_def)
  then have gate: "PersonActGate ?e ?h [?c] (psFS s) = write_grant ?e ?h ex_rec ex_words ?c (psFS s)"
    using v by (simp add: PersonActGate_def h) (simp add: ex_act_env_def ex_call_def)
  show "gfPrompts (psFS (ex_gate i n s)) ''s1'' = [Parsed ex_rec]"
    "gfGrants (psFS (ex_gate i n s)) = (prune n (gfGrants (psFS s)))(''x'' @ i \<mapsto> (Parsed (new_grant ?e ?h ex_rec ex_words ?c), n))"
    "gfIssued (psFS (ex_gate i n s)) = (gfIssued (pruneGrants n (psFS s)))(marker id (ex_key i) \<mapsto> n)"
    "psTaken (ex_gate i n s) = psTaken s"
    using assms(1) by (simp_all add: ex_gate_def gate write_grant_def Let_def h rc path mk pruneGrants_def ex_env_fields)
qed

lemma ex_take_step:
  assumes "gfPrompts (psFS s) ''s1'' = [Parsed ex_rec]" and "i = ''M2'' \<or> i = ''M3''"
    and g: "gfGrants (psFS s) (''x'' @ i) = Some (Parsed (new_grant (ex_act_env ex_words w) (ex_payload ex_words) ex_rec ex_words (ex_call i)), w)"
    and "n < w + GrantTTL"
  shows "gfPrompts (psFS (ex_take i n s)) ''s1'' = [Parsed ex_rec]" and "gfGrants (psFS (ex_take i n s)) = (gfGrants (psFS s))(''x'' @ i := None)"
    and "gfIssued (psFS (ex_take i n s)) = gfIssued (psFS s)" and "psTaken (ex_take i n s) = psTaken s @ [(ex_key i, w, n)]"
    and "fst (ConsumeGrant (ex_act_env ex_words n) (ex_call i) (psFS s)) \<noteq> None"
proof -
  let ?e = "ex_act_env ex_words n" and ?c = "ex_call i" and ?g = "new_grant (ex_act_env ex_words w) (ex_payload ex_words) ex_rec ex_words (ex_call i)"
  have path: "sanitizeKey (kArgvSHA256 ?c) = ''x'' @ i" using assms(2) ex_names by (auto simp: ex_call_def)
  have load: "loadGrant (Some (Parsed ?g, w)) = Some ?g" by (simp add: loadGrant_def new_grant_def ex_call_def)
  have live: "grant_matches ?g ?c" "grant_live n ?g" "ownSession ?e ?g" and key: "grant_key ?g = ex_key i"
    using assms(4) by (simp_all add: grant_matches_def new_grant_def grant_live_def ownSession_def ex_env_fields ex_payload_def grant_key_def ex_key_def ex_rec_def ex_call_def)
  have "matchAct (aUC ?e) (aLower ?e) ex_words ?c = Some (ex_words, ex_words)" using ex_words_match assms(2) by (auto simp: ex_env_fields)
  then have bk: "backing ?e ?g ?c (psFS s) = Some (ex_rec, ex_words)"
    using ex_words_shown(1)[of n] assms(1)
    by (simp add: backing_def new_grant_def ex_payload_def promptRecord_of_def promptRecords_def map_filter_def ex_names ex_rec_def lastRecord_def
        rec_notification_def promptDelivery_def promptNotification_def ex_env_fields)
  note simps = ConsumeGrant_def Let_def path load live bk ex_env_fields
  show "gfPrompts (psFS (ex_take i n s)) ''s1'' = [Parsed ex_rec]" "gfGrants (psFS (ex_take i n s)) = (gfGrants (psFS s))(''x'' @ i := None)"
    "gfIssued (psFS (ex_take i n s)) = gfIssued (psFS s)" "psTaken (ex_take i n s) = psTaken s @ [(ex_key i, w, n)]" "fst (ConsumeGrant ?e ?c (psFS s)) \<noteq> None"
    using assms(1) g key by (simp_all add: ex_take_def taken_now_def simps)
qed

text \<open>What the files hold once the first act is granted.\<close>

lemma ex_granted_files:
  "gfPrompts (psFS ex_granted) ''s1'' = [Parsed ex_rec]"
  "gfGrants (psFS ex_granted) = [''xM2'' \<mapsto> (Parsed (new_grant (ex_act_env ex_words 0) (ex_payload ex_words) ex_rec ex_words (ex_call ''M2'')), 0)]"
  "gfIssued (psFS ex_granted) = [marker id (ex_key ''M2'') \<mapsto> 0]" "psTaken ex_granted = []"
  using ex_gate_step[of ex_typed "''M2''" 0] ex_typed_files
  by (simp_all add: ex_granted_def ex_typed_def[THEN arg_cong[where f = psTaken]] pruneGrants_def prune_def fun_eq_iff)

lemma ex_again_taken: "psTaken ex_again = [(ex_key ''M2'', 0, 1), (ex_key ''M2'', day + 1, day + 2)]"
proof -
  have ttl: "(1 :: int) < 0 + GrantTTL" "day + 2 < day + 1 + GrantTTL" by (simp_all add: GrantTTL_def)
  have mk: "marker id (ex_key ''M2'') \<noteq> marker id (ex_key ''M3'')" by (simp add: marker_def ex_key_def ArgvSHA256_def)
  let ?s1 = "ex_take ''M2'' 1 ex_granted"
  have 1: "gfPrompts (psFS ?s1) ''s1'' = [Parsed ex_rec]" "gfGrants (psFS ?s1) = Map.empty" "gfIssued (psFS ?s1) = [marker id (ex_key ''M2'') \<mapsto> 0]"
    "psTaken ?s1 = [(ex_key ''M2'', 0, 1)]"
    using ex_take_step[of ex_granted "''M2''" 0 1] ttl ex_granted_files by simp_all
  let ?s2 = "ex_gate ''M3'' (day + 1) ?s1"
  have 2: "gfPrompts (psFS ?s2) ''s1'' = [Parsed ex_rec]" "gfGrants (psFS ?s2) ''xM2'' = None" "gfIssued (psFS ?s2) (marker id (ex_key ''M2'')) = None"
    "psTaken ?s2 = [(ex_key ''M2'', 0, 1)]"
    using ex_gate_step[of ?s1 "''M3''" "day + 1"] 1 mk by (simp_all add: pruneGrants_def prune_def)
  let ?s3 = "ex_gate ''M2'' (day + 1) ?s2"
  have 3: "gfPrompts (psFS ?s3) ''s1'' = [Parsed ex_rec]" "psTaken ?s3 = [(ex_key ''M2'', 0, 1)]"
    "gfGrants (psFS ?s3) ''xM2'' = Some (Parsed (new_grant (ex_act_env ex_words (day + 1)) (ex_payload ex_words) ex_rec ex_words (ex_call ''M2'')), day + 1)"
    using ex_gate_step[of ?s2 "''M2''" "day + 1"] 2 by simp_all
  show ?thesis using ex_take_step(4)[of ?s3 "''M2''" "day + 1" "day + 2"] 3 ttl by (simp add: ex_again_def)
qed

lemma ex_reach_typed: "person_reach id id ex_typed"
proof -
  let ?s = "\<lparr>psFS = ex_empty, psTime = 0, psTaken = []\<rparr>"
  have "person_reach id id ?s" by (rule person_reach.start) (simp_all add: ex_empty_def)
  then have "person_reach id id (?s\<lparr>psFS := snd (RecordPrompt (ex_act_env ex_words 0) (ex_payload ex_words) (psFS ?s)), psTime := aNow (ex_act_env ex_words 0)\<rparr>)"
    by (rule person_reach.prompt[OF _ _ _ prod.collapse[symmetric]]) (simp_all add: ex_env_fields)
  then show ?thesis by (simp add: ex_typed_def ex_env_fields)
qed

lemma ex_reach_gate: "person_reach id id s \<Longrightarrow> psTime s \<le> n \<Longrightarrow> person_reach id id (ex_gate i n s)"
  using person_reach.tool[OF _ _ _ prod.collapse[symmetric], of id id s "ex_act_env ex_words n" "ex_payload ex_words" "[ex_call i]"] by (simp add: ex_gate_def ex_env_fields)

lemma ex_reach_take: "person_reach id id s \<Longrightarrow> psTime s \<le> n \<Longrightarrow> person_reach id id (ex_take i n s)"
  using person_reach.take[OF _ _ prod.collapse[symmetric], of id id s "ex_act_env ex_words n" "ex_call i"] by (simp add: ex_take_def ex_env_fields)

lemma ex_reach_granted: "person_reach id id ex_granted"
  using ex_reach_gate[OF ex_reach_typed, of 0] by (simp add: ex_granted_def ex_typed_def)

lemma ex_reach_again: "person_reach id id ex_again"
proof -
  have "psTime ex_granted = 0" "\<And>i n s. psTime (ex_take i n s) = n" "\<And>i n s. psTime (ex_gate i n s) = n" "0 < day"
    by (simp_all add: ex_granted_def ex_take_def ex_gate_def day_def)
  then show ?thesis unfolding ex_again_def by (intro ex_reach_take ex_reach_gate ex_reach_granted) simp_all
qed

theorem prompt_grants_once_witness:
  "psTaken ex_again = [(ex_key ''M2'', 0, 1), (ex_key ''M2'', day + 1, day + 2)] \<and> 1 + (day - GrantTTL) < day + 2"
  using prompt_grants_once[OF ex_reach_again, of 0 1 "ex_key ''M2''" 0 1 "day + 1" "day + 2"] ex_again_taken by simp

theorem model_session_act_attested_witness:
  "\<exists>ctx rec. fst (takePersonAct (ex_act_env ex_words 1) (ex_call ''M2'') (psFS ex_granted)) = Inr ctx
     \<and> requirePerson (ex_act_env ex_words 1) ctx ActMilestoneApprove = None \<and> rec \<in> set (promptRecords (psFS ex_granted) ''s1'')
     \<and> promptKindOf (prPrompt rec) = promptTyped"
proof -
  let ?e = "ex_act_env ex_words 1" and ?c = "ex_call ''M2''" and ?fs = "psFS ex_granted"
  note st = ex_take_step[of ex_granted "''M2''" 0 1]
  have "fst (ConsumeGrant ?e ?c ?fs) \<noteq> None" using st(5) ex_granted_files by (simp add: GrantTTL_def)
  then obtain a fs' where a: "ConsumeGrant ?e ?c ?fs = (Some a, fs')" by (cases "ConsumeGrant ?e ?c ?fs") auto
  then have "HasGrant ?e ?c ?fs \<and> paAct a = ActMilestoneApprove"
    by (elim ConsumeGrant_Some) (auto simp: HasGrant_def loadGrant_def grant_matches_def ex_call_def)
  then obtain ctx where ctx: "fst (takePersonAct ?e ?c ?fs) = Inr ctx" "requirePerson ?e ctx ActMilestoneApprove = None"
    using a by (simp add: takePersonAct_def ModelSession_def ex_env_fields requirePerson_def ex_call_def)
  have m: "ModelSession ?e \<noteq> []" by (simp add: ModelSession_def ex_env_fields)
  have recs: "promptRecords ?fs ''s1'' = [ex_rec]" using ex_granted_files(1) by (simp add: promptRecords_def map_filter_def ex_names ex_rec_def)
  from model_session_act_attested[OF ex_reach_granted m disjI1[OF ctx(1)] ctx(2)] obtain rec
    where "rec \<in> set (promptRecords ?fs ''s1'')" by (auto simp: ex_env_fields)
  moreover from this have "promptKindOf (prPrompt rec) = promptTyped" using recs ex_names(4) by (simp add: ex_rec_def promptTyped_def)
  ultimately show ?thesis using ctx by blast
qed

end
