(* ===== verification/Spec2Isabelle.thy ===== *)
theory Spec2Isabelle
  imports EffectiveFacts CommandFacts SessionFacts PlanFacts CheckFacts MilestoneSafety NextSafety RunLockFacts JournalFacts ArchiveLayout DecisionFacts PersonPhrase
begin

text \<open>
  \<^bold>\<open>The program.\<close> \<open>ape\<close> runs a spec-driven development process on a repository. A person approves a milestone
  of \<open>roadmap.md\<close>, whose gate is a command that is red until the milestone's work is done. Work is done
  in changes: \<open>change.md\<close> holds the delta to the specs (\<open>specs/<capability>/spec.md\<close>) and the tasks with their
  checks. A change is started, verified, reviewed and archived; the archive merges its delta into the specs
  and squashes its branch onto the base branch. What happened is kept in records under \<open>_apex\<close>: \<open>state.json\<close> per
  change, an attempts file, \<open>milestones.json\<close>. A model session does the work, and the commands decide from
  the records and from the checks they run themselves what it may do next. The model is of this core, the
  package \<open>src/internal/apexv1\<close> (all files named below are there unless another folder is given).

  \<^bold>\<open>Conventions.\<close> A Go string is a list of bytes. A struct is a record, a tagged value a datatype, a refusal a value of
  \<open>apex_error\<close> (\<open>Findings\<close>) with its machine-readable code. A command is a function from what is recorded
  (\<open>world\<close>, \<open>mworld\<close>) and what it learns from outside (\<open>env\<close>, \<open>menv\<close>) to a result, an error and the records
  after it; a write that fails leaves its file as it was and keeps the writes before it. Environments hold what git, the disk,
  the clock, the person and a run of a command answer; theorems quantify over all of them. Code that is not in the repository
  is a parameter: YAML (\<open>yaml_lib\<close>), SHA-256, \<open>strings.ToLower\<close>, the Unicode tables (\<open>unicode_lib\<close>),
  the readers of numbers (\<open>num_lib\<close>). Every function is total. Recursion is structural or on a measure; there is no fuel.

  \<^bold>\<open>The parts, and the theories that model them.\<close>

  \<^item> Library: \<open>Prelude\<close> (shared lemmas), \<open>GoStrings\<close> (the used parts of Go's \<open>strings\<close>, \<open>strconv\<close>, \<open>utf8\<close>),
    \<open>Findings\<close> (findings and errors, \<open>markdown.go\<close>, \<open>errors.go\<close>).
  \<^item> Documents: \<open>Markdown\<close> (\<open>markdown.go\<close>: lines, fences, sections, check lines), \<open>SpecDoc\<close> and \<open>SpecFacts\<close>
    (\<open>spec.go\<close>), \<open>Frontmatter\<close> (\<open>internal/frontmatter\<close>), \<open>ChangeDoc\<close>, \<open>PlanFacts\<close>, \<open>ChangeFacts\<close> (\<open>change.go\<close>), \<open>Roadmap\<close>,
    \<open>RoadmapFacts\<close>, \<open>RoadmapInsert\<close> (\<open>roadmap.go\<close>), \<open>GateScript\<close> and \<open>GateFacts\<close> (\<open>gatescript.go\<close>), \<open>Globs\<close>
    (globs of \<open>lift.go\<close>, \<open>advise.go\<close>, \<open>changes.go\<close>), \<open>Caps\<close> (\<open>caps.go\<close>).
  \<^item> Specs: \<open>Merge\<close> and \<open>MergeFacts\<close> (\<open>MergeDelta\<close> of \<open>archive.go\<close>, \<open>rewritelive.go\<close>), \<open>Effective\<close> and
    \<open>EffectiveFacts\<close> (\<open>effective.go\<close>: which checks run, and how), \<open>Regression\<close> (\<open>regression.go\<close>).
  \<^item> Changes: \<open>ChangeState\<close> (\<open>state.go\<close>, \<open>attempts.go\<close>, \<open>limits.go\<close>), \<open>ChangePlan\<close> (the judgements and
    state transformers of \<open>lifecycle.go\<close>, \<open>archive.go\<close>, \<open>catchup.go\<close>), \<open>Lifecycle\<close> (the commands \<open>Start\<close>, \<open>Verify\<close>, \<open>Review\<close>,
    \<open>Accept\<close>, \<open>Block\<close>, \<open>AnswerChange\<close>, \<open>ApproveTweak\<close>, \<open>Archive\<close>, \<open>Abandon\<close>), \<open>ReviewRun\<close> (settling the sessions ape starts:
    \<open>review_run.go\<close>, and a delegate's fail in \<open>delegate.go\<close>), \<open>LifecycleInv\<close>, \<open>Scenario\<close>, \<open>LifecycleFacts\<close>, \<open>CommandFacts\<close>,
    \<open>SessionFacts\<close> (invariants and properties), \<open>ChangeCheck\<close> and \<open>CheckFacts\<close>
    (\<open>changes.go\<close>, \<open>plantime.go\<close>: \<open>ape change check\<close>), \<open>CommitMsg\<close> (\<open>commitmsg.go\<close>).
  \<^item> Milestones: \<open>Approval\<close> and \<open>ApprovalFacts\<close> (\<open>approval.go\<close>, \<open>gateselfcheck.go\<close>, \<open>gateown.go\<close>, \<open>fullrun.go\<close>),
    \<open>Milestone\<close> (\<open>milestone.go\<close>: \<open>NewMilestoneWith\<close>, \<open>ApproveMilestoneOutcome\<close>, \<open>RunGate\<close>, \<open>RunFull\<close>, \<open>RunSpecOnly\<close>,
    \<open>CloseMilestone\<close>; \<open>rerecordRewrittenGates\<close> of \<open>rewritelive.go\<close>), \<open>MilestoneFacts\<close>, \<open>MilestoneDemo\<close>, \<open>MilestoneSafety\<close>.
  \<^item> The list of what is next: \<open>Next\<close> (\<open>next.go\<close>, \<open>nextmove.go\<close>: reading, adding, moving the block of the roadmap to \<open>next.md\<close>),
    \<open>NextFacts\<close>, \<open>NextKeeps\<close>, \<open>NextSafety\<close>.
  \<^item> Decisions: \<open>Decision\<close> (\<open>decision.go\<close>, \<open>ValidateDecision\<close> of \<open>project.go\<close>: proposing, superseding, accepting), \<open>Standard\<close>
    (\<open>standard.go\<close>: the framework's ADR-0001; \<open>RecordLiftedDecisions\<close> of \<open>approval.go\<close>), \<open>DecisionFacts\<close>.
  \<^item> What survives a crash: \<open>RunLock\<close> and \<open>RunLockFacts\<close> (\<open>runlock.go\<close>: the lock of a scope, its calls cut into the single accesses
    to the file so that processes interleave and die between them), \<open>Journal\<close> and \<open>JournalFacts\<close> (\<open>journal.go\<close> and the git commands
    of \<open>squashOntoBase\<close>), \<open>ArchiveLayout\<close> (\<open>archivelayout.go\<close>: the move of old archive folders and its undoing).
  \<^item> Person acts: \<open>PersonWords\<close> (the words of \<open>personact.go\<close>: acts and their phrases, tokens, negations, prompts and transcripts), \<open>PersonAct\<close> (the hook
    that records prompts, the hook that grants, the command that consumes; \<open>session.go\<close>, \<open>internal/apecmd/v1_personact.go\<close>),
    \<open>PersonActFacts\<close> (the steps of hooks and commands and what they keep), \<open>PersonPhrase\<close> (typing the phrase a refusal names grants the act).

  Changes and milestones meet in three places. \<open>Start\<close>, \<open>Verify\<close> and the check of a change ask whether the milestone is
  approved and its gate as approved (\<open>requireApprovalRecord\<close>; in \<open>Lifecycle\<close> the field \<open>wMilestone\<close> holds its answer)
  and which files it froze (\<open>gateFrozen\<close>; in \<open>check_env\<close> the field \<open>ceFrozen\<close>). A close asks which changes are in flight
  (\<open>nChanges\<close>). The count of blocked changes is in the milestone's record; \<open>Lifecycle\<close> moves it (\<open>wBlocks\<close>), an
  approval resets it.

  \<^bold>\<open>Interfaces.\<close> \<open>requirement_store\<close> (\<open>MergeFacts\<close>) is what a merge needs of a spec, interpreted on the requirement list.
  \<open>state_invariant\<close> (\<open>LifecycleInv\<close>) is the contract between a predicate on a change's state and the commands, with the
  changes that may be created and started as parameters; it is interpreted three times in \<open>LifecycleFacts\<close> and once in \<open>SessionFacts\<close>. \<open>record_invariant\<close> (\<open>MilestoneFacts\<close>) is the same for the record of
  a milestone, interpreted on \<open>record_sound\<close>.

  \<^bold>\<open>What is shown.\<close>

  \<^item> Over every reachable world: an archived change has its evidence, a status is backed by its record, re-plans stay
    within their limit (\<open>LifecycleFacts\<close>); the plan archived is the plan last started (\<open>CommandFacts\<close>); a delegate sends a change back
    once until a person acts, and a review verdict stands only from a session that kept to its files (\<open>SessionFacts\<close>); every
    milestone record is sound (\<open>MilestoneSafety\<close>).
  \<^item> Per command: what \<open>Start\<close>, \<open>Verify\<close>, \<open>Archive\<close> and \<open>close\<close> guarantee when they succeed, how a red verify is counted and
    that red loops are bounded, what a refused start leaves (\<open>CommandFacts\<close>, \<open>MilestoneSafety\<close>); a started
    plan stays archivable on its specs (below), a fresh approval passes the preflight of its gate unless a recorded glob
    matches git-ignored files or the approver's name hides the status.
  \<^item> Merging: \<open>applyDeltas\<close> refines updates of a map from names to blocks, loses no scenario, and the merged text parses back
    where no code block is left open;
    the checks a verify runs are those of the merged spec; every distinct command runs once; retries end.
  \<^item> Documents: specs, status lines, frontmatter and quoted gate lines are read back as written; the plan digest fixes the tasks
    and ignores notes; \<open>editDistance\<close> is the least number of edits; sizes do not overflow; caps stay below their
    ceilings; gate scripts are clean paths below the root; overlapping globs are found.
  \<^item> Around them: a move of the next list loses nothing and an added line is read back; the text of an accepted decision (ADR-0001 apart) stays what
    was accepted, whatever decision commands follow; an archive killed at any git command of its squash is rolled back; moving the archive folders keeps every id; one living
    process at most runs in a scope when the calls on its lock do not overlap, and two can when they do.
  \<^item> Person acts: what a model session does in a person's name, by a grant or by the lock of a run, rests on words that person typed in
    it, each prompt grants an act once (within a day), and the phrase a refusal names does grant it.
  \<^item> Where the code falls short of its comments, a theorem shows it on an instance: \<open>conflicted_catch_up_unblocks\<close>,
    \<open>answer_resets_total_only_in_git\<close>, \<open>PlanDigest_misses_scenario_check\<close>, \<open>open_fence_hides_added\<close>,
    \<open>live_rewrite_inside_code\<close>, \<open>overlap_misses_dot\<close>, \<open>glob_misses_non_ascii\<close>, \<open>approver_hash_lost\<close>, \<open>fresh_approval_drift_witness\<close>,
    \<open>overlapping_calls_share_a_scope\<close>, \<open>void_lifts_a_block\<close>, \<open>void_trusts_a_stale_verify\<close>, \<open>move_extends_an_item\<close>.

  \<^bold>\<open>Not modelled.\<close> Seconds, log paths, tails and the sentences of messages (a message is a datatype value where a decision depends on
  it); JSON and YAML encoding; git, the file system and the processes of checks beyond their answers; events and evidence
  folders; the reading of gate scripts for the files they name
  (\<open>ownScan\<close>). The rest of a delegate's run (its preparation and its verdict file, \<open>delegate.go\<close>), of which an acceptance is the
  command \<open>accept\<close> with the delegate as its author. Standing orders and the acts \<open>ape conductor act\<close> carries out under them
  (\<open>orders.go\<close>, \<open>conductor.go\<close>): \<open>RunDelegated\<close> gives the body of a command a granted act without typed words, and no theorem about
  person acts speaks of it. Process ids that are used again. Outside the core: the command line (\<open>internal/apecmd\<close>) with its reports, the lift of older
  projects (\<open>lift*.go\<close>), the installation of the framework, sessions and the hooks beyond person acts, the sandbox, services and
  metering, which are input, output and glue around what is modelled here.
\<close>

section \<open>From check to archive\<close>

lemma start_checked: "start L e enter cid w = (None, entered, w') \<Longrightarrow> eCheckFindings e = []"
  by (erule start_None) (erule start_refusal_None(2))

lemma reenter_checked: "reenter L e switched cid w = (Inr False, w') \<Longrightarrow> eCheckFindings e = []"
  by (auto simp: reenter_def dest: start_checked split: sum.splits prod.splits option.splits if_splits)

lemma Start_checked:
  assumes "Start L e cid w = (Inr False, w')"
  shows "eCheckFindings e = [] \<and> started_ok L cid w'"
  using assms unfolding Start_def lift_err_def
  by (auto dest: start_checked start_ok reenter_checked reenter_started split: option.splits branch_case.splits prod.splits if_splits)

lemma put_distinct: "distinct (map fst m) \<Longrightarrow> distinct (map fst (put m kv))"
  by (auto simp: put_def distinct_map_filter)

lemma puts_distinct: "distinct (map fst m) \<Longrightarrow> distinct (map fst (foldl put m kvs))"
  by (induction kvs arbitrary: m) (simp_all add: put_distinct)

lemma no_fingerprint_conflict: "fingerprintConflicts sha p (baseFingerprints sha p c) c = []"
proof -
  have d: "distinct (map fst (baseFingerprints sha p c))" unfolding baseFingerprints_def by (rule puts_distinct) simp
  then have "map_of (baseFingerprints sha p c) (fst x) = Some (snd x)" if "x \<in> set (baseFingerprints sha p c)" for x
    using that by (simp add: map_of_eq_Some_iff)
  then have "filter (\<lambda>x. case map_of (baseFingerprints sha p c) (fst x) of None \<Rightarrow> False | Some now \<Rightarrow> now \<noteq> snd x) (baseFingerprints sha p c) = []"
    by (simp add: filter_empty_conv)
  then show ?thesis by (simp add: fingerprintConflicts_def Let_def)
qed

text \<open>C7: a started plan can be archived. When \<open>change start\<close> succeeds and its check is the one of \<open>change check\<close> on the
  specs it started from, the change is in progress and, until the specs move or the fingerprints are taken again, the plan of its
  archive is refused neither as \<open>archive.base-changed\<close> nor as \<open>archive.delta-conflict\<close>: what can still stop it is the subject of
  its commit, an archive folder that is there, or a merged spec that does not validate.\<close>

theorem started_plan_archives:
  assumes start: "Start L e cid w = (Inr False, w')"
    and check: "eCheckFindings e = checkChange (plLower L) E (wSpecs w') withCaps file cid (wDocs w' cid)"
    and parsed: "wDocs w' cid = Some (ParseChange y file doc)"
  shows "\<exists>c s. wDocs w' cid = Some c \<and> wStates w' cid = Some s \<and> stStatus s = InProgress \<and>
    (\<forall>e2 w2 s2. wSpecs w2 = wSpecs w' \<longrightarrow> stBaseFingerprints s2 = stBaseFingerprints s \<longrightarrow>
       planArchive L e2 w2 c s2 =
         (first_err [eSubject e2, when_err (eDestThere e2) (ConflictError ''archive.folder-exists'' []),
            when_err (invalid_specs w2 (fst (MergeDelta (plLower L) (wSpecs w2) c)) \<noteq> [])
              (FailError ''archive.spec-invalid'' (invalid_specs w2 (fst (MergeDelta (plLower L) (wSpecs w2) c))))],
          fst (MergeDelta (plLower L) (wSpecs w2) c)))"
proof -
  let ?c = "ParseChange y file doc"
  from Start_checked[OF start] have nil: "eCheckFindings e = []" and ok: "started_ok L cid w'" by blast+
  have "checkDeltas (plLower L) file (wSpecs w') ?c (set (mTouches (cMeta ?c))) = []"
    using nil check parsed by (simp add: checkChange_def)
  from checkDeltas_merges[OF wf_deltas_ParseChange this] have m: "snd (MergeDelta (plLower L) (wSpecs w') ?c) = []" .
  from ok parsed obtain s where s: "wStates w' cid = Some s" "stStatus s = InProgress"
    "stBaseFingerprints s = baseFingerprints (plSha256 L) (wSpecs w') ?c" by (auto simp: started_ok_def)
  have "planArchive L e2 w2 ?c s2 =
         (first_err [eSubject e2, when_err (eDestThere e2) (ConflictError ''archive.folder-exists'' []),
            when_err (invalid_specs w2 (fst (MergeDelta (plLower L) (wSpecs w2) ?c)) \<noteq> [])
              (FailError ''archive.spec-invalid'' (invalid_specs w2 (fst (MergeDelta (plLower L) (wSpecs w2) ?c))))],
          fst (MergeDelta (plLower L) (wSpecs w2) ?c))"
    if "wSpecs w2 = wSpecs w'" "stBaseFingerprints s2 = stBaseFingerprints s" for e2 w2 s2
    using m that s(3) no_fingerprint_conflict[of "plSha256 L" "wSpecs w'" ?c]
    by (cases "eSubject e2") (simp_all add: planArchive_def split_beta Let_def when_err_def)
  with s parsed show ?thesis by blast
qed

definition demo_checked :: world where
  "demo_checked = demo_world\<lparr>wIDs := [''c-1''], wDocs := (\<lambda>_. None)(''c-1'' := Some ex_checked),
     wStates := (\<lambda>_. None)(''c-1'' := Some (new_state ''c-1''))\<rparr>"

theorem started_plan_archives_witness:
  "\<exists>w' s. Start demo_lib demo_env ''c-1'' demo_checked = (Inr False, w') \<and> wStates w' ''c-1'' = Some s
     \<and> fst (planArchive demo_lib demo_env w' ex_checked s) = None"
proof -
  have "fst (Start demo_lib demo_env ''c-1'' demo_checked) = Inr False" by code_simp
  then obtain w' where w': "Start demo_lib demo_env ''c-1'' demo_checked = (Inr False, w')" by (metis prod.collapse)
  have git: "wGit demo_checked" "eBranch demo_env = Fresh ''main''" by (simp_all add: demo_checked_def demo_world_def demo_env_def)
  obtain entered where "start demo_lib demo_env (Some ''main'') ''c-1'' demo_checked = (None, entered, w')"
    using w' unfolding Start_def git(2) by (auto simp: git(1) lift_err_def split: option.splits prod.splits if_splits sum.splits)
  then have k: "wDocs w' = wDocs demo_checked" "wSpecs w' = ex_specs" "wCaps w' = zero_caps"
    by (auto elim!: start_None simp: put_state_def put_attempts_def demo_checked_def demo_world_def ex_specs_def)
  then have d: "wDocs w' ''c-1'' = Some ex_checked" by (simp add: demo_checked_def)
  have "checkChange (\<lambda>s. s) ex_check_env ex_specs True ''change.md'' ''c-1'' (Some ex_checked) = []" by code_simp
  then have "eCheckFindings demo_env = checkChange (plLower demo_lib) ex_check_env (wSpecs w') True ''change.md'' ''c-1'' (wDocs w' ''c-1'')"
    using k d by (simp add: demo_env_def demo_lib_def)
  from started_plan_archives[OF w' this d[unfolded ex_checked_parsed]] obtain s where
    s: "wStates w' ''c-1'' = Some s" "planArchive demo_lib demo_env w' ex_checked s =
      (first_err [eSubject demo_env, when_err (eDestThere demo_env) (ConflictError ''archive.folder-exists'' []),
        when_err (invalid_specs w' (fst (MergeDelta (plLower demo_lib) ex_specs ex_checked)) \<noteq> [])
          (FailError ''archive.spec-invalid'' (invalid_specs w' (fst (MergeDelta (plLower demo_lib) ex_specs ex_checked))))],
       fst (MergeDelta (plLower demo_lib) ex_specs ex_checked))"
    using d k(2) by (auto simp: ex_checked_parsed[symmetric])
  have "invalid_specs (demo_world\<lparr>wCaps := zero_caps\<rparr>) (fst (MergeDelta (plLower demo_lib) ex_specs ex_checked)) = []" by code_simp
  then have "invalid_specs w' (fst (MergeDelta (plLower demo_lib) ex_specs ex_checked)) = []" by (simp add: invalid_specs_Nil k(3))
  with s have "fst (planArchive demo_lib demo_env w' ex_checked s) = None" by (simp add: demo_env_def)
  with w' s(1) show ?thesis by blast
qed

end
